(* ===== verification/Prelude.thy ===== *)
theory Prelude
  imports Main "HOL-Library.List_Lexorder" "HOL-Library.Char_ord" "HOL-Library.AList"
begin

text \<open>
  What every component of the development shares: the named types of the model (byte strings,
  runes, results), the rows-in-a-list reading of an SQL table with the lemmas its SELECT, UPDATE
  and DELETE statements need, and a few facts on lists and maps. The order on \<open>string\<close> is the
  byte order of \<open>List_Lexorder\<close> and \<open>Char_ord\<close>, which is how SQLite compares TEXT columns
  (BINARY collation) and how Go compares strings.
\<close>

named_theorems table_simps \<open>rewriting of table statements\<close>
named_theorems wf_intros \<open>introduction rules of the invariants\<close>

section \<open>Names of the model's types\<close>

text \<open>A Go string seen as its runes (code points), for the code that ranges over runes.\<close>

type_synonym runes = "nat list"

text \<open>A timestamp column: the text that \<open>ids.Stamp\<close> wrote.\<close>

type_synonym stamp = string

text \<open>A primary key: a prefix, an underscore and a ULID.\<close>

type_synonym ident = string

definition runes_of :: "string \<Rightarrow> runes" where
  "runes_of s = map of_char s"

abbreviation deref :: "string option \<Rightarrow> string" where
  "deref p \<equiv> case_option [] id p"

text \<open>\<open>ptr\<close> of a field the caller may have left empty: an empty string is SQL NULL.\<close>

definition optional :: "string \<Rightarrow> string option" where
  "optional v = (if v = [] then None else Some v)"

lemma optional_simps [simp]:
  "optional [] = None" "v \<noteq> [] \<Longrightarrow> optional v = Some v" "deref (optional v) = v"
  by (auto simp: optional_def)

text \<open>SQL's \<open>COALESCE(a, b)\<close>.\<close>

fun coalesce :: "'a option \<Rightarrow> 'a option \<Rightarrow> 'a option" where
  "coalesce (Some a) b = Some a"
| "coalesce None b = b"

lemma coalesce_None_right [simp]: "coalesce a None = a"
  by (cases a) auto

lemma coalesce_eq_None [simp]: "coalesce a b = None \<longleftrightarrow> a = None \<and> b = None"
  by (cases a) auto

section \<open>Calls that may fail\<close>

text \<open>\<open>if err != nil\<close> after a call: \<open>bad\<close> takes the error, \<open>good\<close> the value.\<close>

definition attempt :: "('e + 'a) \<times> 's \<Rightarrow> ('e \<Rightarrow> 's \<Rightarrow> 'r) \<Rightarrow> ('a \<Rightarrow> 's \<Rightarrow> 'r) \<Rightarrow> 'r" where
  "attempt r bad good = (case r of (Inl e, s) \<Rightarrow> bad e s | (Inr a, s) \<Rightarrow> good a s)"

lemma attempt_simps [simp]:
  "attempt (Inl e, s) bad good = bad e s" "attempt (Inr a, s) bad good = good a s"
  by (simp_all add: attempt_def)

section \<open>Tables as lists of rows\<close>

definition sel_one :: "('r \<Rightarrow> bool) \<Rightarrow> 'r list \<Rightarrow> 'r option" where
  "sel_one P t = List.find P t"

definition upd_where :: "('r \<Rightarrow> bool) \<Rightarrow> ('r \<Rightarrow> 'r) \<Rightarrow> 'r list \<Rightarrow> 'r list" where
  "upd_where P f t = map (\<lambda>r. if P r then f r else r) t"

definition del_where :: "('r \<Rightarrow> bool) \<Rightarrow> 'r list \<Rightarrow> 'r list" where
  "del_where P t = filter (\<lambda>r. \<not> P r) t"

definition count_where :: "('r \<Rightarrow> bool) \<Rightarrow> 'r list \<Rightarrow> nat" where
  "count_where P t = length (filter P t)"

lemma sel_one_Some [dest]: "sel_one P t = Some r \<Longrightarrow> r \<in> set t \<and> P r"
  by (auto simp: sel_one_def find_Some_iff)

lemma sel_one_None: "sel_one P t = None \<longleftrightarrow> (\<forall>r \<in> set t. \<not> P r)"
  by (auto simp: sel_one_def find_None_iff)

lemma sel_one_simps [simp]:
  "sel_one P [] = None" "sel_one P (r # t) = (if P r then Some r else sel_one P t)"
  by (auto simp: sel_one_def)

lemma sel_one_append: "sel_one P (t @ u) = (case sel_one P t of None \<Rightarrow> sel_one P u | Some r \<Rightarrow> Some r)"
  by (induction t) auto

lemma sel_one_unique:
  "distinct (map key t) \<Longrightarrow> r \<in> set t \<Longrightarrow> sel_one (\<lambda>x. key x = key r) t = Some r"
  by (induction t) (auto simp: image_iff)

lemma set_upd_where [table_simps]:
  "set (upd_where P f t) = {r \<in> set t. \<not> P r} \<union> f ` {r \<in> set t. P r}"
  by (auto simp: upd_where_def)

lemma upd_where_simps [simp]:
  "upd_where P f [] = []"
  "upd_where P f (r # t) = (if P r then f r else r) # upd_where P f t"
  by (auto simp: upd_where_def)

lemma upd_where_append [simp]: "upd_where P f (t @ u) = upd_where P f t @ upd_where P f u"
  by (simp add: upd_where_def)

lemma length_upd_where [simp]: "length (upd_where P f t) = length t"
  by (simp add: upd_where_def)

lemma upd_where_id [simp]: "\<forall>r \<in> set t. \<not> P r \<Longrightarrow> upd_where P f t = t"
  by (induction t) auto

lemma map_upd_where [table_simps]:
  "(\<And>r. r \<in> set t \<Longrightarrow> P r \<Longrightarrow> g (f r) = g r) \<Longrightarrow> map g (upd_where P f t) = map g t"
  by (induction t) auto

lemma filter_upd_where:
  "(\<And>r. r \<in> set t \<Longrightarrow> P r \<Longrightarrow> Q (f r) = Q r) \<Longrightarrow>
   filter Q (upd_where P f t) = upd_where P f (filter Q t)"
  by (induction t) auto

lemma set_del_where [table_simps]: "set (del_where P t) = {r \<in> set t. \<not> P r}"
  by (auto simp: del_where_def)

lemma del_where_simps [simp]:
  "del_where P [] = []" "del_where P (r # t) = (if P r then del_where P t else r # del_where P t)"
  by (auto simp: del_where_def)

lemma distinct_map_del_where [intro]:
  "distinct (map g t) \<Longrightarrow> distinct (map g (del_where P t))"
  by (simp add: del_where_def distinct_map_filter)

lemma count_where_zero: "count_where P t = 0 \<longleftrightarrow> (\<forall>r \<in> set t. \<not> P r)"
  by (auto simp: count_where_def filter_empty_conv)

lemma count_where_simps [simp]:
  "count_where P [] = 0"
  "count_where P (r # t) = (if P r then Suc (count_where P t) else count_where P t)"
  "count_where P (t @ u) = count_where P t + count_where P u"
  by (auto simp: count_where_def)

lemma count_where_upd_where:
  "(\<And>r. r \<in> set t \<Longrightarrow> P r \<Longrightarrow> Q (f r) = Q r) \<Longrightarrow>
   count_where Q (upd_where P f t) = count_where Q t"
  by (induction t) auto

lemma keyed_eq:
  "distinct (map key t) \<Longrightarrow> r \<in> set t \<Longrightarrow> s \<in> set t \<Longrightarrow> key r = key s \<Longrightarrow> r = s"
  by (auto simp: distinct_map inj_on_def)

section \<open>Facts on lists\<close>

lemma adjacent_append:
  "successively P (xs @ ys) \<longleftrightarrow>
   successively P xs \<and> successively P ys \<and> (xs = [] \<or> ys = [] \<or> P (last xs) (hd ys))"
  by (auto simp: successively_append_iff)

lemma dropWhile_rev_last:
  "dropWhile P (rev xs) = rev ys \<Longrightarrow> ys \<noteq> [] \<Longrightarrow> \<not> P (last ys)"
  by (metis hd_dropWhile hd_rev rev_is_Nil_conv)

end
