(* ===== verification/Deploy_State.thy ===== *)
theory Deploy_State
  imports Prelude
begin

text \<open>
  \<^verbatim>\<open>internal/domain/state.go\<close>: the seven deployment states, the transition table and
  the three predicates over it. \<open>State\<close> is a Go string type, so a value outside the seven
  constants is possible and is the constructor \<open>StateUnknown\<close>; \<open>state_text\<close> and
  \<open>state_of\<close> convert to and from the column's text. The lemmas show that the table is a
  finite, ranked machine: a deployment makes at most four moves, a move exists exactly out of a
  state that is not terminal, and every state that is not terminal can still fail or be cancelled.
\<close>

datatype State =
    StateQueued | StateBuilding | StatePushing | StateDeploying
  | StateHealthy | StateFailed | StateCancelled
  | StateUnknown string

fun state_text :: "State \<Rightarrow> string" where
  "state_text StateQueued = ''queued''"
| "state_text StateBuilding = ''building''"
| "state_text StatePushing = ''pushing''"
| "state_text StateDeploying = ''deploying''"
| "state_text StateHealthy = ''healthy''"
| "state_text StateFailed = ''failed''"
| "state_text StateCancelled = ''cancelled''"
| "state_text (StateUnknown s) = s"

definition known_states :: "State list" where
  "known_states = [StateQueued, StateBuilding, StatePushing, StateDeploying,
     StateHealthy, StateFailed, StateCancelled]"

text \<open>Reading a stored or received text as a \<open>State\<close>.\<close>

definition state_of :: "string \<Rightarrow> State" where
  "state_of s = (case List.find (\<lambda>t. state_text t = s) known_states of
     Some t \<Rightarrow> t | None \<Rightarrow> StateUnknown s)"

text \<open>The map \<open>allowed\<close>: a state with no entry is \<open>None\<close>.\<close>

fun allowed :: "State \<Rightarrow> State list option" where
  "allowed StateQueued = Some [StateBuilding, StateDeploying, StateFailed, StateCancelled]"
| "allowed StateBuilding = Some [StatePushing, StateFailed, StateCancelled]"
| "allowed StatePushing = Some [StateDeploying, StateFailed, StateCancelled]"
| "allowed StateDeploying = Some [StateHealthy, StateFailed, StateCancelled]"
| "allowed _ = None"

definition Valid :: "State \<Rightarrow> bool" where
  "Valid s = (if s = StateHealthy \<or> s = StateFailed \<or> s = StateCancelled then True
     else allowed s \<noteq> None)"

definition Terminal :: "State \<Rightarrow> bool" where
  "Terminal s \<longleftrightarrow> s = StateHealthy \<or> s = StateFailed \<or> s = StateCancelled"

definition CanTransition :: "State \<Rightarrow> State \<Rightarrow> bool" where
  "CanTransition from to' =
     (if \<not> Valid from \<or> \<not> Valid to' then False
      else case allowed from of None \<Rightarrow> False | Some ss \<Rightarrow> list_ex (\<lambda>s. s = to') ss)"

section \<open>The table as rewrite rules\<close>

lemma Terminal_simps [simp]:
  "Terminal StateHealthy" "Terminal StateFailed" "Terminal StateCancelled"
  "\<not> Terminal StateQueued" "\<not> Terminal StateBuilding" "\<not> Terminal StatePushing"
  "\<not> Terminal StateDeploying" "\<not> Terminal (StateUnknown s)"
  by (auto simp: Terminal_def)

lemma Valid_iff: "Valid s \<longleftrightarrow> (\<forall>t. s \<noteq> StateUnknown t)"
  by (cases s) (auto simp: Valid_def)

lemma Valid_simps [simp]:
  "Valid StateHealthy" "Valid StateFailed" "Valid StateCancelled"
  "Valid StateQueued" "Valid StateBuilding" "Valid StatePushing" "Valid StateDeploying"
  "\<not> Valid (StateUnknown s)"
  by (auto simp: Valid_iff)

lemma CanTransition_iff [simp]:
  "CanTransition StateQueued t \<longleftrightarrow>
     t \<in> {StateBuilding, StateDeploying, StateFailed, StateCancelled}"
  "CanTransition StateBuilding t \<longleftrightarrow> t \<in> {StatePushing, StateFailed, StateCancelled}"
  "CanTransition StatePushing t \<longleftrightarrow> t \<in> {StateDeploying, StateFailed, StateCancelled}"
  "CanTransition StateDeploying t \<longleftrightarrow> t \<in> {StateHealthy, StateFailed, StateCancelled}"
  "CanTransition StateHealthy t \<longleftrightarrow> False"
  "CanTransition StateFailed t \<longleftrightarrow> False"
  "CanTransition StateCancelled t \<longleftrightarrow> False"
  "CanTransition (StateUnknown s) t \<longleftrightarrow> False"
  by (cases t; simp add: CanTransition_def; blast)+

lemma CanTransition_Valid: "CanTransition s t \<Longrightarrow> Valid s \<and> Valid t"
  by (simp add: CanTransition_def split: if_splits)

lemma CanTransition_not_Terminal: "CanTransition s t \<Longrightarrow> \<not> Terminal s"
  by (cases s) auto

lemma CanTransition_not_Queued: "CanTransition s t \<Longrightarrow> t \<noteq> StateQueued"
  by (cases s) auto

lemma can_fail: "Valid s \<Longrightarrow> \<not> Terminal s \<Longrightarrow> CanTransition s StateFailed"
  and can_cancel: "Valid s \<Longrightarrow> \<not> Terminal s \<Longrightarrow> CanTransition s StateCancelled"
  by (cases s; simp)+

lemma only_deploying_becomes_healthy: "CanTransition s StateHealthy \<longleftrightarrow> s = StateDeploying"
  by (cases s) auto

section \<open>Runs of the machine\<close>

text \<open>What is left of a deployment's longest path: every legal move lowers it.\<close>

fun moves_left :: "State \<Rightarrow> nat" where
  "moves_left StateQueued = 4"
| "moves_left StateBuilding = 3"
| "moves_left StatePushing = 2"
| "moves_left StateDeploying = 1"
| "moves_left _ = 0"

inductive moves :: "State \<Rightarrow> State list \<Rightarrow> bool" where
  moves_nil: "moves s []"
| moves_cons: "CanTransition s t \<Longrightarrow> moves t ts \<Longrightarrow> moves s (t # ts)"

inductive_simps moves_simps [simp]: "moves s []" "moves s (t # ts)"

code_pred (modes: i \<Rightarrow> i \<Rightarrow> bool) moves .

lemma CanTransition_decreases: "CanTransition s t \<Longrightarrow> moves_left t < moves_left s"
  by (cases s) auto

lemma moves_length: "moves s ts \<Longrightarrow> length ts \<le> moves_left s"
  by (induction rule: moves.induct) (auto dest: CanTransition_decreases)

lemma moves_left_bound: "moves_left s \<le> 4"
  by (cases s) auto

lemma find_known_state:
  "t \<in> set known_states \<Longrightarrow> List.find (\<lambda>u. state_text u = state_text t) known_states = Some t"
  by (cases t) (simp_all add: known_states_def)

lemma known_iff_Valid: "t \<in> set known_states \<longleftrightarrow> Valid t"
  by (cases t) (auto simp: known_states_def)

lemma state_of_text: "Valid t \<Longrightarrow> state_of (state_text t) = t"
  by (simp add: state_of_def find_known_state known_iff_Valid)

lemma state_text_of: "state_text (state_of s) = s"
  by (auto simp: state_of_def find_Some_iff split: option.splits)

section \<open>Properties\<close>

lemma moves_extend:
  "moves s ts \<Longrightarrow> Valid s \<Longrightarrow> (\<forall>t \<in> set ts. Valid t) \<and>
     ((\<exists>u. moves s (ts @ [u])) \<longleftrightarrow> \<not> Terminal (last (s # ts)))"
proof (induction rule: moves.induct)
  case (moves_nil s)
  then show ?case by (auto dest: can_fail CanTransition_not_Terminal)
next
  case (moves_cons s t ts)
  then show ?case by (auto dest: CanTransition_Valid)
qed

text \<open>a run of legal moves from a valid state makes at most four moves, never leaves the seven
  states, and can be continued exactly while its last state is not terminal.\<close>

theorem machine_runs:
  assumes "Valid s" and "moves s ts"
  shows "length ts \<le> 4 \<and> (\<forall>t \<in> set ts. Valid t) \<and>
    ((\<exists>u. moves s (ts @ [u])) \<longleftrightarrow> \<not> Terminal (last (s # ts)))"
  using moves_length [OF assms(2)] moves_left_bound [of s] moves_extend [OF assms(2,1)] by simp

theorem machine_runs_witness:
  "moves StateQueued [StateBuilding, StatePushing, StateDeploying, StateHealthy] \<and>
   \<not> (\<exists>u. moves StateQueued [StateBuilding, StatePushing, StateDeploying, StateHealthy, u])"
  using machine_runs [of StateQueued "[StateBuilding, StatePushing, StateDeploying, StateHealthy]"]
  by simp

end
