(* ===== verification/Go_Strings.thy ===== *)
theory Go_Strings
  imports Prelude
begin

text \<open>
  The functions of Go's \<^verbatim>\<open>strings\<close>, \<^verbatim>\<open>strconv\<close> and \<^verbatim>\<open>path\<close> packages that more than one
  component uses, on runes or on bytes, with their rewrite rules. They model the language's
  library, not the repository.
\<close>

text \<open>\<open>unicode.IsSpace\<close>, \<open>strings.TrimSpace\<close> and \<open>strings.Cut\<close>, on runes.\<close>

definition IsSpace :: "nat \<Rightarrow> bool" where
  "IsSpace r \<longleftrightarrow> (9 \<le> r \<and> r \<le> 13) \<or> (0x2000 \<le> r \<and> r \<le> 0x200a) \<or>
     List.member [0x20, 0x85, 0xA0, 0x1680, 0x2028, 0x2029, 0x202f, 0x205f, 0x3000] r"

definition TrimSpace :: "runes \<Rightarrow> runes" where
  "TrimSpace s = rev (dropWhile IsSpace (rev (dropWhile IsSpace s)))"

definition Cut :: "nat \<Rightarrow> runes \<Rightarrow> (runes \<times> runes) option" where
  "Cut c s = (case dropWhile (\<lambda>r. r \<noteq> c) s of [] \<Rightarrow> None
     | _ # rest \<Rightarrow> Some (takeWhile (\<lambda>r. r \<noteq> c) s, rest))"

definition TrimRight :: "string \<Rightarrow> char \<Rightarrow> string" where
  "TrimRight s c = rev (dropWhile (\<lambda>x. x = c) (rev s))"

text \<open>\<open>strings.Split\<close> at one separator: always at least one part.\<close>

fun Split :: "'a \<Rightarrow> 'a list \<Rightarrow> 'a list list" where
  "Split c [] = [[]]"
| "Split c (x # xs) =
     (if x = c then [] # Split c xs
      else (case Split c xs of [] \<Rightarrow> [[x]] | p # ps \<Rightarrow> (x # p) # ps))"

text \<open>\<open>strings.Join\<close> with one separator.\<close>

fun Join :: "'a \<Rightarrow> 'a list list \<Rightarrow> 'a list" where
  "Join c [] = []"
| "Join c [p] = p"
| "Join c (p # ps) = p @ c # Join c ps"

text \<open>\<open>strconv.Atoi\<close>: an optional sign and at least one decimal digit, in the range of a 64 bit int.\<close>

definition rune_digit :: "nat \<Rightarrow> bool" where
  "rune_digit r \<longleftrightarrow> 48 \<le> r \<and> r \<le> 57"

definition digits_value :: "runes \<Rightarrow> int" where
  "digits_value ds = foldl (\<lambda>n r. 10 * n + (int r - 48)) 0 ds"

definition Atoi :: "runes \<Rightarrow> int option" where
  "Atoi s =
     (let neg = (s \<noteq> [] \<and> hd s = 45);
          ds = (if s \<noteq> [] \<and> (hd s = 45 \<or> hd s = 43) then tl s else s);
          v = (if neg then - digits_value ds else digits_value ds)
      in if ds \<noteq> [] \<and> list_all rune_digit ds \<and> - (2 ^ 63) \<le> v \<and> v < 2 ^ 63 then Some v else None)"

section \<open>Rewrite rules\<close>

lemma runes_of_simps [simp]: "runes_of [] = []" "runes_of (c # s) = of_char c # runes_of s"
  by (simp_all add: runes_of_def)

lemma dropWhile_append_split:
  "dropWhile P (xs @ ys) = (if dropWhile P xs = [] then dropWhile P ys else dropWhile P xs @ ys)"
  by (induction xs) auto

lemma dropWhile_idem: "dropWhile P (dropWhile P xs) = dropWhile P xs"
  by (induction xs) auto

lemma TrimSpace_dropWhile: "TrimSpace (dropWhile IsSpace u) = TrimSpace u"
  by (simp add: TrimSpace_def dropWhile_idem)

lemma TrimSpace_subset: "set (TrimSpace u) \<subseteq> set u"
  by (metis TrimSpace_def set_dropWhileD set_rev subsetI)

lemma Cut_here:
  assumes "c \<notin> set u"
  shows "Cut c (u @ c # g) = Some (u, g)"
proof -
  have "\<And>x. x \<in> set u \<Longrightarrow> x \<noteq> c" using assms by auto
  then have "dropWhile (\<lambda>r. r \<noteq> c) (u @ c # g) = c # g" "takeWhile (\<lambda>r. r \<noteq> c) (u @ c # g) = u"
    by (simp_all add: dropWhile_append2 takeWhile_append2)
  then show ?thesis unfolding Cut_def by simp
qed

lemma Cut_None:
  assumes "c \<notin> set u"
  shows "Cut c u = None"
proof -
  have "dropWhile (\<lambda>r. r \<noteq> c) u = []" using assms by auto
  then show ?thesis by (simp only: Cut_def list.case)
qed

lemma TrimRight_length: "length (TrimRight s c) \<le> length s"
  using length_dropWhile_le [of "\<lambda>x. x = c" "rev s"] by (simp add: TrimRight_def)

lemma Split_nonempty [simp]: "Split c xs \<noteq> []"
  by (induction xs) (auto split: list.splits)

lemma Split_parts: "p \<in> set (Split c xs) \<Longrightarrow> c \<notin> set p"
  by (induction xs arbitrary: p) (auto split: list.splits if_splits)

lemma Join_Split: "Join c (Split c xs) = xs"
proof (induction xs)
  case Nil
  then show ?case by simp
next
  case (Cons x xs)
  obtain p ps where "Split c xs = p # ps" by (cases "Split c xs") auto
  then show ?case using Cons by (cases ps) auto
qed

lemma Split_append: "Split c (a @ c # b) = Split c a @ Split c b"
  by (induction c a rule: Split.induct) (auto split: list.splits simp: append_eq_Cons_conv)

lemma Split_whole: "c \<notin> set p \<Longrightarrow> Split c p = [p]"
  by (induction p) auto

lemma Split_Join: "ps \<noteq> [] \<Longrightarrow> \<forall>p \<in> set ps. c \<notin> set p \<Longrightarrow> Split c (Join c ps) = ps"
  by (induction c ps rule: Join.induct) (auto simp: Split_append Split_whole)

end
