(* ===== verification/Slug.thy ===== *)
theory Slug
  imports Go_Strings "HOL-Library.Word"
begin

text \<open>
  \<^verbatim>\<open>internal/domain/slug.go\<close>, \<^verbatim>\<open>reserved.go\<close> and \<^verbatim>\<open>image.go\<close>: the hostname label
  of an app, the labels the platform keeps for itself, and the refusal of an image that runs as
  root. A name is the list of its runes, because the code ranges over runes. Lower casing is
  \<open>unicode.ToLower\<close> as far as the code can tell it apart: the only runes outside ASCII that map
  into ASCII are U+0130 and U+212A, and every other rune outside ASCII maps to one outside ASCII,
  which the loop treats like the rune itself.
\<close>

definition SlugBaseMaxLen :: nat where "SlugBaseMaxLen = 40"

definition SlugSuffixLen :: nat where "SlugSuffixLen = 6"

definition suffixAlphabet :: string where
  "suffixAlphabet = ''23456789bcdfghjkmnpqrstvwxz''"

definition ToLower :: "nat \<Rightarrow> nat" where
  "ToLower r = (if 65 \<le> r \<and> r \<le> 90 then r + 32
     else if r = 0x130 then 0x69 else if r = 0x212A then 0x6B else r)"

definition slug_rune :: "nat \<Rightarrow> bool" where
  "slug_rune r \<longleftrightarrow> (97 \<le> r \<and> r \<le> 122) \<or> (48 \<le> r \<and> r \<le> 57)"

text \<open>The loop of \<open>DeriveBase\<close>: the builder's bytes so far and the flag \<open>dashPending\<close>.\<close>

fun base_loop :: "string \<Rightarrow> bool \<Rightarrow> runes \<Rightarrow> string" where
  "base_loop b dashPending [] = b"
| "base_loop b dashPending (r # rs) =
     (if slug_rune r
      then base_loop ((if dashPending \<and> 0 < length b then b @ ''-'' else b) @ [char_of r]) False rs
      else base_loop b True rs)"

definition DeriveBase :: "runes \<Rightarrow> string" where
  "DeriveBase name =
     (let b = base_loop [] False (map ToLower name);
          base = (if SlugBaseMaxLen < length b
                  then TrimRight (take SlugBaseMaxLen b) (CHR ''-'') else b)
      in if base = [] then ''app'' else base)"

definition DeriveSlugWithSuffix :: "runes \<Rightarrow> string \<Rightarrow> string" where
  "DeriveSlugWithSuffix name suffix = DeriveBase name @ ''-'' @ suffix"

text \<open>\<open>RandomSuffix\<close>, given the bytes \<open>crypto/rand\<close> filled the buffer with.\<close>

definition RandomSuffix :: "8 word list \<Rightarrow> string" where
  "RandomSuffix raw = map (\<lambda>b. suffixAlphabet ! (unat b mod length suffixAlphabet)) raw"

definition DeriveSlug :: "8 word list \<Rightarrow> runes \<Rightarrow> string" where
  "DeriveSlug raw name = DeriveSlugWithSuffix name (RandomSuffix raw)"

definition reservedLabels :: "string list" where
  "reservedLabels = [''admin'', ''api'', ''app'', ''console'', ''deployer'', ''mcp'',
     ''registry'', ''www'']"

definition ReservedLabel :: "runes \<Rightarrow> bool" where
  "ReservedLabel name \<longleftrightarrow> List.member reservedLabels (DeriveBase name)"

definition RunsAsRoot :: "runes \<Rightarrow> bool" where
  "RunsAsRoot user0 =
     (let user1 = TrimSpace user0
      in if user1 = [] then True
         else let user = (case Cut 58 user1 of Some (name, _) \<Rightarrow> TrimSpace name | None \<Rightarrow> user1)
              in user = [] \<or> user = runes_of ''0'' \<or> user = runes_of ''root'')"

section \<open>The loop against a reference\<close>

text \<open>A slug's shape: lower case letters and digits in runs joined by single dashes.\<close>

definition slug_char :: "char \<Rightarrow> bool" where
  "slug_char c \<longleftrightarrow> slug_rune (of_char c)"

definition slug_shape :: "string \<Rightarrow> bool" where
  "slug_shape s \<longleftrightarrow> s \<noteq> [] \<and> (\<forall>c \<in> set s. slug_char c \<or> c = CHR ''-'') \<and>
     slug_char (hd s) \<and> slug_char (last s) \<and>
     successively (\<lambda>a b. slug_char a \<or> slug_char b) s"

text \<open>The specification: the maximal runs of letters and digits, joined by single dashes.\<close>

fun slug_runs :: "runes \<Rightarrow> runes list" where
  "slug_runs [] = []"
| "slug_runs (r # rs) =
     (let ws = slug_runs rs
      in if \<not> slug_rune r then ws
         else if rs \<noteq> [] \<and> slug_rune (hd rs) then (r # hd ws) # tl ws
         else [r] # ws)"

fun join_dash :: "string list \<Rightarrow> string" where
  "join_dash [] = []"
| "join_dash [w] = w"
| "join_dash (w # ws) = w @ ''-'' @ join_dash ws"

lemma slug_rune_small: "slug_rune r \<Longrightarrow> r < 256"
  by (auto simp: slug_rune_def)

lemma slug_char_of [simp]: "slug_rune r \<Longrightarrow> slug_char (char_of r)"
  by (simp add: slug_char_def slug_rune_small)

lemma slug_char_dash [simp]: "\<not> slug_char (CHR ''-'')"
  by (simp add: slug_char_def slug_rune_def)

lemma join_dash_Cons: "join_dash (w # ws) = w @ (if ws = [] then [] else ''-'' @ join_dash ws)"
  by (cases ws) auto

lemma join_dash_grow: "join_dash ((x # w) # ws) = x # join_dash (w # ws)"
  by (simp add: join_dash_Cons)

lemma slug_runs_head: "slug_rune r \<Longrightarrow> \<exists>w ws. slug_runs (r # rs) = (r # w) # ws"
  by (simp add: Let_def)

lemma slug_runs_nonempty: "w \<in> set (slug_runs rs) \<Longrightarrow> w \<noteq> []"
proof (induction rs)
  case Nil
  then show ?case by simp
next
  case (Cons r rs)
  then show ?case
    by (cases rs) (auto simp: Let_def split: if_splits dest: list.set_sel(2))
qed

lemma join_dash_runs_Nil [simp]:
  "join_dash (map (map char_of) (slug_runs rs)) = [] \<longleftrightarrow> slug_runs rs = []"
  using slug_runs_nonempty [of "hd (slug_runs rs)" rs]
  by (cases "slug_runs rs") (auto simp: join_dash_Cons)

text \<open>What the loop still appends, by whether a byte was written and whether a dash is pending.\<close>

definition loop_tail :: "string \<Rightarrow> bool \<Rightarrow> runes \<Rightarrow> string" where
  "loop_tail b p rs =
     (let js = join_dash (map (map char_of) (slug_runs rs))
      in if js = [] then []
         else if b \<noteq> [] \<and> (p \<or> \<not> slug_rune (hd rs)) then CHR ''-'' # js else js)"

lemma loop_tail_skip: "\<not> slug_rune r \<Longrightarrow> loop_tail b p (r # rs) = loop_tail b True rs"
  by (auto simp: loop_tail_def Let_def)

lemma loop_tail_take:
  assumes "slug_rune r"
  shows "loop_tail b p (r # rs) =
    (if p \<and> b \<noteq> [] then ''-'' else []) @ char_of r # loop_tail (b' @ [c]) False rs"
proof (cases "rs \<noteq> [] \<and> slug_rune (hd rs)")
  case True
  then obtain w ws where "slug_runs rs = (hd rs # w) # ws"
    using slug_runs_head [of "hd rs" "tl rs"] by auto
  then show ?thesis
    using assms True by (simp add: loop_tail_def Let_def join_dash_Cons)
next
  case False
  then show ?thesis
    using assms slug_runs_head [of "hd rs" "tl rs"]
    by (cases rs) (auto simp: loop_tail_def Let_def join_dash_Cons)
qed

lemma base_loop_tail: "base_loop b p rs = b @ loop_tail b p rs"
proof (induction rs arbitrary: b p)
  case Nil
  then show ?case by (simp add: loop_tail_def Let_def)
next
  case (Cons r rs)
  show ?case
  proof (cases "slug_rune r")
    case False
    then show ?thesis by (simp add: Cons.IH loop_tail_skip)
  next
    case True
    show ?thesis
      using loop_tail_take [OF True, of b p rs
          "if p \<and> 0 < length b then b @ ''-'' else b" "char_of r"]
      by (simp add: True Cons.IH)
  qed
qed

lemma base_loop_spec: "base_loop [] False rs = join_dash (map (map char_of) (slug_runs rs))"
  by (simp add: base_loop_tail loop_tail_def Let_def)

section \<open>The shape of a slug\<close>

lemma slug_runs_chars: "w \<in> set (slug_runs rs) \<Longrightarrow> r \<in> set w \<Longrightarrow> slug_rune r"
proof (induction rs arbitrary: w r)
  case Nil
  then show ?case by simp
next
  case (Cons s rs)
  show ?case
  proof (cases "slug_rune s \<and> rs \<noteq> [] \<and> slug_rune (hd rs)")
    case True
    then have "slug_runs rs \<noteq> []"
      using slug_runs_head [of "hd rs" "tl rs"] by auto
    then show ?thesis
      using True Cons by (auto simp: Let_def dest: list.set_sel(2)) (meson list.set_sel(1))
  next
    case False
    then show ?thesis using Cons by (auto simp: Let_def split: if_splits)
  qed
qed

lemma slug_shape_word:
  "w \<noteq> [] \<Longrightarrow> \<forall>c \<in> set w. slug_char c \<Longrightarrow> slug_shape w"
  by (auto simp: slug_shape_def successively_conv_nth)

lemma slug_shape_join2:
  "slug_shape v \<Longrightarrow> slug_shape w \<Longrightarrow> slug_shape (v @ CHR ''-'' # w)"
  by (auto simp: slug_shape_def successively_append_iff successively_Cons)

lemma slug_shape_join:
  "ws \<noteq> [] \<Longrightarrow> \<forall>w \<in> set ws. w \<noteq> [] \<and> (\<forall>c \<in> set w. slug_char c) \<Longrightarrow> slug_shape (join_dash ws)"
proof (induction ws rule: join_dash.induct)
  case 1
  then show ?case by simp
next
  case (2 w)
  then show ?case by (simp add: slug_shape_word)
next
  case (3 w v ws)
  then show ?case by (simp add: slug_shape_word slug_shape_join2)
qed

lemma TrimRight_take_shape:
  assumes "slug_shape s" and "0 < n"
  shows "slug_shape (TrimRight (take n s) (CHR ''-''))"
proof -
  let ?t = "take n s" and ?u = "TrimRight (take n s) (CHR ''-'')"
  obtain v where v: "?t = ?u @ v" and "\<forall>c \<in> set v. c = CHR ''-''"
  proof
    show "?t = ?u @ rev (takeWhile (\<lambda>x. x = CHR ''-'') (rev ?t))"
      by (metis TrimRight_def rev_append rev_rev_ident takeWhile_dropWhile_id)
    show "\<forall>c \<in> set (rev (takeWhile (\<lambda>x. x = CHR ''-'') (rev ?t))). c = CHR ''-''"
      by (auto dest: set_takeWhileD)
  qed
  have hd: "?t \<noteq> []" "slug_char (hd ?t)"
    using assms by (auto simp: slug_shape_def hd_take)
  have ne: "?u \<noteq> []"
  proof
    assume "?u = []"
    then have "hd ?t \<in> set v" using v hd by auto
    then show False using hd \<open>\<forall>c \<in> set v. _\<close> slug_char_dash by metis
  qed
  have "last ?u \<noteq> CHR ''-''"
    using ne hd_dropWhile [of "\<lambda>x. x = CHR ''-''" "rev ?t"]
    by (simp add: TrimRight_def last_rev)
  moreover have "set ?u \<subseteq> set s" and "successively (\<lambda>a b. slug_char a \<or> slug_char b) ?u"
  proof -
    have "s = ?u @ (v @ drop n s)" using v by (metis append.assoc append_take_drop_id)
    then show "set ?u \<subseteq> set s" by (metis Un_upper1 set_append)
    show "successively (\<lambda>a b. slug_char a \<or> slug_char b) ?u"
      using assms(1) \<open>s = _\<close> by (metis slug_shape_def successively_append_iff)
  qed
  moreover have "hd ?u = hd s"
    using ne v assms(2) by (metis hd_append2 hd_take)
  ultimately show ?thesis
    using ne assms(1) last_in_set [OF ne] unfolding slug_shape_def by (metis subsetD)
qed

lemma slug_runs_join_shape:
  "slug_runs rs \<noteq> [] \<Longrightarrow> slug_shape (join_dash (map (map char_of) (slug_runs rs)))"
  using slug_runs_chars slug_runs_nonempty by (intro slug_shape_join) fastforce+

lemma DeriveBase_shape: "slug_shape (DeriveBase name) \<and> length (DeriveBase name) \<le> SlugBaseMaxLen"
proof -
  let ?b = "base_loop [] False (map ToLower name)"
  have app: "slug_shape ''app''"
    by (rule slug_shape_word) (auto simp: slug_char_def slug_rune_def)
  show ?thesis
  proof (cases "?b = []")
    case True
    then show ?thesis by (simp add: DeriveBase_def Let_def app SlugBaseMaxLen_def)
  next
    case False
    then have b: "slug_shape ?b"
      using slug_runs_join_shape by (simp add: base_loop_spec)
    then have t: "slug_shape (TrimRight (take SlugBaseMaxLen ?b) (CHR ''-''))"
      by (intro TrimRight_take_shape) (auto simp: SlugBaseMaxLen_def)
    have "length (TrimRight (take SlugBaseMaxLen ?b) (CHR ''-'')) \<le> SlugBaseMaxLen"
      using TrimRight_length [of "take SlugBaseMaxLen ?b" "CHR ''-''"] by simp
    then show ?thesis
      using b t by (auto simp: DeriveBase_def Let_def slug_shape_def app)
  qed
qed

lemma base_loop_fix:
  "successively (\<lambda>a b. slug_char a \<or> slug_char b) s \<Longrightarrow> \<forall>c \<in> set s. slug_char c \<or> c = CHR ''-'' \<Longrightarrow>
   s = [] \<or> slug_char (last s) \<and> (slug_char (hd s) \<or> b \<noteq> []) \<Longrightarrow>
   base_loop b False (runes_of s) = b @ s"
proof (induction s arbitrary: b rule: induct_list012)
  case 1
  then show ?case by simp
next
  case (2 x)
  then show ?case by (simp add: slug_char_def)
next
  case (3 x y zs)
  show ?case
  proof (cases "slug_char x")
    case True
    then have "base_loop (b @ [x]) False (runes_of (y # zs)) = (b @ [x]) @ y # zs"
      using 3 by (intro "3.IH"(2)) auto
    then show ?thesis using True by (simp add: slug_char_def)
  next
    case False
    then have x: "x = CHR ''-''" and y: "slug_char y" and b: "b \<noteq> []"
      using 3(3-5) by auto
    then have "base_loop (b @ ''-'' @ [y]) False (runes_of zs) = (b @ ''-'' @ [y]) @ zs"
      using 3(3-5) by (intro "3.IH"(1)) (auto simp: successively_Cons split: if_splits)
    then show ?thesis using x y b by (simp add: slug_char_def slug_rune_def)
  qed
qed

lemma ToLower_slug: "slug_char c \<or> c = CHR ''-'' \<Longrightarrow> ToLower (of_char c) = of_char c"
  by (auto simp: slug_char_def slug_rune_def ToLower_def)

lemma map_ToLower_slug:
  "\<forall>c \<in> set s. slug_char c \<or> c = CHR ''-'' \<Longrightarrow> map ToLower (runes_of s) = runes_of s"
  by (induction s) (auto simp: ToLower_slug)

lemma DeriveBase_fix:
  assumes "slug_shape s" and "length s \<le> SlugBaseMaxLen"
  shows "DeriveBase (runes_of s) = s"
  using assms base_loop_fix [of s "[]"]
  by (simp add: DeriveBase_def map_ToLower_slug slug_shape_def Let_def)

lemma slug_runs_Nil: "slug_runs rs = [] \<longleftrightarrow> (\<forall>r \<in> set rs. \<not> slug_rune r)"
  by (induction rs) (auto simp: Let_def)

lemma suffix_chars: "c \<in> set (RandomSuffix raw) \<Longrightarrow> slug_char c"
proof -
  assume "c \<in> set (RandomSuffix raw)"
  moreover have "0 < length suffixAlphabet" by (simp add: suffixAlphabet_def)
  ultimately have "c \<in> set suffixAlphabet"
    by (auto simp: RandomSuffix_def)
  moreover have "list_all slug_char suffixAlphabet"
    by (simp add: suffixAlphabet_def slug_char_def slug_rune_def)
  ultimately show ?thesis by (simp add: list_all_iff)
qed

lemma TrimSpace_colon:
  "TrimSpace (u @ 58 # g) = dropWhile IsSpace u @ 58 # rev (dropWhile IsSpace (rev g))"
proof -
  have colon: "\<not> IsSpace 58" by (simp add: IsSpace_def)
  have "dropWhile IsSpace (u @ 58 # g) = dropWhile IsSpace u @ 58 # g"
    using colon by (simp add: dropWhile_append_split)
  then show ?thesis
    using colon by (simp add: TrimSpace_def dropWhile_append_split)
qed

section \<open>Properties\<close>

text \<open>C40: \<open>DeriveBase\<close> is the specified function: the lower cased name's maximal runs of letters and
  digits joined by single dashes, cut to forty bytes with the dashes at the cut removed, and
  ''app'' exactly when the name has no letter or digit.\<close>

theorem derive_base_spec:
  "DeriveBase name =
     (let ws = slug_runs (map ToLower name); b = join_dash (map (map char_of) ws)
      in if ws = [] then ''app''
         else if SlugBaseMaxLen < length b then TrimRight (take SlugBaseMaxLen b) (CHR ''-'') else b)"
proof (cases "slug_runs (map ToLower name) = []")
  case True
  then show ?thesis by (simp add: DeriveBase_def base_loop_spec Let_def SlugBaseMaxLen_def)
next
  case False
  then have "TrimRight (take SlugBaseMaxLen
      (join_dash (map (map char_of) (slug_runs (map ToLower name))))) (CHR ''-'') \<noteq> []"
    using TrimRight_take_shape slug_runs_join_shape
    by (fastforce simp: SlugBaseMaxLen_def slug_shape_def)
  then show ?thesis
    using False by (simp add: DeriveBase_def base_loop_spec Let_def)
qed

text \<open>whatever the name, with six random bytes the slug is a DNS label of at most 47 bytes (letters,
  digits and single dashes, no dash at either end), and the readable base is its own base, so the
  reserved-label check reads off the hostname what it read off the name.\<close>

theorem derive_slug_label:
  assumes "length raw = SlugSuffixLen"
  shows "slug_shape (DeriveSlug raw name) \<and> length (DeriveSlug raw name) \<le> 47 \<and>
    DeriveBase (runes_of (DeriveBase name)) = DeriveBase name"
proof -
  have suffix: "length (RandomSuffix raw) = 6" "slug_shape (RandomSuffix raw)"
    using assms suffix_chars by (auto simp: RandomSuffix_def SlugSuffixLen_def intro!: slug_shape_word)
  note base = DeriveBase_shape [of name]
  have "slug_shape (DeriveSlug raw name)"
    using base suffix(2) slug_shape_join2 by (simp add: DeriveSlug_def DeriveSlugWithSuffix_def)
  moreover have "length (DeriveSlug raw name) \<le> 47"
    using base suffix(1) by (simp add: DeriveSlug_def DeriveSlugWithSuffix_def SlugBaseMaxLen_def)
  ultimately show ?thesis
    using DeriveBase_fix base by blast
qed

theorem derive_slug_label_witness:
  "length [1, 2, 3, 4, 5, 255 :: 8 word] = SlugSuffixLen \<and>
   length (DeriveSlug [1, 2, 3, 4, 5, 255] (runes_of ''My App!'')) \<le> 47"
  using derive_slug_label [of "[1, 2, 3, 4, 5, 255 :: 8 word]" "runes_of ''My App!''"]
  by (simp add: SlugSuffixLen_def)

text \<open>A name without a single letter or digit is always refused as reserved: its base is the
  fallback ''app'', which is itself one of the reserved labels.\<close>

theorem punctuation_name_reserved:
  assumes "\<forall>r \<in> set name. \<not> slug_rune (ToLower r)"
  shows "ReservedLabel name"
proof -
  have "slug_runs (map ToLower name) = []" using assms by (simp add: slug_runs_Nil)
  then show ?thesis
    by (simp add: ReservedLabel_def reservedLabels_def DeriveBase_def base_loop_spec Let_def
        SlugBaseMaxLen_def)
qed

theorem punctuation_name_reserved_witness: "ReservedLabel (runes_of ''!!!'')"
  by (rule punctuation_name_reserved) (simp add: ToLower_def slug_rune_def)

text \<open>Only the half before the first colon decides whether an image user is root, and surrounding
  white space never does: an image that names nobody, ''0'' or ''root'' is root with any group.\<close>

theorem runs_as_root_user_half:
  assumes "58 \<notin> set u"
  shows "(RunsAsRoot (u @ 58 # g) \<longleftrightarrow> RunsAsRoot u) \<and>
    (RunsAsRoot u \<longleftrightarrow> TrimSpace u \<in> {[], runes_of ''0'', runes_of ''root''})"
proof -
  have u: "58 \<notin> set (dropWhile IsSpace u)" "58 \<notin> set (TrimSpace u)"
    using assms TrimSpace_subset by (auto dest: set_dropWhileD)
  have plain: "RunsAsRoot u \<longleftrightarrow> TrimSpace u \<in> {[], runes_of ''0'', runes_of ''root''}"
    using u(2) by (auto simp: RunsAsRoot_def Let_def Cut_None)
  moreover have "RunsAsRoot (u @ 58 # g) \<longleftrightarrow> RunsAsRoot u"
    unfolding plain
    using u(1) by (auto simp: RunsAsRoot_def Let_def TrimSpace_colon Cut_here TrimSpace_dropWhile)
  ultimately show ?thesis by blast
qed

theorem runs_as_root_user_half_witness:
  "RunsAsRoot (runes_of '' 0 '' @ 58 # runes_of ''1000'')"
  using runs_as_root_user_half [of "runes_of '' 0 ''" "runes_of ''1000''"]
  by (simp add: TrimSpace_def IsSpace_def)

end
