(* ===== verification/Reasons.thy ===== *)
theory Reasons
  imports Prelude
begin

text \<open>
  \<^verbatim>\<open>internal/domain/reason.go\<close> and \<^verbatim>\<open>backupreason.go\<close>: the closed set of reason codes a
  caller is shown, their stored text and their one line message, and the codes a backup run can
  end on. A \<open>Reason\<close> is a Go string, so \<open>Valid\<close> and \<open>Message\<close> are functions of the text.
\<close>

datatype Reason =
    ReasonUploadInvalid | ReasonUploadExpired | ReasonSourceRejected
  | ReasonBuildFailed | ReasonBuildNoDigest | ReasonImageRunsAsRoot
  | ReasonAppNeverReady | ReasonTimeout | ReasonInternal
  | ReasonDeploymentUnknown | ReasonAppUnknown | ReasonSuperseded
  | ReasonReleaseUnknown | ReasonDeploymentInFlight | ReasonAppLimitReached
  | ReasonAccountSuspended | ReasonAppNameReserved | ReasonUploadTooLarge
  | ReasonUploadNotGzip | ReasonUploadLimitReached | ReasonTooManyAttempts
  | ReasonConfigKeyInvalid | ReasonConfigKeyReserved | ReasonConfigKeyUnknown
  | ReasonConfigFlagMissing | ReasonConfigTooManyKeys | ReasonConfigTooLarge

text \<open>The code as it is stored and sent.\<close>

fun reason_code :: "Reason \<Rightarrow> string" where
  "reason_code ReasonUploadInvalid = ''upload_invalid''"
| "reason_code ReasonUploadExpired = ''upload_expired''"
| "reason_code ReasonSourceRejected = ''source_rejected''"
| "reason_code ReasonBuildFailed = ''build_failed''"
| "reason_code ReasonBuildNoDigest = ''build_no_digest''"
| "reason_code ReasonImageRunsAsRoot = ''image_runs_as_root''"
| "reason_code ReasonAppNeverReady = ''app_never_ready''"
| "reason_code ReasonTimeout = ''timeout''"
| "reason_code ReasonInternal = ''internal''"
| "reason_code ReasonDeploymentUnknown = ''deployment_unknown''"
| "reason_code ReasonAppUnknown = ''app_unknown''"
| "reason_code ReasonSuperseded = ''superseded''"
| "reason_code ReasonReleaseUnknown = ''release_unknown''"
| "reason_code ReasonDeploymentInFlight = ''deployment_in_flight''"
| "reason_code ReasonAppLimitReached = ''app_limit_reached''"
| "reason_code ReasonAccountSuspended = ''account_suspended''"
| "reason_code ReasonAppNameReserved = ''app_name_reserved''"
| "reason_code ReasonUploadTooLarge = ''upload_too_large''"
| "reason_code ReasonUploadNotGzip = ''upload_not_gzip''"
| "reason_code ReasonUploadLimitReached = ''upload_limit_reached''"
| "reason_code ReasonTooManyAttempts = ''too_many_attempts''"
| "reason_code ReasonConfigKeyInvalid = ''config_key_invalid''"
| "reason_code ReasonConfigKeyReserved = ''config_key_reserved''"
| "reason_code ReasonConfigKeyUnknown = ''config_key_unknown''"
| "reason_code ReasonConfigFlagMissing = ''config_flag_missing''"
| "reason_code ReasonConfigTooManyKeys = ''config_too_many_keys''"
| "reason_code ReasonConfigTooLarge = ''config_too_large''"

text \<open>\<open>messages\<close>, the one line each code carries.\<close>

definition messages :: "(string \<times> string) list" where
  "messages =
    [(reason_code ReasonUploadInvalid,
       ''the upload id is unknown, already used, or belongs to another account''),
     (reason_code ReasonUploadExpired,
       ''the upload expired, so upload the source again and retry''),
     (reason_code ReasonSourceRejected,
       ''the source archive was refused: it is too large, holds too many files, or contains an unsafe entry''),
     (reason_code ReasonBuildFailed,
       ''the build did not complete, so check that the app builds with the engine that ran, which deployment_status reports as build_path''),
     (reason_code ReasonBuildNoDigest,
       ''the build reported success but pushed no image''),
     (reason_code ReasonImageRunsAsRoot,
       ''the built image runs as root, so add a non root USER to the app''),
     (reason_code ReasonAppNeverReady,
       ''the app never accepted a connection on the port given in PORT''),
     (reason_code ReasonTimeout,
       ''the deploy ran out of time''),
     (reason_code ReasonInternal,
       ''the platform failed to complete the deploy''),
     (reason_code ReasonDeploymentUnknown,
       ''no deployment matches that id or name''),
     (reason_code ReasonAppUnknown,
       ''no app matches that name''),
     (reason_code ReasonSuperseded,
       ''a later deploy of the same app replaced this one''),
     (reason_code ReasonReleaseUnknown,
       ''that app has no release with that number, so call list_releases to see which numbers exist''),
     (reason_code ReasonDeploymentInFlight,
       ''that app has a deploy or rollback still running, so wait for it to finish and try again''),
     (reason_code ReasonAppLimitReached,
       ''this account is at its limit for apps, so delete one you no longer need''),
     (reason_code ReasonAccountSuspended,
       ''this account is suspended, so its apps are stopped and nothing it asks for will run until an administrator restores it''),
     (reason_code ReasonAppNameReserved,
       ''that name is reserved by the platform, so pick another one''),
     (reason_code ReasonUploadTooLarge,
       ''the source archive is larger than this platform accepts, so leave out build output, dependencies and version control directories''),
     (reason_code ReasonUploadNotGzip,
       ''the body must be a gzipped tar archive''),
     (reason_code ReasonUploadLimitReached,
       ''this account is holding as many unused uploads as it may, so deploy one of them or wait for them to expire''),
     (reason_code ReasonTooManyAttempts,
       ''too many calls from this address, so wait a little and try again''),
     (reason_code ReasonConfigKeyInvalid,
       ''a configuration key must be upper case letters, digits, and underscores, not start with a digit, and appear once per call''),
     (reason_code ReasonConfigKeyReserved,
       ''PORT and APP_URL are set by the platform and cannot be configured''),
     (reason_code ReasonConfigKeyUnknown,
       ''one of those keys is not set on this app, so nothing was removed''),
     (reason_code ReasonConfigFlagMissing,
       ''every key needs its secret flag, so send secret true or false with each one''),
     (reason_code ReasonConfigTooManyKeys,
       ''that would take the app past 64 configuration keys''),
     (reason_code ReasonConfigTooLarge,
       ''a value may be at most 4 KB and an app's whole configuration at most 32 KB'')]"

definition all_reasons :: "Reason list" where
  "all_reasons =
    [ReasonUploadInvalid, ReasonUploadExpired, ReasonSourceRejected, ReasonBuildFailed,
     ReasonBuildNoDigest, ReasonImageRunsAsRoot, ReasonAppNeverReady, ReasonTimeout,
     ReasonInternal, ReasonDeploymentUnknown, ReasonAppUnknown, ReasonSuperseded,
     ReasonReleaseUnknown, ReasonDeploymentInFlight, ReasonAppLimitReached,
     ReasonAccountSuspended, ReasonAppNameReserved, ReasonUploadTooLarge,
     ReasonUploadNotGzip, ReasonUploadLimitReached, ReasonTooManyAttempts,
     ReasonConfigKeyInvalid, ReasonConfigKeyReserved, ReasonConfigKeyUnknown,
     ReasonConfigFlagMissing, ReasonConfigTooManyKeys, ReasonConfigTooLarge]"

definition Reason_Valid :: "string \<Rightarrow> bool" where
  "Reason_Valid r \<longleftrightarrow> map_of messages r \<noteq> None"

definition Message :: "string \<Rightarrow> string" where
  "Message r = (case map_of messages r of Some m \<Rightarrow> m
     | None \<Rightarrow> the (map_of messages (reason_code ReasonInternal)))"

datatype BackupReason =
    BackupSnapshotFailed | BackupIntegrityFailed | BackupEncryptFailed | BackupUploadFailed
  | BackupVerifyFailed | BackupStranded | BackupInternal

fun backup_code :: "BackupReason \<Rightarrow> string" where
  "backup_code BackupSnapshotFailed = ''snapshot_failed''"
| "backup_code BackupIntegrityFailed = ''integrity_failed''"
| "backup_code BackupEncryptFailed = ''encrypt_failed''"
| "backup_code BackupUploadFailed = ''upload_failed''"
| "backup_code BackupVerifyFailed = ''verify_failed''"
| "backup_code BackupStranded = ''stranded''"
| "backup_code BackupInternal = ''internal''"

text \<open>\<open>BackupReason.Valid\<close>, on the text a row or a caller holds.\<close>

definition Backup_Valid :: "string \<Rightarrow> bool" where
  "Backup_Valid r \<longleftrightarrow> List.member (map backup_code [BackupSnapshotFailed, BackupIntegrityFailed,
     BackupEncryptFailed, BackupUploadFailed, BackupVerifyFailed, BackupStranded,
     BackupInternal]) r"

lemma all_reasons_complete: "r \<in> set all_reasons"
  by (cases r) (simp_all add: all_reasons_def)

lemma messages_keys: "map fst messages = map reason_code all_reasons"
  by (simp add: messages_def all_reasons_def)

lemma reason_codes_distinct: "distinct (map reason_code all_reasons)"
  by (simp add: all_reasons_def)

lemma reason_code_inject: "reason_code r = reason_code s \<longleftrightarrow> r = s"
  using reason_codes_distinct all_reasons_complete [of r] all_reasons_complete [of s]
  by (auto simp: distinct_map inj_on_def)

lemma reason_code_nonempty [simp]: "reason_code r \<noteq> []"
  by (cases r) simp_all

lemma Reason_Valid_iff: "Reason_Valid t \<longleftrightarrow> (\<exists>r. t = reason_code r)"
proof -
  have "map_of messages t \<noteq> None \<longleftrightarrow> t \<in> set (map fst messages)"
    by (simp add: map_of_eq_None_iff)
  then show ?thesis
    using all_reasons_complete by (auto simp: Reason_Valid_def messages_keys)
qed

lemma Message_nonempty: "Message t \<noteq> []"
proof -
  have "list_all (\<lambda>(c, m). m \<noteq> []) messages" by (simp add: messages_def)
  then have "map_of messages c = Some m \<Longrightarrow> m \<noteq> []" for c m
    by (auto simp: list_all_iff dest!: map_of_SomeD)
  moreover have "map_of messages (reason_code ReasonInternal) \<noteq> None"
    using Reason_Valid_iff Reason_Valid_def by blast
  ultimately show ?thesis by (auto simp: Message_def split: option.splits)
qed

end
