(* ===== verification/App_Config.thy ===== *)
theory App_Config
  imports Reasons
begin

text \<open>
  \<^verbatim>\<open>internal/domain/configkey.go\<close> and \<^verbatim>\<open>config.go\<close>: what an app's configuration may
  hold. A Go map is an association list with distinct keys, \<open>AList.update\<close> is assignment to a
  key, and the empty \<open>Reason\<close> is \<open>None\<close>. The properties say that an accepted call leaves the
  merged configuration inside every bound, and that a refusal names the first thing wrong with it.
\<close>

definition MaxConfigKeys :: nat where "MaxConfigKeys = 64"

definition MaxConfigValueBytes :: nat where "MaxConfigValueBytes = 4 * 1024"

definition MaxConfigTotalBytes :: nat where "MaxConfigTotalBytes = 32 * 1024"

definition ReservedKeyPort :: string where "ReservedKeyPort = ''PORT''"

definition ReservedKeyAppURL :: string where "ReservedKeyAppURL = ''APP_URL''"

definition upper_char :: "char \<Rightarrow> bool" where
  "upper_char c \<longleftrightarrow> CHR ''A'' \<le> c \<and> c \<le> CHR ''Z''"

definition digit_char :: "char \<Rightarrow> bool" where
  "digit_char c \<longleftrightarrow> CHR ''0'' \<le> c \<and> c \<le> CHR ''9''"

text \<open>The loop of \<open>ValidConfigKey\<close> from index \<open>i\<close>.\<close>

fun key_loop :: "nat \<Rightarrow> string \<Rightarrow> bool" where
  "key_loop i [] = True"
| "key_loop i (r # key) =
     (if upper_char r \<or> r = CHR ''_'' then key_loop (Suc i) key
      else if digit_char r \<and> 0 < i then key_loop (Suc i) key
      else False)"

definition ValidConfigKey :: "string \<Rightarrow> bool" where
  "ValidConfigKey key = (if key = [] then False else key_loop 0 key)"

record ConfigValue =
  cv_value :: string
  cv_secret :: bool

record ConfigWrite =
  cw_key :: string
  cw_value :: string
  cw_secret :: "bool option"

definition IsSecret :: "ConfigWrite \<Rightarrow> bool" where
  "IsSecret w \<longleftrightarrow> cw_secret w \<noteq> None \<and> the (cw_secret w)"

text \<open>The first loop of \<open>ValidateConfig\<close>: every write judged in order, with the keys seen.\<close>

fun check_writes :: "string list \<Rightarrow> ConfigWrite list \<Rightarrow> Reason option" where
  "check_writes seen [] = None"
| "check_writes seen (w # ws) =
     (if \<not> ValidConfigKey (cw_key w) then Some ReasonConfigKeyInvalid
      else if cw_key w = ReservedKeyPort \<or> cw_key w = ReservedKeyAppURL
      then Some ReasonConfigKeyReserved
      else if cw_secret w = None then Some ReasonConfigFlagMissing
      else if List.member seen (cw_key w) then Some ReasonConfigKeyInvalid
      else if MaxConfigValueBytes < length (cw_value w) then Some ReasonConfigTooLarge
      else check_writes (cw_key w # seen) ws)"

definition merge_writes :: "ConfigWrite list \<Rightarrow> (string \<times> string) list \<Rightarrow> (string \<times> string) list" where
  "merge_writes ws existing = fold (\<lambda>w m. AList.update (cw_key w) (cw_value w) m) ws existing"

definition config_bytes :: "(string \<times> string) list \<Rightarrow> nat" where
  "config_bytes m = sum_list (map (\<lambda>(k, v). length k + length v) m)"

definition ValidateConfig :: "ConfigWrite list \<Rightarrow> (string \<times> string) list \<Rightarrow> Reason option" where
  "ValidateConfig writes existing =
     (if writes = [] then Some ReasonConfigKeyInvalid
      else case check_writes [] writes of
        Some r \<Rightarrow> Some r
      | None \<Rightarrow>
          let merged = merge_writes writes existing
          in if MaxConfigKeys < length merged then Some ReasonConfigTooManyKeys
             else if MaxConfigTotalBytes < config_bytes merged then Some ReasonConfigTooLarge
             else None)"

definition ValidateUnset :: "string list \<Rightarrow> Reason option" where
  "ValidateUnset keys =
     (if keys = [] then Some ReasonConfigKeyInvalid
      else if list_ex (\<lambda>k. \<not> ValidConfigKey k) keys then Some ReasonConfigKeyInvalid
      else None)"

section \<open>Keys\<close>

lemma key_loop_iff:
  "key_loop i key \<longleftrightarrow>
     (\<forall>c \<in> set key. upper_char c \<or> c = CHR ''_'' \<or> digit_char c) \<and>
     (key \<noteq> [] \<longrightarrow> i = 0 \<longrightarrow> upper_char (hd key) \<or> hd key = CHR ''_'')"
  by (induction key arbitrary: i) auto

lemma ValidConfigKey_iff:
  "ValidConfigKey key \<longleftrightarrow> key \<noteq> [] \<and> (upper_char (hd key) \<or> hd key = CHR ''_'') \<and>
     (\<forall>c \<in> set key. upper_char c \<or> c = CHR ''_'' \<or> digit_char c)"
  by (auto simp: ValidConfigKey_def key_loop_iff)

section \<open>Writes\<close>

definition write_ok :: "ConfigWrite \<Rightarrow> bool" where
  "write_ok w \<longleftrightarrow> ValidConfigKey (cw_key w) \<and> cw_key w \<notin> {ReservedKeyPort, ReservedKeyAppURL} \<and>
     cw_secret w \<noteq> None \<and> length (cw_value w) \<le> MaxConfigValueBytes"

lemma check_writes_None:
  "check_writes seen ws = None \<longleftrightarrow>
     (\<forall>w \<in> set ws. write_ok w) \<and> distinct (map cw_key ws) \<and> set (map cw_key ws) \<inter> set seen = {}"
  by (induction ws arbitrary: seen) (auto simp: write_ok_def)

lemma merge_writes_keys:
  "fst ` set (merge_writes ws m) = cw_key ` set ws \<union> fst ` set m"
  by (induction ws arbitrary: m) (auto simp: merge_writes_def dom_update)

lemma merge_writes_distinct: "distinct (map fst m) \<Longrightarrow> distinct (map fst (merge_writes ws m))"
  by (induction ws arbitrary: m) (auto simp: merge_writes_def distinct_update)

lemma merge_writes_lookup:
  "distinct (map cw_key ws) \<Longrightarrow>
   map_of (merge_writes ws m) k =
     (case List.find (\<lambda>w. cw_key w = k) ws of Some w \<Rightarrow> Some (cw_value w) | None \<Rightarrow> map_of m k)"
proof (induction ws arbitrary: m)
  case Nil
  then show ?case by (simp add: merge_writes_def)
next
  case (Cons w ws)
  have "cw_key w = k \<Longrightarrow> List.find (\<lambda>v. cw_key v = k) ws = None"
    using Cons.prems by (auto simp: find_None_iff image_iff)
  then show ?case
    using Cons by (auto simp: merge_writes_def update_conv' split: option.splits)
qed

section \<open>The database's own check\<close>

text \<open>SQLite's \<open>GLOB\<close> for the two kinds of token the schema's pattern has, and that pattern:
  \<^verbatim>\<open>CHECK (key GLOB '[A-Z_][A-Z0-9_]*')\<close>.\<close>

datatype glob_token = GClass "char \<Rightarrow> bool" | GStar

fun glob :: "glob_token list \<Rightarrow> string \<Rightarrow> bool" where
  "glob [] s \<longleftrightarrow> s = []"
| "glob (GClass P # ts) [] \<longleftrightarrow> False"
| "glob (GClass P # ts) (c # s) \<longleftrightarrow> P c \<and> glob ts s"
| "glob (GStar # ts) [] \<longleftrightarrow> glob ts []"
| "glob (GStar # ts) (c # s) \<longleftrightarrow> glob ts (c # s) \<or> glob (GStar # ts) s"

definition key_check :: "string \<Rightarrow> bool" where
  "key_check key = glob
     [GClass (\<lambda>c. upper_char c \<or> c = CHR ''_''),
      GClass (\<lambda>c. upper_char c \<or> digit_char c \<or> c = CHR ''_''), GStar] key"

lemma glob_star [simp]: "glob [GStar] s"
  by (induction s) auto

lemma key_check_iff:
  "key_check key \<longleftrightarrow> (\<exists>a b s. key = a # b # s \<and> (upper_char a \<or> a = CHR ''_'') \<and>
     (upper_char b \<or> digit_char b \<or> b = CHR ''_''))"
  by (cases key; cases "tl key") (auto simp: key_check_def)

lemma ValidConfigKey_check: "ValidConfigKey key \<Longrightarrow> key_check key \<longleftrightarrow> 2 \<le> length key"
  by (cases key; cases "tl key") (auto simp: ValidConfigKey_iff key_check_iff)

section \<open>The merged configuration as a map\<close>

definition merged_map :: "ConfigWrite list \<Rightarrow> (string \<times> string) list \<Rightarrow> (string \<rightharpoonup> string)" where
  "merged_map ws existing = map_of existing ++ map_of (map (\<lambda>w. (cw_key w, cw_value w)) ws)"

lemma map_of_writes:
  "map_of (map (\<lambda>w. (cw_key w, cw_value w)) ws) k =
     map_option cw_value (List.find (\<lambda>w. cw_key w = k) ws)"
  by (induction ws) auto

lemma map_of_merge_writes:
  "distinct (map cw_key ws) \<Longrightarrow> map_of (merge_writes ws m) = merged_map ws m"
  by (rule ext) (simp add: merge_writes_lookup merged_map_def map_add_def map_of_writes
      split: option.splits)

lemma length_alist: "distinct (map fst m) \<Longrightarrow> length m = card (dom (map_of m))"
  by (metis distinct_card dom_map_of_conv_image_fst length_map set_map)

lemma config_bytes_dom:
  assumes "distinct (map fst m)"
  shows "config_bytes m = (\<Sum>k \<in> dom (map_of m). length k + length (the (map_of m k)))"
proof -
  have "config_bytes m = (\<Sum>(k, v) \<in> set m. length k + length v)"
    using assms by (simp add: config_bytes_def distinct_map sum.distinct_set_conv_list)
  also have "\<dots> = (\<Sum>k \<in> fst ` set m. length k + length (the (map_of m k)))"
    using assms by (subst sum.reindex) (auto simp: distinct_map intro!: sum.cong)
  finally show ?thesis by (simp add: dom_map_of_conv_image_fst)
qed

section \<open>Properties\<close>

text \<open>a configuration call is accepted exactly when every write is well formed (a valid key the
  platform does not reserve, an explicit secret flag, a value inside its bound), no key is named
  twice, and the configuration merged from the app's own and the call's stays inside both bounds on
  the whole.\<close>

theorem validate_config_accepts:
  assumes "distinct (map fst existing)"
  shows "ValidateConfig ws existing = None \<longleftrightarrow>
    ws \<noteq> [] \<and> (\<forall>w \<in> set ws. write_ok w) \<and> distinct (map cw_key ws) \<and>
    card (dom (merged_map ws existing)) \<le> MaxConfigKeys \<and>
    (\<Sum>k \<in> dom (merged_map ws existing). length k + length (the (merged_map ws existing k)))
      \<le> MaxConfigTotalBytes"
proof (cases "check_writes [] ws")
  case None
  then have ok: "\<forall>w \<in> set ws. write_ok w" "distinct (map cw_key ws)"
    using check_writes_None [of "[]" ws] by auto
  note d = merge_writes_distinct [OF assms, of ws]
  show ?thesis
    using None ok length_alist [OF d] config_bytes_dom [OF d]
    by (auto simp: ValidateConfig_def Let_def map_of_merge_writes)
next
  case (Some r)
  then have "\<not> ((\<forall>w \<in> set ws. write_ok w) \<and> distinct (map cw_key ws))"
    using check_writes_None [of "[]" ws] by auto
  then show ?thesis using Some by (auto simp: ValidateConfig_def)
qed

theorem validate_config_accepts_witness:
  "ValidateConfig [\<lparr>cw_key = ''A1'', cw_value = ''x'', cw_secret = Some True\<rparr>] [(''A1'', ''y'')] = None"
  by (subst validate_config_accepts)
    (simp_all add: write_ok_def ValidConfigKey_def merged_map_def upper_char_def digit_char_def
      ReservedKeyPort_def ReservedKeyAppURL_def MaxConfigValueBytes_def MaxConfigKeys_def
      MaxConfigTotalBytes_def)

text \<open>A key the platform accepts satisfies the database's CHECK exactly when it has at least two
  characters: the constraint's pattern asks for two, so it refuses every valid key of one character.\<close>

theorem one_character_keys_refused_by_schema:
  assumes "ValidConfigKey key"
  shows "key_check key \<longleftrightarrow> length key \<noteq> 1"
  using assms ValidConfigKey_check [OF assms] by (cases key) (auto simp: ValidConfigKey_iff Suc_le_eq)

theorem one_character_keys_refused_by_schema_witness:
  "ValidConfigKey ''A'' \<and> \<not> key_check ''A''"
proof -
  have A: "ValidConfigKey ''A''" by (simp add: ValidConfigKey_def upper_char_def)
  then show ?thesis using one_character_keys_refused_by_schema [OF A] by simp
qed

end
