(* ===== verification/Timestamps.thy ===== *)
theory Timestamps
  imports Prelude "HOL-Library.Sublist"
begin

text \<open>
  \<^verbatim>\<open>internal/ids/clock.go\<close>: \<open>Stamp\<close>, the text of every timestamp column. A time is its UTC
  fields; the layout \<open>RFC3339Nano\<close> writes the fields at fixed width and the fraction of the second
  without its trailing zeros, and without its point when it is zero. The lemmas reduce the text
  order of two stamps to the order of their fields: across seconds the two agree, and inside one
  second they disagree exactly when the earlier fraction is a prefix of the later one.
\<close>

record utc =
  year :: nat
  month :: nat
  day :: nat
  hour :: nat
  minute :: nat
  second :: nat
  nanos :: nat

definition digit :: "nat \<Rightarrow> char" where
  "digit n = char_of (48 + n mod 10)"

text \<open>A number at fixed width, most significant digit first.\<close>

fun pad :: "nat \<Rightarrow> nat \<Rightarrow> string" where
  "pad 0 n = []"
| "pad (Suc w) n = pad w (n div 10) @ [digit n]"

text \<open>The digits of a fraction with the trailing zeros dropped.\<close>

fun strip0 :: "string \<Rightarrow> string" where
  "strip0 [] = []"
| "strip0 (c # s) = (let r = strip0 s in if r = [] \<and> c = CHR ''0'' then [] else c # r)"

definition fraction :: "nat \<Rightarrow> string" where
  "fraction n = (let ds = strip0 (pad 9 n) in if ds = [] then [] else CHR ''.'' # ds)"

text \<open>The fields up to the second, which every stamp writes at the same nineteen positions.\<close>

definition seconds_text :: "utc \<Rightarrow> string" where
  "seconds_text t = pad 4 (year t) @ ''-'' @ pad 2 (month t) @ ''-'' @ pad 2 (day t) @ ''T'' @
     pad 2 (hour t) @ '':'' @ pad 2 (minute t) @ '':'' @ pad 2 (second t)"

definition Stamp :: "utc \<Rightarrow> stamp" where
  "Stamp t = seconds_text t @ fraction (nanos t) @ ''Z''"

section \<open>Time order\<close>

definition utc_ok :: "utc \<Rightarrow> bool" where
  "utc_ok t \<longleftrightarrow> year t < 10000 \<and> month t < 100 \<and> day t < 100 \<and> hour t < 100 \<and> minute t < 100 \<and>
     second t < 100 \<and> nanos t < 1000000000"

definition seconds_key :: "utc \<Rightarrow> nat list" where
  "seconds_key t = [year t, month t, day t, hour t, minute t, second t]"

text \<open>\<open>t\<close> is before \<open>u\<close>: lexicographic on the fields.\<close>

definition before :: "utc \<Rightarrow> utc \<Rightarrow> bool" where
  "before t u \<longleftrightarrow> seconds_key t < seconds_key u \<or> seconds_key t = seconds_key u \<and> nanos t < nanos u"

section \<open>Fixed width numbers compare as numbers\<close>

lemma length_pad [simp]: "length (pad w n) = w"
  by (induction w n rule: pad.induct) auto

lemma append_less_same_length:
  fixes xs ys :: "'a::linorder list"
  assumes "length xs = length ys"
  shows "xs @ us < ys @ vs \<longleftrightarrow> xs < ys \<or> xs = ys \<and> us < vs"
  using assms by (induction xs ys rule: list_induct2) auto

lemma div_mod_less:
  "(m::nat) < n \<longleftrightarrow> m div 10 < n div 10 \<or> m div 10 = n div 10 \<and> m mod 10 < n mod 10"
  using mult_div_mod_eq [of 10 m] mult_div_mod_eq [of 10 n]
    mod_less_divisor [of 10 m] mod_less_divisor [of 10 n]
  by (cases "m div 10" "n div 10" rule: linorder_cases) linarith+

lemma of_char_digit: "of_char (digit n) = (48 + n mod 10 :: nat)"
  by (simp add: digit_def)

lemma digit_less: "digit m < digit n \<longleftrightarrow> m mod 10 < n mod 10"
  by (simp add: less_char_def of_char_digit)

lemma digit_eq: "digit m = digit n \<longleftrightarrow> m mod 10 = n mod 10"
  by (metis of_char_digit add_left_cancel digit_def mod_mod_trivial)

lemma pad_less: "m < 10 ^ w \<Longrightarrow> n < 10 ^ w \<Longrightarrow> pad w m < pad w n \<longleftrightarrow> m < n"
  and pad_eq: "m < 10 ^ w \<Longrightarrow> n < 10 ^ w \<Longrightarrow> pad w m = pad w n \<longleftrightarrow> m = n"
proof (induction w arbitrary: m n)
  case 0
  {
    case 1 then show ?case by simp
  next
    case 2 then show ?case by simp
  }
next
  case (Suc w)
  have small: "k < 10 ^ Suc w \<Longrightarrow> k div 10 < 10 ^ w" for k :: nat
    by (simp add: less_mult_imp_div_less)
  {
    case 1
    have "pad w (m div 10) < pad w (n div 10) \<longleftrightarrow> m div 10 < n div 10"
      and "pad w (m div 10) = pad w (n div 10) \<longleftrightarrow> m div 10 = n div 10"
      using 1 Suc small by blast+
    then show ?case
      by (simp add: append_less_same_length digit_less div_mod_less [of m n])
  next
    case 2
    then have "pad w (m div 10) = pad w (n div 10) \<longleftrightarrow> m div 10 = n div 10"
      using Suc small by blast
    moreover have "m = n \<longleftrightarrow> m div 10 = n div 10 \<and> m mod 10 = n mod 10"
      by (metis mult_div_mod_eq)
    ultimately show ?case by (simp add: digit_eq)
  }
qed

lemma seconds_text_less:
  assumes "utc_ok t" and "utc_ok u"
  shows "seconds_text t < seconds_text u \<longleftrightarrow> seconds_key t < seconds_key u"
    and "seconds_text t = seconds_text u \<longleftrightarrow> seconds_key t = seconds_key u"
  using assms
  by (simp_all add: seconds_text_def seconds_key_def utc_ok_def append_less_same_length
      pad_less pad_eq)

lemma length_seconds_text: "length (seconds_text t) = 19"
  by (simp add: seconds_text_def)

section \<open>The fraction\<close>

lemma strip0_digits: "set (strip0 s) \<subseteq> set s"
  by (induction s) (auto simp: Let_def)

text \<open>Equally long digit strings: dropping trailing zeros and closing with a \<open>Z\<close> keeps the order
  unless the smaller one became a prefix of the larger.\<close>

lemma strip0_Z_less:
  assumes "length xs = length ys" and "xs < ys"
    and "\<forall>c \<in> set xs \<union> set ys. CHR ''0'' \<le> c \<and> c < CHR ''Z''"
  shows "strip0 xs @ ''Z'' < strip0 ys @ ''Z'' \<longleftrightarrow> \<not> prefix (strip0 xs) (strip0 ys)"
  using assms
proof (induction xs ys rule: list_induct2)
  case Nil
  then show ?case by simp
next
  case (Cons x xs y ys)
  have y: "CHR ''0'' \<le> y" "y < CHR ''Z''" and x: "CHR ''0'' \<le> x" "x < CHR ''Z''"
    using Cons.prems by auto
  show ?case
  proof (cases "x = y")
    case True
    then have IH: "strip0 xs @ ''Z'' < strip0 ys @ ''Z'' \<longleftrightarrow> \<not> prefix (strip0 xs) (strip0 ys)"
      using Cons by auto
    show ?thesis
      using IH True y by (auto simp: Let_def)
  next
    case False
    then have "x < y" using Cons.prems by auto
    then have "y \<noteq> CHR ''0''" using x by auto
    then show ?thesis
      using \<open>x < y\<close> y by (auto simp: Let_def)
  qed
qed

lemma pad_chars: "c \<in> set (pad w n) \<Longrightarrow> CHR ''0'' \<le> c \<and> c < CHR ''Z''"
  by (induction w n rule: pad.induct) (auto simp: less_char_def less_eq_char_def of_char_digit)

definition fraction_digits :: "nat \<Rightarrow> string" where
  "fraction_digits n = strip0 (pad 9 n)"

lemma fraction_digits_0: "fraction_digits 0 = []"
  by code_simp

lemma fraction_Z_less:
  assumes "m < n" and "n < 1000000000"
  shows "fraction m @ ''Z'' < fraction n @ ''Z'' \<longleftrightarrow>
    \<not> prefix (fraction_digits m) (fraction_digits n)"
proof -
  have "pad 9 m < pad 9 n" using assms by (simp add: pad_less)
  then have *: "fraction_digits m @ ''Z'' < fraction_digits n @ ''Z'' \<longleftrightarrow>
      \<not> prefix (fraction_digits m) (fraction_digits n)"
    unfolding fraction_digits_def by (intro strip0_Z_less) (auto dest: pad_chars)
  show ?thesis
    using * by (cases "fraction_digits m"; cases "fraction_digits n")
      (auto simp: fraction_def fraction_digits_def [symmetric] Let_def)
qed

lemma Stamp_less_within:
  assumes "utc_ok t" and "utc_ok u" and "seconds_key t = seconds_key u" and "nanos t < nanos u"
  shows "Stamp t < Stamp u \<longleftrightarrow> \<not> prefix (fraction_digits (nanos t)) (fraction_digits (nanos u))"
  using assms seconds_text_less [OF assms(1,2)] fraction_Z_less [OF assms(4)]
  by (simp add: Stamp_def append_less_same_length length_seconds_text utc_ok_def)

lemma strip0_inj: "length xs = length ys \<Longrightarrow> strip0 xs = strip0 ys \<Longrightarrow> xs = ys"
proof (induction xs ys rule: list_induct2)
  case (Cons x xs y ys)
  then show ?case by (cases "strip0 xs"; cases "strip0 ys") (auto simp: Let_def split: if_splits)
qed simp

lemma Stamp_greater_within:
  assumes "utc_ok t" and "utc_ok u" and "seconds_key t = seconds_key u" and "nanos t < nanos u"
    and "prefix (fraction_digits (nanos t)) (fraction_digits (nanos u))"
  shows "Stamp u < Stamp t"
proof -
  have "pad 9 (nanos t) \<noteq> pad 9 (nanos u)"
    using assms(2,4) pad_less[of "nanos t" 9 "nanos u"] by (auto simp: utc_ok_def)
  then have "fraction_digits (nanos t) \<noteq> fraction_digits (nanos u)"
    unfolding fraction_digits_def using strip0_inj[of "pad 9 (nanos t)" "pad 9 (nanos u)"] by auto
  then have "fraction (nanos t) \<noteq> fraction (nanos u)"
    by (auto simp: fraction_def fraction_digits_def Let_def split: if_splits)
  then have "Stamp t \<noteq> Stamp u"
    by (simp add: Stamp_def length_seconds_text)
  then show ?thesis using Stamp_less_within[OF assms(1-4)] assms(5) by auto
qed

section \<open>Properties\<close>

text \<open>Two timestamps of different seconds compare as text exactly as their times do.\<close>

theorem stamp_order_across_seconds:
  assumes "utc_ok t" and "utc_ok u" and "seconds_key t \<noteq> seconds_key u"
  shows "Stamp t < Stamp u \<longleftrightarrow> before t u"
  using assms seconds_text_less [OF assms(1,2)]
  by (simp add: Stamp_def before_def append_less_same_length length_seconds_text)

theorem stamp_order_across_seconds_witness:
  "Stamp \<lparr>year = 2026, month = 1, day = 2, hour = 3, minute = 4, second = 5, nanos = 7\<rparr> <
   Stamp \<lparr>year = 2026, month = 1, day = 2, hour = 3, minute = 4, second = 6, nanos = 0\<rparr>"
  by (subst stamp_order_across_seconds) (simp_all add: utc_ok_def seconds_key_def before_def)

text \<open>inside one second the text order is wrong exactly when the earlier time's fraction, written
  without trailing zeros, is a prefix of the later one's; so a whole second sorts after every
  later instant of that second, against what the comment on \<open>Stamp\<close> promises.\<close>

theorem stamp_order_within_second:
  assumes "utc_ok t" and "utc_ok u" and "seconds_key t = seconds_key u" and "nanos t < nanos u"
  shows "Stamp t < Stamp u \<longleftrightarrow> \<not> prefix (fraction_digits (nanos t)) (fraction_digits (nanos u))"
  by (rule Stamp_less_within [OF assms])

theorem stamp_order_within_second_witness:
  "\<not> Stamp \<lparr>year = 2026, month = 1, day = 2, hour = 3, minute = 4, second = 5, nanos = 0\<rparr> <
     Stamp \<lparr>year = 2026, month = 1, day = 2, hour = 3, minute = 4, second = 5, nanos = 500000000\<rparr>"
  by (subst stamp_order_within_second)
    (simp_all add: utc_ok_def seconds_key_def fraction_digits_0)

end
