(* ===== verification/Egress.thy ===== *)
theory Egress
  imports Go_Strings
begin

text \<open>
  The network fence around one app: \<^verbatim>\<open>internal/deploy/portrange.go\<close> (the complement of the
  blocked ports), \<^verbatim>\<open>networkpolicy.go\<close> (the two policies) and the port half of
  \<^verbatim>\<open>internal/config/isolation.go\<close> (how the blocked list is read at startup). Ports are \<open>int\<close>: every
  value the code computes stays in 0..65536, so no \<open>int32\<close> operation wraps. What a policy permits
  is Kubernetes' documented reading of it (\<open>port_permits\<close>): a missing protocol is TCP, a missing
  port is every port, a missing end port is a single port.
\<close>

definition firstPort :: int where "firstPort = 1"

definition lastPort :: int where "lastPort = 65535"

record PortRange =
  Port :: int
  EndPort :: int

text \<open>The loop of \<open>AllowedPortRanges\<close>, from \<open>next\<close> and the ranges appended so far.\<close>

fun ranges_loop :: "PortRange list \<Rightarrow> int \<Rightarrow> int list \<Rightarrow> PortRange list" where
  "ranges_loop ranges nxt [] =
     (if nxt \<le> lastPort then ranges @ [\<lparr>Port = nxt, EndPort = lastPort\<rparr>] else ranges)"
| "ranges_loop ranges nxt (port # blocked) =
     (if port < nxt \<or> port > lastPort then ranges_loop ranges nxt blocked
      else ranges_loop
        (if port > nxt then ranges @ [\<lparr>Port = nxt, EndPort = port - 1\<rparr>] else ranges)
        (port + 1) blocked)"

definition AllowedPortRanges :: "int list \<Rightarrow> PortRange list" where
  "AllowedPortRanges blocked = ranges_loop [] firstPort blocked"

section \<open>The policies\<close>

datatype Protocol = TCP | UDP

record PolicyPort =
  pp_protocol :: "Protocol option"
  pp_port :: "int option"
  pp_end :: "int option"

text \<open>A peer: a namespace by its name, a labelled pod inside a namespace, or an address block with
  exceptions.\<close>

datatype Peer =
    NamespacePeer string
  | PodPeer string "string \<times> string"
  | IPBlock string "string list"

record PolicyRule =
  rule_peers :: "Peer list"
  rule_ports :: "PolicyPort list"

record NetworkPolicy =
  np_name :: string
  np_slug :: string
  np_types :: "string list"
  np_ingress :: "PolicyRule list"
  np_egress :: "PolicyRule list"

definition DefaultDenyPolicy :: "string \<Rightarrow> NetworkPolicy" where
  "DefaultDenyPolicy slug =
     \<lparr>np_name = ''default-deny'', np_slug = slug, np_types = [''Ingress'', ''Egress''],
      np_ingress = [], np_egress = []\<rparr>"

definition publicEgressPorts :: "int list \<Rightarrow> PolicyPort list" where
  "publicEgressPorts blocked =
     map (\<lambda>r. \<lparr>pp_protocol = Some TCP, pp_port = Some (Port r), pp_end = Some (EndPort r)\<rparr>)
       (AllowedPortRanges blocked)
     @ [\<lparr>pp_protocol = Some UDP, pp_port = None, pp_end = None\<rparr>]"

definition AllowPolicy :: "string \<Rightarrow> string list \<Rightarrow> int list \<Rightarrow> NetworkPolicy" where
  "AllowPolicy slug cidrs blocked =
     \<lparr>np_name = ''app-allow'', np_slug = slug, np_types = [''Ingress'', ''Egress''],
      np_ingress =
        [\<lparr>rule_peers = [NamespacePeer ''ingress-nginx''],
          rule_ports = [\<lparr>pp_protocol = Some TCP, pp_port = Some 8080, pp_end = None\<rparr>]\<rparr>],
      np_egress =
        [\<lparr>rule_peers = [PodPeer ''kube-system'' (''k8s-app'', ''kube-dns'')],
          rule_ports = [\<lparr>pp_protocol = Some UDP, pp_port = Some 53, pp_end = None\<rparr>,
                        \<lparr>pp_protocol = Some TCP, pp_port = Some 53, pp_end = None\<rparr>]\<rparr>,
         \<lparr>rule_peers = [IPBlock ''0.0.0.0/0'' cidrs],
          rule_ports = publicEgressPorts blocked\<rparr>]\<rparr>"

text \<open>Kubernetes' reading of one port entry, and of all rules of a set of policies towards a peer:
  a selected pod may do exactly what some rule of some policy permits.\<close>

definition port_permits :: "PolicyPort \<Rightarrow> Protocol \<Rightarrow> int \<Rightarrow> bool" where
  "port_permits e proto p \<longleftrightarrow>
     (case pp_protocol e of None \<Rightarrow> TCP | Some q \<Rightarrow> q) = proto \<and>
     (case pp_port e of None \<Rightarrow> True
      | Some lo \<Rightarrow> (case pp_end e of None \<Rightarrow> p = lo | Some hi \<Rightarrow> lo \<le> p \<and> p \<le> hi))"

definition rules_permit :: "PolicyRule list \<Rightarrow> Peer \<Rightarrow> Protocol \<Rightarrow> int \<Rightarrow> bool" where
  "rules_permit rules peer proto p \<longleftrightarrow>
     list_ex (\<lambda>r. List.member (rule_peers r) peer \<and> list_ex (\<lambda>e. port_permits e proto p) (rule_ports r))
       rules"

section \<open>Reading the configuration\<close>

definition defaultBlockedPorts :: string where
  "defaultBlockedPorts = ''25,3333,4444,5555,7777,9999,14444''"

datatype port_error = NotANumber runes | OutOfRange runes | NoPorts | EveryPort

text \<open>The loop over the entries: the errors and the ports collected so far.\<close>

fun port_entries :: "runes list \<Rightarrow> port_error list \<times> int list" where
  "port_entries [] = ([], [])"
| "port_entries (raw # entries) =
     (let entry = TrimSpace raw; (errs, ports) = port_entries entries
      in if entry = [] then (errs, ports)
         else case Atoi entry of
             None \<Rightarrow> (NotANumber entry # errs, ports)
           | Some port \<Rightarrow>
               if port < firstPort \<or> port > lastPort then (OutOfRange entry # errs, ports)
               else (errs, port # ports))"

text \<open>\<open>slices.Compact\<close>: equal neighbours become one.\<close>

definition Compact :: "'a list \<Rightarrow> 'a list" where
  "Compact xs = remdups_adj xs"

definition loadPortBound :: "runes \<Rightarrow> port_error list \<times> int list" where
  "loadPortBound env =
     (let raw = (if env = [] then runes_of defaultBlockedPorts else env);
          (errs, ports) = port_entries (Split 44 raw);
          blocked = Compact (sort ports)
      in (errs @ (if length blocked = 0 then [NoPorts]
                  else if int (length blocked) = lastPort - firstPort + 1 then [EveryPort] else []),
          blocked))"

section \<open>The complement\<close>

definition in_range :: "int \<Rightarrow> PortRange \<Rightarrow> bool" where
  "in_range p r \<longleftrightarrow> Port r \<le> p \<and> p \<le> EndPort r"

definition ranges_ok :: "PortRange list \<Rightarrow> bool" where
  "ranges_ok rs \<longleftrightarrow>
     (\<forall>r \<in> set rs. firstPort \<le> Port r \<and> Port r \<le> EndPort r \<and> EndPort r \<le> lastPort) \<and>
     successively (\<lambda>r s. EndPort r + 1 < Port s) rs"

lemma ranges_loop_acc: "ranges_loop acc nxt blocked = acc @ ranges_loop [] nxt blocked"
proof (induction blocked arbitrary: acc nxt)
  case Nil
  then show ?case by simp
next
  case (Cons port blocked)
  show ?case
    using Cons [of acc] Cons [of "acc @ [\<lparr>Port = nxt, EndPort = port - 1\<rparr>]"]
      Cons [of "[\<lparr>Port = nxt, EndPort = port - 1\<rparr>]"] by simp
qed

lemma ranges_loop_Cons:
  "ranges_loop [] nxt (port # blocked) =
     (if port < nxt \<or> port > lastPort then ranges_loop [] nxt blocked
      else (if port > nxt then [\<lparr>Port = nxt, EndPort = port - 1\<rparr>] else [])
        @ ranges_loop [] (port + 1) blocked)"
  by (auto simp: ranges_loop_acc [of "[_]"])

declare ranges_loop.simps(2) [simp del]

lemma ranges_loop_from:
  "r \<in> set (ranges_loop [] nxt blocked) \<Longrightarrow> nxt \<le> Port r \<and> Port r \<le> EndPort r \<and> EndPort r \<le> lastPort"
proof (induction blocked arbitrary: nxt)
  case Nil
  then show ?case by (auto split: if_splits)
next
  case (Cons port blocked)
  then show ?case by (fastforce simp: ranges_loop_Cons split: if_splits)
qed

lemma ranges_loop_apart:
  "successively (\<lambda>r s. EndPort r + 1 < Port s) (ranges_loop [] nxt blocked)"
proof (induction blocked arbitrary: nxt)
  case Nil
  then show ?case by simp
next
  case (Cons port blocked)
  have "ranges_loop [] (port + 1) blocked = [] \<or> port < Port (hd (ranges_loop [] (port + 1) blocked))"
    using ranges_loop_from [OF hd_in_set, of "port + 1" blocked] by fastforce
  then show ?case
    using Cons by (auto simp: ranges_loop_Cons successively_Cons)
qed

lemma AllowedPortRanges_ok: "ranges_ok (AllowedPortRanges blocked)"
  using ranges_loop_from ranges_loop_apart
  by (auto simp: ranges_ok_def AllowedPortRanges_def firstPort_def)

text \<open>Entries below the walk are skipped, which is harmless only when the list is sorted.\<close>

lemma ranges_loop_complement:
  "sorted blocked \<Longrightarrow> nxt \<le> p \<Longrightarrow> p \<le> lastPort \<Longrightarrow>
   (\<exists>r \<in> set (ranges_loop [] nxt blocked). in_range p r) \<longleftrightarrow> p \<notin> set blocked"
proof (induction blocked arbitrary: nxt)
  case Nil
  then show ?case by (simp add: in_range_def)
next
  case (Cons port blocked)
  consider "port < nxt" | "port > lastPort" | "nxt \<le> port" "port \<le> lastPort" by linarith
  then show ?case
  proof cases
    case 3
    show ?thesis
    proof (cases "p \<le> port")
      case True
      have "\<not> (\<exists>r \<in> set (ranges_loop [] (port + 1) blocked). in_range p r)"
        using True ranges_loop_from by (fastforce simp: in_range_def)
      moreover have "p < port \<Longrightarrow> p \<notin> set blocked" using Cons.prems(1) by fastforce
      ultimately show ?thesis
        using 3 True Cons.prems(2) by (auto simp: ranges_loop_Cons in_range_def)
    next
      case False
      then have "(\<exists>r \<in> set (ranges_loop [] (port + 1) blocked). in_range p r) \<longleftrightarrow> p \<notin> set blocked"
        using Cons.IH [of "port + 1"] Cons.prems by simp
      then show ?thesis
        using 3 False by (auto simp: ranges_loop_Cons in_range_def)
    qed
  next
    case 1
    then show ?thesis using Cons by (auto simp: ranges_loop_Cons)
  next
    case 2
    then show ?thesis using Cons by (auto simp: ranges_loop_Cons)
  qed
qed

lemma public_tcp:
  "list_ex (\<lambda>e. port_permits e TCP p) (publicEgressPorts blocked) \<longleftrightarrow>
     (\<exists>r \<in> set (AllowedPortRanges blocked). in_range p r)"
  by (auto simp: publicEgressPorts_def port_permits_def in_range_def list_ex_iff)

lemma public_udp: "list_ex (\<lambda>e. port_permits e UDP p) (publicEgressPorts blocked)"
  by (auto simp: publicEgressPorts_def port_permits_def)

lemma port_entries_range: "p \<in> set (snd (port_entries es)) \<Longrightarrow> firstPort \<le> p \<and> p \<le> lastPort"
  by (induction es) (auto simp: Let_def split: prod.splits if_splits option.splits)

lemma distinct_remdups_adj_sorted: "sorted xs \<Longrightarrow> distinct (remdups_adj xs)"
  by (induction xs rule: remdups_adj.induct) auto

lemma loadPortBound_spec:
  assumes "loadPortBound env = (errs, blocked)"
  shows "sorted blocked" and "distinct blocked"
    and "\<forall>p \<in> set blocked. firstPort \<le> p \<and> p \<le> lastPort"
    and "errs = [] \<Longrightarrow> blocked \<noteq> [] \<and> int (length blocked) \<noteq> lastPort - firstPort + 1"
  using assms
  by (auto simp: loadPortBound_def Compact_def Let_def distinct_remdups_adj_sorted
      split: prod.splits if_splits dest: port_entries_range)
    (metis port_entries_range snd_conv)+

lemma some_port_free:
  assumes "distinct blocked" and "\<forall>p \<in> set blocked. firstPort \<le> p \<and> p \<le> lastPort"
    and "int (length blocked) \<noteq> lastPort - firstPort + 1"
  shows "\<exists>p. firstPort \<le> p \<and> p \<le> lastPort \<and> p \<notin> set blocked"
proof (rule ccontr)
  assume "\<not> ?thesis"
  then have "p \<in> set blocked \<longleftrightarrow> p \<in> {firstPort .. lastPort}" for p
    using assms(2) unfolding atLeastAtMost_iff by blast
  then have "set blocked = {firstPort .. lastPort}" by (rule set_eqI)
  then have "length blocked = nat (lastPort - firstPort + 1)"
    using distinct_card [OF assms(1)] by (simp only: card_atLeastAtMost_int)
  moreover have "int (nat (lastPort - firstPort + 1)) = lastPort - firstPort + 1"
    by (simp add: firstPort_def lastPort_def)
  ultimately show False using assms(3) by metis
qed

section \<open>Properties\<close>

text \<open>On a sorted list the allowed ranges are the exact complement of the blocked ports in 1..65535,
  and on any list they are non-empty, inside the port space, ascending and never adjacent.\<close>

theorem allowed_ranges_complement:
  assumes "sorted blocked" and "firstPort \<le> p" and "p \<le> lastPort"
  shows "ranges_ok (AllowedPortRanges blocked) \<and>
    ((\<exists>r \<in> set (AllowedPortRanges blocked). in_range p r) \<longleftrightarrow> p \<notin> set blocked)"
  using AllowedPortRanges_ok ranges_loop_complement [OF assms]
  by (simp add: AllowedPortRanges_def)

theorem allowed_ranges_complement_witness:
  "\<not> (\<exists>r \<in> set (AllowedPortRanges [25, 3333]). in_range 25 r)"
  using allowed_ranges_complement [of "[25, 3333]" 25] by (simp add: firstPort_def lastPort_def)

text \<open>An entry out of order is ignored, so it widens what an app may reach: of two blocked ports
  listed in descending order the lower one stays open, against the comment that an out of order
  entry only ever narrows the result.\<close>

theorem out_of_order_entry_opens_port:
  assumes "firstPort \<le> p" and "p < q" and "q \<le> lastPort"
  shows "\<exists>r \<in> set (AllowedPortRanges [q, p]). in_range p r"
  using assms by (simp add: AllowedPortRanges_def ranges_loop_Cons in_range_def)

theorem out_of_order_entry_opens_port_witness:
  "\<exists>r \<in> set (AllowedPortRanges [443, 80]). in_range 80 r"
  by (rule out_of_order_entry_opens_port) (simp_all add: firstPort_def lastPort_def)

text \<open>C39: when the configured port list loads without an error, the composed fence lets an app reach a
  public address over TCP on exactly the ports not listed (some port is refused and some port is
  open), over UDP on every port, its resolver on port 53 only, no other peer at all, and lets in
  the ingress controller on port 8080 only.\<close>

theorem configured_fence:
  assumes "loadPortBound env = ([], blocked)"
  shows "let policy = AllowPolicy slug cidrs blocked in
    (\<forall>p. firstPort \<le> p \<and> p \<le> lastPort \<longrightarrow>
      (rules_permit (np_egress policy) (IPBlock ''0.0.0.0/0'' cidrs) TCP p \<longleftrightarrow> p \<notin> set blocked) \<and>
      rules_permit (np_egress policy) (IPBlock ''0.0.0.0/0'' cidrs) UDP p) \<and>
    blocked \<noteq> [] \<and> (\<exists>p. firstPort \<le> p \<and> p \<le> lastPort \<and> p \<notin> set blocked) \<and>
    (\<forall>peer proto p. rules_permit (np_egress policy) peer proto p \<longrightarrow>
      peer = IPBlock ''0.0.0.0/0'' cidrs \<or>
      peer = PodPeer ''kube-system'' (''k8s-app'', ''kube-dns'') \<and> p = 53) \<and>
    (\<forall>peer proto p. rules_permit (np_ingress policy) peer proto p \<longleftrightarrow>
      peer = NamespacePeer ''ingress-nginx'' \<and> proto = TCP \<and> p = 8080) \<and>
    np_egress (DefaultDenyPolicy slug) = [] \<and> np_ingress (DefaultDenyPolicy slug) = []"
proof -
  let ?policy = "AllowPolicy slug cidrs blocked"
  note spec = loadPortBound_spec [OF assms(1)]
  have tcp: "rules_permit (np_egress ?policy) (IPBlock ''0.0.0.0/0'' cidrs) TCP p \<longleftrightarrow> p \<notin> set blocked"
    if "firstPort \<le> p" "p \<le> lastPort" for p
    using ranges_loop_complement [OF spec(1) that] public_tcp [of p blocked]
    by (simp add: AllowPolicy_def rules_permit_def AllowedPortRanges_def)
  have udp: "rules_permit (np_egress ?policy) (IPBlock ''0.0.0.0/0'' cidrs) UDP p" for p
    using public_udp by (simp add: AllowPolicy_def rules_permit_def)
  have "\<exists>p. firstPort \<le> p \<and> p \<le> lastPort \<and> p \<notin> set blocked"
    using some_port_free spec by blast
  then show ?thesis
    using spec(4) tcp udp
    by (auto simp: Let_def AllowPolicy_def DefaultDenyPolicy_def rules_permit_def port_permits_def)
qed

theorem configured_fence_witness:
  "loadPortBound (runes_of ''25, 80'') = ([], [25, 80]) \<and>
   \<not> rules_permit (np_egress (AllowPolicy ''app'' [] [25, 80])) (IPBlock ''0.0.0.0/0'' []) TCP 25"
proof -
  have load: "loadPortBound (runes_of ''25, 80'') = ([], [25, 80])"
    by (simp add: loadPortBound_def TrimSpace_def IsSpace_def Atoi_def digits_value_def
        rune_digit_def firstPort_def lastPort_def Compact_def)
  then show ?thesis
    using configured_fence [OF load, of "''app''" "[]"]
    by (simp add: Let_def firstPort_def lastPort_def)
qed

end
