(* ===== verification/Store_Schema.thy ===== *)
theory Store_Schema
  imports Deploy_State App_Config "HOL-Library.Product_Lexorder"
begin

text \<open>
  The database of \<^verbatim>\<open>internal/store\<close>: the rows of \<^verbatim>\<open>sqlcgen/models.go\<close>, the tables of
  \<^verbatim>\<open>migrations/\<close> and the statements of \<^verbatim>\<open>sqlcgen/*.sql.go\<close> that the deployment, app,
  configuration, upload and audit code runs. A table is the list of its rows in insertion order,
  a nullable column an option, a write a function that returns the constraint it violates or the
  changed database. The constraints are those of the migrations, in the order SQLite checks them:
  CHECK, then PRIMARY KEY and UNIQUE, then foreign keys. A statement that fails changes nothing,
  so a failed transaction is simply the error with no database. The state columns hold a
  \<open>State\<close> (its text is \<open>state_text\<close>), an app's name is kept as runes, the stored JSON of a
  release as a document value. A disk fault or a lost write lock also leaves the database as it
  was; those outcomes have no branch of their own here.
\<close>

section \<open>JSON documents\<close>

datatype json =
    JNull | JBool bool | JNumber int | JString string
  | JArray "json list" | JObject "(string \<times> json) list"

text \<open>The text of a \<open>config_snapshot\<close> column: empty, a JSON document, or no JSON at all.\<close>

datatype document = NoDocument | Document json | Malformed string

section \<open>Rows\<close>

record account =
  acc_id :: ident
  acc_name :: string
  acc_disabled_at :: "stamp option"
  acc_created_at :: stamp
  acc_updated_at :: stamp
  acc_email :: "string option"
  acc_password_hash :: "string option"
  acc_email_verified_at :: "stamp option"
  acc_is_admin :: bool
  acc_display_name :: "string option"
  acc_connected_at :: "stamp option"

record app =
  a_id :: ident
  a_account_id :: ident
  a_name :: runes
  a_slug :: string
  a_current_release_id :: "ident option"
  a_deleted_at :: "stamp option"
  a_created_at :: stamp
  a_updated_at :: stamp

record app_config =
  c_app_id :: ident
  c_key :: string
  c_value :: string
  c_is_secret :: bool
  c_created_at :: stamp
  c_updated_at :: stamp

record upload =
  u_id :: ident
  u_account_id :: ident
  u_path :: string
  u_size_bytes :: int
  u_sha256 :: string
  u_fetch_token_hash :: string
  u_redeemed_at :: "stamp option"
  u_expires_at :: stamp
  u_created_at :: stamp
  u_updated_at :: stamp

record deployment =
  d_id :: ident
  d_app_id :: ident
  d_account_id :: ident
  d_upload_id :: "ident option"
  d_source_release_id :: "ident option"
  d_state :: State
  d_build_path :: "string option"
  d_build_job_name :: "string option"
  d_image_repo :: "string option"
  d_image_digest :: "string option"
  d_failure_reason :: "string option"
  d_claimed_at :: "stamp option"
  d_claimed_by :: "string option"
  d_started_at :: "stamp option"
  d_finished_at :: "stamp option"
  d_created_at :: stamp
  d_updated_at :: stamp

record deployment_event =
  e_id :: ident
  e_deployment_id :: ident
  e_from_state :: "State option"
  e_to_state :: State
  e_reason :: "string option"
  e_detail :: "string option"
  e_occurred_at :: stamp

record release =
  r_id :: ident
  r_app_id :: ident
  r_deployment_id :: ident
  r_release_number :: int
  r_image_digest :: string
  r_config_snapshot :: document
  r_created_at :: stamp

record audit_log =
  l_id :: ident
  l_account_id :: "ident option"
  l_action :: string
  l_target_type :: "string option"
  l_target_id :: "string option"
  l_outcome :: string
  l_reason :: "string option"
  l_occurred_at :: stamp
  l_client_address :: "string option"

record db =
  accounts :: "account list"
  apps :: "app list"
  app_configs :: "app_config list"
  uploads :: "upload list"
  deployments :: "deployment list"
  events :: "deployment_event list"
  releases :: "release list"
  audits :: "audit_log list"

definition empty_db :: db where
  "empty_db = \<lparr>accounts = [], apps = [], app_configs = [], uploads = [], deployments = [],
     events = [], releases = [], audits = []\<rparr>"

section \<open>Results\<close>

datatype sql_error = NoRows | CheckViolation | UniqueViolation | ForeignKeyViolation

text \<open>The sentinels of \<^verbatim>\<open>errors.go\<close>; \<open>Fault\<close> is any other wrapped error.\<close>

datatype store_error =
    ErrNotFound | ErrSlugTaken | ErrAppNameTaken | ErrAppLimit | ErrAppNameReserved
  | ErrAppDeleted | ErrDeploymentInFlight | ErrDeploymentSourceAmbiguous
  | ErrIllegalTransition | ErrTerminal | ErrNoDigest | ErrReleaseExists
  | ErrUploadExpired | ErrUploadRedeemed | ErrUploadLimit | ErrInvalidKey
  | ErrTokenInvalid | ErrEmailTaken | ErrSessionInvalid | ErrLinkInvalid | ErrInviteInvalid
  | ErrAddressRegistered | ErrBackupInFlight
  | BadSnapshot | Fault sql_error

text \<open>\<open>errors.Is\<close>: \<open>ErrTerminal\<close> wraps \<open>ErrIllegalTransition\<close>.\<close>

definition err_is :: "store_error \<Rightarrow> store_error \<Rightarrow> bool" where
  "err_is e target \<longleftrightarrow> e = target \<or> e = ErrTerminal \<and> target = ErrIllegalTransition"

fun isUniqueViolation :: "sql_error \<Rightarrow> bool" where
  "isUniqueViolation UniqueViolation = True"
| "isUniqueViolation _ = False"

fun isConstraintViolation :: "sql_error \<Rightarrow> bool" where
  "isConstraintViolation NoRows = False"
| "isConstraintViolation _ = True"

fun next_step :: "'e + 'a \<Rightarrow> ('a \<Rightarrow> 'e + 'b) \<Rightarrow> 'e + 'b" where
  "next_step (Inl e) f = Inl e"
| "next_step (Inr x) f = f x"

fun faulted :: "sql_error + 'a \<Rightarrow> store_error + 'a" where
  "faulted (Inl e) = Inl (Fault e)"
| "faulted (Inr x) = Inr x"

fun row_or :: "store_error \<Rightarrow> 'a option \<Rightarrow> store_error + 'a" where
  "row_or e None = Inl e"
| "row_or e (Some x) = Inr x"

lemma next_step_Inr: "next_step r f = Inr y \<longleftrightarrow> (\<exists>x. r = Inr x \<and> f x = Inr y)"
  by (cases r) auto

lemma faulted_Inr [simp]: "faulted r = Inr x \<longleftrightarrow> r = Inr x"
  by (cases r) auto

lemma row_or_Inr [simp]: "row_or e r = Inr x \<longleftrightarrow> r = Some x"
  by (cases r) auto

section \<open>The first row of an ordering\<close>

definition first_by :: "('r \<Rightarrow> 'k::linorder) \<Rightarrow> 'r list \<Rightarrow> 'r option" where
  "first_by k t = (case sort_key k t of [] \<Rightarrow> None | r # _ \<Rightarrow> Some r)"

lemma first_by_None [simp]: "first_by k t = None \<longleftrightarrow> t = []"
  by (auto simp: first_by_def split: list.split)
    (metis length_0_conv length_sort)

lemma first_by_Some:
  assumes "first_by k t = Some r"
  shows "r \<in> set t \<and> (\<forall>s \<in> set t. k r \<le> k s)"
proof -
  obtain us where "sort_key k t = r # us"
    using assms by (auto simp: first_by_def split: list.splits)
  then show ?thesis
    by (metis dual_order.refl list.set_intros(1) list.simps(9) set_ConsD set_sort sorted_simps(2)
        sorted_sort_key image_eqI list.set_map)
qed

section \<open>Accounts\<close>

definition q_GetAccount :: "db \<Rightarrow> ident \<Rightarrow> account option" where
  "q_GetAccount s i = sel_one (\<lambda>a. acc_id a = i) (accounts s)"

definition q_GetAccountByName :: "db \<Rightarrow> string \<Rightarrow> account option" where
  "q_GetAccountByName s n = sel_one (\<lambda>a. acc_name a = n) (accounts s)"

definition q_CreateAccount ::
  "db \<Rightarrow> ident \<Rightarrow> string \<Rightarrow> stamp \<Rightarrow> sql_error + account \<times> db" where
  "q_CreateAccount s i n now =
     (let a = \<lparr>acc_id = i, acc_name = n, acc_disabled_at = None, acc_created_at = now,
                acc_updated_at = now, acc_email = None, acc_password_hash = None,
                acc_email_verified_at = None, acc_is_admin = False, acc_display_name = None,
                acc_connected_at = None\<rparr>
      in if list_ex (\<lambda>b. acc_id b = i \<or> acc_name b = n) (accounts s) then Inl UniqueViolation
         else Inr (a, s\<lparr>accounts := accounts s @ [a]\<rparr>))"

text \<open>The first person to register is the administrator, decided by the statement itself. UNIQUE(id),
  UNIQUE(name), and \<open>accounts_email\<close> over the addresses that are set.\<close>

definition q_CreateIdentityAccount ::
  "db \<Rightarrow> ident \<Rightarrow> string option \<Rightarrow> string option \<Rightarrow> string option \<Rightarrow> stamp \<Rightarrow> sql_error + account \<times> db" where
  "q_CreateIdentityAccount s i email hash display now =
     (let a = \<lparr>acc_id = i, acc_name = i, acc_disabled_at = None, acc_created_at = now,
                acc_updated_at = now, acc_email = email, acc_password_hash = hash,
                acc_email_verified_at = None,
                acc_is_admin = (\<not> list_ex (\<lambda>b. acc_email b \<noteq> None) (accounts s)),
                acc_display_name = display, acc_connected_at = None\<rparr>
      in if list_ex (\<lambda>b. acc_id b = i \<or> acc_name b = i \<or> email \<noteq> None \<and> acc_email b = email) (accounts s)
         then Inl UniqueViolation
         else Inr (a, s\<lparr>accounts := accounts s @ [a]\<rparr>))"

definition q_GetAccountByEmail :: "db \<Rightarrow> string option \<Rightarrow> account option" where
  "q_GetAccountByEmail s email = sel_one (\<lambda>a. email \<noteq> None \<and> acc_email a = email) (accounts s)"

text \<open>\<open>ORDER BY created_at DESC\<close>: the greatest text first.\<close>

definition q_ListAccounts :: "db \<Rightarrow> account list" where
  "q_ListAccounts s = rev (sort_key acc_created_at (rev (accounts s)))"

definition upd_accounts :: "(account \<Rightarrow> bool) \<Rightarrow> (account \<Rightarrow> account) \<Rightarrow> db \<Rightarrow> nat \<times> db" where
  "upd_accounts P f s = (count_where P (accounts s), s\<lparr>accounts := upd_where P f (accounts s)\<rparr>)"

definition q_MarkEmailVerified :: "db \<Rightarrow> ident \<Rightarrow> stamp \<Rightarrow> nat \<times> db" where
  "q_MarkEmailVerified s i now =
     upd_accounts (\<lambda>a. acc_id a = i \<and> acc_email_verified_at a = None)
       (\<lambda>a. a\<lparr>acc_email_verified_at := Some now, acc_updated_at := now\<rparr>) s"

definition q_MarkAccountConnected :: "db \<Rightarrow> ident \<Rightarrow> stamp \<Rightarrow> nat \<times> db" where
  "q_MarkAccountConnected s i now =
     upd_accounts (\<lambda>a. acc_id a = i \<and> acc_connected_at a = None)
       (\<lambda>a. a\<lparr>acc_connected_at := Some now, acc_updated_at := now\<rparr>) s"

definition q_SetPasswordHash :: "db \<Rightarrow> ident \<Rightarrow> string option \<Rightarrow> stamp \<Rightarrow> nat \<times> db" where
  "q_SetPasswordHash s i hash now =
     upd_accounts (\<lambda>a. acc_id a = i) (\<lambda>a. a\<lparr>acc_password_hash := hash, acc_updated_at := now\<rparr>) s"

definition q_SetAccountDisabled :: "db \<Rightarrow> ident \<Rightarrow> stamp option \<Rightarrow> stamp \<Rightarrow> nat \<times> db" where
  "q_SetAccountDisabled s i disabled_at now =
     upd_accounts (\<lambda>a. acc_id a = i) (\<lambda>a. a\<lparr>acc_disabled_at := disabled_at, acc_updated_at := now\<rparr>) s"

definition account_exists :: "db \<Rightarrow> ident \<Rightarrow> bool" where
  "account_exists s i \<longleftrightarrow> list_ex (\<lambda>a. acc_id a = i) (accounts s)"

definition app_exists :: "db \<Rightarrow> ident \<Rightarrow> bool" where
  "app_exists s i \<longleftrightarrow> list_ex (\<lambda>a. a_id a = i) (apps s)"

definition release_exists :: "db \<Rightarrow> ident \<Rightarrow> bool" where
  "release_exists s i \<longleftrightarrow> list_ex (\<lambda>r. r_id r = i) (releases s)"

definition upload_exists :: "db \<Rightarrow> ident \<Rightarrow> bool" where
  "upload_exists s i \<longleftrightarrow> list_ex (\<lambda>u. u_id u = i) (uploads s)"

definition deployment_exists :: "db \<Rightarrow> ident \<Rightarrow> bool" where
  "deployment_exists s i \<longleftrightarrow> list_ex (\<lambda>d. d_id d = i) (deployments s)"

section \<open>Apps\<close>

definition live :: "app \<Rightarrow> bool" where
  "live a \<longleftrightarrow> a_deleted_at a = None"

definition q_CountLiveAppsByAccount :: "db \<Rightarrow> ident \<Rightarrow> nat" where
  "q_CountLiveAppsByAccount s acc = count_where (\<lambda>a. a_account_id a = acc \<and> live a) (apps s)"

definition q_GetApp :: "db \<Rightarrow> ident \<Rightarrow> app option" where
  "q_GetApp s i = sel_one (\<lambda>a. a_id a = i \<and> live a) (apps s)"

definition q_GetAppByName :: "db \<Rightarrow> ident \<Rightarrow> runes \<Rightarrow> app option" where
  "q_GetAppByName s acc n = sel_one (\<lambda>a. a_account_id a = acc \<and> a_name a = n \<and> live a) (apps s)"

definition q_GetAppBySlug :: "db \<Rightarrow> string \<Rightarrow> app option" where
  "q_GetAppBySlug s sl = sel_one (\<lambda>a. a_slug a = sl \<and> live a) (apps s)"

definition q_SlugExists :: "db \<Rightarrow> string \<Rightarrow> bool" where
  "q_SlugExists s sl \<longleftrightarrow> list_ex (\<lambda>a. a_slug a = sl) (apps s)"

definition q_LiveAppSlugs :: "db \<Rightarrow> string list" where
  "q_LiveAppSlugs s = map a_slug (filter live (apps s))"

text \<open>UNIQUE(id), UNIQUE(slug) over every row, and \<open>apps_live_name\<close> over the live ones.\<close>

definition app_clash :: "app \<Rightarrow> app \<Rightarrow> bool" where
  "app_clash a b \<longleftrightarrow> a_id b = a_id a \<or> a_slug b = a_slug a \<or>
     live a \<and> live b \<and> a_account_id b = a_account_id a \<and> a_name b = a_name a"

definition q_CreateApp ::
  "db \<Rightarrow> ident \<Rightarrow> ident \<Rightarrow> runes \<Rightarrow> string \<Rightarrow> stamp \<Rightarrow> sql_error + app \<times> db" where
  "q_CreateApp s i acc n sl now =
     (let a = \<lparr>a_id = i, a_account_id = acc, a_name = n, a_slug = sl,
                a_current_release_id = None, a_deleted_at = None,
                a_created_at = now, a_updated_at = now\<rparr>
      in if list_ex (app_clash a) (apps s) then Inl UniqueViolation
         else if \<not> account_exists s acc then Inl ForeignKeyViolation
         else Inr (a, s\<lparr>apps := apps s @ [a]\<rparr>))"

definition q_SoftDeleteApp :: "db \<Rightarrow> ident \<Rightarrow> stamp \<Rightarrow> nat \<times> db" where
  "q_SoftDeleteApp s i now =
     (let P = (\<lambda>a. a_id a = i \<and> live a)
      in (count_where P (apps s),
          s\<lparr>apps := upd_where P (\<lambda>a. a\<lparr>a_deleted_at := Some now, a_updated_at := now\<rparr>) (apps s)\<rparr>))"

definition q_SetAppCurrentRelease :: "db \<Rightarrow> ident \<Rightarrow> ident \<Rightarrow> stamp \<Rightarrow> sql_error + nat \<times> db" where
  "q_SetAppCurrentRelease s i rel now =
     (let P = (\<lambda>a. a_id a = i)
      in if count_where P (apps s) \<noteq> 0 \<and> \<not> release_exists s rel then Inl ForeignKeyViolation
         else Inr (count_where P (apps s),
           s\<lparr>apps := upd_where P
               (\<lambda>a. a\<lparr>a_current_release_id := Some rel, a_updated_at := now\<rparr>) (apps s)\<rparr>))"

section \<open>Configuration\<close>

definition q_ListConfigForDeploy :: "db \<Rightarrow> ident \<Rightarrow> (string \<times> string \<times> bool) list" where
  "q_ListConfigForDeploy s app =
     map (\<lambda>c. (c_key c, c_value c, c_is_secret c))
       (sort_key c_key (filter (\<lambda>c. c_app_id c = app) (app_configs s)))"

text \<open>The response read projects NULL in place of a secret's value.\<close>

definition q_ListConfigForResponse :: "db \<Rightarrow> ident \<Rightarrow> (string \<times> bool \<times> string option) list" where
  "q_ListConfigForResponse s app =
     map (\<lambda>c. (c_key c, c_is_secret c, if c_is_secret c then None else Some (c_value c)))
       (sort_key c_key (filter (\<lambda>c. c_app_id c = app) (app_configs s)))"

definition q_SetConfig ::
  "db \<Rightarrow> ident \<Rightarrow> string \<Rightarrow> string \<Rightarrow> bool \<Rightarrow> stamp \<Rightarrow> sql_error + db" where
  "q_SetConfig s app key val secret now =
     (let P = (\<lambda>c. c_app_id c = app \<and> c_key c = key);
          new = \<lparr>c_app_id = app, c_key = key, c_value = val, c_is_secret = secret,
                 c_created_at = now, c_updated_at = now\<rparr>
      in if \<not> key_check key then Inl CheckViolation
         else if list_ex P (app_configs s) then
           Inr (s\<lparr>app_configs := upd_where P
             (\<lambda>c. c\<lparr>c_value := val, c_is_secret := secret, c_updated_at := now\<rparr>) (app_configs s)\<rparr>)
         else if \<not> app_exists s app then Inl ForeignKeyViolation
         else Inr (s\<lparr>app_configs := app_configs s @ [new]\<rparr>))"

definition q_UnsetConfig :: "db \<Rightarrow> ident \<Rightarrow> string \<Rightarrow> nat \<times> db" where
  "q_UnsetConfig s app key =
     (let P = (\<lambda>c. c_app_id c = app \<and> c_key c = key)
      in (count_where P (app_configs s), s\<lparr>app_configs := del_where P (app_configs s)\<rparr>))"

definition q_ClearConfig :: "db \<Rightarrow> ident \<Rightarrow> db" where
  "q_ClearConfig s app = s\<lparr>app_configs := del_where (\<lambda>c. c_app_id c = app) (app_configs s)\<rparr>"

section \<open>Uploads\<close>

definition q_GetUpload :: "db \<Rightarrow> ident \<Rightarrow> upload option" where
  "q_GetUpload s i = sel_one (\<lambda>u. u_id u = i) (uploads s)"

definition q_CountUnclaimedUploads :: "db \<Rightarrow> ident \<Rightarrow> stamp \<Rightarrow> nat" where
  "q_CountUnclaimedUploads s acc now =
     count_where (\<lambda>u. u_account_id u = acc \<and> u_redeemed_at u = None \<and> now < u_expires_at u)
       (uploads s)"

definition q_CreateUpload :: "db \<Rightarrow> upload \<Rightarrow> sql_error + upload \<times> db" where
  "q_CreateUpload s u =
     (if list_ex (\<lambda>v. u_id v = u_id u \<or> u_fetch_token_hash v = u_fetch_token_hash u) (uploads s)
      then Inl UniqueViolation
      else if \<not> account_exists s (u_account_id u) then Inl ForeignKeyViolation
      else Inr (u, s\<lparr>uploads := uploads s @ [u]\<rparr>))"

text \<open>\<open>id NOT IN (SELECT upload_id FROM deployments WHERE upload_id IS NOT NULL)\<close>, negated.\<close>

definition upload_named :: "db \<Rightarrow> ident \<Rightarrow> bool" where
  "upload_named s i \<longleftrightarrow> list_ex (\<lambda>d. d_upload_id d = Some i) (deployments s)"

definition q_ListSweepableUploads :: "db \<Rightarrow> stamp \<Rightarrow> (ident \<times> string) list" where
  "q_ListSweepableUploads s now =
     map (\<lambda>u. (u_id u, u_path u))
       (sort_key u_expires_at
         (filter (\<lambda>u. u_expires_at u < now \<and> \<not> upload_named s (u_id u)) (uploads s)))"

definition q_DeleteUpload :: "db \<Rightarrow> ident \<Rightarrow> sql_error + nat \<times> db" where
  "q_DeleteUpload s i =
     (let P = (\<lambda>u. u_id u = i)
      in if list_ex P (uploads s) \<and> upload_named s i then Inl ForeignKeyViolation
         else Inr (count_where P (uploads s), s\<lparr>uploads := del_where P (uploads s)\<rparr>))"

definition redeemable :: "string \<Rightarrow> stamp \<Rightarrow> upload \<Rightarrow> bool" where
  "redeemable h now u \<longleftrightarrow>
     u_fetch_token_hash u = h \<and> u_redeemed_at u = None \<and> now < u_expires_at u"

definition redeemed :: "stamp \<Rightarrow> upload \<Rightarrow> upload" where
  "redeemed now u = u\<lparr>u_redeemed_at := Some now, u_updated_at := now\<rparr>"

definition q_RedeemUpload :: "db \<Rightarrow> string \<Rightarrow> stamp \<Rightarrow> sql_error + upload \<times> db" where
  "q_RedeemUpload s h now =
     (case sel_one (redeemable h now) (uploads s) of
        None \<Rightarrow> Inl NoRows
      | Some u \<Rightarrow> Inr (redeemed now u,
          s\<lparr>uploads := upd_where (redeemable h now) (redeemed now) (uploads s)\<rparr>))"

definition q_SetUploadFetchToken ::
  "db \<Rightarrow> ident \<Rightarrow> string \<Rightarrow> stamp \<Rightarrow> sql_error + nat \<times> db" where
  "q_SetUploadFetchToken s i h now =
     (let P = (\<lambda>u. u_id u = i)
      in if list_ex P (uploads s) \<and> list_ex (\<lambda>u. u_fetch_token_hash u = h \<and> u_id u \<noteq> i) (uploads s)
         then Inl UniqueViolation
         else Inr (count_where P (uploads s),
           s\<lparr>uploads := upd_where P (\<lambda>u. u\<lparr>u_fetch_token_hash := h, u_redeemed_at := None,
               u_updated_at := now\<rparr>) (uploads s)\<rparr>))"

definition stale_upload :: "db \<Rightarrow> stamp \<Rightarrow> stamp \<Rightarrow> upload \<Rightarrow> bool" where
  "stale_upload s cutoff now u \<longleftrightarrow> u_created_at u < cutoff \<and>
     (u_redeemed_at u \<noteq> None \<or> u_expires_at u < now) \<and> \<not> upload_named s (u_id u)"

definition q_DeleteStaleUploads :: "db \<Rightarrow> stamp \<Rightarrow> stamp \<Rightarrow> nat \<times> db" where
  "q_DeleteStaleUploads s cutoff now =
     (count_where (stale_upload s cutoff now) (uploads s),
      s\<lparr>uploads := del_where (stale_upload s cutoff now) (uploads s)\<rparr>)"

section \<open>Deployments\<close>

text \<open>\<open>state NOT IN ('healthy', 'failed', 'cancelled')\<close>, as the statements spell it.\<close>

definition in_flight :: "deployment \<Rightarrow> bool" where
  "in_flight d \<longleftrightarrow> d_state d \<notin> {StateHealthy, StateFailed, StateCancelled}"

definition d_check :: "deployment \<Rightarrow> bool" where
  "d_check d \<longleftrightarrow> Valid (d_state d) \<and>
     (d_build_path d = None \<or> d_build_path d \<in> {Some ''buildpacks'', Some ''dockerfile''}) \<and>
     ((d_upload_id d = None) \<noteq> (d_source_release_id d = None))"

text \<open>PRIMARY KEY and the partial unique index \<open>deployments_one_in_flight\<close>, for one row.\<close>

definition d_clash :: "deployment \<Rightarrow> deployment \<Rightarrow> bool" where
  "d_clash d e \<longleftrightarrow> in_flight d \<and> in_flight e \<and> d_app_id e = d_app_id d"

definition q_GetDeployment :: "db \<Rightarrow> ident \<Rightarrow> deployment option" where
  "q_GetDeployment s i = sel_one (\<lambda>d. d_id d = i) (deployments s)"

definition q_GetInFlightDeploymentForApp :: "db \<Rightarrow> ident \<Rightarrow> deployment option" where
  "q_GetInFlightDeploymentForApp s app =
     sel_one (\<lambda>d. d_app_id d = app \<and> in_flight d) (deployments s)"

definition q_CountInFlightDeploymentsForApp :: "db \<Rightarrow> ident \<Rightarrow> nat" where
  "q_CountInFlightDeploymentsForApp s app =
     count_where (\<lambda>d. d_app_id d = app \<and> in_flight d) (deployments s)"

definition new_deployment ::
  "ident \<Rightarrow> ident \<Rightarrow> ident \<Rightarrow> ident option \<Rightarrow> ident option \<Rightarrow> string option \<Rightarrow> stamp \<Rightarrow> deployment" where
  "new_deployment i app acc up src digest now =
     \<lparr>d_id = i, d_app_id = app, d_account_id = acc, d_upload_id = up, d_source_release_id = src,
      d_state = StateQueued, d_build_path = None, d_build_job_name = None, d_image_repo = None,
      d_image_digest = digest, d_failure_reason = None, d_claimed_at = None, d_claimed_by = None,
      d_started_at = None, d_finished_at = None, d_created_at = now, d_updated_at = now\<rparr>"

fun fk_opt :: "('i \<Rightarrow> bool) \<Rightarrow> 'i option \<Rightarrow> bool" where
  "fk_opt P None = True"
| "fk_opt P (Some i) = P i"

definition q_CreateDeployment ::
  "db \<Rightarrow> ident \<Rightarrow> ident \<Rightarrow> ident \<Rightarrow> ident option \<Rightarrow> ident option \<Rightarrow> string option \<Rightarrow> stamp \<Rightarrow>
   sql_error + deployment \<times> db" where
  "q_CreateDeployment s i app acc up src digest now =
     (let d = new_deployment i app acc up src digest now
      in if \<not> d_check d then Inl CheckViolation
         else if deployment_exists s i \<or> list_ex (d_clash d) (deployments s) then Inl UniqueViolation
         else if \<not> (app_exists s app \<and> account_exists s acc \<and>
                      fk_opt (upload_exists s) up \<and> fk_opt (release_exists s) src)
         then Inl ForeignKeyViolation
         else Inr (d, s\<lparr>deployments := deployments s @ [d]\<rparr>))"

record state_params =
  p_state :: State
  p_failure_reason :: "string option"
  p_started_at :: "stamp option"
  p_finished_at :: "stamp option"

definition set_state :: "state_params \<Rightarrow> stamp \<Rightarrow> deployment \<Rightarrow> deployment" where
  "set_state p now d = d\<lparr>d_state := p_state p,
     d_failure_reason := coalesce (p_failure_reason p) (d_failure_reason d),
     d_started_at := coalesce (d_started_at d) (p_started_at p),
     d_finished_at := coalesce (d_finished_at d) (p_finished_at p),
     d_updated_at := now\<rparr>"

definition q_UpdateDeploymentState ::
  "db \<Rightarrow> state_params \<Rightarrow> stamp \<Rightarrow> ident \<Rightarrow> sql_error + deployment \<times> db" where
  "q_UpdateDeploymentState s p now i =
     (case sel_one (\<lambda>d. d_id d = i) (deployments s) of
        None \<Rightarrow> Inl NoRows
      | Some d \<Rightarrow>
          if \<not> d_check (set_state p now d) then Inl CheckViolation
          else if list_ex (\<lambda>e. d_id e \<noteq> i \<and> d_clash (set_state p now d) e) (deployments s)
          then Inl UniqueViolation
          else Inr (set_state p now d,
            s\<lparr>deployments := upd_where (\<lambda>d. d_id d = i) (set_state p now) (deployments s)\<rparr>))"

record build_params =
  b_build_path :: "string option"
  b_build_job_name :: "string option"
  b_image_repo :: "string option"
  b_image_digest :: "string option"

definition set_build :: "build_params \<Rightarrow> stamp \<Rightarrow> deployment \<Rightarrow> deployment" where
  "set_build b now d = d\<lparr>d_build_path := coalesce (b_build_path b) (d_build_path d),
     d_build_job_name := coalesce (b_build_job_name b) (d_build_job_name d),
     d_image_repo := coalesce (b_image_repo b) (d_image_repo d),
     d_image_digest := coalesce (b_image_digest b) (d_image_digest d),
     d_updated_at := now\<rparr>"

definition q_RecordBuildResult ::
  "db \<Rightarrow> build_params \<Rightarrow> stamp \<Rightarrow> ident \<Rightarrow> sql_error + nat \<times> db" where
  "q_RecordBuildResult s b now i =
     (let P = (\<lambda>d. d_id d = i)
      in if list_ex (\<lambda>d. P d \<and> \<not> d_check (set_build b now d)) (deployments s)
         then Inl CheckViolation
         else Inr (count_where P (deployments s),
           s\<lparr>deployments := upd_where P (set_build b now) (deployments s)\<rparr>))"

text \<open>The inner SELECT of \<open>ClaimNextDeployment\<close>, ordered by \<open>state != 'queued', id\<close>.\<close>

definition claimable :: "deployment \<Rightarrow> bool" where
  "claimable d \<longleftrightarrow> in_flight d \<and> d_claimed_at d = None"

definition next_claim :: "db \<Rightarrow> deployment option" where
  "next_claim s = first_by (\<lambda>d. (d_state d \<noteq> StateQueued, d_id d)) (filter claimable (deployments s))"

definition set_claim :: "stamp option \<Rightarrow> string option \<Rightarrow> stamp \<Rightarrow> deployment \<Rightarrow> deployment" where
  "set_claim at by' now d = d\<lparr>d_claimed_at := at, d_claimed_by := by', d_updated_at := now\<rparr>"

definition q_ClaimNextDeployment :: "db \<Rightarrow> string \<Rightarrow> stamp \<Rightarrow> sql_error + deployment \<times> db" where
  "q_ClaimNextDeployment s by' now =
     (case next_claim s of
        None \<Rightarrow> Inl NoRows
      | Some d \<Rightarrow> Inr (set_claim (Some now) (Some by') now d,
          s\<lparr>deployments := upd_where (\<lambda>e. d_id e = d_id d \<and> d_claimed_at e = None)
              (set_claim (Some now) (Some by') now) (deployments s)\<rparr>))"

definition q_ReleaseBuildingClaim :: "db \<Rightarrow> ident \<Rightarrow> stamp \<Rightarrow> nat \<times> db" where
  "q_ReleaseBuildingClaim s i now =
     (let P = (\<lambda>d. d_id d = i \<and> d_state d = StateBuilding)
      in (count_where P (deployments s),
          s\<lparr>deployments := upd_where P (set_claim None None now) (deployments s)\<rparr>))"

definition q_ListNonTerminalDeployments :: "db \<Rightarrow> deployment list" where
  "q_ListNonTerminalDeployments s = sort_key d_id (filter in_flight (deployments s))"

text \<open>
  \<open>ORDER BY id DESC LIMIT n\<close> over the rows below an optional cursor; a negative \<open>LIMIT\<close> is
  no limit.
\<close>

definition limited :: "int \<Rightarrow> 'r list \<Rightarrow> 'r list" where
  "limited n t = (if n < 0 then t else take (nat n) t)"

definition page_of :: "('r \<Rightarrow> ident) \<Rightarrow> string \<Rightarrow> int \<Rightarrow> 'r list \<Rightarrow> 'r list" where
  "page_of i cursor n t =
     limited n (rev (sort_key i (filter (\<lambda>r. cursor = [] \<or> i r < cursor) t)))"

definition q_ListDeploymentsByApp :: "db \<Rightarrow> ident \<Rightarrow> string \<Rightarrow> int \<Rightarrow> deployment list" where
  "q_ListDeploymentsByApp s app cursor n =
     page_of d_id cursor n (filter (\<lambda>d. d_app_id d = app) (deployments s))"

definition q_ListAppsByAccount :: "db \<Rightarrow> ident \<Rightarrow> string \<Rightarrow> int \<Rightarrow> app list" where
  "q_ListAppsByAccount s acc cursor n =
     page_of a_id cursor n (filter (\<lambda>a. a_account_id a = acc \<and> live a) (apps s))"

text \<open>\<open>ORDER BY created_at DESC, id DESC LIMIT 1\<close>: the last row of the ascending order.\<close>

definition q_GetLatestDeploymentForApp :: "db \<Rightarrow> ident \<Rightarrow> deployment option" where
  "q_GetLatestDeploymentForApp s app =
     (case rev (sort_key (\<lambda>d. (d_created_at d, d_id d))
         (filter (\<lambda>d. d_app_id d = app) (deployments s))) of
        [] \<Rightarrow> None | d # _ \<Rightarrow> Some d)"

definition q_GetNextDeploymentForApp :: "db \<Rightarrow> ident \<Rightarrow> ident \<Rightarrow> deployment option" where
  "q_GetNextDeploymentForApp s app after =
     first_by d_id (filter (\<lambda>d. d_app_id d = app \<and> after < d_id d) (deployments s))"

section \<open>Deployment events\<close>

definition q_InsertDeploymentEvent :: "db \<Rightarrow> deployment_event \<Rightarrow> sql_error + db" where
  "q_InsertDeploymentEvent s e =
     (if \<not> (fk_opt Valid (e_from_state e) \<and> Valid (e_to_state e)) then Inl CheckViolation
      else if list_ex (\<lambda>f. e_id f = e_id e) (events s) then Inl UniqueViolation
      else if \<not> deployment_exists s (e_deployment_id e) then Inl ForeignKeyViolation
      else Inr (s\<lparr>events := events s @ [e]\<rparr>))"

definition q_ListDeploymentEvents :: "db \<Rightarrow> ident \<Rightarrow> deployment_event list" where
  "q_ListDeploymentEvents s i =
     sort_key (\<lambda>e. (e_occurred_at e, e_id e)) (filter (\<lambda>e. e_deployment_id e = i) (events s))"

definition swept :: "stamp \<Rightarrow> deployment \<Rightarrow> bool" where
  "swept cutoff d \<longleftrightarrow> d_state d \<in> {StateFailed, StateCancelled} \<and>
     (case d_finished_at d of None \<Rightarrow> False | Some t \<Rightarrow> t < cutoff)"

definition q_DeleteEventsOfSweptDeployments :: "db \<Rightarrow> stamp \<Rightarrow> nat \<times> db" where
  "q_DeleteEventsOfSweptDeployments s cutoff =
     (let P = (\<lambda>e. list_ex (\<lambda>d. d_id d = e_deployment_id e \<and> swept cutoff d) (deployments s))
      in (count_where P (events s), s\<lparr>events := del_where P (events s)\<rparr>))"

text \<open>\<open>ON DELETE RESTRICT\<close> from the event log and from the releases.\<close>

definition q_DeleteSweptDeployments :: "db \<Rightarrow> stamp \<Rightarrow> sql_error + nat \<times> db" where
  "q_DeleteSweptDeployments s cutoff =
     (if list_ex (\<lambda>d. swept cutoff d \<and>
            (list_ex (\<lambda>e. e_deployment_id e = d_id d) (events s) \<or>
             list_ex (\<lambda>r. r_deployment_id r = d_id d) (releases s))) (deployments s)
      then Inl ForeignKeyViolation
      else Inr (count_where (swept cutoff) (deployments s),
        s\<lparr>deployments := del_where (swept cutoff) (deployments s)\<rparr>))"

definition q_DeleteAgedEvents :: "db \<Rightarrow> stamp \<Rightarrow> nat \<times> db" where
  "q_DeleteAgedEvents s cutoff =
     (let P = (\<lambda>e. e_occurred_at e < cutoff)
      in (count_where P (events s), s\<lparr>events := del_where P (events s)\<rparr>))"

section \<open>Releases\<close>

definition q_NextReleaseNumber :: "db \<Rightarrow> ident \<Rightarrow> int" where
  "q_NextReleaseNumber s app =
     (case map r_release_number (filter (\<lambda>r. r_app_id r = app) (releases s)) of
        [] \<Rightarrow> 1 | n # ns \<Rightarrow> fold max ns n + 1)"

definition q_InsertRelease :: "db \<Rightarrow> release \<Rightarrow> sql_error + release \<times> db" where
  "q_InsertRelease s r =
     (if list_ex (\<lambda>q. r_id q = r_id r \<or> r_deployment_id q = r_deployment_id r \<or>
          r_app_id q = r_app_id r \<and> r_release_number q = r_release_number r) (releases s)
      then Inl UniqueViolation
      else if \<not> (app_exists s (r_app_id r) \<and> deployment_exists s (r_deployment_id r))
      then Inl ForeignKeyViolation
      else Inr (r, s\<lparr>releases := releases s @ [r]\<rparr>))"

definition q_GetRelease :: "db \<Rightarrow> ident \<Rightarrow> release option" where
  "q_GetRelease s i = sel_one (\<lambda>r. r_id r = i) (releases s)"

definition q_GetReleaseByDeployment :: "db \<Rightarrow> ident \<Rightarrow> release option" where
  "q_GetReleaseByDeployment s i = sel_one (\<lambda>r. r_deployment_id r = i) (releases s)"

definition q_GetReleaseByNumber :: "db \<Rightarrow> ident \<Rightarrow> int \<Rightarrow> release option" where
  "q_GetReleaseByNumber s app n =
     sel_one (\<lambda>r. r_app_id r = app \<and> r_release_number r = n) (releases s)"

definition q_ListReleasesByApp :: "db \<Rightarrow> ident \<Rightarrow> string \<Rightarrow> int \<Rightarrow> release list" where
  "q_ListReleasesByApp s app cursor n =
     page_of r_id cursor n (filter (\<lambda>r. r_app_id r = app) (releases s))"

definition q_ListReleaseSummariesByApp ::
  "db \<Rightarrow> ident \<Rightarrow> int \<Rightarrow> (ident \<times> int \<times> string \<times> ident \<times> stamp) list" where
  "q_ListReleaseSummariesByApp s app n =
     map (\<lambda>r. (r_id r, r_release_number r, r_image_digest r, r_deployment_id r, r_created_at r))
       (page_of r_id [] n (filter (\<lambda>r. r_app_id r = app) (releases s)))"

section \<open>Audit log\<close>

definition q_InsertAuditLog :: "db \<Rightarrow> audit_log \<Rightarrow> sql_error + db" where
  "q_InsertAuditLog s l =
     (if l_outcome l \<notin> {''allowed'', ''denied''} then Inl CheckViolation
      else if list_ex (\<lambda>m. l_id m = l_id l) (audits s) then Inl UniqueViolation
      else if \<not> fk_opt (account_exists s) (l_account_id l) then Inl ForeignKeyViolation
      else Inr (s\<lparr>audits := audits s @ [l]\<rparr>))"

definition q_ClearOldAuditAddresses :: "db \<Rightarrow> stamp \<Rightarrow> nat \<times> db" where
  "q_ClearOldAuditAddresses s cutoff =
     (let P = (\<lambda>l. l_occurred_at l < cutoff \<and> l_client_address l \<noteq> None)
      in (count_where P (audits s),
          s\<lparr>audits := upd_where P (\<lambda>l. l\<lparr>l_client_address := None\<rparr>) (audits s)\<rparr>))"

section \<open>Paging\<close>

text \<open>\<^verbatim>\<open>page.go\<close>.\<close>

definition DefaultPageSize :: int where "DefaultPageSize = 50"

definition MaxPageSize :: int where "MaxPageSize = 200"

definition page_limit :: "int \<Rightarrow> int" where
  "page_limit n =
     (if n \<le> 0 then DefaultPageSize else if MaxPageSize < n then MaxPageSize else n)"

lemma in_flight_iff: "in_flight d \<longleftrightarrow> \<not> Terminal (d_state d)"
  by (auto simp: in_flight_def Terminal_def)

end
