(* ===== verification/Go_Text.thy ===== *)
theory Go_Text
  imports Go_Strings
begin

text \<open>
  What \<^verbatim>\<open>encoding/json\<close> makes of a Go string: a string is any bytes, a JSON string is characters, so
  \<open>json.Marshal\<close> writes the replacement character for every byte \<^verbatim>\<open>unicode/utf8\<close> cannot read. Text
  that is well formed UTF-8 comes back as it went in, and whatever comes back is well formed.
\<close>

text \<open>The ranges of the bytes that follow the first byte of a character.\<close>

definition followers :: "nat \<Rightarrow> (nat \<times> nat) list option" where
  "followers a =
     (if a < 0x80 then Some []
      else if 0xC2 \<le> a \<and> a \<le> 0xDF then Some [(0x80, 0xBF)]
      else if a = 0xE0 then Some [(0xA0, 0xBF), (0x80, 0xBF)]
      else if a = 0xED then Some [(0x80, 0x9F), (0x80, 0xBF)]
      else if 0xE1 \<le> a \<and> a \<le> 0xEF then Some [(0x80, 0xBF), (0x80, 0xBF)]
      else if a = 0xF0 then Some [(0x90, 0xBF), (0x80, 0xBF), (0x80, 0xBF)]
      else if 0xF1 \<le> a \<and> a \<le> 0xF3 then Some [(0x80, 0xBF), (0x80, 0xBF), (0x80, 0xBF)]
      else if a = 0xF4 then Some [(0x80, 0x8F), (0x80, 0xBF), (0x80, 0xBF)]
      else None)"

fun follow :: "(nat \<times> nat) list \<Rightarrow> string \<Rightarrow> bool" where
  "follow [] s = True"
| "follow ((lo, hi) # rs) (c # s) = (lo \<le> of_char c \<and> of_char c \<le> hi \<and> follow rs s)"
| "follow (_ # _) [] = False"

text \<open>\<open>utf8.DecodeRuneInString\<close>: how many bytes follow the first, or nothing where it reports an error.\<close>

definition rune_tail :: "char \<Rightarrow> string \<Rightarrow> nat option" where
  "rune_tail c s = (case followers (of_char c) of None \<Rightarrow> None | Some rs \<Rightarrow> if follow rs s then Some (length rs) else None)"

definition replacement :: string where
  "replacement = [CHR 0xEF, CHR 0xBF, CHR 0xBD]"

fun json_text :: "string \<Rightarrow> string" where
  "json_text [] = []"
| "json_text (c # s) = (case rune_tail c s of
     None \<Rightarrow> replacement @ json_text s
   | Some n \<Rightarrow> c # take n s @ json_text (drop n s))"

fun valid_text :: "string \<Rightarrow> bool" where
  "valid_text [] = True"
| "valid_text (c # s) = (case rune_tail c s of None \<Rightarrow> False | Some n \<Rightarrow> valid_text (drop n s))"

lemma rune_tail_plain [simp]: "of_char c < (0x80::nat) \<Longrightarrow> rune_tail c s = Some 0"
  by (simp add: rune_tail_def followers_def)

lemma json_text_valid [simp]: "valid_text s \<Longrightarrow> json_text s = s"
  by (induction s rule: valid_text.induct) (auto split: option.splits)

lemma follow_take: "follow rs s \<Longrightarrow> follow rs (take (length rs) s @ t)"
  by (induction rs s rule: follow.induct) auto

lemma follow_length: "follow rs s \<Longrightarrow> length rs \<le> length s"
  by (induction rs s rule: follow.induct) auto

lemma rune_tail_take:
  assumes "rune_tail c s = Some n"
  shows "rune_tail c (take n s @ t) = Some n" "n \<le> length s"
  using assms follow_take follow_length by (auto simp: rune_tail_def split: option.splits if_splits)

lemma valid_json_text: "valid_text (json_text s)"
proof (induction s rule: json_text.induct)
  case (2 c s)
  show ?case
  proof (cases "rune_tail c s")
    case None
    have "rune_tail (CHR 0xEF) (CHR 0xBF # CHR 0xBD # t) = Some 2" for t
      by (simp add: rune_tail_def followers_def)
    then show ?thesis using 2 None by (simp add: replacement_def numeral_2_eq_2)
  next
    case (Some n)
    then show ?thesis using 2 by (simp add: rune_tail_take)
  qed
qed simp

lemma json_text_idem [simp]: "json_text (json_text s) = json_text s"
  by (simp add: valid_json_text)

lemma plain_valid: "list_all (\<lambda>c. of_char c < (0x80::nat)) s \<Longrightarrow> valid_text s"
  by (induction s) simp_all

end
