(* ===== verification/Store_Deployments.thy ===== *)
theory Store_Deployments
  imports Store_Schema Go_Text
begin

text \<open>
  \<^verbatim>\<open>internal/store/deployments.go\<close>: the transactions that create a deployment, move it, mint
  a release, hand a row to the loop and take it back, and the reads beside them. A transaction
  takes the database it found, the identifiers drawn for it in the order \<open>ids.New\<close> drew them,
  and the stamp \<open>s.now()\<close>; it returns its sentinel (and so leaves the database alone) or its
  results with the database it committed. A Go map is an association list in the order the code
  happens to range over it.
\<close>

section \<open>Configuration snapshots\<close>

type_synonym config = "(string \<times> ConfigValue) list"

definition snapshot_value :: "ConfigValue \<Rightarrow> json" where
  "snapshot_value v = JObject [(''value'', JString (json_text (cv_value v))), (''secret'', JBool (cv_secret v))]"

text \<open>\<open>json.Marshal\<close> writes a map with its keys sorted, and of each string what is text.\<close>

definition configSnapshot :: "config \<Rightarrow> document" where
  "configSnapshot values =
     Document (JObject (map (\<lambda>(k, v). (json_text k, snapshot_value v)) (sort_key fst values)))"

text \<open>
  A JSON object key matches a struct field under Unicode case folding, where the long s
  (bytes C5 BF) folds to s.
\<close>

fun fold_name :: "string \<Rightarrow> string" where
  "fold_name (c # d # s) =
     (if c = CHR 0xC5 \<and> d = CHR 0xBF then CHR ''s'' # fold_name s
      else (if upper_char c then char_of (of_char c + 32 :: nat) else c) # fold_name (d # s))"
| "fold_name [c] = [if upper_char c then char_of (of_char c + 32 :: nat) else c]"
| "fold_name [] = []"

text \<open>\<open>json.Unmarshal\<close> into the two field struct, the fields in document order.\<close>

fun struct_fields :: "(string \<times> json) list \<Rightarrow> ConfigValue \<Rightarrow> ConfigValue option" where
  "struct_fields [] sv = Some sv"
| "struct_fields ((k, j) # fs) sv =
     (if fold_name k = ''value'' then
        (case j of JString t \<Rightarrow> struct_fields fs (sv\<lparr>cv_value := t\<rparr>)
         | JNull \<Rightarrow> struct_fields fs sv | _ \<Rightarrow> None)
      else if fold_name k = ''secret'' then
        (case j of JBool b \<Rightarrow> struct_fields fs (sv\<lparr>cv_secret := b\<rparr>)
         | JNull \<Rightarrow> struct_fields fs sv | _ \<Rightarrow> None)
      else struct_fields fs sv)"

fun decode_value :: "json \<Rightarrow> ConfigValue option" where
  "decode_value (JString bare) = Some \<lparr>cv_value = bare, cv_secret = True\<rparr>"
| "decode_value JNull = Some \<lparr>cv_value = [], cv_secret = True\<rparr>"
| "decode_value (JObject fs) = struct_fields fs \<lparr>cv_value = [], cv_secret = False\<rparr>"
| "decode_value _ = None"

fun decode_raw :: "(string \<times> json) list \<Rightarrow> config option" where
  "decode_raw [] = Some []"
| "decode_raw ((k, j) # raw) =
     (case decode_value j of
        None \<Rightarrow> None
      | Some v \<Rightarrow> (case decode_raw raw of None \<Rightarrow> None | Some m \<Rightarrow> Some ((k, v) # m)))"

text \<open>A JSON object read into a Go map: the last of two equal keys wins.\<close>

definition raw_map :: "(string \<times> json) list \<Rightarrow> (string \<times> json) list" where
  "raw_map fs = fold (\<lambda>(k, j) m. AList.update k j m) fs []"

fun decodeSnapshot :: "document \<Rightarrow> store_error + config" where
  "decodeSnapshot NoDocument = Inr []"
| "decodeSnapshot (Document (JObject fs)) = row_or BadSnapshot (decode_raw (raw_map fs))"
| "decodeSnapshot (Document JNull) = Inr []"
| "decodeSnapshot (Document _) = Inl BadSnapshot"
| "decodeSnapshot (Malformed _) = Inl BadSnapshot"

section \<open>Creating a deployment\<close>

record CreateDeploymentInput =
  in_app :: ident
  in_account :: ident
  in_upload :: "ident option"
  in_source :: "ident option"

text \<open>The digest of a rollback, copied from its source release.\<close>

definition source_digest :: "db \<Rightarrow> CreateDeploymentInput \<Rightarrow> store_error + string option" where
  "source_digest s inp =
     (case in_source inp of
        None \<Rightarrow> Inr None
      | Some src \<Rightarrow>
          (case q_GetRelease s src of
             None \<Rightarrow> Inl ErrNotFound
           | Some rel \<Rightarrow> if r_app_id rel \<noteq> in_app inp then Inl ErrNotFound
                        else Inr (Some (r_image_digest rel))))"

definition superseded_params :: "stamp \<Rightarrow> state_params" where
  "superseded_params now = \<lparr>p_state = StateCancelled,
     p_failure_reason = Some (reason_code ReasonSuperseded),
     p_started_at = None, p_finished_at = Some now\<rparr>"

definition supersede :: "db \<Rightarrow> ident \<Rightarrow> ident \<Rightarrow> stamp \<Rightarrow> store_error + string \<times> db" where
  "supersede s app evt now =
     (case q_GetInFlightDeploymentForApp s app of
        None \<Rightarrow> Inr ([], s)
      | Some d \<Rightarrow>
          next_step (faulted (q_UpdateDeploymentState s (superseded_params now) now (d_id d)))
            (\<lambda>(_, s1).
          next_step (faulted (q_InsertDeploymentEvent s1
              \<lparr>e_id = evt, e_deployment_id = d_id d, e_from_state = Some (d_state d),
               e_to_state = StateCancelled, e_reason = Some (reason_code ReasonSuperseded),
               e_detail = None, e_occurred_at = now\<rparr>))
            (\<lambda>s2. Inr (d_id d, s2))))"

definition birth_event :: "ident \<Rightarrow> ident \<Rightarrow> stamp \<Rightarrow> deployment_event" where
  "birth_event evt dep now = \<lparr>e_id = evt, e_deployment_id = dep, e_from_state = None,
     e_to_state = StateQueued, e_reason = None, e_detail = None, e_occurred_at = now\<rparr>"

definition CreateDeployment ::
  "db \<Rightarrow> CreateDeploymentInput \<Rightarrow> ident \<Rightarrow> ident \<Rightarrow> ident \<Rightarrow> stamp \<Rightarrow>
   store_error + deployment \<times> string \<times> db" where
  "CreateDeployment s inp evt dep evt' now =
     (if (in_upload inp = None) = (in_source inp = None) then Inl ErrDeploymentSourceAmbiguous
      else next_step (row_or ErrAppDeleted (q_GetApp s (in_app inp))) (\<lambda>_.
        next_step (source_digest s inp) (\<lambda>digest.
        next_step (supersede s (in_app inp) evt now) (\<lambda>(old, s1).
        next_step (faulted (q_CreateDeployment s1 dep (in_app inp) (in_account inp)
                     (in_upload inp) (in_source inp) digest now)) (\<lambda>(d, s2).
        next_step (faulted (q_InsertDeploymentEvent s2 (birth_event evt' dep now))) (\<lambda>s3.
        Inr (d, old, s3)))))))"

section \<open>Moving a deployment\<close>

definition transition_params :: "deployment \<Rightarrow> State \<Rightarrow> string \<Rightarrow> stamp \<Rightarrow> state_params" where
  "transition_params d to' reason now =
     \<lparr>p_state = to',
      p_failure_reason = (if to' = StateFailed \<and> reason \<noteq> [] then Some reason else None),
      p_started_at = (if d_state d = StateQueued then Some now else None),
      p_finished_at = (if Terminal to' then Some now else None)\<rparr>"

definition transition_event ::
  "ident \<Rightarrow> deployment \<Rightarrow> State \<Rightarrow> string \<Rightarrow> string \<Rightarrow> stamp \<Rightarrow> deployment_event" where
  "transition_event evt d to' reason detail now =
     \<lparr>e_id = evt, e_deployment_id = d_id d, e_from_state = Some (d_state d), e_to_state = to',
      e_reason = optional reason, e_detail = optional detail, e_occurred_at = now\<rparr>"

definition applyTransition ::
  "db \<Rightarrow> deployment \<Rightarrow> State \<Rightarrow> string \<Rightarrow> string \<Rightarrow> ident \<Rightarrow> stamp \<Rightarrow> store_error + deployment \<times> db" where
  "applyTransition s d to' reason detail evt now =
     next_step (faulted (q_UpdateDeploymentState s (transition_params d to' reason now) now (d_id d)))
       (\<lambda>(updated, s1).
     next_step (faulted (q_InsertDeploymentEvent s1 (transition_event evt d to' reason detail now)))
       (\<lambda>s2. Inr (updated, s2)))"

definition move_check :: "State \<Rightarrow> State \<Rightarrow> store_error + unit" where
  "move_check from to' =
     (if Terminal from then Inl ErrTerminal
      else if \<not> CanTransition from to' then Inl ErrIllegalTransition else Inr ())"

definition Transition ::
  "db \<Rightarrow> ident \<Rightarrow> State \<Rightarrow> string \<Rightarrow> string \<Rightarrow> ident \<Rightarrow> stamp \<Rightarrow> store_error + deployment \<times> db" where
  "Transition s i to' reason detail evt now =
     (if to' = StateHealthy then Inl ErrIllegalTransition
      else next_step (row_or ErrNotFound (q_GetDeployment s i)) (\<lambda>d.
        next_step (move_check (d_state d) to') (\<lambda>_.
        applyTransition s d to' reason detail evt now)))"

record BuildResult =
  BuildPath :: string
  BuildJobName :: string
  ImageRepo :: string
  ImageDigest :: string

definition RecordBuildResult :: "db \<Rightarrow> ident \<Rightarrow> BuildResult \<Rightarrow> stamp \<Rightarrow> store_error + db" where
  "RecordBuildResult s i r now =
     next_step (faulted (q_RecordBuildResult s
         \<lparr>b_build_path = optional (BuildPath r), b_build_job_name = optional (BuildJobName r),
          b_image_repo = optional (ImageRepo r), b_image_digest = optional (ImageDigest r)\<rparr> now i))
       (\<lambda>(n, s1). if n = 0 then Inl ErrNotFound else Inr s1)"

section \<open>Minting a release\<close>

fun restore_config :: "db \<Rightarrow> ident \<Rightarrow> config \<Rightarrow> stamp \<Rightarrow> store_error + db" where
  "restore_config s app [] now = Inr s"
| "restore_config s app ((k, v) # config) now =
     next_step (faulted (q_SetConfig s app k (cv_value v) (cv_secret v) now))
       (\<lambda>s1. restore_config s1 app config now)"

definition replaceConfig :: "db \<Rightarrow> ident \<Rightarrow> config \<Rightarrow> stamp \<Rightarrow> store_error + db" where
  "replaceConfig s app config now = restore_config (q_ClearConfig s app) app config now"

definition insert_release :: "db \<Rightarrow> release \<Rightarrow> store_error + release \<times> db" where
  "insert_release s r =
     (case q_InsertRelease s r of
        Inl e \<Rightarrow> Inl (if isUniqueViolation e then ErrReleaseExists else Fault e)
      | Inr x \<Rightarrow> Inr x)"

definition minted :: "db \<Rightarrow> ident \<Rightarrow> deployment \<Rightarrow> string \<Rightarrow> config \<Rightarrow> stamp \<Rightarrow> release" where
  "minted s i d digest config now =
     \<lparr>r_id = i, r_app_id = d_app_id d, r_deployment_id = d_id d,
      r_release_number = q_NextReleaseNumber s (d_app_id d), r_image_digest = digest,
      r_config_snapshot = configSnapshot config, r_created_at = now\<rparr>"

definition MarkHealthy ::
  "db \<Rightarrow> ident \<Rightarrow> config \<Rightarrow> ident \<Rightarrow> ident \<Rightarrow> stamp \<Rightarrow> store_error + deployment \<times> release \<times> db" where
  "MarkHealthy s i config evt rel now =
     next_step (row_or ErrNotFound (q_GetDeployment s i)) (\<lambda>d.
     next_step (move_check (d_state d) StateHealthy) (\<lambda>_.
     if deref (d_image_digest d) = [] then Inl ErrNoDigest
     else
       next_step (applyTransition s d StateHealthy [] [] evt now) (\<lambda>(d', s1).
       next_step (insert_release s1 (minted s1 rel d (deref (d_image_digest d)) config now)) (\<lambda>(r, s2).
       next_step (faulted (q_SetAppCurrentRelease s2 (d_app_id d) (r_id r) now)) (\<lambda>(_, s3).
       if d_source_release_id d \<noteq> None then
         next_step (replaceConfig s3 (d_app_id d) config now) (\<lambda>s4. Inr (d', r, s4))
       else Inr (d', r, s3))))))"

section \<open>Claims\<close>

fun no_rows_as :: "store_error \<Rightarrow> sql_error + 'a \<Rightarrow> store_error + 'a" where
  "no_rows_as e (Inl NoRows) = Inl e"
| "no_rows_as e (Inl f) = Inl (Fault f)"
| "no_rows_as e (Inr x) = Inr x"

lemma no_rows_as_Inr [simp]: "no_rows_as e r = Inr x \<longleftrightarrow> r = Inr x"
  by (cases "(e, r)" rule: no_rows_as.cases) auto

definition ClaimNext :: "db \<Rightarrow> string \<Rightarrow> stamp \<Rightarrow> store_error + deployment \<times> db" where
  "ClaimNext s by' now = no_rows_as ErrNotFound (q_ClaimNextDeployment s by' now)"

definition ReleaseBuildingClaim :: "db \<Rightarrow> ident \<Rightarrow> stamp \<Rightarrow> bool \<times> db" where
  "ReleaseBuildingClaim s i now = (let (n, s1) = q_ReleaseBuildingClaim s i now in (0 < n, s1))"

section \<open>Reads\<close>

definition GetDeployment :: "db \<Rightarrow> ident \<Rightarrow> store_error + deployment" where
  "GetDeployment s i = row_or ErrNotFound (q_GetDeployment s i)"

definition GetLatestDeploymentForApp :: "db \<Rightarrow> ident \<Rightarrow> store_error + deployment" where
  "GetLatestDeploymentForApp s app = row_or ErrNotFound (q_GetLatestDeploymentForApp s app)"

definition GetNextDeploymentForApp :: "db \<Rightarrow> ident \<Rightarrow> ident \<Rightarrow> store_error + deployment" where
  "GetNextDeploymentForApp s app after = row_or ErrNotFound (q_GetNextDeploymentForApp s app after)"

definition ListDeploymentsByApp :: "db \<Rightarrow> ident \<Rightarrow> string \<Rightarrow> int \<Rightarrow> deployment list" where
  "ListDeploymentsByApp s app cursor n = q_ListDeploymentsByApp s app cursor (page_limit n)"

definition ListNonTerminalDeployments :: "db \<Rightarrow> deployment list" where
  "ListNonTerminalDeployments s = q_ListNonTerminalDeployments s"

definition ListDeploymentEvents :: "db \<Rightarrow> ident \<Rightarrow> deployment_event list" where
  "ListDeploymentEvents s i = q_ListDeploymentEvents s i"

definition GetReleaseByDeployment :: "db \<Rightarrow> ident \<Rightarrow> store_error + release" where
  "GetReleaseByDeployment s i = row_or ErrNotFound (q_GetReleaseByDeployment s i)"

text \<open>A release as the listing reports it: no field for the configuration.\<close>

record ReleaseSummary =
  rs_id :: ident
  rs_release_number :: int
  rs_image_digest :: string
  rs_deployment_id :: ident
  rs_created_at :: stamp

definition ListReleaseSummariesByApp :: "db \<Rightarrow> ident \<Rightarrow> int \<Rightarrow> ReleaseSummary list" where
  "ListReleaseSummariesByApp s app n =
     map (\<lambda>(i, number, digest, dep, at). \<lparr>rs_id = i, rs_release_number = number,
            rs_image_digest = digest, rs_deployment_id = dep, rs_created_at = at\<rparr>)
       (q_ListReleaseSummariesByApp s app n)"

definition ListReleasesByApp :: "db \<Rightarrow> ident \<Rightarrow> string \<Rightarrow> int \<Rightarrow> release list" where
  "ListReleasesByApp s app cursor n = q_ListReleasesByApp s app cursor (page_limit n)"

definition GetRelease :: "db \<Rightarrow> ident \<Rightarrow> store_error + release" where
  "GetRelease s i = row_or ErrNotFound (q_GetRelease s i)"

definition GetReleaseByNumber :: "db \<Rightarrow> ident \<Rightarrow> int \<Rightarrow> store_error + release" where
  "GetReleaseByNumber s app n = row_or ErrNotFound (q_GetReleaseByNumber s app n)"

definition ReleaseConfigSnapshot :: "db \<Rightarrow> ident \<Rightarrow> store_error + config" where
  "ReleaseConfigSnapshot s i =
     next_step (GetRelease s i) (\<lambda>rel. decodeSnapshot (r_config_snapshot rel))"

section \<open>What a committed transaction did\<close>

text \<open>One row moved and one event appended, which is all a state change ever writes.\<close>

definition moved :: "db \<Rightarrow> deployment \<Rightarrow> state_params \<Rightarrow> deployment_event \<Rightarrow> stamp \<Rightarrow> db" where
  "moved s d p e now = s\<lparr>deployments := upd_where (\<lambda>x. d_id x = d_id d) (set_state p now) (deployments s),
     events := events s @ [e]\<rparr>"

text \<open>A move the machine allows, recorded the way the row and its event must agree.\<close>

definition fair_move :: "db \<Rightarrow> deployment \<Rightarrow> state_params \<Rightarrow> deployment_event \<Rightarrow> stamp \<Rightarrow> bool" where
  "fair_move s d p e now \<longleftrightarrow>
     sel_one (\<lambda>x. d_id x = d_id d) (deployments s) = Some d \<and>
     CanTransition (d_state d) (p_state p) \<and>
     p_finished_at p = (if Terminal (p_state p) then Some now else None) \<and>
     (p_failure_reason p = None \<or> p_state p \<in> {StateFailed, StateCancelled}) \<and>
     d_check (set_state p now d) \<and>
     e_deployment_id e = d_id d \<and> e_from_state e = Some (d_state d) \<and>
     e_to_state e = p_state p \<and> e_occurred_at e = now \<and>
     e_id e \<notin> e_id ` set (events s)"

lemma set_state_simps [simp]:
  "d_id (set_state p now d) = d_id d" "d_app_id (set_state p now d) = d_app_id d"
  "d_upload_id (set_state p now d) = d_upload_id d"
  "d_source_release_id (set_state p now d) = d_source_release_id d"
  "d_state (set_state p now d) = p_state p"
  "d_claimed_at (set_state p now d) = d_claimed_at d"
  "d_claimed_by (set_state p now d) = d_claimed_by d"
  "d_image_digest (set_state p now d) = d_image_digest d"
  "d_build_path (set_state p now d) = d_build_path d"
  "d_account_id (set_state p now d) = d_account_id d"
  "d_created_at (set_state p now d) = d_created_at d"
  "d_finished_at (set_state p now d) = coalesce (d_finished_at d) (p_finished_at p)"
  "d_failure_reason (set_state p now d) = coalesce (p_failure_reason p) (d_failure_reason d)"
  by (simp_all add: set_state_def)

lemma set_build_simps [simp]:
  "d_id (set_build b now d) = d_id d" "d_app_id (set_build b now d) = d_app_id d"
  "d_upload_id (set_build b now d) = d_upload_id d"
  "d_source_release_id (set_build b now d) = d_source_release_id d"
  "d_state (set_build b now d) = d_state d"
  "d_claimed_at (set_build b now d) = d_claimed_at d"
  "d_claimed_by (set_build b now d) = d_claimed_by d"
  "d_finished_at (set_build b now d) = d_finished_at d"
  "d_failure_reason (set_build b now d) = d_failure_reason d"
  "d_account_id (set_build b now d) = d_account_id d"
  "d_created_at (set_build b now d) = d_created_at d"
  by (simp_all add: set_build_def)

lemma set_claim_simps [simp]:
  "d_id (set_claim at by' now d) = d_id d" "d_app_id (set_claim at by' now d) = d_app_id d"
  "d_upload_id (set_claim at by' now d) = d_upload_id d"
  "d_source_release_id (set_claim at by' now d) = d_source_release_id d"
  "d_state (set_claim at by' now d) = d_state d"
  "d_claimed_at (set_claim at by' now d) = at"
  "d_claimed_by (set_claim at by' now d) = by'"
  "d_build_path (set_claim at by' now d) = d_build_path d"
  "d_finished_at (set_claim at by' now d) = d_finished_at d"
  "d_failure_reason (set_claim at by' now d) = d_failure_reason d"
  "d_account_id (set_claim at by' now d) = d_account_id d"
  "d_created_at (set_claim at by' now d) = d_created_at d"
  "d_image_digest (set_claim at by' now d) = d_image_digest d"
  by (simp_all add: set_claim_def)

lemma new_deployment_simps [simp]:
  "d_id (new_deployment i app acc up src digest now) = i"
  "d_app_id (new_deployment i app acc up src digest now) = app"
  "d_account_id (new_deployment i app acc up src digest now) = acc"
  "d_upload_id (new_deployment i app acc up src digest now) = up"
  "d_source_release_id (new_deployment i app acc up src digest now) = src"
  "d_state (new_deployment i app acc up src digest now) = StateQueued"
  "d_finished_at (new_deployment i app acc up src digest now) = None"
  "d_failure_reason (new_deployment i app acc up src digest now) = None"
  "d_claimed_at (new_deployment i app acc up src digest now) = None"
  "d_claimed_by (new_deployment i app acc up src digest now) = None"
  "d_image_digest (new_deployment i app acc up src digest now) = digest"
  "d_created_at (new_deployment i app acc up src digest now) = now"
  by (simp_all add: new_deployment_def)

text \<open>The update of a moving row and the insert of its event, run one after the other.\<close>

lemma update_then_event:
  assumes "q_UpdateDeploymentState s p now (d_id d) = Inr (d', s1)"
    and "q_InsertDeploymentEvent s1 e = Inr s2"
    and "sel_one (\<lambda>x. d_id x = d_id d) (deployments s) = Some d"
    and "e_deployment_id e = d_id d" "e_from_state e = Some (d_state d)" "e_to_state e = p_state p"
    and "e_occurred_at e = now" "CanTransition (d_state d) (p_state p)"
    and "p_finished_at p = (if Terminal (p_state p) then Some now else None)"
    and "p_failure_reason p = None \<or> p_state p \<in> {StateFailed, StateCancelled}"
  shows "fair_move s d p e now \<and> s2 = moved s d p e now \<and> d' = set_state p now d"
  using assms
  by (auto simp: fair_move_def moved_def q_UpdateDeploymentState_def q_InsertDeploymentEvent_def
      list_ex_iff split: if_splits option.splits)

lemma transition_params_simps [simp]:
  "p_state (transition_params d to' reason now) = to'"
  "p_finished_at (transition_params d to' reason now) = (if Terminal to' then Some now else None)"
  "p_failure_reason (transition_params d to' reason now) =
     (if to' = StateFailed \<and> reason \<noteq> [] then Some reason else None)"
  by (simp_all add: transition_params_def)

lemma transition_event_simps [simp]:
  "e_id (transition_event evt d to' reason detail now) = evt"
  "e_deployment_id (transition_event evt d to' reason detail now) = d_id d"
  "e_from_state (transition_event evt d to' reason detail now) = Some (d_state d)"
  "e_to_state (transition_event evt d to' reason detail now) = to'"
  "e_occurred_at (transition_event evt d to' reason detail now) = now"
  by (simp_all add: transition_event_def)

lemma applyTransition_Inr:
  assumes "applyTransition s d to' reason detail evt now = Inr (d', s')"
    and "sel_one (\<lambda>x. d_id x = d_id d) (deployments s) = Some d" "CanTransition (d_state d) to'"
  shows "fair_move s d (transition_params d to' reason now) (transition_event evt d to' reason detail now) now \<and>
    s' = moved s d (transition_params d to' reason now) (transition_event evt d to' reason detail now) now \<and>
    d' = set_state (transition_params d to' reason now) now d"
proof -
  obtain s1 where "q_UpdateDeploymentState s (transition_params d to' reason now) now (d_id d) = Inr (d', s1)"
    "q_InsertDeploymentEvent s1 (transition_event evt d to' reason detail now) = Inr s'"
    using assms(1) by (auto simp: applyTransition_def next_step_Inr)
  from update_then_event[OF this assms(2)] show ?thesis
    using assms(3) by simp
qed

lemma move_check_Inr [simp]: "move_check from to' = Inr u \<longleftrightarrow> CanTransition from to'"
  using CanTransition_not_Terminal by (auto simp: move_check_def)

lemma q_GetDeployment_Some:
  "q_GetDeployment s i = Some d \<Longrightarrow>
   d_id d = i \<and> d \<in> set (deployments s) \<and> sel_one (\<lambda>x. d_id x = d_id d) (deployments s) = Some d"
  using sel_one_Some by (fastforce simp: q_GetDeployment_def)

lemma Transition_Inr:
  assumes "Transition s i to' reason detail evt now = Inr (d', s')"
  obtains d p e where "q_GetDeployment s i = Some d" "to' \<noteq> StateHealthy" "p_state p = to'"
    "fair_move s d p e now" "s' = moved s d p e now" "d' = set_state p now d"
    "p = transition_params d to' reason now" "e = transition_event evt d to' reason detail now"
proof -
  obtain d where d: "q_GetDeployment s i = Some d" "to' \<noteq> StateHealthy" "CanTransition (d_state d) to'"
    "applyTransition s d to' reason detail evt now = Inr (d', s')"
    using assms by (auto simp: Transition_def next_step_Inr split: if_splits)
  show ?thesis
    by (rule that[OF d(1,2) _ _ _ _ refl refl])
      (use applyTransition_Inr[OF d(4) _ d(3)] q_GetDeployment_Some[OF d(1)] in auto)
qed

lemma superseded_params_simps [simp]:
  "p_state (superseded_params now) = StateCancelled"
  "p_finished_at (superseded_params now) = Some now"
  "p_failure_reason (superseded_params now) = Some (reason_code ReasonSuperseded)"
  by (simp_all add: superseded_params_def)

lemma supersede_Inr:
  assumes "supersede s app evt now = Inr (old, s')" and "\<And>d. d \<in> set (deployments s) \<Longrightarrow> Valid (d_state d)"
    and "distinct (map d_id (deployments s))"
  obtains "q_GetInFlightDeploymentForApp s app = None" "s' = s" "old = []"
  | d p e where "q_GetInFlightDeploymentForApp s app = Some d" "p = superseded_params now"
    "fair_move s d p e now" "s' = moved s d p e now" "old = d_id d" "e_id e = evt"
    "e_reason e = Some (reason_code ReasonSuperseded)"
proof (cases "q_GetInFlightDeploymentForApp s app")
  case None
  then have "old = [] \<and> s' = s" using assms(1) by (simp add: supersede_def)
  then show ?thesis using that(1)[OF None] by blast
next
  case (Some d)
  then have d: "d \<in> set (deployments s)" "in_flight d"
    by (auto simp: q_GetInFlightDeploymentForApp_def dest: sel_one_Some)
  have c: "CanTransition (d_state d) StateCancelled"
    using d assms(2) can_cancel in_flight_iff by blast
  define e where "e = \<lparr>e_id = evt, e_deployment_id = d_id d, e_from_state = Some (d_state d),
     e_to_state = StateCancelled, e_reason = Some (reason_code ReasonSuperseded),
     e_detail = None, e_occurred_at = now\<rparr>"
  have e: "e_id e = evt" "e_deployment_id e = d_id d" "e_from_state e = Some (d_state d)"
    "e_to_state e = StateCancelled" "e_reason e = Some (reason_code ReasonSuperseded)"
    "e_occurred_at e = now"
    by (simp_all add: e_def)
  obtain d1 s1 where u: "q_UpdateDeploymentState s (superseded_params now) now (d_id d) = Inr (d1, s1)"
    "q_InsertDeploymentEvent s1 e = Inr s'" "old = d_id d"
  proof -
    have "next_step (faulted (q_UpdateDeploymentState s (superseded_params now) now (d_id d)))
        (\<lambda>(_, s1). next_step (faulted (q_InsertDeploymentEvent s1 e)) (\<lambda>s2. Inr (d_id d, s2))) =
        Inr (old, s')"
      using assms(1) Some by (simp add: supersede_def e_def)
    then show ?thesis
      by (auto simp: next_step_Inr intro: that)
  qed
  have "fair_move s d (superseded_params now) e now \<and> s' = moved s d (superseded_params now) e now \<and>
      d1 = set_state (superseded_params now) now d"
    using update_then_event[OF u(1,2) sel_one_unique[OF assms(3) d(1)] e(2,3) _ e(6)] c e(4) by simp
  then show ?thesis
    using that(2)[OF Some refl _ _ u(3) e(1,5)] by blast
qed

lemma CreateDeployment_Inr:
  assumes "CreateDeployment s inp evt dep evt' now = Inr (d, old, s')"
  obtains a digest s1 where
    "(in_upload inp = None) \<noteq> (in_source inp = None)"
    "q_GetApp s (in_app inp) = Some a" "source_digest s inp = Inr digest"
    "supersede s (in_app inp) evt now = Inr (old, s1)"
    "d = new_deployment dep (in_app inp) (in_account inp) (in_upload inp) (in_source inp) digest now"
    "d_check d" "\<not> deployment_exists s1 dep" "\<not> list_ex (d_clash d) (deployments s1)"
    "app_exists s1 (in_app inp)" "account_exists s1 (in_account inp)"
    "fk_opt (upload_exists s1) (in_upload inp)" "fk_opt (release_exists s1) (in_source inp)"
    "evt' \<notin> e_id ` set (events s1)"
    "s' = s1\<lparr>deployments := deployments s1 @ [d], events := events s1 @ [birth_event evt' dep now]\<rparr>"
proof -
  have ne: "(in_upload inp = None) \<noteq> (in_source inp = None)"
    using assms by (simp add: CreateDeployment_def split: if_splits)
  obtain a where a: "q_GetApp s (in_app inp) = Some a"
    using assms ne by (auto simp: CreateDeployment_def next_step_Inr)
  obtain digest where digest: "source_digest s inp = Inr digest"
    using assms ne a by (auto simp: CreateDeployment_def next_step_Inr)
  obtain s1 s2 where s1: "supersede s (in_app inp) evt now = Inr (old, s1)"
    and s2: "q_CreateDeployment s1 dep (in_app inp) (in_account inp) (in_upload inp) (in_source inp)
       digest now = Inr (d, s2)"
    and s3: "q_InsertDeploymentEvent s2 (birth_event evt' dep now) = Inr s'"
    using assms ne a digest by (auto simp: CreateDeployment_def next_step_Inr)
  show ?thesis
    by (rule that[OF ne a digest s1])
      (use s2 s3 in \<open>auto simp: q_CreateDeployment_def q_InsertDeploymentEvent_def Let_def
         birth_event_def list_ex_iff split: if_splits\<close>)
qed

lemma restore_config_frame:
  "restore_config s app config now = Inr s' \<Longrightarrow> \<exists>cs. s' = s\<lparr>app_configs := cs\<rparr>"
proof (induction config arbitrary: s)
  case Nil
  then have "s' = s\<lparr>app_configs := app_configs s\<rparr>" by simp
  then show ?case by blast
next
  case (Cons kv config)
  obtain k v where kv: "kv = (k, v)" by (cases kv)
  obtain s1 where s1: "q_SetConfig s app k (cv_value v) (cv_secret v) now = Inr s1"
    "restore_config s1 app config now = Inr s'"
    using Cons.prems kv by (auto simp: next_step_Inr)
  obtain cs1 where "s1 = s\<lparr>app_configs := cs1\<rparr>"
    using s1(1) by (auto simp: q_SetConfig_def Let_def split: if_splits)
  then show ?case using Cons.IH[OF s1(2)] by auto
qed

lemma replaceConfig_frame:
  assumes "replaceConfig s app config now = Inr s'"
  obtains cs where "s' = s\<lparr>app_configs := cs\<rparr>"
  using restore_config_frame[OF assms[unfolded replaceConfig_def]]
  by (auto simp: q_ClearConfig_def)

definition release_row_of :: "db \<Rightarrow> release \<Rightarrow> bool" where
  "release_row_of s r \<longleftrightarrow> (\<forall>q \<in> set (releases s). r_id q \<noteq> r_id r \<and>
     r_deployment_id q \<noteq> r_deployment_id r \<and>
     (r_app_id q = r_app_id r \<longrightarrow> r_release_number q \<noteq> r_release_number r)) \<and>
     app_exists s (r_app_id r) \<and> deployment_exists s (r_deployment_id r)"

lemma insert_release_Inr:
  "insert_release s r = Inr (r', s') \<Longrightarrow>
   r' = r \<and> s' = s\<lparr>releases := releases s @ [r]\<rparr> \<and> release_row_of s r"
  by (auto simp: insert_release_def q_InsertRelease_def release_row_of_def list_ex_iff
      split: if_splits)

definition point_at :: "ident \<Rightarrow> ident \<Rightarrow> stamp \<Rightarrow> app list \<Rightarrow> app list" where
  "point_at app rel now t = upd_where (\<lambda>a. a_id a = app)
     (\<lambda>a. a\<lparr>a_current_release_id := Some rel, a_updated_at := now\<rparr>) t"

lemma SetAppCurrentRelease_Inr:
  "q_SetAppCurrentRelease s app rel now = Inr (n, s') \<Longrightarrow> s' = s\<lparr>apps := point_at app rel now (apps s)\<rparr>"
  by (auto simp: q_SetAppCurrentRelease_def point_at_def Let_def split: if_splits)

lemma MarkHealthy_Inr:
  assumes "MarkHealthy s i config evt rel now = Inr (d', r, s')"
  obtains d p e s1 cs where "q_GetDeployment s i = Some d" "d_state d = StateDeploying"
    "deref (d_image_digest d) \<noteq> []" "p = transition_params d StateHealthy [] now"
    "e = transition_event evt d StateHealthy [] [] now" "fair_move s d p e now" "s1 = moved s d p e now"
    "d' = set_state p now d" "r = minted s1 rel d (deref (d_image_digest d)) config now"
    "release_row_of s1 r"
    "s' = s1\<lparr>releases := releases s1 @ [r], apps := point_at (d_app_id d) rel now (apps s1),
       app_configs := cs\<rparr>"
    "d_source_release_id d = None \<Longrightarrow> cs = app_configs s"
    "d_source_release_id d \<noteq> None \<Longrightarrow>
       replaceConfig (s1\<lparr>releases := releases s1 @ [r], apps := point_at (d_app_id d) rel now (apps s1)\<rparr>)
         (d_app_id d) config now = Inr s'"
proof -
  obtain d where d: "q_GetDeployment s i = Some d" "CanTransition (d_state d) StateHealthy"
      "deref (d_image_digest d) \<noteq> []"
    using assms by (auto simp: MarkHealthy_def next_step_Inr split: if_splits)
  obtain dx s1 rx s2 n s3 where
    t: "applyTransition s d StateHealthy [] [] evt now = Inr (dx, s1)"
    and m: "insert_release s1 (minted s1 rel d (deref (d_image_digest d)) config now) = Inr (rx, s2)"
    and a: "q_SetAppCurrentRelease s2 (d_app_id d) (r_id rx) now = Inr (n, s3)"
    and c: "if d_source_release_id d \<noteq> None
        then next_step (replaceConfig s3 (d_app_id d) config now) (\<lambda>s4. Inr (dx, rx, s4)) = Inr (d', r, s')
        else d' = dx \<and> r = rx \<and> s' = s3"
    using assms d by (auto simp: MarkHealthy_def next_step_Inr split: if_splits)
  have sel: "sel_one (\<lambda>x. d_id x = d_id d) (deployments s) = Some d"
    using q_GetDeployment_Some[OF d(1)] by blast
  note T = applyTransition_Inr[OF t sel d(2)]
  note I = insert_release_Inr[OF m]
  have s3: "s3 = s1\<lparr>releases := releases s1 @ [rx], apps := point_at (d_app_id d) rel now (apps s1)\<rparr>"
    using SetAppCurrentRelease_Inr[OF a] I by (simp add: minted_def)
  have dr: "d' = dx" "r = rx"
    using c by (auto simp: next_step_Inr split: if_splits)
  have st: "d_state d = StateDeploying" using d(2) only_deploying_becomes_healthy by simp
  show ?thesis
  proof (cases "d_source_release_id d = None")
    case True
    then have "s' = s3\<lparr>app_configs := app_configs s\<rparr>"
      using c s3 T by (simp add: moved_def)
    then show ?thesis
      using that[OF d(1) st d(3) refl refl _ refl, where cs = "app_configs s"] T I s3 dr True by auto
  next
    case False
    then have rc: "replaceConfig s3 (d_app_id d) config now = Inr s'"
      using c by (auto simp: next_step_Inr)
    obtain cs where "s' = s3\<lparr>app_configs := cs\<rparr>"
      using replaceConfig_frame[OF rc] by blast
    then show ?thesis
      using that[OF d(1) st d(3) refl refl _ refl, where cs = cs] T I s3 dr rc False by auto
  qed
qed

end
