(* ===== verification/Store_Apps.thy ===== *)
theory Store_Apps
  imports Store_Deployments Slug
begin

text \<open>
  \<^verbatim>\<open>internal/store/apps.go\<close> and \<^verbatim>\<open>config.go\<close>: creating, listing and retiring an app, its
  configuration, and what its current release ran with. The random suffixes and the identifiers
  of the attempts of \<open>CreateApp\<close> are lists, one element for each attempt in order.
\<close>

section \<open>Creating an app\<close>

definition slugAttempts :: nat where "slugAttempts = 5"

definition nameTaken :: "db \<Rightarrow> ident \<Rightarrow> runes \<Rightarrow> bool" where
  "nameTaken s acc name \<longleftrightarrow> q_GetAppByName s acc name \<noteq> None"

text \<open>\<open>for range slugAttempts\<close>, with the identifier and the suffix each attempt draws.\<close>

fun slug_loop ::
  "db \<Rightarrow> ident \<Rightarrow> runes \<Rightarrow> (ident \<times> string) list \<Rightarrow> stamp \<Rightarrow> store_error + app \<times> db" where
  "slug_loop s acc name [] now = Inl ErrSlugTaken"
| "slug_loop s acc name ((i, suffix) # draws) now =
     (case q_CreateApp s i acc name (DeriveSlugWithSuffix name suffix) now of
        Inr created \<Rightarrow> Inr created
      | Inl e \<Rightarrow>
          if isUniqueViolation e then
            if nameTaken s acc name then Inl ErrAppNameTaken
            else slug_loop s acc name draws now
          else Inl (Fault e))"

definition CreateApp ::
  "db \<Rightarrow> ident \<Rightarrow> runes \<Rightarrow> int \<Rightarrow> (ident \<times> string) list \<Rightarrow> stamp \<Rightarrow> store_error + app \<times> db" where
  "CreateApp s acc name limit draws now =
     (if ReservedLabel name then Inl ErrAppNameReserved
      else if limit \<le> int (q_CountLiveAppsByAccount s acc) then Inl ErrAppLimit
      else slug_loop s acc name (take slugAttempts draws) now)"

section \<open>Reading apps\<close>

definition GetApp :: "db \<Rightarrow> ident \<Rightarrow> store_error + app" where
  "GetApp s i = row_or ErrNotFound (q_GetApp s i)"

definition GetAppBySlug :: "db \<Rightarrow> string \<Rightarrow> store_error + app" where
  "GetAppBySlug s sl = row_or ErrNotFound (q_GetAppBySlug s sl)"

definition GetAppByName :: "db \<Rightarrow> ident \<Rightarrow> runes \<Rightarrow> store_error + app" where
  "GetAppByName s acc name = row_or ErrNotFound (q_GetAppByName s acc name)"

definition ListAppsByAccount :: "db \<Rightarrow> ident \<Rightarrow> string \<Rightarrow> int \<Rightarrow> app list" where
  "ListAppsByAccount s acc cursor n = q_ListAppsByAccount s acc cursor (page_limit n)"

definition CountLiveAppsByAccount :: "db \<Rightarrow> ident \<Rightarrow> nat" where
  "CountLiveAppsByAccount s acc = q_CountLiveAppsByAccount s acc"

definition CountLiveAppsPerAccount :: "db \<Rightarrow> (ident \<times> nat) list" where
  "CountLiveAppsPerAccount s =
     map (\<lambda>acc. (acc, q_CountLiveAppsByAccount s acc))
       (remdups (map a_account_id (filter live (apps s))))"

definition LiveAppSlugs :: "db \<Rightarrow> string list" where
  "LiveAppSlugs s = q_LiveAppSlugs s"

definition SlugTaken :: "db \<Rightarrow> string \<Rightarrow> bool" where
  "SlugTaken s sl = q_SlugExists s sl"

record AppSummary =
  s_id :: ident
  s_name :: runes
  s_slug :: string
  s_created_at :: stamp
  s_serving_release :: int
  s_last_deployment_id :: string
  s_last_deployment_state :: string
  s_last_deployment_reason :: string
  s_last_deployed_at :: string

text \<open>\<open>MAX(finished_at)\<close> over an app's deployments, NULL coalesced to the empty text.\<close>

definition last_finished :: "db \<Rightarrow> ident \<Rightarrow> string" where
  "last_finished s app =
     fold max (map (\<lambda>d. deref (d_finished_at d)) (filter (\<lambda>d. d_app_id d = app) (deployments s))) []"

definition summary_of :: "db \<Rightarrow> app \<Rightarrow> AppSummary" where
  "summary_of s a =
     (let d = q_GetLatestDeploymentForApp s (a_id a);
          r = (case a_current_release_id a of None \<Rightarrow> None | Some i \<Rightarrow> q_GetRelease s i)
      in \<lparr>s_id = a_id a, s_name = a_name a, s_slug = a_slug a, s_created_at = a_created_at a,
          s_serving_release = (case r of None \<Rightarrow> 0 | Some r \<Rightarrow> r_release_number r),
          s_last_deployment_id = deref (map_option d_id d),
          s_last_deployment_state = deref (map_option (\<lambda>d. state_text (d_state d)) d),
          s_last_deployment_reason = (case d of None \<Rightarrow> [] | Some d \<Rightarrow> deref (d_failure_reason d)),
          s_last_deployed_at = last_finished s (a_id a)\<rparr>)"

definition ListAppSummaryPage :: "db \<Rightarrow> ident \<Rightarrow> string \<Rightarrow> int \<Rightarrow> AppSummary list" where
  "ListAppSummaryPage s acc cursor n =
     map (summary_of s) (q_ListAppsByAccount s acc cursor (page_limit n))"

definition ListAppSummaries :: "db \<Rightarrow> ident \<Rightarrow> int \<Rightarrow> AppSummary list" where
  "ListAppSummaries s acc n = map (summary_of s) (q_ListAppsByAccount s acc [] n)"

section \<open>Retiring an app\<close>

definition SoftDeleteApp :: "db \<Rightarrow> ident \<Rightarrow> stamp \<Rightarrow> store_error + db" where
  "SoftDeleteApp s app now =
     (if 0 < q_CountInFlightDeploymentsForApp s app then Inl ErrDeploymentInFlight
      else let (n, s1) = q_SoftDeleteApp s app now
           in if n = 0 then Inl ErrNotFound else Inr s1)"

section \<open>Configuration\<close>

record ConfigEntry =
  ce_key :: string
  ce_value :: string
  ce_secret :: bool

definition ListConfigForResponse :: "db \<Rightarrow> ident \<Rightarrow> ConfigEntry list" where
  "ListConfigForResponse s app =
     map (\<lambda>(k, sec, v). \<lparr>ce_key = k, ce_value = deref v, ce_secret = sec\<rparr>)
       (q_ListConfigForResponse s app)"

definition ListConfigForDeploy :: "db \<Rightarrow> ident \<Rightarrow> ConfigEntry list" where
  "ListConfigForDeploy s app =
     map (\<lambda>(k, v, sec). \<lparr>ce_key = k, ce_value = v, ce_secret = sec\<rparr>) (q_ListConfigForDeploy s app)"

definition CurrentReleaseConfig :: "db \<Rightarrow> ident \<Rightarrow> store_error + (string \<times> string) list" where
  "CurrentReleaseConfig s app =
     next_step (GetApp s app) (\<lambda>a.
     if deref (a_current_release_id a) = [] then Inr []
     else case q_GetRelease s (deref (a_current_release_id a)) of
       None \<Rightarrow> Inr []
     | Some rel \<Rightarrow>
         next_step (decodeSnapshot (r_config_snapshot rel))
           (\<lambda>m. Inr (map (\<lambda>(k, v). (k, cv_value v)) m)))"

fun SetConfigBatch :: "db \<Rightarrow> ident \<Rightarrow> ConfigEntry list \<Rightarrow> stamp \<Rightarrow> store_error + db" where
  "SetConfigBatch s app [] now = Inr s"
| "SetConfigBatch s app (e # es) now =
     (if \<not> ValidConfigKey (ce_key e) then Inl ErrInvalidKey
      else case q_SetConfig s app (ce_key e) (ce_value e) (ce_secret e) now of
        Inl f \<Rightarrow> Inl (if isConstraintViolation f then ErrInvalidKey else Fault f)
      | Inr s1 \<Rightarrow> SetConfigBatch s1 app es now)"

definition SetConfig :: "db \<Rightarrow> ident \<Rightarrow> string \<Rightarrow> string \<Rightarrow> bool \<Rightarrow> stamp \<Rightarrow> store_error + db" where
  "SetConfig s app key val secret now =
     SetConfigBatch s app [\<lparr>ce_key = key, ce_value = val, ce_secret = secret\<rparr>] now"

fun UnsetConfigBatch :: "db \<Rightarrow> ident \<Rightarrow> string list \<Rightarrow> store_error + db" where
  "UnsetConfigBatch s app [] = Inr s"
| "UnsetConfigBatch s app (key # keys) =
     (case q_UnsetConfig s app key of
        (n, s1) \<Rightarrow> if n = 0 then Inl ErrNotFound else UnsetConfigBatch s1 app keys)"

definition UnsetConfig :: "db \<Rightarrow> ident \<Rightarrow> string \<Rightarrow> store_error + db" where
  "UnsetConfig s app key = UnsetConfigBatch s app [key]"

end
