(* ===== verification/Store_Uploads.thy ===== *)
theory Store_Uploads
  imports Store_Schema
begin

text \<open>
  \<^verbatim>\<open>internal/store/uploads.go\<close> and the audit writes of \<^verbatim>\<open>accounts.go\<close>: recording an upload
  under the unclaimed ceiling, spending its single use token, replacing the token, the expiry
  sweep, and the retention sweep over deployments, events and uploads. The two cutoffs of
  \<open>Sweep\<close> are the stamps the code computes from its clock.
\<close>

definition CreateUpload :: "db \<Rightarrow> upload \<Rightarrow> int \<Rightarrow> ident \<Rightarrow> stamp \<Rightarrow> store_error + upload \<times> db" where
  "CreateUpload s u limit drawn now =
     (let i = (if u_id u = [] then drawn else u_id u) in
      if 0 < limit \<and> limit \<le> int (q_CountUnclaimedUploads s (u_account_id u) now)
      then Inl ErrUploadLimit
      else faulted (q_CreateUpload s (u\<lparr>u_id := i, u_redeemed_at := None,
             u_created_at := now, u_updated_at := now\<rparr>)))"

definition CountUnclaimedUploads :: "db \<Rightarrow> ident \<Rightarrow> stamp \<Rightarrow> nat" where
  "CountUnclaimedUploads s acc now = q_CountUnclaimedUploads s acc now"

definition ListSweepableUploads :: "db \<Rightarrow> stamp \<Rightarrow> (ident \<times> string) list" where
  "ListSweepableUploads s now = q_ListSweepableUploads s now"

definition DeleteUpload :: "db \<Rightarrow> ident \<Rightarrow> store_error + db" where
  "DeleteUpload s i = next_step (faulted (q_DeleteUpload s i)) (\<lambda>(_, s1). Inr s1)"

definition GetUpload :: "db \<Rightarrow> ident \<Rightarrow> store_error + upload" where
  "GetUpload s i = row_or ErrNotFound (q_GetUpload s i)"

text \<open>The second read after zero rows, which only tells the caller why.\<close>

definition why_unredeemable :: "db \<Rightarrow> string \<Rightarrow> store_error" where
  "why_unredeemable s h =
     (case sel_one (\<lambda>u. u_fetch_token_hash u = h) (uploads s) of
        None \<Rightarrow> ErrNotFound
      | Some u \<Rightarrow> if u_redeemed_at u \<noteq> None then ErrUploadRedeemed else ErrUploadExpired)"

definition RedeemUpload :: "db \<Rightarrow> string \<Rightarrow> stamp \<Rightarrow> store_error + upload \<times> db" where
  "RedeemUpload s h now =
     (case q_RedeemUpload s h now of
        Inr x \<Rightarrow> Inr x
      | Inl NoRows \<Rightarrow> Inl (why_unredeemable s h)
      | Inl e \<Rightarrow> Inl (Fault e))"

definition SetUploadFetchToken :: "db \<Rightarrow> ident \<Rightarrow> string \<Rightarrow> stamp \<Rightarrow> store_error + db" where
  "SetUploadFetchToken s i h now =
     next_step (faulted (q_SetUploadFetchToken s i h now))
       (\<lambda>(n, s1). if n = 0 then Inl ErrNotFound else Inr s1)"

record SweepCounts =
  sc_deployments :: nat
  sc_events :: nat
  sc_uploads :: nat

definition Sweep :: "db \<Rightarrow> stamp \<Rightarrow> stamp \<Rightarrow> stamp \<Rightarrow> store_error + SweepCounts \<times> db" where
  "Sweep s cutoff upload_cutoff now =
     (let (child_events, s1) = q_DeleteEventsOfSweptDeployments s cutoff in
      next_step (faulted (q_DeleteSweptDeployments s1 cutoff)) (\<lambda>(n, s2).
      let (aged, s3) = q_DeleteAgedEvents s2 cutoff;
          (ups, s4) = q_DeleteStaleUploads s3 upload_cutoff now
      in Inr (\<lparr>sc_deployments = n, sc_events = child_events + aged, sc_uploads = ups\<rparr>, s4)))"

section \<open>Audit\<close>

record AuditEntry =
  au_account_id :: string
  au_action :: string
  au_target_type :: string
  au_target_id :: string
  au_allowed :: bool
  au_reason :: string
  au_client_address :: string

definition RecordAudit :: "db \<Rightarrow> AuditEntry \<Rightarrow> ident \<Rightarrow> stamp \<Rightarrow> store_error + db" where
  "RecordAudit s e i now =
     faulted (q_InsertAuditLog s
       \<lparr>l_id = i, l_account_id = optional (au_account_id e), l_action = au_action e,
        l_target_type = optional (au_target_type e), l_target_id = optional (au_target_id e),
        l_outcome = (if au_allowed e then ''allowed'' else ''denied''),
        l_reason = optional (au_reason e), l_occurred_at = now,
        l_client_address = optional (au_client_address e)\<rparr>)"

definition ClearOldAuditAddresses :: "db \<Rightarrow> stamp \<Rightarrow> nat \<times> db" where
  "ClearOldAuditAddresses s cutoff = q_ClearOldAuditAddresses s cutoff"

definition GetAccount :: "db \<Rightarrow> ident \<Rightarrow> store_error + account" where
  "GetAccount s i = row_or ErrNotFound (q_GetAccount s i)"

definition GetAccountByName :: "db \<Rightarrow> string \<Rightarrow> store_error + account" where
  "GetAccountByName s name = row_or ErrNotFound (q_GetAccountByName s name)"

definition CreateAccount :: "db \<Rightarrow> string \<Rightarrow> ident \<Rightarrow> stamp \<Rightarrow> store_error + account \<times> db" where
  "CreateAccount s name i now = faulted (q_CreateAccount s i name now)"

end
