(* ===== verification/Store_Machine.thy ===== *)
theory Store_Machine
  imports Store_Apps Store_Uploads
begin

text \<open>
  The store as a transition system. \<open>work_step\<close> is one committed call of any operation of
  \<^verbatim>\<open>internal/store\<close> that writes, \<open>sweep_step\<close> the retention sweep, and \<open>store_reachable\<close> the
  databases a sequence of them can leave behind, starting from the migrated but empty file. The
  abstract specification is \<open>effect\<close>: six kinds of change, each of which says only what happens
  to the rows of apps, deployments, events and releases. Every committed call is at most two
  effects (\<open>work_effects\<close>), and the invariant \<open>store_ok\<close> is proved once over the effects.
\<close>

section \<open>Steps\<close>

text \<open>What the transactions on people write to these tables.\<close>

inductive person_write :: "db \<Rightarrow> db \<Rightarrow> bool" where
  registered: "q_CreateIdentityAccount s i (Some email) hash display now = Inr (acc, s') \<Longrightarrow> person_write s s'"
| verified: "q_MarkEmailVerified s i now = (n, s') \<Longrightarrow> person_write s s'"
| connected: "q_MarkAccountConnected s i now = (n, s') \<Longrightarrow> person_write s s'"
| password: "q_SetPasswordHash s i hash now = (n, s') \<Longrightarrow> person_write s s'"
| locked: "q_SetAccountDisabled s i at now = (n, s') \<Longrightarrow> person_write s s'"

lemma person_write_frame: "person_write s s' \<Longrightarrow> \<exists>as. s' = s\<lparr>accounts := as\<rparr>"
  by (induction rule: person_write.induct)
    (auto simp: q_CreateIdentityAccount_def q_MarkEmailVerified_def q_MarkAccountConnected_def q_SetPasswordHash_def
      q_SetAccountDisabled_def upd_accounts_def Let_def split: if_splits)

inductive work_step :: "db \<Rightarrow> db \<Rightarrow> bool" where
  account: "CreateAccount s name i now = Inr (acc, s') \<Longrightarrow> work_step s s'"
| app: "CreateApp s acc name limit draws now = Inr (a, s') \<Longrightarrow> work_step s s'"
| delete: "SoftDeleteApp s app now = Inr s' \<Longrightarrow> work_step s s'"
| set_config: "SetConfigBatch s app es now = Inr s' \<Longrightarrow> work_step s s'"
| unset_config: "UnsetConfigBatch s app keys = Inr s' \<Longrightarrow> work_step s s'"
| upload: "CreateUpload s u lim i now = Inr (u', s') \<Longrightarrow> work_step s s'"
| redeem: "RedeemUpload s h now = Inr (u', s') \<Longrightarrow> work_step s s'"
| fetch_token: "SetUploadFetchToken s i h now = Inr s' \<Longrightarrow> work_step s s'"
| drop_upload: "DeleteUpload s i = Inr s' \<Longrightarrow> work_step s s'"
| deploy: "CreateDeployment s inp evt dep evt' now = Inr (d, old, s') \<Longrightarrow> work_step s s'"
| transition: "Transition s i to' reason detail evt now = Inr (d, s') \<Longrightarrow> work_step s s'"
| build: "RecordBuildResult s i r now = Inr s' \<Longrightarrow> work_step s s'"
| healthy: "MarkHealthy s i config evt rel now = Inr (d, r, s') \<Longrightarrow> work_step s s'"
| claim: "ClaimNext s by' now = Inr (d, s') \<Longrightarrow> work_step s s'"
| unclaim: "ReleaseBuildingClaim s i now = (b, s') \<Longrightarrow> work_step s s'"
| audit: "RecordAudit s e i now = Inr s' \<Longrightarrow> work_step s s'"
| addresses: "ClearOldAuditAddresses s cutoff = (n, s') \<Longrightarrow> work_step s s'"
| person: "person_write s s' \<Longrightarrow> work_step s s'"

inductive sweep_step :: "db \<Rightarrow> db \<Rightarrow> bool" where
  sweep: "Sweep s cutoff upload_cutoff now = Inr (n, s') \<Longrightarrow> sweep_step s s'"

inductive store_reachable :: "db \<Rightarrow> bool" where
  reach_empty: "store_reachable empty_db"
| reach_work: "store_reachable s \<Longrightarrow> work_step s s' \<Longrightarrow> store_reachable s'"
| reach_sweep: "store_reachable s \<Longrightarrow> sweep_step s s' \<Longrightarrow> store_reachable s'"

section \<open>The abstract specification\<close>

text \<open>What every write but the creation and the pointing of an app keeps of an app's row.\<close>

definition app_kept :: "app \<Rightarrow> app \<Rightarrow> bool" where
  "app_kept a b \<longleftrightarrow> a_id b = a_id a \<and> a_account_id b = a_account_id a \<and> a_name b = a_name a \<and>
     a_slug b = a_slug a \<and> a_current_release_id b = a_current_release_id a \<and> (live b \<longrightarrow> live a)"

definition core_kept :: "deployment \<Rightarrow> deployment \<Rightarrow> bool" where
  "core_kept d e \<longleftrightarrow> d_id e = d_id d \<and> d_app_id e = d_app_id d \<and> d_account_id e = d_account_id d \<and>
     d_upload_id e = d_upload_id d \<and> d_source_release_id e = d_source_release_id d \<and>
     d_state e = d_state d \<and> d_finished_at e = d_finished_at d \<and>
     d_failure_reason e = d_failure_reason d \<and> d_created_at e = d_created_at d"

definition dep_refs :: "db \<Rightarrow> deployment \<Rightarrow> bool" where
  "dep_refs s d \<longleftrightarrow> app_exists s (d_app_id d) \<and> fk_opt (upload_exists s) (d_upload_id d) \<and>
     fk_opt (\<lambda>i. \<exists>r \<in> set (releases s). r_id r = i \<and> r_app_id r = d_app_id d) (d_source_release_id d)"

definition fresh_birth :: "db \<Rightarrow> deployment \<Rightarrow> deployment_event \<Rightarrow> bool" where
  "fresh_birth s d e \<longleftrightarrow> d_state d = StateQueued \<and> d_finished_at d = None \<and>
     d_failure_reason d = None \<and> d_claimed_at d = None \<and> d_claimed_by d = None \<and> d_check d \<and>
     \<not> deployment_exists s (d_id d) \<and> \<not> list_ex (d_clash d) (deployments s) \<and>
     dep_refs s d \<and> e_deployment_id e = d_id d \<and> e_from_state e = None \<and> e_to_state e = StateQueued \<and>
     e_id e \<notin> e_id ` set (events s)"

inductive effect :: "db \<Rightarrow> db \<Rightarrow> bool" where
  quiet: "deployments s' = deployments s \<Longrightarrow> events s' = events s \<Longrightarrow> releases s' = releases s \<Longrightarrow>
    apps s' = map g (apps s) \<Longrightarrow> (\<And>a. app_kept a (g a)) \<Longrightarrow>
    (\<And>i. upload_named s i \<Longrightarrow> upload_exists s i \<Longrightarrow> upload_exists s' i) \<Longrightarrow> effect s s'"
| new_app: "\<not> list_ex (app_clash a) (apps s) \<Longrightarrow> a_current_release_id a = None \<Longrightarrow> live a \<Longrightarrow>
    effect s (s\<lparr>apps := apps s @ [a]\<rparr>)"
| touch: "(\<And>d. core_kept d (f d)) \<Longrightarrow> (\<And>d. d \<in> set (deployments s) \<Longrightarrow> P d \<Longrightarrow> d_check d \<Longrightarrow> d_check (f d)) \<Longrightarrow>
    effect s (s\<lparr>deployments := upd_where P f (deployments s)\<rparr>)"
| move: "fair_move s d p e now \<Longrightarrow> p_state p \<noteq> StateHealthy \<Longrightarrow> effect s (moved s d p e now)"
| birth: "fresh_birth s d e \<Longrightarrow>
    effect s (s\<lparr>deployments := deployments s @ [d], events := events s @ [e]\<rparr>)"
| mint: "fair_move s d p e now \<Longrightarrow> p_state p = StateHealthy \<Longrightarrow> s1 = moved s d p e now \<Longrightarrow>
    release_row_of s1 r \<Longrightarrow> r_app_id r = d_app_id d \<Longrightarrow> r_deployment_id r = d_id d \<Longrightarrow>
    r_release_number r = q_NextReleaseNumber s (d_app_id d) \<Longrightarrow>
    effect s (s1\<lparr>releases := releases s1 @ [r],
      apps := point_at (d_app_id d) (r_id r) now (apps s1), app_configs := cs\<rparr>)"

section \<open>The invariant\<close>

definition keys_ok :: "db \<Rightarrow> bool" where
  "keys_ok s \<longleftrightarrow> distinct (map a_id (apps s)) \<and> distinct (map d_id (deployments s)) \<and>
     distinct (map e_id (events s)) \<and> distinct (map r_id (releases s)) \<and>
     distinct (map r_deployment_id (releases s))"

text \<open>A hostname belongs to one app row for ever; a name to one live app of its account.\<close>

definition names_ok :: "db \<Rightarrow> bool" where
  "names_ok s \<longleftrightarrow> distinct (map a_slug (apps s)) \<and>
     distinct (map (\<lambda>a. (a_account_id a, a_name a)) (filter live (apps s)))"

definition one_in_flight :: "db \<Rightarrow> bool" where
  "one_in_flight s \<longleftrightarrow> (\<forall>d \<in> set (deployments s). \<forall>e \<in> set (deployments s).
     in_flight d \<longrightarrow> in_flight e \<longrightarrow> d_app_id d = d_app_id e \<longrightarrow> d_id d = d_id e)"

definition life_ok :: "deployment \<Rightarrow> bool" where
  "life_ok d \<longleftrightarrow> d_check d \<and> (d_finished_at d \<noteq> None \<longleftrightarrow> Terminal (d_state d)) \<and>
     (d_failure_reason d \<noteq> None \<longrightarrow> d_state d \<in> {StateFailed, StateCancelled})"

definition refs_ok :: "db \<Rightarrow> bool" where
  "refs_ok s \<longleftrightarrow> (\<forall>d \<in> set (deployments s). dep_refs s d) \<and>
     (\<forall>e \<in> set (events s). deployment_exists s (e_deployment_id e)) \<and>
     (\<forall>r \<in> set (releases s). app_exists s (r_app_id r))"

text \<open>A deployment is healthy exactly when a release was minted for it, under its own app.\<close>

definition released_ok :: "db \<Rightarrow> bool" where
  "released_ok s \<longleftrightarrow>
     (\<forall>r \<in> set (releases s). \<exists>d \<in> set (deployments s). d_id d = r_deployment_id r \<and>
        d_state d = StateHealthy \<and> d_app_id d = r_app_id r) \<and>
     (\<forall>d \<in> set (deployments s). d_state d = StateHealthy \<longrightarrow>
        (\<exists>r \<in> set (releases s). r_deployment_id r = d_id d))"

definition app_releases :: "db \<Rightarrow> ident \<Rightarrow> release list" where
  "app_releases s app = filter (\<lambda>r. r_app_id r = app) (releases s)"

definition numbered_ok :: "db \<Rightarrow> bool" where
  "numbered_ok s \<longleftrightarrow> (\<forall>app. map r_release_number (app_releases s app) =
     map int [1..<Suc (length (app_releases s app))])"

definition newest_release :: "db \<Rightarrow> ident \<Rightarrow> ident option" where
  "newest_release s app = (if app_releases s app = [] then None else Some (r_id (last (app_releases s app))))"

definition pointed_ok :: "db \<Rightarrow> bool" where
  "pointed_ok s \<longleftrightarrow> (\<forall>a \<in> set (apps s). a_current_release_id a = newest_release s (a_id a))"

definition store_ok :: "db \<Rightarrow> bool" where
  "store_ok s \<longleftrightarrow> keys_ok s \<and> names_ok s \<and> one_in_flight s \<and> (\<forall>d \<in> set (deployments s). life_ok d) \<and>
     refs_ok s \<and> released_ok s \<and> numbered_ok s \<and> pointed_ok s"

section \<open>The invariant holds of the empty file\<close>

lemma store_ok_empty: "store_ok empty_db"
  by (simp add: store_ok_def empty_db_def keys_ok_def names_ok_def one_in_flight_def refs_ok_def
      released_ok_def numbered_ok_def pointed_ok_def app_releases_def)

section \<open>What the parts of an effect leave alone\<close>

lemma moved_simps [simp]:
  "apps (moved s d p e now) = apps s" "releases (moved s d p e now) = releases s"
  "uploads (moved s d p e now) = uploads s" "events (moved s d p e now) = events s @ [e]"
  "app_configs (moved s d p e now) = app_configs s" "accounts (moved s d p e now) = accounts s"
  "deployments (moved s d p e now) = upd_where (\<lambda>x. d_id x = d_id d) (set_state p now) (deployments s)"
  by (simp_all add: moved_def)

lemma map_point_at [simp]:
  "map a_id (point_at app rel now t) = map a_id t"
  "map a_slug (point_at app rel now t) = map a_slug t"
  "map (\<lambda>a. (a_account_id a, a_name a)) (filter live (point_at app rel now t)) =
   map (\<lambda>a. (a_account_id a, a_name a)) (filter live t)"
  unfolding point_at_def by (induction t) (auto simp: live_def)

lemma map_id_upd [simp]:
  "map d_id (upd_where P (set_state p now) t) = map d_id t"
  by (rule map_upd_where) simp

lemma map_id_core: "(\<And>d. core_kept d (f d)) \<Longrightarrow> map d_id (upd_where P f t) = map d_id t"
  by (rule map_upd_where) (simp add: core_kept_def)

lemma map_apps_kept:
  assumes "\<And>a. app_kept a (g a)"
  shows "map (a_id \<circ> g) t = map a_id t" "map (a_slug \<circ> g) t = map a_slug t"
  using assms by (auto simp: app_kept_def)

lemma exists_ids:
  "app_exists s i \<longleftrightarrow> i \<in> set (map a_id (apps s))"
  "deployment_exists s i \<longleftrightarrow> i \<in> set (map d_id (deployments s))"
  by (auto simp: app_exists_def deployment_exists_def list_ex_iff)

lemma exists_moved [simp]:
  "app_exists (moved s d p e now) i = app_exists s i"
  "release_exists (moved s d p e now) i = release_exists s i"
  "upload_exists (moved s d p e now) i = upload_exists s i"
  "deployment_exists (moved s d p e now) i = deployment_exists s i"
  by (simp add: exists_ids(1)) (simp_all add: exists_ids(2) release_exists_def upload_exists_def
      del: set_map)

section \<open>Each part of the invariant, over the effects\<close>

lemma effect_keys: "effect s s' \<Longrightarrow> keys_ok s \<Longrightarrow> keys_ok s'"
proof (induction rule: effect.induct)
  case (quiet s' s g)
  then show ?case by (simp add: keys_ok_def map_apps_kept)
next
  case (new_app a s)
  then show ?case by (auto simp: keys_ok_def list_ex_iff app_clash_def)
next
  case (touch f s P)
  then show ?case by (simp add: keys_ok_def map_id_core)
next
  case (move s d p e now)
  then show ?case by (auto simp: keys_ok_def fair_move_def)
next
  case (birth s d e)
  then show ?case by (auto simp: keys_ok_def fresh_birth_def exists_ids)
next
  case (mint s d p e now s1 r cs)
  then show ?case by (auto simp: keys_ok_def fair_move_def release_row_of_def)
qed

lemma distinct_live_names:
  assumes "\<And>a. app_kept a (g a)" "distinct (map (\<lambda>a. (a_account_id a, a_name a)) (filter live t))"
  shows "distinct (map (\<lambda>a. (a_account_id a, a_name a)) (filter live (map g t)))"
  using assms(2)
proof (induction t)
  case (Cons a t)
  have "set (map (\<lambda>a. (a_account_id a, a_name a)) (filter live (map g t)))
      \<subseteq> set (map (\<lambda>a. (a_account_id a, a_name a)) (filter live t))"
    using assms(1) by (force simp: app_kept_def)
  then show ?case using Cons assms(1)[of a] by (auto simp: app_kept_def split: if_splits)
qed simp

lemma effect_names: "effect s s' \<Longrightarrow> names_ok s \<Longrightarrow> names_ok s'"
proof (induction rule: effect.induct)
  case (quiet s' s g)
  then show ?case by (simp add: names_ok_def map_apps_kept distinct_live_names)
next
  case (new_app a s)
  then show ?case by (auto simp: names_ok_def list_ex_iff app_clash_def)
next
  case (touch f s P)
  then show ?case by (simp add: names_ok_def)
next
  case (move s d p e now)
  then show ?case by (simp add: names_ok_def)
next
  case (birth s d e)
  then show ?case by (simp add: names_ok_def)
next
  case (mint s d p e now s1 r cs)
  then show ?case by (simp add: names_ok_def)
qed

lemma in_flight_core: "core_kept d e \<Longrightarrow> in_flight e = in_flight d"
  by (simp add: core_kept_def in_flight_def)

lemma one_in_flight_upd:
  assumes "one_in_flight s"
    and "\<And>d. d \<in> set (deployments s) \<Longrightarrow> P d \<Longrightarrow>
      d_id (f d) = d_id d \<and> d_app_id (f d) = d_app_id d \<and> (in_flight (f d) \<longrightarrow> in_flight d)"
    and "deployments s' = upd_where P f (deployments s)"
  shows "one_in_flight s'"
proof -
  have old: "\<exists>d0 \<in> set (deployments s). d_id d = d_id d0 \<and> d_app_id d = d_app_id d0 \<and> (in_flight d \<longrightarrow> in_flight d0)"
    if "d \<in> set (deployments s')" for d
    using that assms(2) unfolding assms(3) set_upd_where by blast
  show ?thesis
    unfolding one_in_flight_def
  proof (intro ballI impI)
    fix d e assume h: "d \<in> set (deployments s')" "e \<in> set (deployments s')" "in_flight d" "in_flight e"
      "d_app_id d = d_app_id e"
    obtain d0 e0 where "d0 \<in> set (deployments s)" "d_id d = d_id d0" "d_app_id d = d_app_id d0" "in_flight d0"
      "e0 \<in> set (deployments s)" "d_id e = d_id e0" "d_app_id e = d_app_id e0" "in_flight e0"
      using old[OF h(1)] old[OF h(2)] h(3,4) by blast
    then show "d_id d = d_id e"
      using assms(1) h(5) unfolding one_in_flight_def by metis
  qed
qed

lemma fair_moveD:
  assumes "fair_move s d p e now"
  shows "d \<in> set (deployments s)" "CanTransition (d_state d) (p_state p)" "e_deployment_id e = d_id d"
    "e_from_state e = Some (d_state d)" "e_to_state e = p_state p" "e_id e \<notin> e_id ` set (events s)"
proof -
  show "d \<in> set (deployments s)"
    using assms sel_one_Some unfolding fair_move_def by metis
qed (use assms in \<open>simp_all add: fair_move_def\<close>)

lemma fair_move_flight:
  assumes "fair_move s d p e now" "keys_ok s" "x \<in> set (deployments s)" "d_id x = d_id d"
  shows "x = d" "in_flight x"
proof -
  have "d \<in> set (deployments s)" using assms(1) by (auto simp: fair_move_def)
  then show "x = d" using assms(2-4) keyed_eq[of d_id] by (auto simp: keys_ok_def)
  moreover have "in_flight d"
    using assms(1) CanTransition_not_Terminal by (auto simp: fair_move_def in_flight_iff)
  ultimately show "in_flight x" by simp
qed

lemma one_in_flightD:
  "one_in_flight s \<Longrightarrow> d \<in> set (deployments s) \<Longrightarrow> e \<in> set (deployments s) \<Longrightarrow>
   in_flight d \<Longrightarrow> in_flight e \<Longrightarrow> d_app_id d = d_app_id e \<Longrightarrow> d_id d = d_id e"
  unfolding one_in_flight_def by blast

lemma one_in_flight_cong: "deployments s' = deployments s \<Longrightarrow> one_in_flight s' = one_in_flight s"
  by (simp only: one_in_flight_def)

lemma one_in_flight_born:
  assumes "one_in_flight s" "\<not> list_ex (d_clash d) (deployments s)" "in_flight d"
    and "deployments s' = deployments s @ [d]"
  shows "one_in_flight s'"
proof -
  have "d_app_id e \<noteq> d_app_id d" if "e \<in> set (deployments s)" "in_flight e" for e
    using assms(2,3) that by (auto simp: list_ex_iff d_clash_def)
  note other = this
  have "d_id e = d_id f"
    if h: "e \<in> set (deployments s')" "f \<in> set (deployments s')" "in_flight e" "in_flight f"
      "d_app_id e = d_app_id f" for e f
  proof -
    consider "e \<in> set (deployments s)" "f \<in> set (deployments s)" | "e = d" "f = d"
      using h other[of e] other[of f] assms(4) by fastforce
    then show ?thesis
    proof cases
      case 1
      show ?thesis by (rule one_in_flightD[OF assms(1) 1 h(3-5)])
    next
      case 2
      then show ?thesis by (simp only:)
    qed
  qed
  then show ?thesis unfolding one_in_flight_def by blast
qed

lemma effect_one_in_flight: "effect s s' \<Longrightarrow> keys_ok s \<Longrightarrow> one_in_flight s \<Longrightarrow> one_in_flight s'"
proof (induction rule: effect.induct)
  case (quiet s' s g)
  then show ?case using one_in_flight_cong by blast
next
  case (new_app a s)
  then show ?case by (simp add: one_in_flight_cong[of "s\<lparr>apps := apps s @ [a]\<rparr>" s])
next
  case (touch f s P)
  have "d_id (f d) = d_id d \<and> d_app_id (f d) = d_app_id d \<and> (in_flight (f d) \<longrightarrow> in_flight d)" for d
    using touch.hyps(1)[of d] in_flight_core[OF touch.hyps(1)] by (simp add: core_kept_def)
  then show ?case
    using one_in_flight_upd[OF touch.prems(2), of P f] by simp
next
  case (move s d p e now)
  show ?case
    by (rule one_in_flight_upd[OF move.prems(2), of "\<lambda>x. d_id x = d_id d" "set_state p now"])
      (use fair_move_flight[OF move.hyps(1) move.prems(1)] in auto)
next
  case (birth s d e)
  show ?case
    by (rule one_in_flight_born[OF birth.prems(2), of d])
      (use birth.hyps in \<open>simp_all add: fresh_birth_def in_flight_def\<close>)
next
  case (mint s d p e now s1 r cs)
  show ?case
    by (rule one_in_flight_upd[OF mint.prems(2), of "\<lambda>x. d_id x = d_id d" "set_state p now"])
      (use fair_move_flight[OF mint.hyps(1) mint.prems(1)] mint.hyps(3) in auto)
qed

lemma life_moved:
  assumes "fair_move s d p e now" "keys_ok s" "\<forall>x \<in> set (deployments s). life_ok x"
  shows "\<forall>x \<in> set (deployments (moved s d p e now)). life_ok x"
proof
  fix x assume "x \<in> set (deployments (moved s d p e now))"
  then consider "x \<in> set (deployments s)" | "x = set_state p now d"
    using fair_move_flight(1)[OF assms(1,2)] by (auto simp: set_upd_where)
  then show "life_ok x"
  proof cases
    case 2
    have d: "d \<in> set (deployments s)" "in_flight d"
      using assms(1) CanTransition_not_Terminal by (auto simp: fair_move_def in_flight_iff)
    then have "d_finished_at d = None" "d_failure_reason d = None"
      using assms(3) by (auto simp: life_ok_def in_flight_iff Terminal_def)
    then show ?thesis using 2 assms(1) by (auto simp: life_ok_def fair_move_def)
  qed (use assms(3) in blast)
qed

lemma effect_life:
  "effect s s' \<Longrightarrow> keys_ok s \<Longrightarrow> \<forall>d \<in> set (deployments s). life_ok d \<Longrightarrow>
   \<forall>d \<in> set (deployments s'). life_ok d"
proof (induction rule: effect.induct)
  case (touch f s P)
  have "life_ok (f d)" if "d \<in> set (deployments s)" "P d" for d
    using touch.hyps(1)[of d] touch.hyps(2)[OF that] touch.prems(2) that
    by (auto simp: life_ok_def core_kept_def)
  then show ?case using touch.prems(2) by (auto simp: set_upd_where)
next
  case (move s d p e now)
  show ?case by (rule life_moved[OF move.hyps(1) move.prems])
next
  case (birth s d e)
  then show ?case by (auto simp: fresh_birth_def life_ok_def)
next
  case (mint s d p e now s1 r cs)
  then show ?case using life_moved[OF mint.hyps(1) mint.prems] by simp
qed auto

lemma dep_refs_mono:
  assumes "dep_refs s d" "d_app_id e = d_app_id d" "d_upload_id e = d_upload_id d"
    "d_source_release_id e = d_source_release_id d"
    and "\<And>i. app_exists s i \<Longrightarrow> app_exists s' i"
    and "\<And>i. d_upload_id d = Some i \<Longrightarrow> upload_exists s i \<Longrightarrow> upload_exists s' i"
    and "set (releases s) \<subseteq> set (releases s')"
  shows "dep_refs s' e"
proof -
  have "fk_opt (upload_exists s') (d_upload_id e)"
    using assms(1,3,6) by (cases "d_upload_id d") (auto simp: dep_refs_def)
  moreover have "fk_opt (\<lambda>i. \<exists>r \<in> set (releases s'). r_id r = i \<and> r_app_id r = d_app_id e)
      (d_source_release_id e)"
    using assms(1,2,4,7) by (cases "d_source_release_id d") (auto simp: dep_refs_def)
  ultimately show ?thesis
    using assms(1,2,5) by (simp add: dep_refs_def)
qed

lemma effect_refs: "effect s s' \<Longrightarrow> refs_ok s \<Longrightarrow> refs_ok s'"
proof (induction rule: effect.induct)
  case (quiet s' s g)
  have "dep_refs s' d" if "d \<in> set (deployments s)" for d
  proof (rule dep_refs_mono[of s d])
    show "dep_refs s d" using quiet.prems that by (simp add: refs_ok_def)
    show "upload_exists s' i" if "d_upload_id d = Some i" "upload_exists s i" for i
      using quiet.hyps(6) that \<open>d \<in> set (deployments s)\<close> by (auto simp: upload_named_def list_ex_iff)
  qed (use quiet.hyps in \<open>simp_all add: exists_ids map_apps_kept del: set_map\<close>)
  then show ?case using quiet by (simp add: refs_ok_def exists_ids map_apps_kept del: set_map)
next
  case (new_app a s)
  let ?s = "s\<lparr>apps := apps s @ [a]\<rparr>"
  have mono: "app_exists s i \<Longrightarrow> app_exists ?s i" for i by (simp add: app_exists_def)
  have "dep_refs ?s d" if "dep_refs s d" for d
    by (rule dep_refs_mono[OF that]) (auto simp: mono upload_exists_def)
  then show ?case using new_app mono by (simp add: refs_ok_def deployment_exists_def)
next
  case (touch f s P)
  let ?s = "s\<lparr>deployments := upd_where P f (deployments s)\<rparr>"
  have "dep_refs ?s d" "dep_refs ?s (f d)" if "dep_refs s d" for d
    using touch.hyps(1)[of d]
    by (auto intro!: dep_refs_mono[OF that] simp: core_kept_def app_exists_def upload_exists_def)
  then show ?case using touch.prems map_id_core[OF touch.hyps(1)]
    by (auto simp: refs_ok_def set_upd_where exists_ids app_exists_def simp del: set_map)
next
  case (move s d p e now)
  have "dep_refs (moved s d p e now) x" "dep_refs (moved s d p e now) (set_state p now x)"
    if "dep_refs s x" for x
    by (auto intro!: dep_refs_mono[OF that])
  then have rows: "\<forall>x \<in> set (deployments (moved s d p e now)). dep_refs (moved s d p e now) x"
    using move.prems unfolding refs_ok_def moved_simps(7) set_upd_where by blast
  have "deployment_exists s (e_deployment_id e)"
    using fair_moveD(1,3)[OF move.hyps(1)] by (simp add: exists_ids)
  then have "\<forall>e' \<in> set (events s @ [e]). deployment_exists s (e_deployment_id e')"
    using move.prems by (simp add: refs_ok_def)
  then show ?case using rows move.prems unfolding refs_ok_def exists_moved moved_simps(1,2,4) by blast
next
  case (birth s d e)
  let ?s = "s\<lparr>deployments := deployments s @ [d], events := events s @ [e]\<rparr>"
  have "dep_refs ?s x" if "dep_refs s x" for x
    by (rule dep_refs_mono[OF that]) (auto simp: app_exists_def upload_exists_def)
  then show ?case using birth
    by (auto simp: refs_ok_def fresh_birth_def deployment_exists_def app_exists_def)
next
  case (mint s d p e now s1 r cs)
  let ?s = "s1\<lparr>releases := releases s1 @ [r], apps := point_at (d_app_id d) (r_id r) now (apps s1),
      app_configs := cs\<rparr>"
  have app: "app_exists ?s i \<longleftrightarrow> app_exists s i" for i
    using mint.hyps(3) by (simp add: exists_ids del: set_map)
  have dep: "deployment_exists ?s i \<longleftrightarrow> deployment_exists s i" for i
    using mint.hyps(3) by (simp add: exists_ids del: set_map)
  have "dep_refs ?s x" "dep_refs ?s (set_state p now x)" if "dep_refs s x" for x
    using mint.hyps(3) app by (auto intro!: dep_refs_mono[OF that] simp: upload_exists_def)
  moreover have "app_exists s (r_app_id r)" "deployment_exists s (d_id d)"
    using mint.hyps by (simp_all add: release_row_of_def)
  moreover have "e_deployment_id e = d_id d"
    using mint.hyps(1) by (simp add: fair_move_def)
  moreover have rows: "deployments ?s = upd_where (\<lambda>x. d_id x = d_id d) (set_state p now) (deployments s)"
    "events ?s = events s @ [e]" "releases ?s = releases s @ [r]"
    using mint.hyps(3) by simp_all
  moreover have "\<forall>x \<in> set (deployments ?s). dep_refs ?s x"
    using mint.prems calculation(1,2) unfolding refs_ok_def rows(1) set_upd_where by blast
  ultimately show ?case using mint.prems
    unfolding refs_ok_def app dep by simp
qed

section \<open>Releases\<close>

lemma fair_move_not_healthy:
  "fair_move s d p e now \<Longrightarrow> d_state d \<noteq> StateHealthy"
  using CanTransition_not_Terminal by (auto simp: fair_move_def Terminal_def)

lemma released_upd:
  assumes "released_ok s" "releases s' = releases s" "deployments s' = upd_where P f (deployments s)"
    and "\<And>d. d \<in> set (deployments s) \<Longrightarrow> P d \<Longrightarrow> d_id (f d) = d_id d \<and> d_app_id (f d) = d_app_id d \<and>
      (d_state (f d) = StateHealthy \<longleftrightarrow> d_state d = StateHealthy)"
  shows "released_ok s'"
  unfolding released_ok_def
proof (intro conjI ballI impI)
  fix r assume "r \<in> set (releases s')"
  then obtain d where d: "d \<in> set (deployments s)" "d_id d = r_deployment_id r"
      "d_state d = StateHealthy" "d_app_id d = r_app_id r"
    using assms(1,2) by (auto simp: released_ok_def)
  then show "\<exists>d \<in> set (deployments s'). d_id d = r_deployment_id r \<and>
      d_state d = StateHealthy \<and> d_app_id d = r_app_id r"
    using assms(4)[OF d(1)] by (cases "P d") (auto simp: assms(3) set_upd_where)
next
  fix d assume "d \<in> set (deployments s')" "d_state d = StateHealthy"
  then obtain x where "x \<in> set (deployments s)" "d_state x = StateHealthy" "d_id x = d_id d"
    using assms(4) by (auto simp: assms(3) set_upd_where)
  then show "\<exists>r \<in> set (releases s'). r_deployment_id r = d_id d"
    using assms(1) unfolding released_ok_def assms(2) by metis
qed

lemma effect_released: "effect s s' \<Longrightarrow> keys_ok s \<Longrightarrow> released_ok s \<Longrightarrow> released_ok s'"
proof (induction rule: effect.induct)
  case (touch f s P)
  have "d_id (f d) = d_id d \<and> d_app_id (f d) = d_app_id d \<and> d_state (f d) = d_state d" for d
    using touch.hyps(1)[of d] by (simp add: core_kept_def)
  then show ?case using released_upd[OF touch.prems(2), of _ P f] by simp
next
  case (move s d p e now)
  show ?case
    by (rule released_upd[OF move.prems(2), of _ "\<lambda>x. d_id x = d_id d" "set_state p now"])
      (use fair_move_flight(1)[OF move.hyps(1) move.prems(1)] fair_move_not_healthy[OF move.hyps(1)]
        move.hyps(2) in auto)
next
  case (birth s d e)
  then show ?case by (auto simp: released_ok_def fresh_birth_def)
next
  case (mint s d p e now s1 r cs)
  let ?s = "s1\<lparr>releases := releases s1 @ [r], apps := point_at (d_app_id d) (r_id r) now (apps s1),
      app_configs := cs\<rparr>"
  have ds: "deployments ?s = upd_where (\<lambda>x. d_id x = d_id d) (set_state p now) (deployments s)"
    "releases ?s = releases s @ [r]"
    using mint.hyps(3) by simp_all
  have d: "d \<in> set (deployments s)" using mint.hyps(1) by (auto simp: fair_move_def)
  have old: "x \<in> set (deployments ?s)" if "x \<in> set (deployments s)" "d_state x = StateHealthy" for x
  proof -
    have "d_id x \<noteq> d_id d"
      using fair_move_flight(1)[OF mint.hyps(1) mint.prems(1) that(1)] fair_move_not_healthy[OF mint.hyps(1)] that(2)
      by auto
    then show ?thesis using that(1) unfolding ds by (simp add: set_upd_where)
  qed
  have new: "set_state p now d \<in> set (deployments ?s)"
    unfolding ds set_upd_where using d by blast
  show ?case
    unfolding released_ok_def
  proof (intro conjI ballI impI)
    fix q assume "q \<in> set (releases ?s)"
    then consider "q \<in> set (releases s)" | "q = r" using ds by auto
    then show "\<exists>d \<in> set (deployments ?s). d_id d = r_deployment_id q \<and>
        d_state d = StateHealthy \<and> d_app_id d = r_app_id q"
    proof cases
      case 1
      then show ?thesis using mint.prems(2) old unfolding released_ok_def by blast
    next
      case 2
      then show ?thesis using new mint.hyps by (intro bexI[OF _ new]) simp
    qed
  next
    fix x assume x: "x \<in> set (deployments ?s)" "d_state x = StateHealthy"
    show "\<exists>q \<in> set (releases ?s). r_deployment_id q = d_id x"
    proof (cases "d_id x = d_id d")
      case True
      then show ?thesis unfolding ds(2) using mint.hyps(6) by simp
    next
      case False
      then have "x \<in> set (deployments s)" using x(1) unfolding ds set_upd_where by auto
      then show ?thesis using mint.prems(2) x(2) unfolding ds(2) released_ok_def by auto
    qed
  qed
qed (auto simp: released_ok_def)

section \<open>Numbering and the current release\<close>

lemma next_number:
  assumes "numbered_ok s"
  shows "q_NextReleaseNumber s app = int (length (app_releases s app)) + 1"
proof (cases "length (app_releases s app)")
  case 0
  then show ?thesis by (simp add: q_NextReleaseNumber_def app_releases_def)
next
  case (Suc n)
  have eq: "map r_release_number (app_releases s app) = map int [1..<Suc (Suc n)]"
    using assms Suc by (simp add: numbered_ok_def)
  obtain m ms where m: "map r_release_number (app_releases s app) = m # ms"
    using Suc by (cases "app_releases s app") auto
  have "fold max ms m = Max (set (m # ms))"
    using Max.set_eq_fold[of m ms] by simp
  also have "set (m # ms) = int ` {1..<Suc (Suc n)}"
    using arg_cong[OF eq, of set] unfolding m set_map set_upt .
  also have "Max (int ` {1..<Suc (Suc n)}) = int (Suc n)"
    by (rule Max_eqI) (use image_eqI[of "int (Suc n)" int "Suc n"] in auto)
  finally show ?thesis
    using m Suc by (simp add: q_NextReleaseNumber_def app_releases_def)
qed

lemma app_releases_add:
  "releases s' = releases s @ [r] \<Longrightarrow>
   app_releases s' app = app_releases s app @ (if r_app_id r = app then [r] else [])"
  by (simp add: app_releases_def)

lemma app_releases_cong: "releases s' = releases s \<Longrightarrow> app_releases s' app = app_releases s app"
  by (simp add: app_releases_def)

lemma numbered_cong: "releases s' = releases s \<Longrightarrow> numbered_ok s' = numbered_ok s"
  by (simp add: numbered_ok_def app_releases_def)

lemma newest_cong: "releases s' = releases s \<Longrightarrow> newest_release s' app = newest_release s app"
  by (simp add: newest_release_def app_releases_def)

lemma effect_numbered: "effect s s' \<Longrightarrow> numbered_ok s \<Longrightarrow> numbered_ok s'"
proof (induction rule: effect.induct)
  case (quiet s' s g)
  then show ?case using numbered_cong by blast
next
  case (new_app a s)
  then show ?case using numbered_cong[of "s\<lparr>apps := apps s @ [a]\<rparr>" s] by simp
next
  case (touch f s P)
  then show ?case using numbered_cong[of "s\<lparr>deployments := upd_where P f (deployments s)\<rparr>" s] by simp
next
  case (move s d p e now)
  then show ?case using numbered_cong[of "moved s d p e now" s] by simp
next
  case (birth s d e)
  then show ?case
    using numbered_cong[of "s\<lparr>deployments := deployments s @ [d], events := events s @ [e]\<rparr>" s] by simp
next
  case (mint s d p e now s1 r cs)
  let ?s = "s1\<lparr>releases := releases s1 @ [r], apps := point_at (d_app_id d) (r_id r) now (apps s1),
      app_configs := cs\<rparr>"
  have add: "app_releases ?s app = app_releases s app @ (if d_app_id d = app then [r] else [])" for app
    using mint.hyps(3,5) by (subst app_releases_add[of _ s r]) simp_all
  have "r_release_number r = int (Suc (length (app_releases s (d_app_id d))))"
    using mint.hyps(7) next_number[OF mint.prems] by simp
  then show ?case
    using mint.prems unfolding numbered_ok_def add by simp
qed

lemma pointed_upd:
  assumes "pointed_ok s" "releases s' = releases s" "apps s' = map g (apps s)"
    and "\<And>a. a_id (g a) = a_id a \<and> a_current_release_id (g a) = a_current_release_id a"
  shows "pointed_ok s'"
  using assms(1,4) newest_cong[OF assms(2)] by (simp add: pointed_ok_def assms(3))

lemma effect_pointed: "effect s s' \<Longrightarrow> refs_ok s \<Longrightarrow> pointed_ok s \<Longrightarrow> pointed_ok s'"
proof (induction rule: effect.induct)
  case (quiet s' s g)
  then show ?case
    by (intro pointed_upd[OF quiet.prems(2) quiet.hyps(3,4)]) (simp add: app_kept_def)
next
  case (new_app a s)
  have "r_app_id r \<noteq> a_id a" if "r \<in> set (releases s)" for r
    using new_app that by (force simp: refs_ok_def app_exists_def list_ex_iff app_clash_def)
  then have "newest_release s (a_id a) = None"
    by (auto simp: newest_release_def app_releases_def filter_empty_conv)
  then show ?case
    using new_app.prems new_app.hyps(2) newest_cong[of "s\<lparr>apps := apps s @ [a]\<rparr>" s]
    by (simp add: pointed_ok_def)
next
  case (touch f s P)
  show ?case by (rule pointed_upd[OF touch.prems(2), of _ id]) simp_all
next
  case (move s d p e now)
  show ?case by (rule pointed_upd[OF move.prems(2), of _ id]) simp_all
next
  case (birth s d e)
  show ?case by (rule pointed_upd[OF birth.prems(2), of _ id]) simp_all
next
  case (mint s d p e now s1 r cs)
  have "app_releases (s1\<lparr>releases := releases s1 @ [r], apps := as, app_configs := cs\<rparr>) app =
      app_releases s app @ (if d_app_id d = app then [r] else [])" for as app
    using mint.hyps(3,5) by (subst app_releases_add[of _ s r]) simp_all
  then have new: "newest_release (s1\<lparr>releases := releases s1 @ [r], apps := as, app_configs := cs\<rparr>) app =
      (if app = d_app_id d then Some (r_id r) else newest_release s app)" for as app
    by (simp add: newest_release_def)
  have "apps s1 = apps s" using mint.hyps(3) by simp
  then show ?case
    using mint.prems(2) by (auto simp: pointed_ok_def new point_at_def set_upd_where)
qed

lemma effect_ok: "effect s s' \<Longrightarrow> store_ok s \<Longrightarrow> store_ok s'"
  unfolding store_ok_def
  using effect_keys effect_names effect_one_in_flight effect_life effect_refs effect_released
    effect_numbered effect_pointed by blast

section \<open>Every operation is made of effects\<close>

lemma app_kept_refl [simp]: "app_kept a a"
  by (simp add: app_kept_def)

lemma quiet_same:
  assumes "deployments s' = deployments s" "events s' = events s" "releases s' = releases s"
    "apps s' = apps s" "\<And>i. upload_named s i \<Longrightarrow> upload_exists s i \<Longrightarrow> upload_exists s' i"
  shows "effect s s'"
  by (rule effect.quiet[OF assms(1-3) _ _ assms(5), of id]) (simp_all add: assms(4))

lemma q_SetConfig_frame: "q_SetConfig s app k v sec now = Inr s' \<Longrightarrow> \<exists>cs. s' = s\<lparr>app_configs := cs\<rparr>"
  by (auto simp: q_SetConfig_def Let_def split: if_splits)

lemma SetConfigBatch_frame: "SetConfigBatch s app es now = Inr s' \<Longrightarrow> \<exists>cs. s' = s\<lparr>app_configs := cs\<rparr>"
proof (induction es arbitrary: s)
  case Nil
  then have "s' = s\<lparr>app_configs := app_configs s\<rparr>" by simp
  then show ?case by blast
next
  case (Cons e es)
  obtain s1 where s1: "q_SetConfig s app (ce_key e) (ce_value e) (ce_secret e) now = Inr s1"
    "SetConfigBatch s1 app es now = Inr s'"
    using Cons.prems by (auto split: if_splits sum.splits)
  then show ?case using q_SetConfig_frame[OF s1(1)] Cons.IH[OF s1(2)] by auto
qed

lemma UnsetConfigBatch_frame: "UnsetConfigBatch s app keys = Inr s' \<Longrightarrow> \<exists>cs. s' = s\<lparr>app_configs := cs\<rparr>"
proof (induction keys arbitrary: s)
  case Nil
  then have "s' = s\<lparr>app_configs := app_configs s\<rparr>" by simp
  then show ?case by blast
next
  case (Cons k keys)
  obtain s1 where s1: "s1 = snd (q_UnsetConfig s app k)" "UnsetConfigBatch s1 app keys = Inr s'"
    using Cons.prems by (auto split: prod.splits if_splits)
  then show ?case using Cons.IH[OF s1(2)] by (auto simp: q_UnsetConfig_def Let_def)
qed

lemma slug_loop_Inr:
  "slug_loop s acc name draws now = Inr (a, s') \<Longrightarrow>
   \<exists>i sl. (i, sl) \<in> set draws \<and> q_CreateApp s i acc name (DeriveSlugWithSuffix name sl) now = Inr (a, s')"
proof (induction draws)
  case (Cons d draws)
  obtain i sl where d: "d = (i, sl)" by (cases d)
  show ?case
  proof (cases "q_CreateApp s i acc name (DeriveSlugWithSuffix name sl) now")
    case (Inl e)
    then show ?thesis using Cons d by (auto split: if_splits)
  next
    case (Inr x)
    then show ?thesis using Cons.prems d by auto
  qed
qed simp

lemma q_CreateApp_Inr:
  "q_CreateApp s i acc name sl now = Inr (a, s') \<Longrightarrow>
   a_id a = i \<and> a_account_id a = acc \<and> a_name a = name \<and> a_slug a = sl \<and> live a \<and>
   a_current_release_id a = None \<and> \<not> list_ex (app_clash a) (apps s) \<and> account_exists s acc \<and>
   s' = s\<lparr>apps := apps s @ [a]\<rparr>"
  by (auto simp: q_CreateApp_def Let_def live_def split: if_splits)

lemma touch_build:
  assumes "RecordBuildResult s i r now = Inr s'"
  shows "effect s s'"
proof -
  obtain b where b: "\<forall>d \<in> set (deployments s). d_id d = i \<longrightarrow> d_check (set_build b now d)"
    "s' = s\<lparr>deployments := upd_where (\<lambda>d. d_id d = i) (set_build b now) (deployments s)\<rparr>"
    using assms by (auto simp: RecordBuildResult_def q_RecordBuildResult_def next_step_Inr Let_def
        list_ex_iff split: if_splits)
  show ?thesis unfolding b(2) by (rule effect.touch) (use b(1) in \<open>simp_all add: core_kept_def\<close>)
qed

lemma d_check_claim [simp]: "d_check (set_claim at by' now d) = d_check d"
  by (simp add: d_check_def)

lemma touch_claim: "effect s (s\<lparr>deployments := upd_where P (set_claim at by' now) (deployments s)\<rparr>)"
  by (rule effect.touch) (simp_all add: core_kept_def)

lemma claim_effect:
  assumes "ClaimNext s by' now = Inr (d, s')"
  shows "effect s s'"
proof -
  obtain e where "q_ClaimNextDeployment s by' now = Inr (e, s')"
    using assms by (auto simp: ClaimNext_def)
  then show ?thesis
    by (auto simp: q_ClaimNextDeployment_def intro!: touch_claim split: option.splits)
qed

lemma birth_effect:
  assumes "CreateDeployment s inp evt dep evt' now = Inr (d, old, s')" "store_ok s"
  obtains s1 where "s1 = s \<or> effect s s1" "effect s1 s'" "supersede s (in_app inp) evt now = Inr (old, s1)"
    "fresh_birth s1 d (birth_event evt' dep now)"
    "s' = s1\<lparr>deployments := deployments s1 @ [d], events := events s1 @ [birth_event evt' dep now]\<rparr>"
proof -
  obtain a digest s1 where c: "source_digest s inp = Inr digest"
    "supersede s (in_app inp) evt now = Inr (old, s1)"
    "d = new_deployment dep (in_app inp) (in_account inp) (in_upload inp) (in_source inp) digest now"
    "d_check d" "\<not> deployment_exists s1 dep" "\<not> list_ex (d_clash d) (deployments s1)"
    "app_exists s1 (in_app inp)" "fk_opt (upload_exists s1) (in_upload inp)"
    "evt' \<notin> e_id ` set (events s1)"
    "s' = s1\<lparr>deployments := deployments s1 @ [d], events := events s1 @ [birth_event evt' dep now]\<rparr>"
    using CreateDeployment_Inr[OF assms(1)] by blast
  have valid: "Valid (d_state x)" if "x \<in> set (deployments s)" for x
    using assms(2) that by (auto simp: store_ok_def life_ok_def d_check_def)
  have dist: "distinct (map d_id (deployments s))"
    using assms(2) by (simp add: store_ok_def keys_ok_def)
  have s1: "(s1 = s \<or> effect s s1) \<and> releases s1 = releases s"
  proof (rule supersede_Inr[OF c(2) valid dist])
    fix x p e assume "p = superseded_params now" "fair_move s x p e now" "s1 = moved s x p e now"
    then show ?thesis using effect.move[of s x p e now] by simp
  qed simp_all
  have "fk_opt (\<lambda>i. \<exists>r \<in> set (releases s). r_id r = i \<and> r_app_id r = in_app inp) (in_source inp)"
    using c(1) sel_one_Some
    by (cases "in_source inp") (auto simp: source_digest_def q_GetRelease_def split: option.splits if_splits)
  then have "dep_refs s1 d"
    using c(3,7,8) s1 by (simp add: dep_refs_def)
  then have fresh: "fresh_birth s1 d (birth_event evt' dep now)"
    using c(3-6,9) by (simp add: fresh_birth_def birth_event_def)
  show ?thesis
    by (rule that[OF _ _ c(2) fresh c(10)]) (use s1 effect.birth[OF fresh] c(10) in simp_all)
qed

lemma mint_effect:
  assumes "MarkHealthy s i config evt rel now = Inr (d', r, s')"
  shows "effect s s'"
proof (rule MarkHealthy_Inr[OF assms])
  fix d p e s1 cs
  assume m: "p = transition_params d StateHealthy [] now"
    "fair_move s d p e now" "s1 = moved s d p e now"
    "r = minted s1 rel d (deref (d_image_digest d)) config now" "release_row_of s1 r"
    "s' = s1\<lparr>releases := releases s1 @ [r], apps := point_at (d_app_id d) rel now (apps s1), app_configs := cs\<rparr>"
  have "q_NextReleaseNumber s1 app = q_NextReleaseNumber s app" for app
    unfolding m(3) by (simp add: q_NextReleaseNumber_def)
  then have r: "r_id r = rel" "r_app_id r = d_app_id d" "r_deployment_id r = d_id d"
    "r_release_number r = q_NextReleaseNumber s (d_app_id d)"
    unfolding m(4) minted_def by simp_all
  have "p_state p = StateHealthy" unfolding m(1) by simp
  from effect.mint[OF m(2) this m(3) m(5) r(2-4), of cs] show "effect s s'"
    unfolding m(6) r(1) .
qed

lemma upload_exists_ids: "upload_exists s i \<longleftrightarrow> i \<in> set (map u_id (uploads s))"
  by (auto simp: upload_exists_def list_ex_iff)

lemma redeem_frame: "RedeemUpload s h now = Inr (u, s') \<Longrightarrow>
   s' = s\<lparr>uploads := upd_where (redeemable h now) (redeemed now) (uploads s)\<rparr>"
  by (auto simp: RedeemUpload_def q_RedeemUpload_def split: option.splits sum.splits sql_error.splits)

lemma work_effects: "work_step s s' \<Longrightarrow> store_ok s \<Longrightarrow> effect\<^sup>*\<^sup>* s s'"
proof (induction rule: work_step.induct)
  case (account s name i now acc s')
  then have "effect s s'"
    by (intro quiet_same) (auto simp: CreateAccount_def q_CreateAccount_def Let_def upload_exists_def
        split: if_splits)
  then show ?case by blast
next
  case (app s acc name limit draws now a s')
  then obtain i sl where "q_CreateApp s i acc name sl now = Inr (a, s')"
    using slug_loop_Inr by (fastforce simp: CreateApp_def split: if_splits)
  from q_CreateApp_Inr[OF this] have "effect s s'"
    using effect.new_app[of a s] by simp
  then show ?case by blast
next
  case (delete s app now s')
  let ?g = "\<lambda>a. if a_id a = app \<and> live a then a\<lparr>a_deleted_at := Some now, a_updated_at := now\<rparr> else a"
  have "s' = s\<lparr>apps := map ?g (apps s)\<rparr>"
    using delete.hyps by (auto simp: SoftDeleteApp_def q_SoftDeleteApp_def Let_def upd_where_def
        split: if_splits)
  then have "effect s s'"
    by (intro effect.quiet[of _ _ ?g]) (auto simp: app_kept_def live_def upload_exists_def)
  then show ?case by blast
next
  case (set_config s app es now s')
  then have "effect s s'"
    using SetConfigBatch_frame by (intro quiet_same) (force simp: upload_exists_def)+
  then show ?case by blast
next
  case (unset_config s app keys s')
  then have "effect s s'"
    using UnsetConfigBatch_frame by (intro quiet_same) (force simp: upload_exists_def)+
  then show ?case by blast
next
  case (upload s u lim i now u' s')
  then have "effect s s'"
    by (intro quiet_same) (auto simp: CreateUpload_def q_CreateUpload_def Let_def upload_exists_def
        split: if_splits)
  then show ?case by blast
next
  case (redeem s h now u' s')
  have "map u_id (uploads s') = map u_id (uploads s)"
    unfolding redeem_frame[OF redeem.hyps] by (simp add: map_upd_where redeemed_def)
  then have "effect s s'"
    by (intro quiet_same) (simp_all add: redeem_frame[OF redeem.hyps] upload_exists_ids del: set_map)
  then show ?case by blast
next
  case (fetch_token s i h now s')
  have st: "s' = s\<lparr>uploads := upd_where (\<lambda>u. u_id u = i) (\<lambda>u. u\<lparr>u_fetch_token_hash := h,
      u_redeemed_at := None, u_updated_at := now\<rparr>) (uploads s)\<rparr>"
    using fetch_token.hyps by (auto simp: SetUploadFetchToken_def q_SetUploadFetchToken_def Let_def
        next_step_Inr split: if_splits)
  have "map u_id (uploads s') = map u_id (uploads s)"
    unfolding st by (simp add: map_upd_where)
  then have "effect s s'"
    by (intro quiet_same) (simp_all add: st upload_exists_ids del: set_map)
  then show ?case by blast
next
  case (drop_upload s i s')
  then have "effect s s'"
    by (intro quiet_same) (auto simp: DeleteUpload_def q_DeleteUpload_def Let_def
        next_step_Inr upload_exists_def list_ex_iff set_del_where split: if_splits)
  then show ?case by blast
next
  case (deploy s inp evt dep evt' now d old s')
  obtain s1 where "s1 = s \<or> effect s s1" "effect s1 s'"
    using birth_effect[OF deploy.hyps deploy.prems] by blast
  then show ?case by (auto intro: converse_rtranclp_into_rtranclp)
next
  case (transition s i to' reason detail evt now d s')
  show ?case
  proof (rule Transition_Inr[OF transition.hyps])
    fix x p e
    assume "p_state p = to'" "to' \<noteq> StateHealthy" "fair_move s x p e now" "s' = moved s x p e now"
    then have "effect s s'" using effect.move[of s x p e now] by simp
    then show "effect\<^sup>*\<^sup>* s s'" by blast
  qed
next
  case (build s i r now s')
  then show ?case using touch_build by blast
next
  case (healthy s i config evt rel now d r s')
  then show ?case using mint_effect by blast
next
  case (claim s by' now d s')
  then show ?case using claim_effect by blast
next
  case (unclaim s i now b s')
  then have "effect s s'"
    using touch_claim by (auto simp: ReleaseBuildingClaim_def q_ReleaseBuildingClaim_def Let_def)
  then show ?case by blast
next
  case (audit s e i now s')
  then have "effect s s'"
    by (intro quiet_same) (auto simp: RecordAudit_def q_InsertAuditLog_def upload_exists_def
        split: if_splits)
  then show ?case by blast
next
  case (addresses s cutoff n s')
  then have "effect s s'"
    by (intro quiet_same) (auto simp: ClearOldAuditAddresses_def q_ClearOldAuditAddresses_def
        Let_def upload_exists_def)
  then show ?case by blast
next
  case (person s s')
  then have "effect s s'"
    using person_write_frame by (intro quiet_same) (force simp: upload_exists_def)+
  then show ?case by blast
qed

lemma effects_ok: "effect\<^sup>*\<^sup>* s s' \<Longrightarrow> store_ok s \<Longrightarrow> store_ok s'"
  by (induction rule: rtranclp_induct) (auto intro: effect_ok)

lemma work_ok: "work_step s s' \<Longrightarrow> store_ok s \<Longrightarrow> store_ok s'"
  using work_effects effects_ok by blast

section \<open>The retention sweep\<close>

lemma swept_no_release:
  assumes "store_ok s" "d \<in> set (deployments s)" "swept cutoff d" "r \<in> set (releases s)"
  shows "r_deployment_id r \<noteq> d_id d"
proof
  assume eq: "r_deployment_id r = d_id d"
  obtain e where "e \<in> set (deployments s)" "d_id e = d_id d" "d_state e = StateHealthy"
    using assms(1,4) eq by (auto simp: store_ok_def released_ok_def)
  then have "d_state d = StateHealthy"
    using assms(1,2) keyed_eq[of d_id] by (metis keys_ok_def store_ok_def)
  then show False using assms(3) by (simp add: swept_def)
qed

definition sweep_events :: "db \<Rightarrow> stamp \<Rightarrow> deployment_event list" where
  "sweep_events s cutoff = filter (\<lambda>e. \<not> e_occurred_at e < cutoff \<and>
     \<not> list_ex (\<lambda>d. d_id d = e_deployment_id e \<and> swept cutoff d) (deployments s)) (events s)"

definition sweep_uploads :: "db \<Rightarrow> stamp \<Rightarrow> stamp \<Rightarrow> stamp \<Rightarrow> upload list" where
  "sweep_uploads s cutoff upload_cutoff now =
     del_where (stale_upload (s\<lparr>deployments := del_where (swept cutoff) (deployments s)\<rparr>) upload_cutoff now)
       (uploads s)"

text \<open>On a well formed database no foreign key stops the sweep.\<close>

lemma Sweep_total:
  assumes "store_ok s"
  shows "\<exists>n. Sweep s cutoff upload_cutoff now = Inr (n, s\<lparr>
    deployments := del_where (swept cutoff) (deployments s),
    events := sweep_events s cutoff, uploads := sweep_uploads s cutoff upload_cutoff now\<rparr>)"
proof -
  let ?P = "\<lambda>e. list_ex (\<lambda>d. d_id d = e_deployment_id e \<and> swept cutoff d) (deployments s)"
  have no_ev: "\<not> list_ex (\<lambda>e. e_deployment_id e = d_id d) (del_where ?P (events s))"
    if "d \<in> set (deployments s)" "swept cutoff d" for d
    using that by (auto simp: set_del_where list_ex_iff)
  have no_rel: "\<not> list_ex (\<lambda>r. r_deployment_id r = d_id d) (releases s)"
    if "d \<in> set (deployments s)" "swept cutoff d" for d
    using swept_no_release[OF assms that] by (auto simp: list_ex_iff)
  have stale: "stale_upload (s\<lparr>deployments := d, events := e\<rparr>) = stale_upload (s\<lparr>deployments := d\<rparr>)"
    for e d by (auto simp: fun_eq_iff stale_upload_def upload_named_def)
  have restrict: "\<not> list_ex (\<lambda>d. swept cutoff d \<and>
       (list_ex (\<lambda>e. e_deployment_id e = d_id d) (del_where ?P (events s)) \<or>
        list_ex (\<lambda>r. r_deployment_id r = d_id d) (releases s))) (deployments s)"
    using no_ev no_rel unfolding list_ex_iff by blast
  have ev: "del_where (\<lambda>e. e_occurred_at e < cutoff) (del_where ?P (events s)) = sweep_events s cutoff"
    by (simp add: del_where_def sweep_events_def conj_commute)
  show ?thesis
    using restrict
    by (simp add: Sweep_def Let_def q_DeleteEventsOfSweptDeployments_def q_DeleteSweptDeployments_def
        q_DeleteAgedEvents_def q_DeleteStaleUploads_def ev stale sweep_uploads_def)
qed

lemma count_deleted: "count_where P t = length t - length (del_where P t)"
  using sum_length_filter_compl[of P t] by (simp add: count_where_def del_where_def)

lemma Sweep_counts:
  assumes "Sweep s cutoff upload_cutoff now = Inr (n, s\<lparr>
    deployments := del_where (swept cutoff) (deployments s),
    events := sweep_events s cutoff, uploads := sweep_uploads s cutoff upload_cutoff now\<rparr>)"
  shows "n = \<lparr>sc_deployments = length (deployments s) - length (del_where (swept cutoff) (deployments s)),
      sc_events = length (events s) - length (sweep_events s cutoff),
      sc_uploads = length (uploads s) - length (sweep_uploads s cutoff upload_cutoff now)\<rparr>"
proof -
  let ?P = "\<lambda>e. list_ex (\<lambda>d. d_id d = e_deployment_id e \<and> swept cutoff d) (deployments s)"
  have stale: "stale_upload (s\<lparr>deployments := d, events := e\<rparr>) = stale_upload (s\<lparr>deployments := d\<rparr>)"
    for e d by (auto simp: fun_eq_iff stale_upload_def upload_named_def)
  have ev: "del_where (\<lambda>e. e_occurred_at e < cutoff) (del_where ?P (events s)) = sweep_events s cutoff"
    by (simp add: del_where_def sweep_events_def conj_commute)
  have le: "length (sweep_events s cutoff) \<le> length (del_where ?P (events s))"
    "length (del_where ?P (events s)) \<le> length (events s)"
    unfolding ev[symmetric] del_where_def by (rule length_filter_le)+
  have "count_where ?P (events s) + count_where (\<lambda>e. e_occurred_at e < cutoff) (del_where ?P (events s)) =
      length (events s) - length (sweep_events s cutoff)"
    unfolding count_deleted ev using le by simp
  then show ?thesis
    using assms
    by (auto simp: Sweep_def Let_def q_DeleteEventsOfSweptDeployments_def q_DeleteSweptDeployments_def
        q_DeleteAgedEvents_def q_DeleteStaleUploads_def stale sweep_uploads_def count_deleted[of "swept cutoff"]
        count_deleted[of "stale_upload _ _ _"] ev split: if_splits)
qed

lemma sweep_ok:
  assumes "sweep_step s s'" "store_ok s"
  shows "store_ok s'"
proof -
  obtain cutoff upload_cutoff now n where sw: "Sweep s cutoff upload_cutoff now = Inr (n, s')"
    using assms(1) by (cases rule: sweep_step.cases) blast
  have tables: "deployments s' = del_where (swept cutoff) (deployments s)"
    "events s' = sweep_events s cutoff" "uploads s' = sweep_uploads s cutoff upload_cutoff now"
    "apps s' = apps s" "releases s' = releases s"
    using Sweep_total[OF assms(2), of cutoff upload_cutoff now] sw by auto
  have sub: "set (deployments s') \<subseteq> set (deployments s)"
    unfolding tables by (auto simp: set_del_where)
  have ids: "app_exists s' = app_exists s"
    by (simp add: fun_eq_iff app_exists_def tables)
  have up: "upload_exists s' i" if "d \<in> set (deployments s')" "d_upload_id d = Some i" "upload_exists s i" for d i
    using that unfolding upload_exists_def tables sweep_uploads_def
    by (auto simp: list_ex_iff set_del_where stale_upload_def upload_named_def)
  have healthy: "d \<in> set (deployments s')" if "d \<in> set (deployments s)" "d_state d = StateHealthy" for d
    using that unfolding tables by (auto simp: set_del_where swept_def)
  note ok = assms(2)[unfolded store_ok_def]
  have "keys_ok s'"
    using ok unfolding keys_ok_def tables sweep_events_def
    by (auto simp: distinct_map_filter)
  moreover have "names_ok s'" using ok by (simp add: names_ok_def tables)
  moreover have "one_in_flight s'"
    using ok sub unfolding one_in_flight_def by blast
  moreover have "\<forall>d \<in> set (deployments s'). life_ok d" using ok sub by blast
  moreover have "refs_ok s'"
    unfolding refs_ok_def
  proof (intro conjI ballI)
    fix d assume d: "d \<in> set (deployments s')"
    have "dep_refs s d" using ok d sub unfolding refs_ok_def by blast
    then show "dep_refs s' d"
      by (rule dep_refs_mono) (use up[OF d] in \<open>simp_all add: ids tables\<close>)
  next
    fix e assume e: "e \<in> set (events s')"
    have "deployment_exists s (e_deployment_id e)"
      using e ok unfolding tables sweep_events_def refs_ok_def by simp
    then show "deployment_exists s' (e_deployment_id e)"
      using e unfolding tables sweep_events_def deployment_exists_def
      by (auto simp: list_ex_iff set_del_where)
  next
    fix r assume "r \<in> set (releases s')"
    then show "app_exists s' (r_app_id r)" using ok unfolding refs_ok_def ids tables by blast
  qed
  moreover have "released_ok s'"
    using ok healthy sub unfolding released_ok_def tables(5) by blast
  moreover have "numbered_ok s'" using ok numbered_cong[OF tables(5)] by blast
  moreover have "pointed_ok s'" using ok newest_cong[OF tables(5)] by (simp add: pointed_ok_def tables)
  ultimately show ?thesis by (simp add: store_ok_def)
qed

lemma reachable_ok: "store_reachable s \<Longrightarrow> store_ok s"
  by (induction rule: store_reachable.induct) (auto intro: store_ok_empty work_ok sweep_ok)

end
