(* ===== verification/Store_Demo.thy ===== *)
theory Store_Demo
  imports Store_Machine
begin

text \<open>
  One small database followed through a whole deploy: an account, an app, an upload, a
  deployment queued, claimed, built, deployed and healthy. The states are what the operations
  of the store compute, each step evaluated by the kernel, and every one of them is reachable;
  the examples that accompany the properties are drawn from them.
\<close>

definition acc1 :: account where
  "acc1 = \<lparr>acc_id = ''acc_1'', acc_name = ''acme'', acc_disabled_at = None, acc_created_at = ''t1'',
     acc_updated_at = ''t1'', acc_email = None, acc_password_hash = None,
     acc_email_verified_at = None, acc_is_admin = False, acc_display_name = None,
     acc_connected_at = None\<rparr>"

definition app1 :: app where
  "app1 = \<lparr>a_id = ''app_1'', a_account_id = ''acc_1'', a_name = runes_of ''blog'',
     a_slug = ''blog-k3x9q2'', a_current_release_id = None, a_deleted_at = None,
     a_created_at = ''t2'', a_updated_at = ''t2''\<rparr>"

definition upl1 :: upload where
  "upl1 = \<lparr>u_id = ''upl_1'', u_account_id = ''acc_1'', u_path = ''/uploads/upl_1'',
     u_size_bytes = 9, u_sha256 = ''5f'', u_fetch_token_hash = ''h1'', u_redeemed_at = None,
     u_expires_at = ''t9'', u_created_at = ''t3'', u_updated_at = ''t3''\<rparr>"

definition dep1 :: deployment where
  "dep1 = new_deployment ''dep_1'' ''app_1'' ''acc_1'' (Some ''upl_1'') None None ''t4''"

definition db_account :: db where
  "db_account = empty_db\<lparr>accounts := [acc1]\<rparr>"

definition db_app :: db where
  "db_app = db_account\<lparr>apps := [app1]\<rparr>"

definition db_upload :: db where
  "db_upload = db_app\<lparr>uploads := [upl1]\<rparr>"

definition db_queued :: db where
  "db_queued = db_upload\<lparr>deployments := [dep1], events := [birth_event ''evt_2'' ''dep_1'' ''t4'']\<rparr>"

definition claimed1 :: deployment where
  "claimed1 = set_claim (Some ''t5'') (Some ''pod-1'') ''t5'' dep1"

definition db_claimed :: db where
  "db_claimed = db_queued\<lparr>deployments := [claimed1]\<rparr>"

definition deploying1 :: deployment where
  "deploying1 = claimed1\<lparr>d_state := StateDeploying, d_build_path := Some ''dockerfile'',
     d_build_job_name := Some ''job'', d_image_repo := Some ''repo'',
     d_image_digest := Some ''sha256:1'', d_started_at := Some ''t6'', d_updated_at := ''t8''\<rparr>"

definition moved_event :: "string \<Rightarrow> State \<Rightarrow> State \<Rightarrow> stamp \<Rightarrow> deployment_event" where
  "moved_event i from to' at = \<lparr>e_id = i, e_deployment_id = ''dep_1'', e_from_state = Some from,
     e_to_state = to', e_reason = None, e_detail = None, e_occurred_at = at\<rparr>"

definition db_deploying :: db where
  "db_deploying = db_claimed\<lparr>deployments := [deploying1], events := events db_queued @
     [moved_event ''evt_3'' StateQueued StateBuilding ''t6'',
      moved_event ''evt_4'' StateBuilding StatePushing ''t7'',
      moved_event ''evt_5'' StatePushing StateDeploying ''t8'']\<rparr>"

definition building1 :: deployment where
  "building1 = claimed1\<lparr>d_state := StateBuilding, d_started_at := Some ''t6'', d_updated_at := ''t6''\<rparr>"

definition db_building :: db where
  "db_building = db_claimed\<lparr>deployments := [building1], events := events db_queued @
     [moved_event ''evt_3'' StateQueued StateBuilding ''t6'']\<rparr>"

definition db_built :: db where
  "db_built = db_building\<lparr>deployments := [deploying1\<lparr>d_state := StateBuilding, d_updated_at := ''t6''\<rparr>]\<rparr>"

definition db_pushing :: db where
  "db_pushing = db_building\<lparr>deployments := [deploying1\<lparr>d_state := StatePushing, d_updated_at := ''t7''\<rparr>],
     events := events db_building @ [moved_event ''evt_4'' StateBuilding StatePushing ''t7'']\<rparr>"

definition config1 :: config where
  "config1 = [(''KEY'', \<lparr>cv_value = ''v'', cv_secret = True\<rparr>)]"

definition rel1 :: release where
  "rel1 = \<lparr>r_id = ''rel_1'', r_app_id = ''app_1'', r_deployment_id = ''dep_1'', r_release_number = 1,
     r_image_digest = ''sha256:1'', r_config_snapshot = configSnapshot config1, r_created_at = ''t9''\<rparr>"

definition db_live :: db where
  "db_live = db_deploying\<lparr>
     deployments := [deploying1\<lparr>d_state := StateHealthy, d_finished_at := Some ''t9'', d_updated_at := ''t9''\<rparr>],
     events := events db_deploying @ [moved_event ''evt_6'' StateDeploying StateHealthy ''t9''],
     releases := [rel1],
     apps := [app1\<lparr>a_current_release_id := Some ''rel_1'', a_updated_at := ''t9''\<rparr>]\<rparr>"

lemma demo_account: "CreateAccount empty_db ''acme'' ''acc_1'' ''t1'' = Inr (acc1, db_account)"
  by code_simp

lemma demo_app:
  "CreateApp db_account ''acc_1'' (runes_of ''blog'') 5 [(''app_1'', ''k3x9q2'')] ''t2'' = Inr (app1, db_app)"
  by code_simp

lemma demo_upload: "CreateUpload db_app upl1 3 [] ''t3'' = Inr (upl1, db_upload)"
  by code_simp

lemma demo_queued:
  "CreateDeployment db_upload \<lparr>in_app = ''app_1'', in_account = ''acc_1'', in_upload = Some ''upl_1'',
     in_source = None\<rparr> ''evt_1'' ''dep_1'' ''evt_2'' ''t4'' = Inr (dep1, [], db_queued)"
  by code_simp

lemma demo_claimed: "ClaimNext db_queued ''pod-1'' ''t5'' = Inr (claimed1, db_claimed)"
  by code_simp

lemma demo_building:
  "Transition db_claimed ''dep_1'' StateBuilding [] [] ''evt_3'' ''t6'' = Inr (building1, db_building)"
  by code_simp

lemma demo_built:
  "RecordBuildResult db_building ''dep_1'' \<lparr>BuildPath = ''dockerfile'', BuildJobName = ''job'',
     ImageRepo = ''repo'', ImageDigest = ''sha256:1''\<rparr> ''t6'' = Inr db_built"
  by code_simp

lemma demo_pushing:
  "Transition db_built ''dep_1'' StatePushing [] [] ''evt_4'' ''t7'' =
   Inr (hd (deployments db_pushing), db_pushing)"
  by code_simp

lemma demo_deploying:
  "Transition db_pushing ''dep_1'' StateDeploying [] [] ''evt_5'' ''t8'' = Inr (deploying1, db_deploying)"
  by code_simp

lemma demo_live:
  "MarkHealthy db_deploying ''dep_1'' config1 ''evt_6'' ''rel_1'' ''t9'' =
   Inr (hd (deployments db_live), rel1, db_live)"
  by code_simp

section \<open>Every demo database is reachable\<close>

lemma reach_upload: "store_reachable db_upload"
proof -
  have "store_reachable db_account"
    by (rule reach_work[OF reach_empty work_step.account[OF demo_account]])
  then have "store_reachable db_app" by (rule reach_work[OF _ work_step.app[OF demo_app]])
  then show ?thesis by (rule reach_work[OF _ work_step.upload[OF demo_upload]])
qed

lemma reach_queued: "store_reachable db_queued"
  by (rule reach_work[OF reach_upload work_step.deploy[OF demo_queued]])

lemma reach_claimed: "store_reachable db_claimed"
  by (rule reach_work[OF reach_queued work_step.claim[OF demo_claimed]])

lemma reach_building: "store_reachable db_building"
  by (rule reach_work[OF reach_claimed work_step.transition[OF demo_building]])

lemma reach_deploying: "store_reachable db_deploying"
proof -
  have "store_reachable db_built"
    by (rule reach_work[OF reach_building work_step.build[OF demo_built]])
  then have "store_reachable db_pushing"
    by (rule reach_work[OF _ work_step.transition[OF demo_pushing]])
  then show ?thesis by (rule reach_work[OF _ work_step.transition[OF demo_deploying]])
qed

lemma reach_live: "store_reachable db_live"
  by (rule reach_work[OF reach_deploying work_step.healthy[OF demo_live]])

section \<open>A second app with work of its own\<close>

definition app2 :: app where
  "app2 = \<lparr>a_id = ''app_2'', a_account_id = ''acc_1'', a_name = runes_of ''shop'',
     a_slug = ''shop-aaaaaa'', a_current_release_id = None, a_deleted_at = None,
     a_created_at = ''t4'', a_updated_at = ''t4''\<rparr>"

definition dep2 :: deployment where
  "dep2 = new_deployment ''dep_2'' ''app_2'' ''acc_1'' (Some ''upl_1'') None None ''t4''"

definition db_app2 :: db where
  "db_app2 = db_queued\<lparr>apps := [app1, app2]\<rparr>"

definition db_two :: db where
  "db_two = db_app2\<lparr>deployments := [dep1, dep2],
     events := events db_queued @ [birth_event ''evt_4'' ''dep_2'' ''t4'']\<rparr>"

definition db_two_claimed :: db where
  "db_two_claimed = db_two\<lparr>deployments := [claimed1, dep2]\<rparr>"

definition claimed2 :: deployment where
  "claimed2 = set_claim (Some ''t6'') (Some ''pod-2'') ''t6'' dep2"

lemma demo_app2:
  "CreateApp db_queued ''acc_1'' (runes_of ''shop'') 5 [(''app_2'', ''aaaaaa'')] ''t4'' = Inr (app2, db_app2)"
  by code_simp

lemma demo_two:
  "CreateDeployment db_app2 \<lparr>in_app = ''app_2'', in_account = ''acc_1'', in_upload = Some ''upl_1'',
     in_source = None\<rparr> ''evt_3'' ''dep_2'' ''evt_4'' ''t4'' = Inr (dep2, [], db_two)"
  by code_simp

lemma demo_two_claimed: "ClaimNext db_two ''pod-1'' ''t5'' = Inr (claimed1, db_two_claimed)"
  by code_simp

lemma demo_both_claimed: "ClaimNext db_two_claimed ''pod-2'' ''t6'' =
    Inr (claimed2, db_two\<lparr>deployments := [claimed1, claimed2]\<rparr>)"
  by code_simp

lemma reach_two: "store_reachable db_two"
  by (rule reach_work[OF reach_work[OF reach_queued work_step.app[OF demo_app2]]
        work_step.deploy[OF demo_two]])

end
