(* ===== verification/Store_History.thy ===== *)
theory Store_History
  imports Store_Demo
begin

text \<open>
  What a deployment's row and its event log say over time: a row only ever moves along the
  machine of \<^verbatim>\<open>internal/domain/state.go\<close>, a finished row stays as it is, and until the retention
  sweep takes something the log is the exact path of the row, from its birth to where it stands.
\<close>

section \<open>Rows\<close>

definition row_next :: "deployment \<Rightarrow> deployment \<Rightarrow> bool" where
  "row_next d e \<longleftrightarrow> d_id e = d_id d \<and> d_app_id e = d_app_id d \<and> d_account_id e = d_account_id d \<and>
     d_upload_id e = d_upload_id d \<and> d_source_release_id e = d_source_release_id d \<and>
     CanTransition\<^sup>*\<^sup>* (d_state d) (d_state e) \<and>
     (Terminal (d_state d) \<longrightarrow> d_state e = d_state d \<and> d_finished_at e = d_finished_at d \<and>
        d_failure_reason e = d_failure_reason d)"

lemma row_next_refl [simp]: "row_next d d"
  by (simp add: row_next_def)

lemma row_next_core: "core_kept d e \<Longrightarrow> row_next d e"
  by (simp add: row_next_def core_kept_def)

lemma row_next_trans: "row_next d e \<Longrightarrow> row_next e f \<Longrightarrow> row_next d f"
  unfolding row_next_def by (auto intro: rtranclp_trans)

lemma row_next_move: "fair_move s d p e now \<Longrightarrow> row_next d (set_state p now d)"
  using fair_moveD(2)[of s d p e now] CanTransition_not_Terminal[of "d_state d" "p_state p"]
  by (auto simp: row_next_def)

lemma moved_rows:
  assumes "fair_move s x p e now" "keys_ok s" "d \<in> set (deployments s)"
  shows "\<exists>f \<in> set (deployments (moved s x p e now)). row_next d f"
proof (cases "d_id d = d_id x")
  case True
  then have d: "d = x" using fair_move_flight(1)[OF assms] by simp
  have "set_state p now x \<in> set (deployments (moved s x p e now))"
    using assms(3) unfolding d moved_simps(7) set_upd_where by blast
  then show ?thesis using row_next_move[OF assms(1)] unfolding d by blast
next
  case False
  then have "d \<in> set (deployments (moved s x p e now))"
    using assms(3) unfolding moved_simps(7) set_upd_where by blast
  then show ?thesis by (rule bexI[rotated]) simp
qed

lemma effect_rows:
  assumes "effect s s'" "keys_ok s" "d \<in> set (deployments s)"
  shows "\<exists>e \<in> set (deployments s'). row_next d e"
  using assms
proof (induction rule: effect.induct)
  case (touch f s P)
  then have "(if P d then f d else d) \<in> set (upd_where P f (deployments s))"
    by (simp add: set_upd_where)
  moreover have "row_next d (if P d then f d else d)"
    using row_next_core[OF touch.hyps(1)] by simp
  ultimately show ?case by auto
next
  case (move s x p e now)
  then show ?case using moved_rows by blast
next
  case (mint s x p e now s1 r cs)
  then show ?case using moved_rows[OF mint.hyps(1) mint.prems] by simp
qed (auto intro: bexI[of _ d])

lemma effects_rows:
  assumes "effect\<^sup>*\<^sup>* s s'" "store_ok s" "d \<in> set (deployments s)"
  shows "\<exists>e \<in> set (deployments s'). row_next d e"
  using assms(1)
proof (induction rule: rtranclp_induct)
  case base
  then show ?case using assms(3) by (auto intro: bexI[of _ d])
next
  case (step y z)
  have "keys_ok y" using effects_ok[OF step.hyps(1) assms(2)] by (simp add: store_ok_def)
  obtain e where e: "e \<in> set (deployments y)" "row_next d e" using step.IH by blast
  show ?case
    using effect_rows[OF step.hyps(2) \<open>keys_ok y\<close> e(1)] row_next_trans[OF e(2)] by blast
qed

section \<open>Logs\<close>

inductive work_reachable :: "db \<Rightarrow> bool" where
  work_empty: "work_reachable empty_db"
| work_more: "work_reachable s \<Longrightarrow> work_step s s' \<Longrightarrow> work_reachable s'"

definition history :: "db \<Rightarrow> ident \<Rightarrow> deployment_event list" where
  "history s i = filter (\<lambda>e. e_deployment_id e = i) (events s)"

text \<open>The log of one row: its birth, then moves of the machine that follow one another.\<close>

definition follows :: "deployment_event \<Rightarrow> deployment_event \<Rightarrow> bool" where
  "follows e f \<longleftrightarrow> e_from_state f = Some (e_to_state e) \<and> CanTransition (e_to_state e) (e_to_state f)"

definition path_to :: "State \<Rightarrow> deployment_event list \<Rightarrow> bool" where
  "path_to t es \<longleftrightarrow> es \<noteq> [] \<and> e_from_state (hd es) = None \<and> e_to_state (hd es) = StateQueued \<and>
     successively follows es \<and> e_to_state (last es) = t"

definition log_ok :: "db \<Rightarrow> bool" where
  "log_ok s \<longleftrightarrow> (\<forall>d \<in> set (deployments s). path_to (d_state d) (history s (d_id d)))"

lemma path_to_snoc:
  "path_to t es \<Longrightarrow> e_from_state e = Some t \<Longrightarrow> CanTransition t (e_to_state e) \<Longrightarrow>
   path_to (e_to_state e) (es @ [e])"
  by (auto simp: path_to_def adjacent_append follows_def)

lemma history_add:
  "events s' = events s @ [e] \<Longrightarrow>
   history s' i = history s i @ (if e_deployment_id e = i then [e] else [])"
  by (simp add: history_def)

lemma history_cong: "events s' = events s \<Longrightarrow> history s' i = history s i"
  by (simp add: history_def)

lemma log_moved:
  assumes "log_ok s" "keys_ok s" "fair_move s d p e now"
    and "events s' = events s @ [e]"
    and "deployments s' = upd_where (\<lambda>x. d_id x = d_id d) (set_state p now) (deployments s)"
  shows "log_ok s'"
  unfolding log_ok_def
proof
  fix x assume "x \<in> set (deployments s')"
  then consider "x \<in> set (deployments s)" "d_id x \<noteq> d_id d" | "x = set_state p now d"
    using fair_move_flight(1)[OF assms(3,2)] unfolding assms(5) by (auto simp: set_upd_where)
  then show "path_to (d_state x) (history s' (d_id x))"
  proof cases
    case 1
    then show ?thesis
      using assms(1) history_add[OF assms(4)] fair_moveD(3)[OF assms(3)] by (simp add: log_ok_def)
  next
    case 2
    have "path_to (d_state d) (history s (d_id d))"
      using assms(1) fair_moveD(1)[OF assms(3)] by (simp add: log_ok_def)
    from path_to_snoc[OF this fair_moveD(4)[OF assms(3)]] show ?thesis
      using 2 history_add[OF assms(4)] fair_moveD(2,3,5)[OF assms(3)] by simp
  qed
qed

lemma log_touched:
  assumes "log_ok s" "\<And>d. core_kept d (f d)"
    and "events s' = events s" "deployments s' = upd_where P f (deployments s)"
  shows "log_ok s'"
  using assms(1,2) history_cong[OF assms(3)] unfolding log_ok_def assms(4)
  by (auto simp: set_upd_where core_kept_def)

lemma log_same:
  "log_ok s \<Longrightarrow> events s' = events s \<Longrightarrow> deployments s' = deployments s \<Longrightarrow> log_ok s'"
  unfolding log_ok_def history_def by simp

lemma log_born:
  assumes "log_ok s" "refs_ok s" "fresh_birth s d e"
    and "events s' = events s @ [e]" "deployments s' = deployments s @ [d]"
  shows "log_ok s'"
  unfolding log_ok_def
proof
  fix x assume "x \<in> set (deployments s')"
  then consider "x \<in> set (deployments s)" "d_id x \<noteq> d_id d" | "x = d"
  proof -
    have new: "d_id d \<notin> d_id ` set (deployments s)"
      using assms(3) by (simp add: fresh_birth_def exists_ids)
    show ?thesis
    proof (cases "x = d")
      case False
      then have "x \<in> set (deployments s)"
        using \<open>x \<in> set (deployments s')\<close> unfolding assms(5) by simp
      then have "d_id x \<in> d_id ` set (deployments s)" by (rule imageI)
      then have "d_id x \<noteq> d_id d" using new by metis
      then show ?thesis by (rule that(1)[OF \<open>x \<in> set (deployments s)\<close>])
    qed (rule that(2))
  qed
  then show "path_to (d_state x) (history s' (d_id x))"
  proof cases
    case 1
    then show ?thesis
      using assms(1,3) history_add[OF assms(4)] by (simp add: log_ok_def fresh_birth_def)
  next
    case 2
    have "deployment_exists s (e_deployment_id f)" if "f \<in> set (events s)" for f
      using assms(2) that unfolding refs_ok_def by blast
    moreover have "\<not> deployment_exists s (d_id d)"
      using assms(3) by (simp add: fresh_birth_def)
    ultimately have "history s (d_id d) = []"
      unfolding history_def filter_empty_conv by metis
    then show ?thesis
      using 2 assms(3) history_add[OF assms(4)] by (simp add: path_to_def fresh_birth_def)
  qed
qed

lemma effect_log: "effect s s' \<Longrightarrow> store_ok s \<Longrightarrow> log_ok s \<Longrightarrow> log_ok s'"
proof (induction rule: effect.induct)
  case (quiet s' s g)
  then show ?case using log_same by blast
next
  case (new_app a s)
  show ?case by (rule log_same[OF new_app.prems(2)]) simp_all
next
  case (touch f s P)
  show ?case by (rule log_touched[OF touch.prems(2) touch.hyps(1), of _ P]) simp_all
next
  case (move s d p e now)
  have "keys_ok s" using move.prems(1) by (simp add: store_ok_def)
  then show ?case by (rule log_moved[OF move.prems(2) _ move.hyps(1)]) simp_all
next
  case (birth s d e)
  have "refs_ok s" using birth.prems(1) by (simp add: store_ok_def)
  then show ?case by (rule log_born[OF birth.prems(2) _ birth.hyps]) simp_all
next
  case (mint s d p e now s1 r cs)
  have "keys_ok s" using mint.prems(1) by (simp add: store_ok_def)
  then show ?case
    by (rule log_moved[OF mint.prems(2) _ mint.hyps(1)]) (simp_all add: mint.hyps(3))
qed

lemma effects_log:
  assumes "effect\<^sup>*\<^sup>* s s'" "store_ok s" "log_ok s"
  shows "log_ok s'"
  using assms(1)
proof (induction rule: rtranclp_induct)
  case (step y z)
  show ?case
    by (rule effect_log[OF step.hyps(2) effects_ok[OF step.hyps(1) assms(2)] step.IH])
qed (rule assms(3))

lemma work_reachable_reachable: "work_reachable s \<Longrightarrow> store_reachable s"
  by (induction rule: work_reachable.induct) (rule reach_empty, rule reach_work)

lemma work_reachable_log: "work_reachable s \<Longrightarrow> log_ok s"
proof (induction rule: work_reachable.induct)
  case work_empty
  then show ?case by (simp add: log_ok_def empty_db_def)
next
  case (work_more s s')
  have "store_ok s" by (rule reachable_ok[OF work_reachable_reachable[OF work_more.hyps(1)]])
  then show ?case by (rule effects_log[OF work_effects[OF work_more.hyps(2) \<open>store_ok s\<close>] _ work_more.IH])
qed

end
