(* ===== verification/Store_Config.thy ===== *)
theory Store_Config
  imports Store_Demo
begin

text \<open>
  What the store promises about configuration: the table read as one map for each app, the batch
  writes as updates of that map, the snapshot of a release as an encoding of it, and a rollback
  as the restoration of a snapshot. Responses never depend on a secret's value.
\<close>

section \<open>The table as maps\<close>

definition config_map :: "db \<Rightarrow> ident \<Rightarrow> string \<Rightarrow> ConfigValue option" where
  "config_map s app k = map_option (\<lambda>c. \<lparr>cv_value = c_value c, cv_secret = c_is_secret c\<rparr>)
     (sel_one (\<lambda>c. c_app_id c = app \<and> c_key c = k) (app_configs s))"

lemma sel_one_upd:
  "(\<And>r. Q (f r) = Q r) \<Longrightarrow> sel_one Q (upd_where P f t) =
   map_option (\<lambda>r. if P r then f r else r) (sel_one Q t)"
  by (induction t) auto

lemma q_SetConfig_map:
  assumes "q_SetConfig s app key val secret now = Inr s'"
  shows "config_map s' app' k = (if app' = app \<and> k = key
     then Some \<lparr>cv_value = val, cv_secret = secret\<rparr> else config_map s app' k)"
proof (cases "sel_one (\<lambda>c. c_app_id c = app \<and> c_key c = key) (app_configs s)")
  case None
  then have "\<not> list_ex (\<lambda>c. c_app_id c = app \<and> c_key c = key) (app_configs s)"
    by (auto simp: sel_one_None list_ex_iff)
  then show ?thesis
    using assms None by (auto simp: q_SetConfig_def Let_def config_map_def sel_one_append
        split: if_splits option.splits)
next
  case (Some c)
  let ?f = "\<lambda>c. c\<lparr>c_value := val, c_is_secret := secret, c_updated_at := now\<rparr>"
  have c: "c_app_id c = app" "c_key c = key" "c \<in> set (app_configs s)"
    using sel_one_Some[OF Some] by auto
  then have "list_ex (\<lambda>c. c_app_id c = app \<and> c_key c = key) (app_configs s)"
    by (auto simp: list_ex_iff)
  then have "app_configs s' = upd_where (\<lambda>c. c_app_id c = app \<and> c_key c = key) ?f (app_configs s)"
    using assms by (auto simp: q_SetConfig_def Let_def split: if_splits)
  then have "sel_one (\<lambda>c. c_app_id c = app' \<and> c_key c = k) (app_configs s') =
      map_option (\<lambda>r. if c_app_id r = app \<and> c_key r = key then ?f r else r)
        (sel_one (\<lambda>c. c_app_id c = app' \<and> c_key c = k) (app_configs s))"
    by (simp add: sel_one_upd)
  note upd = this
  show ?thesis
  proof (cases "app' = app \<and> k = key")
    case True
    then show ?thesis using Some c(1,2) upd by (simp add: config_map_def)
  next
    case False
    have "sel_one (\<lambda>c. c_app_id c = app' \<and> c_key c = k) (app_configs s') =
        sel_one (\<lambda>c. c_app_id c = app' \<and> c_key c = k) (app_configs s)"
    proof (cases "sel_one (\<lambda>c. c_app_id c = app' \<and> c_key c = k) (app_configs s)")
      case (Some e)
      then show ?thesis using sel_one_Some[OF Some] False upd by auto
    qed (simp add: upd)
    then show ?thesis unfolding config_map_def by (simp only: False if_False)
  qed
qed

lemma q_SetConfig_total:
  "(\<exists>s'. q_SetConfig s app key val secret now = Inr s') \<longleftrightarrow>
   key_check key \<and> (app_exists s app \<or> config_map s app key \<noteq> None)"
proof -
  have "config_map s app key \<noteq> None \<longleftrightarrow>
      list_ex (\<lambda>c. c_app_id c = app \<and> c_key c = key) (app_configs s)"
    by (cases "sel_one (\<lambda>c. c_app_id c = app \<and> c_key c = key) (app_configs s)")
      (auto simp: config_map_def list_ex_iff sel_one_None dest!: sel_one_Some)
  then show ?thesis by (auto simp: q_SetConfig_def Let_def)
qed

lemma q_ClearConfig_map: "config_map (q_ClearConfig s app) app' k = (if app' = app then None else config_map s app' k)"
proof (cases "app' = app")
  case True
  then have "sel_one (\<lambda>c. c_app_id c = app' \<and> c_key c = k) (del_where (\<lambda>c. c_app_id c = app) (app_configs s)) = None"
    by (auto simp: sel_one_None set_del_where)
  then show ?thesis using True by (simp add: config_map_def q_ClearConfig_def)
next
  case False
  have "sel_one (\<lambda>c. c_app_id c = app' \<and> c_key c = k) (del_where (\<lambda>c. c_app_id c = app) t) =
      sel_one (\<lambda>c. c_app_id c = app' \<and> c_key c = k) t" for t
    using False by (induction t) auto
  then have eq: "sel_one (\<lambda>c. c_app_id c = app' \<and> c_key c = k) (app_configs (q_ClearConfig s app)) =
      sel_one (\<lambda>c. c_app_id c = app' \<and> c_key c = k) (app_configs s)"
    unfolding q_ClearConfig_def by simp
  show ?thesis unfolding config_map_def eq using False by (rule if_not_P[symmetric])
qed

lemma restore_config_map:
  "restore_config s app config now = Inr s' \<Longrightarrow> distinct (map fst config) \<Longrightarrow>
   config_map s' app' k = (if app' = app then
     (case map_of config k of Some v \<Rightarrow> Some v | None \<Rightarrow> config_map s app k) else config_map s app' k)"
proof (induction config arbitrary: s)
  case (Cons kv config)
  obtain key v where kv: "kv = (key, v)" by (cases kv)
  obtain s1 where s1: "q_SetConfig s app key (cv_value v) (cv_secret v) now = Inr s1"
    "restore_config s1 app config now = Inr s'"
    using Cons.prems kv by (auto simp: next_step_Inr)
  have "map_of config key = None" using Cons.prems(2) kv by (simp add: map_of_eq_None_iff)
  then show ?case
    using Cons.IH[OF s1(2)] Cons.prems(2) kv q_SetConfig_map[OF s1(1)] by (auto split: option.splits)
qed simp

lemma replaceConfig_map:
  assumes "replaceConfig s app config now = Inr s'" "distinct (map fst config)"
  shows "config_map s' app' k = (if app' = app then map_of config k else config_map s app' k)"
  using restore_config_map[OF assms(1)[unfolded replaceConfig_def] assms(2)] q_ClearConfig_map
  by (auto split: option.splits)

section \<open>Batches\<close>

definition entry_value :: "ConfigEntry \<Rightarrow> ConfigValue" where
  "entry_value e = \<lparr>cv_value = ce_value e, cv_secret = ce_secret e\<rparr>"

text \<open>What a batch writes: the last entry for a key.\<close>

definition written :: "ConfigEntry list \<Rightarrow> string \<Rightarrow> ConfigValue option" where
  "written es = map_of (rev (map (\<lambda>e. (ce_key e, entry_value e)) es))"

lemma written_Cons: "written (e # es) k = (case written es k of
    Some v \<Rightarrow> Some v | None \<Rightarrow> if k = ce_key e then Some (entry_value e) else None)"
  by (simp add: written_def map_add_def split: option.split)

lemma SetConfigBatch_outcome:
  assumes "app_exists s app"
  shows "case SetConfigBatch s app es now of
      Inl e \<Rightarrow> e = ErrInvalidKey \<and> (\<exists>x \<in> set es. \<not> (ValidConfigKey (ce_key x) \<and> key_check (ce_key x)))
    | Inr s' \<Rightarrow> (\<forall>x \<in> set es. ValidConfigKey (ce_key x) \<and> key_check (ce_key x)) \<and>
        (\<forall>app' k. config_map s' app' k = (if app' = app then
           (case written es k of Some v \<Rightarrow> Some v | None \<Rightarrow> config_map s app k) else config_map s app' k))"
  using assms
proof (induction es arbitrary: s)
  case Nil
  then show ?case by (simp add: written_def)
next
  case (Cons e es)
  show ?case
  proof (cases "ValidConfigKey (ce_key e) \<and> key_check (ce_key e)")
    case False
    then show ?thesis
      by (cases "ValidConfigKey (ce_key e)") (simp_all add: q_SetConfig_def Let_def)
  next
    case True
    then obtain s1 where s1: "q_SetConfig s app (ce_key e) (ce_value e) (ce_secret e) now = Inr s1"
      using q_SetConfig_total[of s app "ce_key e" "ce_value e" "ce_secret e" now] Cons.prems by auto
    have "app_exists s1 app"
      using q_SetConfig_frame[OF s1] Cons.prems by (auto simp: app_exists_def)
    from Cons.IH[OF this] show ?thesis
      using True s1 q_SetConfig_map[OF s1]
      by (auto simp: written_Cons entry_value_def split: sum.splits option.splits)
  qed
qed

lemma q_UnsetConfig_outcome:
  assumes "q_UnsetConfig s app key = (n, s')"
  shows "(n = 0 \<longleftrightarrow> config_map s app key = None) \<and>
    (\<forall>app' k. config_map s' app' k = (if app' = app \<and> k = key then None else config_map s app' k))"
proof -
  let ?P = "\<lambda>c. c_app_id c = app \<and> c_key c = key"
  have n: "n = count_where ?P (app_configs s)" "s' = s\<lparr>app_configs := del_where ?P (app_configs s)\<rparr>"
    using assms by (simp_all add: q_UnsetConfig_def Let_def)
  have "n = 0 \<longleftrightarrow> config_map s app key = None"
    unfolding n count_where_zero config_map_def by (simp add: sel_one_None)
  moreover have "config_map s' app' k = (if app' = app \<and> k = key then None else config_map s app' k)" for app' k
  proof (cases "app' = app \<and> k = key")
    case True
    then have "sel_one (\<lambda>c. c_app_id c = app' \<and> c_key c = k) (app_configs s') = None"
      unfolding n by (simp add: sel_one_None set_del_where)
    then show ?thesis unfolding config_map_def using True by simp
  next
    case False
    have "sel_one (\<lambda>c. c_app_id c = app' \<and> c_key c = k) (del_where ?P t) =
        sel_one (\<lambda>c. c_app_id c = app' \<and> c_key c = k) t" for t
      using False by (induction t) auto
    then have eq: "sel_one (\<lambda>c. c_app_id c = app' \<and> c_key c = k) (app_configs s') =
        sel_one (\<lambda>c. c_app_id c = app' \<and> c_key c = k) (app_configs s)"
      unfolding n by simp
    show ?thesis unfolding config_map_def eq using False by (rule if_not_P[symmetric])
  qed
  ultimately show ?thesis by blast
qed

lemma UnsetConfigBatch_outcome:
  "case UnsetConfigBatch s app keys of
      Inl e \<Rightarrow> e = ErrNotFound \<and> (distinct keys \<longrightarrow> (\<exists>k \<in> set keys. config_map s app k = None))
    | Inr s' \<Rightarrow> distinct keys \<and> (\<forall>k \<in> set keys. config_map s app k \<noteq> None) \<and>
        (\<forall>app' k. config_map s' app' k =
           (if app' = app \<and> k \<in> set keys then None else config_map s app' k))"
proof (induction keys arbitrary: s)
  case (Cons key keys)
  obtain n s1 where q: "q_UnsetConfig s app key = (n, s1)" by fastforce
  note out = q_UnsetConfig_outcome[OF q]
  show ?case
  proof (cases "n = 0")
    case True
    then show ?thesis using out by (simp add: q)
  next
    case False
    have here: "config_map s app key \<noteq> None" using out False by blast
    have step: "config_map s1 app' k = (if app' = app \<and> k = key then None else config_map s app' k)" for app' k
      using out by blast
    show ?thesis
    proof (cases "UnsetConfigBatch s1 app keys")
      case (Inl e)
      have "e = ErrNotFound \<and> (distinct keys \<longrightarrow> (\<exists>k \<in> set keys. k = key \<or> config_map s app k = None))"
        using Cons.IH[of s1] unfolding Inl step by (auto split: if_splits)
      then show ?thesis using False Inl by (auto simp: q)
    next
      case (Inr s2)
      have "distinct keys \<and> key \<notin> set keys \<and> (\<forall>k \<in> set keys. config_map s app k \<noteq> None)"
        using Cons.IH[of s1] unfolding Inr step by (auto split: if_splits)
      moreover have "config_map s2 app' k =
          (if app' = app \<and> k \<in> set (key # keys) then None else config_map s app' k)" for app' k
        using Cons.IH[of s1] unfolding Inr step by (auto split: if_splits)
      ultimately show ?thesis using False here by (simp add: q Inr)
    qed
  qed
qed simp

text \<open>On an existing app a batch of writes is all or nothing: it commits exactly when every key has
  the documented shape and passes the database's own pattern (so has at least two characters),
  and then the app's configuration is the old one overridden by the last entry for each key, no
  other app's being touched; any other batch is refused as an invalid key.\<close>

theorem set_config_batch_outcome:
  assumes "app_exists s app"
  shows "case SetConfigBatch s app es now of
      Inl e \<Rightarrow> e = ErrInvalidKey \<and> (\<exists>x \<in> set es. ValidConfigKey (ce_key x) \<longrightarrow> length (ce_key x) < 2)
    | Inr s' \<Rightarrow> (\<forall>x \<in> set es. ValidConfigKey (ce_key x) \<and> 2 \<le> length (ce_key x)) \<and>
        (\<forall>app' k. config_map s' app' k = (if app' = app then
           (case written es k of Some v \<Rightarrow> Some v | None \<Rightarrow> config_map s app k) else config_map s app' k))"
proof -
  have shape: "ValidConfigKey k \<and> key_check k \<longleftrightarrow> ValidConfigKey k \<and> 2 \<le> length k" for k
    using ValidConfigKey_check by blast
  have bad: "\<not> (ValidConfigKey k \<and> 2 \<le> length k) \<longleftrightarrow> (ValidConfigKey k \<longrightarrow> length k < 2)" for k
    by auto
  show ?thesis
    using SetConfigBatch_outcome[OF assms, of es now] unfolding shape bad .
qed

theorem set_config_batch_outcome_witness:
  "config_map (snd (acc1, db_live)) ''app_1'' ''K'' = None \<and>
   (case SetConfigBatch db_live ''app_1'' [\<lparr>ce_key = ''K'', ce_value = ''v'', ce_secret = False\<rparr>] ''t'' of
     Inl e \<Rightarrow> e = ErrInvalidKey | Inr _ \<Rightarrow> False)"
proof -
  have "app_exists db_live ''app_1''" by code_simp
  from set_config_batch_outcome[OF this, of "[\<lparr>ce_key = ''K'', ce_value = ''v'', ce_secret = False\<rparr>]" "''t''"]
  show ?thesis by (auto split: sum.splits simp: config_map_def db_live_def db_deploying_def db_claimed_def
      db_queued_def db_upload_def db_app_def db_account_def empty_db_def)
qed

text \<open>A batch of removals commits exactly when its keys are distinct and all present, and then removes
  those keys and nothing else; any other batch is refused as not found and removes nothing.\<close>

theorem unset_config_batch_outcome:
  "case UnsetConfigBatch s app keys of
      Inl e \<Rightarrow> e = ErrNotFound \<and> \<not> (distinct keys \<and> (\<forall>k \<in> set keys. config_map s app k \<noteq> None))
    | Inr s' \<Rightarrow> distinct keys \<and> (\<forall>k \<in> set keys. config_map s app k \<noteq> None) \<and>
        (\<forall>app' k. config_map s' app' k =
           (if app' = app \<and> k \<in> set keys then None else config_map s app' k))"
  using UnsetConfigBatch_outcome[where s = s and app = app and keys = keys] by (auto split: sum.splits)

theorem unset_config_batch_outcome_witness:
  "case UnsetConfigBatch db_live ''app_1'' [''KEY''] of Inl e \<Rightarrow> e = ErrNotFound | Inr _ \<Rightarrow> False"
proof -
  have "config_map db_live ''app_1'' ''KEY'' = None"
    by (simp add: config_map_def db_live_def db_deploying_def db_claimed_def db_queued_def
        db_upload_def db_app_def db_account_def empty_db_def)
  then show ?thesis
    using unset_config_batch_outcome[where s = db_live and app = "''app_1''" and keys = "[''KEY'']"]
    by (auto split: sum.splits)
qed

section \<open>Responses\<close>

text \<open>A row as somebody who may not see secret values sees it.\<close>

definition masked :: "app_config \<Rightarrow> app_config" where
  "masked c = (if c_is_secret c then c\<lparr>c_value := []\<rparr> else c)"

lemma sort_key_masked: "sort_key c_key (map masked t) = map masked (sort_key c_key t)"
proof -
  have key: "c_key (masked c) = c_key c" for c by (simp add: masked_def)
  have "insort_key c_key (masked c) (map masked u) = map masked (insort_key c_key c u)" for c u
    by (induction u) (simp_all add: key)
  then show ?thesis by (induction t) (simp_all add: sort_key_def)
qed

lemma response_masked:
  "ListConfigForResponse s app = map (\<lambda>c. \<lparr>ce_key = c_key c, ce_value = c_value c, ce_secret = c_is_secret c\<rparr>)
     (sort_key c_key (filter (\<lambda>c. c_app_id c = app) (map masked (app_configs s))))"
proof -
  have "filter (\<lambda>c. c_app_id c = app) (map masked t) = map masked (filter (\<lambda>c. c_app_id c = app) t)" for t
    by (induction t) (simp_all add: masked_def)
  note F = this
  show ?thesis
    unfolding F sort_key_masked ListConfigForResponse_def q_ListConfigForResponse_def map_map
    by (rule map_cong) (simp_all add: masked_def)
qed

text \<open>What a tool response may read does not depend on any secret's value: two databases whose
  configuration tables agree once secret values are masked give the same answer, for every app,
  and every secret in it is listed with an empty value.\<close>

theorem responses_hide_secrets:
  assumes "map masked (app_configs s) = map masked (app_configs s')"
  shows "ListConfigForResponse s app = ListConfigForResponse s' app \<and>
    (\<forall>e \<in> set (ListConfigForResponse s app). ce_secret e \<longrightarrow> ce_value e = [])"
  unfolding response_masked assms by (auto simp: masked_def)

definition secret_row :: "string \<Rightarrow> app_config" where
  "secret_row v = \<lparr>c_app_id = ''app_1'', c_key = ''API_KEY'', c_value = v, c_is_secret = True,
     c_created_at = ''t'', c_updated_at = ''t''\<rparr>"

theorem responses_hide_secrets_witness:
  "ListConfigForResponse (db_live\<lparr>app_configs := [secret_row ''one'']\<rparr>) ''app_1'' =
   ListConfigForResponse (db_live\<lparr>app_configs := [secret_row ''two'']\<rparr>) ''app_1''"
  using responses_hide_secrets[of "db_live\<lparr>app_configs := [secret_row ''one'']\<rparr>"
      "db_live\<lparr>app_configs := [secret_row ''two'']\<rparr>" "''app_1''"]
  by (simp add: masked_def secret_row_def)

section \<open>Snapshots\<close>

text \<open>A value as it comes back out of a JSON document.\<close>

definition as_text :: "ConfigValue \<Rightarrow> ConfigValue" where
  "as_text v = v\<lparr>cv_value := json_text (cv_value v)\<rparr>"

lemma as_text_valid [simp]: "valid_text (cv_value v) \<Longrightarrow> as_text v = v"
  by (simp add: as_text_def)

lemma decode_snapshot_value: "decode_value (snapshot_value v) = Some (as_text v)"
proof -
  have "fold_name ''value'' = ''value''" "fold_name ''secret'' = ''secret''"
    by (simp_all add: upper_char_def)
  then show ?thesis by (simp add: snapshot_value_def as_text_def)
qed

lemma raw_map_keys: "distinct (map fst (raw_map fs))"
proof -
  have "distinct (map fst m) \<Longrightarrow> distinct (map fst (fold (\<lambda>(k, j) m. AList.update k j m) fs m))" for m
    by (induction fs arbitrary: m) (auto simp: AList.distinct_update)
  then show ?thesis by (simp add: raw_map_def)
qed

lemma raw_map_last: "map_of (raw_map fs) = map_of (rev fs)"
proof -
  have "map_of (fold (\<lambda>(k, j) m. AList.update k j m) fs m) = map_of m ++ map_of (rev fs)" for m
    by (induction fs arbitrary: m) (auto simp: AList.update_conv' fun_eq_iff map_add_def
        split: option.split)
  then show ?thesis by (simp add: raw_map_def)
qed

lemma raw_map_distinct:
  assumes "distinct (map fst fs)"
  shows "map_of (raw_map fs) = map_of fs"
proof -
  have "map_of (rev fs) = map_of fs"
    by (rule map_of_inject_set[THEN iffD2]) (use assms in \<open>simp_all add: rev_map[symmetric]\<close>)
  then show ?thesis by (simp add: raw_map_last)
qed

lemma decode_raw_map:
  "decode_raw raw = Some m \<Longrightarrow> map fst m = map fst raw \<and>
   map_of m k = Option.bind (map_of raw k) decode_value"
proof (induction raw arbitrary: m)
  case (Cons kj raw)
  obtain key j where kj: "kj = (key, j)" by (cases kj)
  obtain v m' where "decode_value j = Some v" "decode_raw raw = Some m'" "m = (key, v) # m'"
    using Cons.prems kj by (auto split: option.splits)
  then show ?case using Cons.IH kj by auto
qed simp

lemma decode_raw_Some:
  "(\<exists>m. decode_raw raw = Some m) \<longleftrightarrow> (\<forall>(k, j) \<in> set raw. decode_value j \<noteq> None)"
  by (induction raw rule: decode_raw.induct) (auto split: option.split)

text \<open>A snapshot is read back key by key, whichever shape each key is in: the last of two equal keys
  counts, a bare string (or a null) is restored as a secret, a two field object with its flag, and
  the whole document is refused as soon as one value is neither.\<close>

theorem snapshot_decoding:
  "case decodeSnapshot (Document (JObject fs)) of
     Inl e \<Rightarrow> e = BadSnapshot \<and> (\<exists>k j. map_of (rev fs) k = Some j \<and> decode_value j = None)
   | Inr m \<Rightarrow> distinct (map fst m) \<and> (\<forall>k. map_of m k = (case map_of (rev fs) k of
       None \<Rightarrow> None
     | Some (JString bare) \<Rightarrow> Some \<lparr>cv_value = bare, cv_secret = True\<rparr>
     | Some j \<Rightarrow> decode_value j))"
proof (cases "decode_raw (raw_map fs)")
  case None
  then obtain k j where kj: "(k, j) \<in> set (raw_map fs)" "decode_value j = None"
    using decode_raw_Some[of "raw_map fs"] by auto
  then have "map_of (rev fs) k = Some j"
    using map_of_is_SomeI[OF raw_map_keys kj(1)] raw_map_last[of fs] by simp
  then show ?thesis using None kj(2) by auto
next
  case (Some m)
  have "map_of m k = Option.bind (map_of (rev fs) k) decode_value" for k
    using decode_raw_map[OF Some, of k] raw_map_last[of fs] by simp
  moreover have "distinct (map fst m)"
    using decode_raw_map[OF Some] raw_map_keys[of fs] by simp
  ultimately show ?thesis using Some by (auto split: option.split json.split)
qed

text \<open>A key that passes the naming rule is plain text.\<close>

lemma ValidConfigKey_text: "ValidConfigKey k \<Longrightarrow> valid_text k"
proof (rule plain_valid)
  assume "ValidConfigKey k"
  then show "list_all (\<lambda>c. of_char c < (0x80::nat)) k"
    unfolding ValidConfigKey_iff list_all_iff by (fastforce simp: upper_char_def digit_char_def less_eq_char_def)
qed

lemma configSnapshot_decode:
  assumes "distinct (map fst values)" "\<forall>k \<in> fst ` set values. valid_text k"
  shows "\<exists>m. decodeSnapshot (configSnapshot values) = Inr m \<and> (\<forall>k. map_of m k = map_option as_text (map_of values k)) \<and>
    distinct (map fst m)"
proof -
  define fs where "fs = map (\<lambda>(k, v). (k, snapshot_value v)) (sort_key fst values)"
  have keys: "distinct (map fst fs)"
    using assms(1) by (simp add: fs_def split_def comp_def distinct_map inj_on_def)
  have look: "map_of fs k = map_option snapshot_value (map_of values k)" for k
  proof -
    have "map_of (sort_key fst values) = map_of values"
      by (rule map_of_inject_set[THEN iffD2]) (use assms(1) in \<open>simp_all add: distinct_map\<close>)
    then show ?thesis by (simp add: fs_def map_of_map)
  qed
  have "decode_value j \<noteq> None" if "(k, j) \<in> set (raw_map fs)" for k j
  proof -
    have "map_of fs k = Some j"
      using map_of_is_SomeI[OF raw_map_keys that] raw_map_distinct[OF keys] by simp
    then show ?thesis unfolding look using decode_snapshot_value by auto
  qed
  then obtain m where m: "decode_raw (raw_map fs) = Some m"
    using decode_raw_Some[of "raw_map fs"] by auto
  have "map_of m k = map_option as_text (map_of values k)" for k
    using decode_raw_map[OF m, of k] raw_map_distinct[OF keys]
    by (cases "map_of values k") (simp_all add: look decode_snapshot_value)
  moreover have "map (\<lambda>(k, v). (json_text k, snapshot_value v)) (sort_key fst values) = fs"
    unfolding fs_def using assms(2) by (intro map_cong) auto
  ultimately show ?thesis
    using m decode_raw_map[OF m] raw_map_keys[of fs] by (simp add: configSnapshot_def)
qed

text \<open>A release's snapshot is faithful: decoding what \<open>configSnapshot\<close> stored gives back exactly the
  configuration it was made from, values and secret flags alike, when its text is well formed.\<close>

theorem snapshot_roundtrip:
  assumes "distinct (map fst values)" "\<forall>(k, v) \<in> set values. valid_text k \<and> valid_text (cv_value v)"
  shows "\<exists>m. decodeSnapshot (configSnapshot values) = Inr m \<and> map_of m = map_of values"
proof -
  have "map_option as_text (map_of values k) = map_of values k" for k
    using assms(2) by (cases "map_of values k") (auto dest!: map_of_SomeD)
  then show ?thesis using configSnapshot_decode[OF assms(1)] assms(2) by fastforce
qed

theorem snapshot_roundtrip_witness:
  "\<exists>m. decodeSnapshot (configSnapshot config1) = Inr m \<and>
     map_of m ''KEY'' = Some \<lparr>cv_value = ''v'', cv_secret = True\<rparr>"
  using snapshot_roundtrip[of config1] by (auto simp: config1_def)

text \<open>C21: Becoming healthy records the configuration the deploy ran with: the release's snapshot decodes,
  key by key, to it, with each value as JSON carries it: a value that is well formed UTF-8 comes
  back byte for byte, in any other each unreadable byte is the replacement character. A build
  deploy leaves the stored configuration of every app alone; a rollback makes its app's stored
  configuration exactly that set, keys not in it gone, and no other app's is touched. The keys are
  taken to be well formed, as every key \<open>ValidConfigKey\<close> admits is.\<close>

theorem healthy_configuration:
  assumes "MarkHealthy s i config evt rel now = Inr (d', r, s')" "q_GetDeployment s i = Some d"
    and "distinct (map fst config)" "\<forall>k \<in> fst ` set config. valid_text k"
  shows "(\<exists>m. decodeSnapshot (r_config_snapshot r) = Inr m \<and> (\<forall>k. map_of m k = map_option as_text (map_of config k)) \<and>
      ((\<forall>v \<in> snd ` set config. valid_text (cv_value v)) \<longrightarrow> map_of m = map_of config)) \<and>
    (\<forall>app k. config_map s' app k = (if d_source_release_id d \<noteq> None \<and> app = d_app_id d
       then map_of config k else config_map s app k))"
proof (rule MarkHealthy_Inr[OF assms(1)])
  fix x p e s1 cs
  assume m: "q_GetDeployment s i = Some x" "s1 = moved s x p e now"
    "r = minted s1 rel x (deref (d_image_digest x)) config now"
    "s' = s1\<lparr>releases := releases s1 @ [r], apps := point_at (d_app_id x) rel now (apps s1), app_configs := cs\<rparr>"
    "d_source_release_id x = None \<Longrightarrow> cs = app_configs s"
    "d_source_release_id x \<noteq> None \<Longrightarrow>
       replaceConfig (s1\<lparr>releases := releases s1 @ [r], apps := point_at (d_app_id x) rel now (apps s1)\<rparr>)
         (d_app_id x) config now = Inr s'"
  have x: "x = d" using m(1) assms(2) by simp
  have snap: "r_config_snapshot r = configSnapshot config"
    unfolding m(3) by (simp add: minted_def)
  have same: "config_map (s1\<lparr>releases := releases s1 @ [r], apps := point_at (d_app_id x) rel now (apps s1)\<rparr>) app k
      = config_map s app k" for app k
    unfolding m(2) config_map_def by simp
  have "config_map s' app k = (if d_source_release_id d \<noteq> None \<and> app = d_app_id d
       then map_of config k else config_map s app k)" for app k
  proof (cases "d_source_release_id d = None")
    case True
    then have "app_configs s' = app_configs s"
      unfolding m(4) using m(5) x by simp
    then show ?thesis unfolding config_map_def using True by simp
  next
    case False
    then have "d_source_release_id x \<noteq> None" using x by simp
    from replaceConfig_map[OF m(6)[OF this] assms(3), of app k] show ?thesis
      unfolding same using False x by simp
  qed
  moreover have "map_option as_text (map_of config k) = map_of config k"
    if "\<forall>v \<in> snd ` set config. valid_text (cv_value v)" for k
    using that by (cases "map_of config k") (auto dest!: map_of_SomeD)
  ultimately show ?thesis
    using configSnapshot_decode[OF assms(3,4)] unfolding snap by fastforce
qed

theorem healthy_configuration_witness:
  "\<exists>m. decodeSnapshot (r_config_snapshot rel1) = Inr m \<and> map_of m ''KEY'' = map_of config1 ''KEY''"
proof -
  have "q_GetDeployment db_deploying ''dep_1'' = Some deploying1" by code_simp
  moreover have "distinct (map fst config1)" "\<forall>k \<in> fst ` set config1. valid_text k"
    "\<forall>v \<in> snd ` set config1. valid_text (cv_value v)"
    by (simp_all add: config1_def)
  ultimately show ?thesis using healthy_configuration[OF demo_live] by fastforce
qed

end
