(* ===== verification/Store_Properties.thy ===== *)
theory Store_Properties
  imports Store_History
begin

text \<open>
  The properties of the deployment store: its invariant in every reachable database, the life of
  a row and of its log, and the exact outcome of each transaction, errors included.
\<close>

text \<open>C1: In every database the store can leave behind, keys are unique, a hostname belongs to
  one app for ever and a name to one live app of its account, an app has at most one deployment
  in flight, every row is finished exactly when its state is terminal, every reference resolves,
  a deployment is healthy exactly when one release was minted for it, the releases of an app are
  numbered one, two, three and so on without a gap, and an app points at its newest release.\<close>

theorem store_invariant:
  assumes "store_reachable s"
  shows "keys_ok s \<and> names_ok s \<and> one_in_flight s \<and> (\<forall>d \<in> set (deployments s). life_ok d) \<and>
    refs_ok s \<and> released_ok s \<and> numbered_ok s \<and> pointed_ok s"
  using reachable_ok[OF assms] unfolding store_ok_def .

theorem store_invariant_witness: "one_in_flight db_live \<and> numbered_ok db_live \<and> pointed_ok db_live"
  using store_invariant[OF reach_live] by blast

text \<open>What a sweep does to one row.\<close>

lemma sweep_rows:
  assumes "sweep_step s s'" "store_ok s" "d \<in> set (deployments s)"
  shows "d \<in> set (deployments s') \<or> (\<exists>cutoff upload_cutoff now n t. Sweep s cutoff upload_cutoff now = Inr (n, s') \<and>
    d_state d \<in> {StateFailed, StateCancelled} \<and> d_finished_at d = Some t \<and> t < cutoff \<and>
    (\<forall>e \<in> set (deployments s'). d_id e \<noteq> d_id d) \<and> (\<forall>r \<in> set (releases s). r_deployment_id r \<noteq> d_id d))"
proof -
  obtain cutoff upload_cutoff now n where sw: "Sweep s cutoff upload_cutoff now = Inr (n, s')"
    using assms(1) by (cases rule: sweep_step.cases) blast
  have rows: "deployments s' = del_where (swept cutoff) (deployments s)"
    using Sweep_total[OF assms(2), of cutoff upload_cutoff now] sw by auto
  show ?thesis
  proof (cases "swept cutoff d")
    case True
    have same: "e = d" if "e \<in> set (deployments s)" "d_id e = d_id d" for e
      using keyed_eq[OF _ that(1) assms(3) that(2)] assms(2) by (simp add: store_ok_def keys_ok_def)
    have "\<forall>e \<in> set (deployments s'). d_id e \<noteq> d_id d"
      using same True unfolding rows by (auto simp: set_del_where)
    moreover have "\<forall>r \<in> set (releases s). r_deployment_id r \<noteq> d_id d"
      using swept_no_release[OF assms(2,3) True] by blast
    ultimately show ?thesis using True sw by (fastforce simp: swept_def split: option.splits)
  qed (simp add: rows set_del_where assms(3))
qed

text \<open>C6: Every commit, the retention sweep included, leaves a deployment's row under the same app, account
  and source, in a state reached by legal moves of the machine, and leaves a row that had finished
  its state, its finishing time and its reason; or it is a sweep and the row is gone, which happens
  only to a failed or cancelled row that finished before the sweep's cutoff and has no release.\<close>

theorem rows_follow_machine:
  assumes "store_reachable s" "work_step s s' \<or> sweep_step s s'" "d \<in> set (deployments s)"
  shows "(\<exists>e \<in> set (deployments s'). d_id e = d_id d \<and> d_app_id e = d_app_id d \<and>
      d_account_id e = d_account_id d \<and> d_upload_id e = d_upload_id d \<and>
      d_source_release_id e = d_source_release_id d \<and> CanTransition\<^sup>*\<^sup>* (d_state d) (d_state e) \<and>
      (Terminal (d_state d) \<longrightarrow> d_state e = d_state d \<and> d_finished_at e = d_finished_at d \<and>
        d_failure_reason e = d_failure_reason d)) \<or>
    (\<exists>cutoff upload_cutoff now n t. Sweep s cutoff upload_cutoff now = Inr (n, s') \<and>
      d_state d \<in> {StateFailed, StateCancelled} \<and> d_finished_at d = Some t \<and> t < cutoff \<and>
      (\<forall>e \<in> set (deployments s'). d_id e \<noteq> d_id d) \<and> (\<forall>r \<in> set (releases s). r_deployment_id r \<noteq> d_id d))"
  using assms(2)
proof
  assume "work_step s s'"
  from effects_rows[OF work_effects[OF this reachable_ok[OF assms(1)]] reachable_ok[OF assms(1)] assms(3)]
  show ?thesis unfolding row_next_def by (rule disjI1)
next
  assume "sweep_step s s'"
  from sweep_rows[OF this reachable_ok[OF assms(1)] assms(3)] show ?thesis
    by (elim disjE) (blast, rule disjI2)
qed

lemma dep1_queued: "dep1 \<in> set (deployments db_queued)"
  by (simp add: db_queued_def)

theorem rows_follow_machine_witness:
  "\<exists>e \<in> set (deployments db_claimed). d_id e = ''dep_1'' \<and> d_app_id e = ''app_1''"
proof -
  have live: "d_state dep1 \<notin> {StateFailed, StateCancelled}" by (simp add: dep1_def)
  from rows_follow_machine[OF reach_queued disjI1[OF work_step.claim[OF demo_claimed]] dep1_queued] live
  show ?thesis by (auto simp: dep1_def)
qed

text \<open>C7: Until the retention sweep deletes something, the event log of a deployment is its exact
  path: it starts with the birth into queued, each later event starts where the one before it
  ended and is a legal move, and the last one ends in the state the row is in.\<close>

theorem log_is_the_path:
  assumes "work_reachable s" "d \<in> set (deployments s)"
  shows "history s (d_id d) \<noteq> [] \<and> e_from_state (hd (history s (d_id d))) = None \<and>
    e_to_state (hd (history s (d_id d))) = StateQueued \<and>
    successively (\<lambda>e f. e_from_state f = Some (e_to_state e) \<and> CanTransition (e_to_state e) (e_to_state f))
      (history s (d_id d)) \<and>
    e_to_state (last (history s (d_id d))) = d_state d"
  using work_reachable_log[OF assms(1)] assms(2)
  by (simp add: log_ok_def path_to_def follows_def[abs_def])

theorem log_is_the_path_witness: "history db_queued ''dep_1'' \<noteq> []"
proof -
  have "work_reachable db_upload"
    by (rule work_more[OF work_more[OF work_more[OF work_empty
      work_step.account[OF demo_account]] work_step.app[OF demo_app]] work_step.upload[OF demo_upload]])
  then have "work_reachable db_queued" by (rule work_more[OF _ work_step.deploy[OF demo_queued]])
  from log_is_the_path[OF this dep1_queued] show ?thesis by (simp add: dep1_def)
qed

section \<open>Creating a deployment\<close>

lemma store_okD:
  assumes "store_ok s"
  shows "distinct (map d_id (deployments s))" "distinct (map a_id (apps s))"
    "distinct (map r_id (releases s))" "refs_ok s" "one_in_flight s" "numbered_ok s"
    "released_ok s" "pointed_ok s"
  using assms by (simp_all only: store_ok_def keys_ok_def)

lemma store_ok_row:
  assumes "store_ok s" "d \<in> set (deployments s)"
  shows "life_ok d" "d_check d" "dep_refs s d"
proof -
  show "life_ok d" using assms by (simp only: store_ok_def)
  then show "d_check d" by (simp only: life_ok_def)
  show "dep_refs s d" using store_okD(4)[OF assms(1)] assms(2) by (simp only: refs_ok_def)
qed

lemma in_flight_unique:
  assumes "store_ok s" "q_GetInFlightDeploymentForApp s app = Some x"
    and "e \<in> set (deployments s)" "in_flight e" "d_app_id e = app"
  shows "d_id e = d_id x"
proof -
  have "x \<in> set (deployments s) \<and> d_app_id x = app \<and> in_flight x"
    using sel_one_Some[OF assms(2)[unfolded q_GetInFlightDeploymentForApp_def]] by blast
  then show ?thesis
    using one_in_flightD[OF store_okD(5)[OF assms(1)] assms(3) _ assms(4)] assms(5) by simp
qed

definition supersession :: "deployment \<Rightarrow> ident \<Rightarrow> stamp \<Rightarrow> deployment_event" where
  "supersession x evt now = \<lparr>e_id = evt, e_deployment_id = d_id x, e_from_state = Some (d_state x),
     e_to_state = StateCancelled, e_reason = Some (reason_code ReasonSuperseded),
     e_detail = None, e_occurred_at = now\<rparr>"

definition after_supersede :: "db \<Rightarrow> ident \<Rightarrow> ident \<Rightarrow> stamp \<Rightarrow> string \<times> db" where
  "after_supersede s app evt now = (case q_GetInFlightDeploymentForApp s app of
     None \<Rightarrow> ([], s)
   | Some x \<Rightarrow> (d_id x, moved s x (superseded_params now) (supersession x evt now) now))"

lemma supersede_total:
  assumes "store_ok s" "evt \<notin> e_id ` set (events s)"
  shows "supersede s app evt now = Inr (after_supersede s app evt now)"
proof (cases "q_GetInFlightDeploymentForApp s app")
  case None
  then show ?thesis by (simp add: supersede_def after_supersede_def)
next
  case (Some x)
  have x: "x \<in> set (deployments s)"
    using sel_one_Some[OF Some[unfolded q_GetInFlightDeploymentForApp_def]] by blast
  have sel: "sel_one (\<lambda>y. d_id y = d_id x) (deployments s) = Some x"
    by (rule sel_one_unique[OF store_okD(1)[OF assms(1)] x])
  have chk: "d_check (set_state (superseded_params now) now x)" "Valid (d_state x)"
    using store_ok_row(2)[OF assms(1) x] by (simp_all add: d_check_def)
  have noclash: "\<not> list_ex (\<lambda>e. d_id e \<noteq> d_id x \<and> d_clash (set_state (superseded_params now) now x) e) (deployments s)"
    by (simp add: list_ex_iff d_clash_def in_flight_def)
  let ?s1 = "s\<lparr>deployments := upd_where (\<lambda>y. d_id y = d_id x) (set_state (superseded_params now) now) (deployments s)\<rparr>"
  have up: "q_UpdateDeploymentState s (superseded_params now) now (d_id x) =
      Inr (set_state (superseded_params now) now x, ?s1)"
    using chk noclash by (simp add: q_UpdateDeploymentState_def sel)
  have "deployment_exists ?s1 (d_id x)"
    using x by (simp add: exists_ids(2) del: set_map) (simp add: x)
  then have ins: "q_InsertDeploymentEvent ?s1 (supersession x evt now) =
      Inr (moved s x (superseded_params now) (supersession x evt now) now)"
    using assms(2) chk(2)
    by (auto simp: q_InsertDeploymentEvent_def supersession_def list_ex_iff moved_def)
  show ?thesis
    using ins by (simp add: supersede_def after_supersede_def Some up supersession_def)
qed

lemma after_supersede_frees:
  assumes "store_ok s" "after_supersede s app evt now = (old, s1)"
    "e \<in> set (deployments s1)" "d_app_id e = app"
  shows "\<not> in_flight e"
proof (cases "q_GetInFlightDeploymentForApp s app")
  case None
  then have "s1 = s" using assms(2) by (simp add: after_supersede_def)
  then show ?thesis
    using None assms(3,4) unfolding q_GetInFlightDeploymentForApp_def sel_one_None by blast
next
  case (Some x)
  then have "deployments s1 = upd_where (\<lambda>y. d_id y = d_id x) (set_state (superseded_params now) now) (deployments s)"
    using assms(2) by (auto simp: after_supersede_def)
  then consider "e \<in> set (deployments s)" "d_id e \<noteq> d_id x" | y where "e = set_state (superseded_params now) now y"
    using assms(3) by (auto simp: set_upd_where)
  then show ?thesis
  proof cases
    case 1
    then show ?thesis using in_flight_unique[OF assms(1) Some 1(1) _ assms(4)] by blast
  qed (simp add: in_flight_def)
qed

lemma after_supersede_frame:
  assumes "after_supersede s app evt now = (old, s1)"
  shows "accounts s1 = accounts s" "apps s1 = apps s" "uploads s1 = uploads s" "releases s1 = releases s"
    "map d_id (deployments s1) = map d_id (deployments s)"
    "e_id ` set (events s1) \<subseteq> insert evt (e_id ` set (events s))"
  using assms by (auto simp: after_supersede_def supersession_def split: option.splits)

text \<open>The queued row and the database that holds it, its predecessor and both events.\<close>

definition queue_after ::
  "db \<Rightarrow> CreateDeploymentInput \<Rightarrow> string option \<Rightarrow> ident \<Rightarrow> ident \<Rightarrow> ident \<Rightarrow> stamp \<Rightarrow> deployment \<times> string \<times> db" where
  "queue_after s inp digest evt dep evt' now =
     (let d = new_deployment dep (in_app inp) (in_account inp) (in_upload inp) (in_source inp) digest now;
          (old, s1) = after_supersede s (in_app inp) evt now
      in (d, old, s1\<lparr>deployments := deployments s1 @ [d],
            events := events s1 @ [birth_event evt' dep now]\<rparr>))"

lemma queue_ready:
  assumes ok: "store_ok s" and acc: "account_exists s (in_account inp)"
    and up: "fk_opt (upload_exists s) (in_upload inp)"
    and fresh: "\<not> deployment_exists s dep" "evt \<notin> e_id ` set (events s)" "evt' \<notin> e_id ` set (events s)"
      "evt \<noteq> evt'"
    and ne: "(in_upload inp = None) \<noteq> (in_source inp = None)" and app: "q_GetApp s (in_app inp) = Some a"
    and fk: "fk_opt (release_exists s) (in_source inp)"
  shows "next_step (supersede s (in_app inp) evt now) (\<lambda>(old, s1).
        next_step (faulted (q_CreateDeployment s1 dep (in_app inp) (in_account inp)
                     (in_upload inp) (in_source inp) digest now)) (\<lambda>(d, s2).
        next_step (faulted (q_InsertDeploymentEvent s2 (birth_event evt' dep now))) (\<lambda>s3.
        Inr (d, old, s3)))) = Inr (queue_after s inp digest evt dep evt' now)"
proof -
  obtain old s1 where s1: "after_supersede s (in_app inp) evt now = (old, s1)" by fastforce
  define d where "d = new_deployment dep (in_app inp) (in_account inp) (in_upload inp) (in_source inp) digest now"
  note frame = after_supersede_frame[OF s1]
  have "\<not> d_clash d e" if "e \<in> set (deployments s1)" for e
    using after_supersede_frees[OF ok s1 that] by (auto simp: d_clash_def d_def)
  then have clash: "\<not> list_ex (d_clash d) (deployments s1)"
    by (simp add: list_ex_iff)
  have ex: "app_exists s1 (in_app inp)" "account_exists s1 (in_account inp)"
    "upload_exists s1 = upload_exists s" "release_exists s1 = release_exists s"
    "\<not> deployment_exists s1 dep"
    using sel_one_Some[OF app[unfolded q_GetApp_def]] acc fresh(1) frame
    by (auto simp: app_exists_def account_exists_def upload_exists_def release_exists_def list_ex_iff
        fun_eq_iff exists_ids(2) simp del: set_map)
  let ?s2 = "s1\<lparr>deployments := deployments s1 @ [d]\<rparr>"
  have chk: "d_check d" using ne by (simp add: d_check_def d_def new_deployment_def)
  have ins: "q_CreateDeployment s1 dep (in_app inp) (in_account inp)
      (in_upload inp) (in_source inp) digest now = Inr (d, ?s2)"
    using clash ex chk up fk by (simp add: q_CreateDeployment_def d_def[symmetric])
  have "evt' \<notin> e_id ` set (events s1)" using frame(6) fresh(3,4) by auto
  then have ev: "q_InsertDeploymentEvent ?s2 (birth_event evt' dep now) =
      Inr (?s2\<lparr>events := events s1 @ [birth_event evt' dep now]\<rparr>)"
    by (auto simp: q_InsertDeploymentEvent_def birth_event_def list_ex_iff deployment_exists_def d_def)
  show ?thesis
    by (simp add: supersede_total[OF ok fresh(2)] s1 ins ev queue_after_def d_def[symmetric])
qed

text \<open>C8: Starting a deployment for existing rows and freshly drawn identifiers has exactly four
  outcomes: the source is ambiguous, the app is not live, a rollback's release is missing or
  belongs to another app, or the deployment is queued with the digest of its source release,
  after whatever was in flight was cancelled as superseded, each of the two with its event. No
  constraint of the schema can refuse it: superseding always clears the way for the insert.\<close>

theorem create_deployment_outcome:
  assumes "store_reachable s" "account_exists s (in_account inp)"
    "fk_opt (upload_exists s) (in_upload inp)"
    "\<not> deployment_exists s dep" "evt \<notin> e_id ` set (events s)" "evt' \<notin> e_id ` set (events s)"
    "evt \<noteq> evt'"
  shows "CreateDeployment s inp evt dep evt' now =
    (if (in_upload inp = None) = (in_source inp = None) then Inl ErrDeploymentSourceAmbiguous
     else if q_GetApp s (in_app inp) = None then Inl ErrAppDeleted
     else case in_source inp of
       None \<Rightarrow> Inr (queue_after s inp None evt dep evt' now)
     | Some src \<Rightarrow> (case q_GetRelease s src of
           None \<Rightarrow> Inl ErrNotFound
         | Some rel \<Rightarrow> if r_app_id rel \<noteq> in_app inp then Inl ErrNotFound
             else Inr (queue_after s inp (Some (r_image_digest rel)) evt dep evt' now)))"
proof -
  note ok = reachable_ok[OF assms(1)]
  have digest: "release_exists s src" if "q_GetRelease s src = Some rel" for src rel
    using sel_one_Some[OF that[unfolded q_GetRelease_def]] unfolding release_exists_def list_ex_iff by blast
  have ready: "next_step (supersede s (in_app inp) evt now) (\<lambda>(old, s1).
        next_step (faulted (q_CreateDeployment s1 dep (in_app inp) (in_account inp)
                     (in_upload inp) (in_source inp) digest now)) (\<lambda>(d, s2).
        next_step (faulted (q_InsertDeploymentEvent s2 (birth_event evt' dep now))) (\<lambda>s3.
        Inr (d, old, s3)))) = Inr (queue_after s inp digest evt dep evt' now)"
    if ne: "(in_upload inp = None) \<noteq> (in_source inp = None)" and a: "q_GetApp s (in_app inp) = Some a"
      and fk: "fk_opt (release_exists s) (in_source inp)" for digest a
    by (rule queue_ready[OF ok assms(2-7) ne a fk])
  show ?thesis
  proof (cases "(in_upload inp = None) = (in_source inp = None) \<or> q_GetApp s (in_app inp) = None")
    case True
    then show ?thesis by (auto simp: CreateDeployment_def)
  next
    case False
    then obtain a where a: "q_GetApp s (in_app inp) = Some a"
      and ne: "(in_upload inp = None) \<noteq> (in_source inp = None)" by blast
    show ?thesis
    proof (cases "in_source inp")
      case None
      then show ?thesis
        using ready[OF ne a] ne by (simp add: CreateDeployment_def source_digest_def a)
    next
      case (Some src)
      then show ?thesis
        using ready[OF ne a] ne digest
        by (cases "q_GetRelease s src") (simp_all add: CreateDeployment_def source_digest_def a)
    qed
  qed
qed

definition again1 :: CreateDeploymentInput where
  "again1 = \<lparr>in_app = ''app_1'', in_account = ''acc_1'', in_upload = Some ''upl_1'', in_source = None\<rparr>"

theorem create_deployment_outcome_witness:
  "CreateDeployment db_queued again1 ''evt_3'' ''dep_2'' ''evt_4'' ''t5'' =
   Inr (queue_after db_queued again1 None ''evt_3'' ''dep_2'' ''evt_4'' ''t5'')"
proof -
  have "account_exists db_queued (in_account again1)" "fk_opt (upload_exists db_queued) (in_upload again1)"
    "\<not> deployment_exists db_queued ''dep_2''" "q_GetApp db_queued (in_app again1) \<noteq> None"
    "(in_upload again1 = None) \<noteq> (in_source again1 = None)" "in_source again1 = None"
    by code_simp+
  moreover have "''evt_3'' \<notin> e_id ` set (events db_queued)" "''evt_4'' \<notin> e_id ` set (events db_queued)"
    by (simp_all add: db_queued_def birth_event_def)
  ultimately show ?thesis
    using create_deployment_outcome[OF reach_queued, of again1 "''dep_2''" "''evt_3''" "''evt_4''" "''t5''"]
    by simp
qed

section \<open>Moving a deployment\<close>

lemma update_state_total:
  assumes "store_ok s" "d \<in> set (deployments s)" "CanTransition (d_state d) (p_state p)"
  shows "q_UpdateDeploymentState s p now (d_id d) = Inr (set_state p now d,
    s\<lparr>deployments := upd_where (\<lambda>x. d_id x = d_id d) (set_state p now) (deployments s)\<rparr>)"
proof -
  have sel: "sel_one (\<lambda>x. d_id x = d_id d) (deployments s) = Some d"
    by (rule sel_one_unique[OF store_okD(1)[OF assms(1)] assms(2)])
  have chk: "d_check (set_state p now d)"
    using store_ok_row(2)[OF assms(1,2)] CanTransition_Valid[OF assms(3)] by (simp add: d_check_def)
  have fl: "in_flight d" using CanTransition_not_Terminal[OF assms(3)] by (simp add: in_flight_iff)
  have "\<not> d_clash (set_state p now d) e" if "e \<in> set (deployments s)" "d_id e \<noteq> d_id d" for e
    using one_in_flightD[OF store_okD(5)[OF assms(1)] that(1) assms(2) _ fl] that(2) by (auto simp: d_clash_def)
  then have "\<not> list_ex (\<lambda>e. d_id e \<noteq> d_id d \<and> d_clash (set_state p now d) e) (deployments s)"
    by (auto simp: list_ex_iff)
  then show ?thesis using chk by (simp add: q_UpdateDeploymentState_def sel)
qed

lemma applyTransition_total:
  assumes "store_ok s" "d \<in> set (deployments s)" "CanTransition (d_state d) to'"
    and "evt \<notin> e_id ` set (events s)"
  shows "applyTransition s d to' reason detail evt now =
    Inr (set_state (transition_params d to' reason now) now d,
      moved s d (transition_params d to' reason now) (transition_event evt d to' reason detail now) now)"
proof -
  let ?p = "transition_params d to' reason now"
  let ?s1 = "s\<lparr>deployments := upd_where (\<lambda>x. d_id x = d_id d) (set_state ?p now) (deployments s)\<rparr>"
  have up: "q_UpdateDeploymentState s ?p now (d_id d) = Inr (set_state ?p now d, ?s1)"
    using update_state_total[OF assms(1,2), of ?p now] assms(3) by simp
  have ex: "deployment_exists ?s1 (d_id d)"
    unfolding exists_ids(2) using assms(2) by (simp del: set_map) simp
  have "q_InsertDeploymentEvent ?s1 (transition_event evt d to' reason detail now) =
      Inr (moved s d ?p (transition_event evt d to' reason detail now) now)"
    using ex assms(4) CanTransition_Valid[OF assms(3)]
    by (auto simp: q_InsertDeploymentEvent_def list_ex_iff moved_def)
  then show ?thesis using up by (simp add: applyTransition_def)
qed

text \<open>C10: A transition has exactly five outcomes: healthy is refused whatever the row, an unknown row is
  not found, a finished row and a move outside the machine are each refused under their own
  error, and a legal move rewrites that one row and appends that one event. The row's start is
  stamped on the way out of queued, its finish on the way into a terminal state, a reason is kept
  on the row only for a failure, and the event carries whatever reason and detail were given.\<close>

theorem transition_outcome:
  assumes "store_reachable s" "evt \<notin> e_id ` set (events s)"
  shows "Transition s i to' reason detail evt now =
    (if to' = StateHealthy then Inl ErrIllegalTransition
     else case q_GetDeployment s i of
       None \<Rightarrow> Inl ErrNotFound
     | Some d \<Rightarrow>
         if Terminal (d_state d) then Inl ErrTerminal
         else if \<not> CanTransition (d_state d) to' then Inl ErrIllegalTransition
         else let d' = d\<lparr>d_state := to',
                  d_failure_reason := (if to' = StateFailed \<and> reason \<noteq> [] then Some reason else d_failure_reason d),
                  d_started_at := (if d_state d = StateQueued then coalesce (d_started_at d) (Some now)
                                   else d_started_at d),
                  d_finished_at := (if Terminal to' then Some now else None), d_updated_at := now\<rparr>
              in Inr (d', s\<lparr>deployments := map (\<lambda>x. if d_id x = i then d' else x) (deployments s),
                   events := events s @ [\<lparr>e_id = evt, e_deployment_id = i,
                     e_from_state = Some (d_state d), e_to_state = to', e_reason = optional reason,
                     e_detail = optional detail, e_occurred_at = now\<rparr>]\<rparr>))"
proof (cases "q_GetDeployment s i")
  case None
  then show ?thesis by (simp add: Transition_def)
next
  case (Some d)
  note ok = reachable_ok[OF assms(1)]
  note d = q_GetDeployment_Some[OF Some]
  let ?p = "transition_params d to' reason now"
  show ?thesis
  proof (cases "to' = StateHealthy \<or> \<not> CanTransition (d_state d) to'")
    case True
    then show ?thesis
      using CanTransition_not_Terminal by (auto simp: Transition_def Some move_check_def)
  next
    case False
    then have mv: "CanTransition (d_state d) to'" by simp
    have fin: "d_finished_at d = None"
      using store_ok_row(1)[OF ok conjunct1[OF conjunct2[OF d]]] CanTransition_not_Terminal[OF mv]
      by (simp add: life_ok_def)
    define D where "D = d\<lparr>d_state := to',
        d_failure_reason := (if to' = StateFailed \<and> reason \<noteq> [] then Some reason else d_failure_reason d),
        d_started_at := (if d_state d = StateQueued then coalesce (d_started_at d) (Some now) else d_started_at d),
        d_finished_at := (if Terminal to' then Some now else None), d_updated_at := now\<rparr>"
    have row: "set_state ?p now d = D"
      using fin by (simp add: D_def set_state_def transition_params_def)
    have one: "x = d" if "x \<in> set (deployments s)" "d_id x = i" for x
      using keyed_eq[OF store_okD(1)[OF ok] that(1)] d that(2) by blast
    have rows: "upd_where (\<lambda>x. d_id x = i) (set_state ?p now) (deployments s) =
        map (\<lambda>x. if d_id x = i then D else x) (deployments s)"
      unfolding upd_where_def row[symmetric] using one by (intro map_cong) auto
    have "applyTransition s d to' reason detail evt now = Inr (set_state ?p now d,
        moved s d ?p (transition_event evt d to' reason detail now) now)"
      using applyTransition_total[OF ok _ mv assms(2)] d by blast
    then show ?thesis
      unfolding Some option.case D_def[symmetric] Let_def using False mv d CanTransition_not_Terminal[OF mv]
      by (simp add: Transition_def Some move_check_def moved_def rows row transition_event_def)
  qed
qed

theorem transition_outcome_witness:
  "Transition db_building ''dep_1'' StateDeploying [] [] ''evt_9'' ''t7'' = Inl ErrIllegalTransition"
proof -
  have "''evt_9'' \<notin> e_id ` set (events db_building)"
    by (simp add: db_building_def db_queued_def moved_event_def birth_event_def)
  moreover have "q_GetDeployment db_building ''dep_1'' = Some building1"
    by code_simp
  ultimately show ?thesis
    using transition_outcome[OF reach_building, of "''evt_9''" "''dep_1''" StateDeploying "[]" "[]" "''t7''"]
    by (simp add: building1_def)
qed

section \<open>Minting a release\<close>

text \<open>The release a deployment mints, and the database that holds it and points its app at it.\<close>

definition release_for :: "db \<Rightarrow> deployment \<Rightarrow> config \<Rightarrow> ident \<Rightarrow> stamp \<Rightarrow> release" where
  "release_for s d config rel now = \<lparr>r_id = rel, r_app_id = d_app_id d, r_deployment_id = d_id d,
     r_release_number = int (length (app_releases s (d_app_id d))) + 1,
     r_image_digest = deref (d_image_digest d), r_config_snapshot = configSnapshot config,
     r_created_at = now\<rparr>"

definition published :: "db \<Rightarrow> deployment \<Rightarrow> config \<Rightarrow> ident \<Rightarrow> ident \<Rightarrow> stamp \<Rightarrow> db" where
  "published s d config evt rel now =
     (moved s d (transition_params d StateHealthy [] now) (transition_event evt d StateHealthy [] [] now) now)\<lparr>
       releases := releases s @ [release_for s d config rel now],
       apps := point_at (d_app_id d) rel now (apps s)\<rparr>"

lemma insert_release_total:
  assumes "store_ok s" "d \<in> set (deployments s)" "d_state d = StateDeploying"
    and "rel \<notin> r_id ` set (releases s)"
    and s1: "s1 = moved s d p e now"
  shows "insert_release s1 (release_for s d config rel now) =
    Inr (release_for s d config rel now, s1\<lparr>releases := releases s @ [release_for s d config rel now]\<rparr>)"
proof -
  let ?r = "release_for s d config rel now"
  have r: "r_id ?r = rel" "r_app_id ?r = d_app_id d" "r_deployment_id ?r = d_id d"
    "r_release_number ?r = int (length (app_releases s (d_app_id d))) + 1"
    by (simp_all add: release_for_def)
  have dep: "r_deployment_id q \<noteq> d_id d" if q: "q \<in> set (releases s)" for q
  proof
    assume "r_deployment_id q = d_id d"
    then obtain x where "x \<in> set (deployments s)" "d_id x = d_id d" "d_state x = StateHealthy"
      using store_okD(7)[OF assms(1)] q unfolding released_ok_def by metis
    then show False using keyed_eq[OF store_okD(1)[OF assms(1)] _ assms(2), of x] assms(3) by simp
  qed
  have num: "r_release_number q \<noteq> int (length (app_releases s (d_app_id d))) + 1"
    if "q \<in> set (releases s)" "r_app_id q = d_app_id d" for q
  proof -
    have "r_release_number q \<in> set (map r_release_number (app_releases s (d_app_id d)))"
      using that by (simp add: app_releases_def)
    then show ?thesis
      using store_okD(6)[OF assms(1)] unfolding numbered_ok_def by auto
  qed
  have ex: "app_exists s (d_app_id d)" "deployment_exists s (d_id d)"
    using store_ok_row(3)[OF assms(1,2)] assms(2) by (auto simp: dep_refs_def exists_ids(2))
  have "\<not> list_ex (\<lambda>q. r_id q = r_id ?r \<or> r_deployment_id q = r_deployment_id ?r \<or>
      r_app_id q = r_app_id ?r \<and> r_release_number q = r_release_number ?r) (releases s)"
    unfolding r list_ex_iff using dep num assms(4) by blast
  then show ?thesis
    using ex by (simp add: insert_release_def q_InsertRelease_def s1 r)
qed

text \<open>C9: Marking a deployment healthy refuses an unknown row, a finished one, one that is not
  deploying and one with no image digest, each under its own error; otherwise, in one step, the
  row and its event are written, the release takes the next number of the app without a gap and
  the app points at it. The release can never collide with an existing one. Only a rollback goes
  on to replace the stored configuration, and if that fails nothing at all is kept.\<close>

theorem mark_healthy_outcome:
  assumes "store_reachable s" "evt \<notin> e_id ` set (events s)" "rel \<notin> r_id ` set (releases s)"
  shows "MarkHealthy s i config evt rel now =
    (case q_GetDeployment s i of
       None \<Rightarrow> Inl ErrNotFound
     | Some d \<Rightarrow>
         if Terminal (d_state d) then Inl ErrTerminal
         else if d_state d \<noteq> StateDeploying then Inl ErrIllegalTransition
         else if deref (d_image_digest d) = [] then Inl ErrNoDigest
         else let s1 = published s d config evt rel now;
                  d' = set_state (transition_params d StateHealthy [] now) now d;
                  r = release_for s d config rel now
              in if d_source_release_id d = None then Inr (d', r, s1)
                 else (case replaceConfig s1 (d_app_id d) config now of
                   Inl e \<Rightarrow> Inl e | Inr s2 \<Rightarrow> Inr (d', r, s2)))"
proof (cases "q_GetDeployment s i")
  case None
  then show ?thesis by (simp add: MarkHealthy_def)
next
  case (Some d)
  note ok = reachable_ok[OF assms(1)]
  have d: "d \<in> set (deployments s)" using q_GetDeployment_Some[OF Some] by blast
  show ?thesis
  proof (cases "d_state d = StateDeploying \<and> deref (d_image_digest d) \<noteq> []")
    case False
    then show ?thesis
      using only_deploying_becomes_healthy by (auto simp: MarkHealthy_def Some move_check_def)
  next
    case True
    let ?p = "transition_params d StateHealthy [] now"
    let ?s1 = "moved s d ?p (transition_event evt d StateHealthy [] [] now) now"
    have mv: "CanTransition (d_state d) StateHealthy" using True by simp
    have minted: "minted ?s1 rel d (deref (d_image_digest d)) config now = release_for s d config rel now"
      using next_number[OF store_okD(6)[OF ok]]
      by (simp add: minted_def release_for_def q_NextReleaseNumber_def)
    have ins: "insert_release ?s1 (release_for s d config rel now) =
        Inr (release_for s d config rel now, ?s1\<lparr>releases := releases s @ [release_for s d config rel now]\<rparr>)"
      by (rule insert_release_total[OF ok d _ assms(3) refl]) (use True in simp)
    let ?s2 = "?s1\<lparr>releases := releases s @ [release_for s d config rel now]\<rparr>"
    have "release_exists ?s2 rel"
      by (simp add: release_exists_def release_for_def)
    then have pt: "q_SetAppCurrentRelease ?s2 (d_app_id d) (r_id (release_for s d config rel now)) now =
        Inr (count_where (\<lambda>a. a_id a = d_app_id d) (apps s), published s d config evt rel now)"
      by (simp add: q_SetAppCurrentRelease_def release_for_def published_def point_at_def Let_def)
    show ?thesis
      using True mv applyTransition_total[OF ok d mv assms(2)]
      by (simp add: MarkHealthy_def Some move_check_def minted ins pt Let_def split: sum.split)
  qed
qed

theorem mark_healthy_outcome_witness:
  "MarkHealthy db_deploying ''dep_1'' config1 ''evt_6'' ''rel_1'' ''t9'' =
   Inr (set_state (transition_params deploying1 StateHealthy [] ''t9'') ''t9'' deploying1, rel1,
     published db_deploying deploying1 config1 ''evt_6'' ''rel_1'' ''t9'')"
proof -
  have "''evt_6'' \<notin> e_id ` set (events db_deploying)" "''rel_1'' \<notin> r_id ` set (releases db_deploying)"
    by (simp_all add: db_deploying_def db_claimed_def db_queued_def moved_event_def birth_event_def
        db_upload_def db_app_def db_account_def empty_db_def)
  moreover have "q_GetDeployment db_deploying ''dep_1'' = Some deploying1"
    "release_for db_deploying deploying1 config1 ''rel_1'' ''t9'' = rel1"
    "deref (d_image_digest deploying1) \<noteq> []" "d_source_release_id deploying1 = None"
    "d_state deploying1 = StateDeploying"
    by code_simp+
  ultimately show ?thesis
    using mark_healthy_outcome[OF reach_deploying, of "''evt_6''" "''rel_1''" "''dep_1''" config1 "''t9''"]
    by (simp add: Let_def)
qed

end
