(* ===== verification/Store_Queue.thy ===== *)
theory Store_Queue
  imports Store_Properties Timestamps
begin

text \<open>
  Handing work out and taking it back, creating and retiring apps, spending upload tokens, the
  retention sweep, and what ordering by time stamps can get wrong.
\<close>

section \<open>Claims\<close>

lemma next_claim_Some:
  assumes "next_claim s = Some d"
  shows "d \<in> set (deployments s)" "claimable d"
    "\<And>x. x \<in> set (deployments s) \<Longrightarrow> claimable x \<Longrightarrow>
       (d_state x = StateQueued \<longrightarrow> d_state d = StateQueued) \<and>
       (d_state x = d_state d \<or> (d_state x \<noteq> StateQueued \<and> d_state d \<noteq> StateQueued) \<longrightarrow> d_id d \<le> d_id x)"
proof -
  note first = first_by_Some[OF assms[unfolded next_claim_def]]
  show "d \<in> set (deployments s)" "claimable d" using first by auto
  fix x assume "x \<in> set (deployments s)" "claimable x"
  then have "(d_state d \<noteq> StateQueued, d_id d) \<le> (d_state x \<noteq> StateQueued, d_id x)"
    using first by auto
  then show "(d_state x = StateQueued \<longrightarrow> d_state d = StateQueued) \<and>
       (d_state x = d_state d \<or> (d_state x \<noteq> StateQueued \<and> d_state d \<noteq> StateQueued) \<longrightarrow> d_id d \<le> d_id x)"
    by auto
qed

text \<open>C35: A claim hands out a row only when nobody holds it and it is still in flight: a queued one while
  there is any, the one with the lowest identifier, and only without queued work an unclaimed
  row in another state, again the lowest. It writes the claim on that row and on no other, and it
  reports that there is nothing to do exactly when no such row exists.\<close>

theorem claim_next_outcome:
  assumes "store_reachable s"
  shows "case ClaimNext s by' now of
      Inl e \<Rightarrow> e = ErrNotFound \<and> (\<forall>x \<in> set (deployments s). \<not> Terminal (d_state x) \<longrightarrow> d_claimed_at x \<noteq> None)
    | Inr (d', s') \<Rightarrow> \<exists>d \<in> set (deployments s).
        \<not> Terminal (d_state d) \<and> d_claimed_at d = None \<and>
        (\<forall>x \<in> set (deployments s). \<not> Terminal (d_state x) \<longrightarrow> d_claimed_at x = None \<longrightarrow>
          (d_state x = StateQueued \<longrightarrow> d_state d = StateQueued \<and> d_id d \<le> d_id x) \<and>
          (d_state d \<noteq> StateQueued \<longrightarrow> d_id d \<le> d_id x)) \<and>
        d' = d\<lparr>d_claimed_at := Some now, d_claimed_by := Some by', d_updated_at := now\<rparr> \<and>
        s' = s\<lparr>deployments := map (\<lambda>x. if d_id x = d_id d then d' else x) (deployments s)\<rparr>"
proof (cases "next_claim s")
  case None
  then have "filter claimable (deployments s) = []" by (simp add: next_claim_def)
  then show ?thesis
    using None by (auto simp: ClaimNext_def q_ClaimNextDeployment_def filter_empty_conv claimable_def in_flight_iff)
next
  case (Some d)
  note n = next_claim_Some[OF Some]
  have dist: "distinct (map d_id (deployments s))"
    using store_okD(1)[OF reachable_ok[OF assms]] .
  have one: "x = d" if "x \<in> set (deployments s)" "d_id x = d_id d" for x
    using keyed_eq[OF dist that(1) n(1)] that(2) by simp
  define D where "D = d\<lparr>d_claimed_at := Some now, d_claimed_by := Some by', d_updated_at := now\<rparr>"
  have D: "set_claim (Some now) (Some by') now d = D" by (simp add: set_claim_def D_def)
  have rows: "upd_where (\<lambda>x. d_id x = d_id d \<and> d_claimed_at x = None) (set_claim (Some now) (Some by') now) (deployments s)
      = map (\<lambda>x. if d_id x = d_id d then D else x) (deployments s)"
    unfolding upd_where_def
  proof (rule map_cong[OF refl])
    fix x assume x: "x \<in> set (deployments s)"
    show "(if d_id x = d_id d \<and> d_claimed_at x = None then set_claim (Some now) (Some by') now x else x) =
        (if d_id x = d_id d then D else x)"
    proof (cases "d_id x = d_id d")
      case True
      then have "x = d" using one[OF x] by blast
      then show ?thesis using n(2) D by (simp add: claimable_def)
    qed simp
  qed
  have res: "ClaimNext s by' now = Inr (D, s\<lparr>deployments := map (\<lambda>x. if d_id x = d_id d then D else x) (deployments s)\<rparr>)"
    by (simp add: ClaimNext_def q_ClaimNextDeployment_def Some rows D)
  have prio: "(d_state x = StateQueued \<longrightarrow> d_state d = StateQueued \<and> d_id d \<le> d_id x) \<and>
      (d_state d \<noteq> StateQueued \<longrightarrow> d_id d \<le> d_id x)"
    if "x \<in> set (deployments s)" "\<not> Terminal (d_state x)" "d_claimed_at x = None" for x
    using n(3)[OF that(1)] that(2,3) by (auto simp: claimable_def in_flight_iff)
  have here: "\<not> Terminal (d_state d)" "d_claimed_at d = None"
    using n(2) by (auto simp: claimable_def in_flight_iff)
  show ?thesis
    unfolding res sum.case prod.case using n(1) here prio D_def by blast
qed

theorem claim_next_outcome_witness:
  "case ClaimNext db_queued ''pod-1'' ''t5'' of Inl e \<Rightarrow> False | Inr (d, _) \<Rightarrow> d_id d = ''dep_1''"
  using claim_next_outcome[OF reach_queued, where by' = "''pod-1''" and now = "''t5''"]
  unfolding demo_claimed sum.case prod.case by (auto simp: db_queued_def dep1_def claimed1_def)

text \<open>Two claims never hand out the same row, whoever makes them.\<close>

theorem claims_are_exclusive:
  assumes "store_reachable s" "ClaimNext s a t = Inr (d, s')" "ClaimNext s' b u = Inr (e, s'')"
  shows "d_id d \<noteq> d_id e"
proof
  assume eq: "d_id d = d_id e"
  have s': "store_reachable s'" by (rule reach_work[OF assms(1) work_step.claim[OF assms(2)]])
  obtain x where x: "d = x\<lparr>d_claimed_at := Some t, d_claimed_by := Some a, d_updated_at := t\<rparr>"
    "x \<in> set (deployments s)"
    "s' = s\<lparr>deployments := map (\<lambda>y. if d_id y = d_id x then d else y) (deployments s)\<rparr>"
    using claim_next_outcome[OF assms(1), where by' = a and now = t] assms(2) by auto
  obtain y where y: "e = y\<lparr>d_claimed_at := Some u, d_claimed_by := Some b, d_updated_at := u\<rparr>"
    "y \<in> set (deployments s')" "d_claimed_at y = None"
    using claim_next_outcome[OF s', where by' = b and now = u] assms(3) by auto
  have d: "d \<in> set (deployments s')" using x(2) unfolding x(3) by (auto intro: rev_image_eqI)
  have "y = d"
    using keyed_eq[OF store_okD(1)[OF reachable_ok[OF s']] y(2) d] eq y(1) by simp
  then show False using y(3) x(1) by simp
qed

theorem claims_are_exclusive_witness: "d_id claimed1 \<noteq> d_id claimed2"
  by (rule claims_are_exclusive[OF reach_two demo_two_claimed demo_both_claimed])

text \<open>Handing a row back works on a row that is building and on nothing else: there it clears both
  claim columns, so the row can be claimed again in its state, and any other row, one something
  else has ended in the meantime included, is left exactly as it was.\<close>

theorem release_claim_outcome:
  assumes "store_reachable s"
  shows "ReleaseBuildingClaim s i now = (case q_GetDeployment s i of
      Some d \<Rightarrow> if d_state d = StateBuilding
        then (True, s\<lparr>deployments := map (\<lambda>x. if d_id x = i
          then d\<lparr>d_claimed_at := None, d_claimed_by := None, d_updated_at := now\<rparr> else x) (deployments s)\<rparr>)
        else (False, s)
    | None \<Rightarrow> (False, s))"
proof -
  have dist: "distinct (map d_id (deployments s))"
    using store_okD(1)[OF reachable_ok[OF assms]] .
  let ?P = "\<lambda>d. d_id d = i \<and> d_state d = StateBuilding"
  show ?thesis
  proof (cases "\<exists>d \<in> set (deployments s). ?P d")
    case True
    then obtain d where d: "d \<in> set (deployments s)" "d_id d = i" "d_state d = StateBuilding" by blast
    have get: "q_GetDeployment s i = Some d"
      using sel_one_unique[OF dist d(1)] d(2) by (simp add: q_GetDeployment_def)
    have one: "x = d" if "x \<in> set (deployments s)" "d_id x = i" for x
      using keyed_eq[OF dist that(1) d(1)] that(2) d(2) by simp
    define D where "D = d\<lparr>d_claimed_at := None, d_claimed_by := None, d_updated_at := now\<rparr>"
    have "upd_where ?P (set_claim None None now) (deployments s) =
        map (\<lambda>x. if d_id x = i then D else x) (deployments s)"
      unfolding upd_where_def using one d(3) by (intro map_cong) (auto simp: set_claim_def D_def)
    moreover have "count_where ?P (deployments s) \<noteq> 0" using True by (simp add: count_where_zero)
    ultimately show ?thesis
      unfolding get option.case D_def[symmetric]
      by (simp add: ReleaseBuildingClaim_def q_ReleaseBuildingClaim_def Let_def d(3))
  next
    case False
    have "upd_where ?P (set_claim None None now) (deployments s) = deployments s"
      by (rule upd_where_id) (use False in blast)
    moreover have "count_where ?P (deployments s) = 0" using False by (simp add: count_where_zero)
    moreover have "d_state d \<noteq> StateBuilding" if "q_GetDeployment s i = Some d" for d
      using False q_GetDeployment_Some[OF that] by blast
    ultimately show ?thesis
      by (auto simp: ReleaseBuildingClaim_def q_ReleaseBuildingClaim_def Let_def split: option.split)
  qed
qed

theorem release_claim_outcome_witness:
  "fst (ReleaseBuildingClaim db_building ''dep_1'' ''t7'') \<and> \<not> fst (ReleaseBuildingClaim db_claimed ''dep_1'' ''t7'')"
proof -
  have "q_GetDeployment db_building ''dep_1'' = Some building1"
    "q_GetDeployment db_claimed ''dep_1'' = Some claimed1"
    "d_state building1 = StateBuilding" "d_state claimed1 \<noteq> StateBuilding"
    by code_simp+
  then show ?thesis
    using release_claim_outcome[OF reach_building] release_claim_outcome[OF reach_claimed] by simp
qed

section \<open>The newest deployment\<close>

text \<open>A status read of an app orders its deployments by the text of their creation stamps, so of two
  deployments created inside one second it reports the older one whenever the fraction of the
  older stamp, without its trailing zeros, is a prefix of the newer one's.\<close>

theorem latest_deployment_can_be_stale:
  assumes "filter (\<lambda>d. d_app_id d = app) (deployments s) = [d, e]"
    and "d_created_at d = Stamp t" "d_created_at e = Stamp u" "utc_ok t" "utc_ok u"
    and "seconds_key t = seconds_key u" "nanos t < nanos u"
    and "prefix (fraction_digits (nanos t)) (fraction_digits (nanos u))"
  shows "GetLatestDeploymentForApp s app = Inr d"
proof -
  have "Stamp u < Stamp t" by (rule Stamp_greater_within[OF assms(4-8)])
  then have nle: "\<not> Stamp t \<le> Stamp u" "\<not> Stamp t < Stamp u" "Stamp t \<noteq> Stamp u" by auto
  then show ?thesis
    using assms(1-3)
    by (simp add: GetLatestDeploymentForApp_def q_GetLatestDeploymentForApp_def sort_key_def nle)
qed

definition whole_second :: utc where
  "whole_second = \<lparr>year = 2026, month = 1, day = 2, hour = 3, minute = 4, second = 5, nanos = 0\<rparr>"

theorem latest_deployment_can_be_stale_witness:
  "GetLatestDeploymentForApp (db_two\<lparr>deployments :=
     [dep1\<lparr>d_created_at := Stamp whole_second\<rparr>,
      dep1\<lparr>d_id := ''dep_2'', d_created_at := Stamp (whole_second\<lparr>nanos := 9000000\<rparr>)\<rparr>]\<rparr>) ''app_1'' =
   Inr (dep1\<lparr>d_created_at := Stamp whole_second\<rparr>)"
  by (rule latest_deployment_can_be_stale[where t = whole_second and u = "whole_second\<lparr>nanos := 9000000\<rparr>"
        and e = "dep1\<lparr>d_id := ''dep_2'', d_created_at := Stamp (whole_second\<lparr>nanos := 9000000\<rparr>)\<rparr>"])
    (simp_all add: dep1_def new_deployment_def utc_ok_def seconds_key_def whole_second_def fraction_digits_0)

section \<open>The retention sweep\<close>

text \<open>The retention sweep never fails on a foreign key. It takes exactly the failed and cancelled
  deployments that finished before the cutoff and their events, then the aged events of the rest,
  then the old spent or expired uploads no surviving deployment names; what is in flight, what
  became healthy, every release, app, setting and audit row stays, and the counts it reports are
  the rows it removed.\<close>

theorem sweep_outcome:
  assumes "store_reachable s"
  shows "let gone = (\<lambda>d. (d_state d = StateFailed \<or> d_state d = StateCancelled) \<and>
           (\<exists>t. d_finished_at d = Some t \<and> t < cutoff));
         kept = filter (\<lambda>d. \<not> gone d) (deployments s);
         kept_events = filter (\<lambda>e. \<not> e_occurred_at e < cutoff \<and>
           (\<forall>d \<in> set (deployments s). gone d \<longrightarrow> e_deployment_id e \<noteq> d_id d)) (events s);
         kept_uploads = filter (\<lambda>u. \<not> (u_created_at u < upload_cutoff \<and>
           (u_redeemed_at u \<noteq> None \<or> u_expires_at u < now) \<and>
           (\<forall>d \<in> set kept. d_upload_id d \<noteq> Some (u_id u)))) (uploads s)
     in Sweep s cutoff upload_cutoff now = Inr
       (\<lparr>sc_deployments = length (deployments s) - length kept,
         sc_events = length (events s) - length kept_events,
         sc_uploads = length (uploads s) - length kept_uploads\<rparr>,
        s\<lparr>deployments := kept, events := kept_events, uploads := kept_uploads\<rparr>)"
proof -
  note ok = reachable_ok[OF assms]
  obtain n where n: "Sweep s cutoff upload_cutoff now = Inr (n, s\<lparr>
    deployments := del_where (swept cutoff) (deployments s),
    events := sweep_events s cutoff, uploads := sweep_uploads s cutoff upload_cutoff now\<rparr>)"
    using Sweep_total[OF ok] by blast
  have counts: "n = \<lparr>sc_deployments = length (deployments s) - length (del_where (swept cutoff) (deployments s)),
      sc_events = length (events s) - length (sweep_events s cutoff),
      sc_uploads = length (uploads s) - length (sweep_uploads s cutoff upload_cutoff now)\<rparr>"
    by (rule Sweep_counts[OF n])
  have gone: "swept cutoff = (\<lambda>d. (d_state d = StateFailed \<or> d_state d = StateCancelled) \<and>
           (\<exists>t. d_finished_at d = Some t \<and> t < cutoff))"
    by (auto simp: swept_def fun_eq_iff split: option.splits)
  have ev: "sweep_events s cutoff = filter (\<lambda>e. \<not> e_occurred_at e < cutoff \<and>
       (\<forall>d \<in> set (deployments s). swept cutoff d \<longrightarrow> e_deployment_id e \<noteq> d_id d)) (events s)"
    unfolding sweep_events_def by (rule filter_cong) (auto simp: list_ex_iff)
  have up: "sweep_uploads s cutoff upload_cutoff now = filter (\<lambda>u. \<not> (u_created_at u < upload_cutoff \<and>
       (u_redeemed_at u \<noteq> None \<or> u_expires_at u < now) \<and>
       (\<forall>d \<in> set (del_where (swept cutoff) (deployments s)). d_upload_id d \<noteq> Some (u_id u)))) (uploads s)"
    unfolding sweep_uploads_def del_where_def[of _ "uploads s"]
    by (rule filter_cong) (auto simp: stale_upload_def upload_named_def list_ex_iff)
  show ?thesis
    using n unfolding Let_def gone[symmetric] del_where_def[symmetric] up ev counts .
qed

theorem sweep_outcome_witness:
  "\<exists>n. Sweep db_live ''u'' ''u'' ''u'' = Inr (n, db_live\<lparr>events := [], uploads := uploads db_live\<rparr>)"
proof -
  have d: "deployments db_live = [deploying1\<lparr>d_state := StateHealthy, d_finished_at := Some ''t9'', d_updated_at := ''t9''\<rparr>]"
    "uploads db_live = [upl1]"
    by (simp_all add: db_live_def db_deploying_def db_claimed_def db_queued_def db_upload_def)
  have e: "filter (\<lambda>e. \<not> e_occurred_at e < ''u'') (events db_live) = []" by code_simp
  have "d_upload_id deploying1 = Some (u_id upl1)" by code_simp
  then show ?thesis
    using sweep_outcome[OF reach_live, of "''u''" "''u''" "''u''"] e
    by (simp add: d Let_def)
qed

end
