(* ===== verification/Store_Tenancy.thy ===== *)
theory Store_Tenancy
  imports Store_Properties
begin

text \<open>
  Apps and uploads over time: the outcome of a creation under the cap, hostnames that never move
  and are never handed to another app, and upload tokens that buy one fetch.
\<close>

section \<open>Creating an app\<close>

definition app_draw_clashes :: "db \<Rightarrow> runes \<Rightarrow> ident \<times> string \<Rightarrow> bool" where
  "app_draw_clashes s name d \<longleftrightarrow>
     (\<exists>b \<in> set (apps s). a_id b = fst d \<or> a_slug b = DeriveSlugWithSuffix name (snd d))"

definition holds_name :: "db \<Rightarrow> ident \<Rightarrow> runes \<Rightarrow> bool" where
  "holds_name s acc name \<longleftrightarrow> (\<exists>b \<in> set (apps s). live b \<and> a_account_id b = acc \<and> a_name b = name)"

lemma nameTaken_iff: "nameTaken s acc name \<longleftrightarrow> holds_name s acc name"
  by (auto simp: nameTaken_def holds_name_def q_GetAppByName_def sel_one_None)

lemma q_CreateApp_cases:
  assumes "account_exists s acc"
  shows "q_CreateApp s i acc name sl now =
    (if (\<exists>b \<in> set (apps s). a_id b = i \<or> a_slug b = sl) \<or> holds_name s acc name then Inl UniqueViolation
     else Inr (\<lparr>a_id = i, a_account_id = acc, a_name = name, a_slug = sl, a_current_release_id = None,
        a_deleted_at = None, a_created_at = now, a_updated_at = now\<rparr>,
       s\<lparr>apps := apps s @ [\<lparr>a_id = i, a_account_id = acc, a_name = name, a_slug = sl,
        a_current_release_id = None, a_deleted_at = None, a_created_at = now, a_updated_at = now\<rparr>]\<rparr>))"
  using assms by (auto simp: q_CreateApp_def Let_def list_ex_iff app_clash_def live_def holds_name_def)

lemma slug_loop_outcome:
  assumes "account_exists s acc"
  shows "case slug_loop s acc name draws now of
      Inl e \<Rightarrow> (e = ErrAppNameTaken \<and> holds_name s acc name) \<or>
        (e = ErrSlugTaken \<and> (draws = [] \<or> \<not> holds_name s acc name) \<and> (\<forall>d \<in> set draws. app_draw_clashes s name d))
    | Inr (a, s') \<Rightarrow> \<not> holds_name s acc name \<and> (\<exists>d \<in> set draws. \<not> app_draw_clashes s name d \<and>
        a = \<lparr>a_id = fst d, a_account_id = acc, a_name = name, a_slug = DeriveSlugWithSuffix name (snd d),
          a_current_release_id = None, a_deleted_at = None, a_created_at = now, a_updated_at = now\<rparr> \<and>
        s' = s\<lparr>apps := apps s @ [a]\<rparr>)"
proof (induction draws)
  case (Cons d draws)
  obtain i sl where d: "d = (i, sl)" by (cases d)
  show ?case
  proof (cases "app_draw_clashes s name d \<or> holds_name s acc name")
    case False
    then have "q_CreateApp s i acc name (DeriveSlugWithSuffix name sl) now =
      Inr (\<lparr>a_id = i, a_account_id = acc, a_name = name, a_slug = DeriveSlugWithSuffix name sl,
        a_current_release_id = None, a_deleted_at = None, a_created_at = now, a_updated_at = now\<rparr>,
       s\<lparr>apps := apps s @ [\<lparr>a_id = i, a_account_id = acc, a_name = name, a_slug = DeriveSlugWithSuffix name sl,
        a_current_release_id = None, a_deleted_at = None, a_created_at = now, a_updated_at = now\<rparr>]\<rparr>)"
      using q_CreateApp_cases[OF assms] d by (simp add: app_draw_clashes_def)
    then show ?thesis using False d by auto
  next
    case True
    then have "q_CreateApp s i acc name (DeriveSlugWithSuffix name sl) now = Inl UniqueViolation"
      using q_CreateApp_cases[OF assms] d by (auto simp: app_draw_clashes_def)
    then show ?thesis
      using Cons.IH True d by (auto simp: nameTaken_iff split: sum.splits)
  qed
qed simp

lemma count_live_append:
  "q_CountLiveAppsByAccount (s\<lparr>apps := apps s @ [a]\<rparr>) acc =
   q_CountLiveAppsByAccount s acc + (if a_account_id a = acc \<and> live a then 1 else 0)"
  by (simp add: q_CountLiveAppsByAccount_def)

text \<open>Creating an app for an existing account has exactly five outcomes. A reserved name, a full
  account and a name the account already uses are refused under their own errors; the slug error
  means that each of the at most five drawn hostnames or identifiers was in use; and otherwise
  one live app is added, under a hostname no row has ever held, which leaves the account at most
  at its limit.\<close>

theorem create_app_outcome:
  assumes "account_exists s acc" "draws \<noteq> []"
  shows "case CreateApp s acc name limit draws now of
      Inl e \<Rightarrow>
        (e = ErrAppNameReserved \<and> ReservedLabel name) \<or>
        (e = ErrAppLimit \<and> \<not> ReservedLabel name \<and> limit \<le> int (q_CountLiveAppsByAccount s acc)) \<or>
        (e = ErrAppNameTaken \<and> holds_name s acc name) \<or>
        (e = ErrSlugTaken \<and> \<not> holds_name s acc name \<and> (\<forall>d \<in> set (take 5 draws). app_draw_clashes s name d))
    | Inr (a, s') \<Rightarrow>
        \<not> ReservedLabel name \<and> \<not> holds_name s acc name \<and>
        a_account_id a = acc \<and> a_name a = name \<and> live a \<and> a_current_release_id a = None \<and>
        (\<exists>d \<in> set (take 5 draws). a_id a = fst d \<and> a_slug a = DeriveSlugWithSuffix name (snd d)) \<and>
        (\<forall>b \<in> set (apps s). a_slug b \<noteq> a_slug a) \<and> s' = s\<lparr>apps := apps s @ [a]\<rparr> \<and>
        int (q_CountLiveAppsByAccount s' acc) = int (q_CountLiveAppsByAccount s acc) + 1 \<and>
        int (q_CountLiveAppsByAccount s' acc) \<le> limit"
proof (cases "ReservedLabel name \<or> limit \<le> int (q_CountLiveAppsByAccount s acc)")
  case True
  then show ?thesis by (auto simp: CreateApp_def)
next
  case False
  then have run: "CreateApp s acc name limit draws now = slug_loop s acc name (take 5 draws) now"
    by (simp add: CreateApp_def slugAttempts_def)
  note out = slug_loop_outcome[OF assms(1), of name "take 5 draws" now]
  show ?thesis
  proof (cases "slug_loop s acc name (take 5 draws) now")
    case (Inl e)
    then show ?thesis using out run assms(2) by auto
  next
    case (Inr x)
    obtain a s' where x: "x = (a, s')" by (cases x)
    obtain d where d: "d \<in> set (take 5 draws)" "\<not> app_draw_clashes s name d"
      "a = \<lparr>a_id = fst d, a_account_id = acc, a_name = name, a_slug = DeriveSlugWithSuffix name (snd d),
          a_current_release_id = None, a_deleted_at = None, a_created_at = now, a_updated_at = now\<rparr>"
      "s' = s\<lparr>apps := apps s @ [a]\<rparr>" "\<not> holds_name s acc name"
      using out unfolding Inr x by auto
    have a: "a_id a = fst d" "a_account_id a = acc" "a_name a = name" "live a"
      "a_slug a = DeriveSlugWithSuffix name (snd d)" "a_current_release_id a = None"
      unfolding d(3) by (simp_all add: live_def)
    have cnt: "q_CountLiveAppsByAccount s' acc = q_CountLiveAppsByAccount s acc + 1"
      unfolding d(4) count_live_append using a by simp
    have "\<forall>b \<in> set (apps s). a_slug b \<noteq> a_slug a"
      using d(2) unfolding app_draw_clashes_def a(5) by blast
    then show ?thesis
      unfolding run Inr x sum.case prod.case
      using False d(1,4,5) a cnt by auto
  qed
qed

theorem create_app_outcome_witness:
  "case CreateApp db_upload ''acc_1'' (runes_of ''blog'') 5 [(''app_2'', ''aaaaaa'')] ''t'' of
     Inl e \<Rightarrow> e = ErrAppNameTaken | Inr _ \<Rightarrow> False"
proof -
  have "account_exists db_upload ''acc_1''" "\<not> ReservedLabel (runes_of ''blog'')"
    "q_CountLiveAppsByAccount db_upload ''acc_1'' = 1"
    by code_simp+
  moreover have "holds_name db_upload ''acc_1'' (runes_of ''blog'')"
    by (simp add: holds_name_def db_upload_def db_app_def db_account_def app1_def live_def)
  ultimately show ?thesis
    using create_app_outcome[of db_upload "''acc_1''" "[(''app_2'', ''aaaaaa'')]" "runes_of ''blog''" 5 "''t''"]
    by (auto split: sum.splits)
qed

section \<open>Hostnames\<close>

definition app_stays :: "app \<Rightarrow> app \<Rightarrow> bool" where
  "app_stays a b \<longleftrightarrow> a_id b = a_id a \<and> a_account_id b = a_account_id a \<and> a_name b = a_name a \<and>
     a_slug b = a_slug a \<and> (live b \<longrightarrow> live a)"

lemma app_stays_trans: "app_stays a b \<Longrightarrow> app_stays b c \<Longrightarrow> app_stays a c"
  by (simp add: app_stays_def)

lemma app_stays_refl [simp]: "app_stays a a"
  by (simp add: app_stays_def)

lemma effect_apps: "effect s s' \<Longrightarrow> a \<in> set (apps s) \<Longrightarrow> \<exists>b \<in> set (apps s'). app_stays a b"
proof (induction rule: effect.induct)
  case (quiet s' s g)
  then have "g a \<in> set (apps s') \<and> app_stays a (g a)"
    by (auto simp: app_kept_def app_stays_def)
  then show ?case by blast
next
  case (mint s d p e now s1 r cs)
  let ?b = "if a_id a = d_app_id d then a\<lparr>a_current_release_id := Some (r_id r), a_updated_at := now\<rparr> else a"
  have "?b \<in> set (point_at (d_app_id d) (r_id r) now (apps s1))"
    using mint.prems mint.hyps(3) by (auto simp: point_at_def set_upd_where)
  moreover have "app_stays a ?b" by (simp add: app_stays_def live_def)
  ultimately show ?case by auto
qed (auto intro: bexI[of _ a])

lemma effects_apps:
  assumes "effect\<^sup>*\<^sup>* s s'" "a \<in> set (apps s)"
  shows "\<exists>b \<in> set (apps s'). app_stays a b"
  using assms(1)
proof (induction rule: rtranclp_induct)
  case base
  then show ?case using assms(2) by (auto intro: bexI[of _ a])
next
  case (step y z)
  obtain b where b: "b \<in> set (apps y)" "app_stays a b" using step.IH by blast
  show ?case using effect_apps[OF step.hyps(2) b(1)] app_stays_trans[OF b(2)] by blast
qed

lemma sweep_apps:
  assumes "sweep_step s s'" "store_ok s"
  shows "apps s' = apps s"
proof -
  obtain cutoff upload_cutoff now n where sw: "Sweep s cutoff upload_cutoff now = Inr (n, s')"
    using assms(1) by (cases rule: sweep_step.cases) blast
  then show ?thesis
    using Sweep_total[OF assms(2), of cutoff upload_cutoff now] by auto
qed

text \<open>A hostname is for ever. Whatever happens next, an app keeps its row, its owner, its name and its
  hostname, a deleted app stays deleted, and no other app ever has that hostname.\<close>

theorem hostname_permanence:
  assumes "store_reachable s" "work_step s s' \<or> sweep_step s s'" "a \<in> set (apps s)"
  shows "\<exists>b \<in> set (apps s'). a_id b = a_id a \<and> a_account_id b = a_account_id a \<and> a_name b = a_name a \<and>
    a_slug b = a_slug a \<and> (a_deleted_at a \<noteq> None \<longrightarrow> a_deleted_at b \<noteq> None) \<and>
    (\<forall>c \<in> set (apps s'). a_slug c = a_slug a \<longrightarrow> c = b)"
proof -
  note ok = reachable_ok[OF assms(1)]
  have "\<exists>b \<in> set (apps s'). app_stays a b"
    using assms(2)
  proof
    assume "work_step s s'"
    then show ?thesis using effects_apps[OF work_effects[OF _ ok] assms(3)] by blast
  next
    assume "sweep_step s s'"
    then have "apps s' = apps s" by (rule sweep_apps[OF _ ok])
    then show ?thesis using assms(3) by (intro bexI[of _ a]) simp_all
  qed
  then obtain b where b: "b \<in> set (apps s')" "app_stays a b" by blast
  have "names_ok s'"
    using assms(2) work_ok[OF _ ok] sweep_ok[OF _ ok] unfolding store_ok_def by blast
  then have dist: "distinct (map a_slug (apps s'))" by (simp add: names_ok_def)
  note stays = b(2)[unfolded app_stays_def live_def]
  show ?thesis
  proof (intro bexI[OF _ b(1)] conjI ballI impI)
    fix c assume c: "c \<in> set (apps s')" "a_slug c = a_slug a"
    show "c = b" by (rule keyed_eq[OF dist c(1) b(1)]) (use c(2) stays in simp)
  next
    assume "a_deleted_at a \<noteq> None"
    then show "a_deleted_at b \<noteq> None" using stays by metis
  qed (use stays in simp_all)
qed

theorem hostname_permanence_witness:
  "\<exists>b \<in> set (apps db_live). a_slug b = ''blog-k3x9q2'' \<and> a_id b = ''app_1''"
proof -
  have "app1 \<in> set (apps db_deploying)"
    by (simp add: db_deploying_def db_claimed_def db_queued_def db_upload_def db_app_def)
  from hostname_permanence[OF reach_deploying disjI1[OF work_step.healthy[OF demo_live]] this]
  obtain b where "b \<in> set (apps db_live)" "a_slug b = a_slug app1" "a_id b = a_id app1" by blast
  then show ?thesis by (intro bexI[of _ b]) (simp_all add: app1_def)
qed

lemma deleted_row_gone:
  assumes "store_ok s" "a \<in> set (apps s)" "a_id a = app" "live a"
    and "b \<in> set (upd_where (\<lambda>a. a_id a = app \<and> live a)
      (\<lambda>a. a\<lparr>a_deleted_at := Some now, a_updated_at := now\<rparr>) (apps s))"
    and "a_id b = app \<or> a_slug b = a_slug a \<or> a_account_id b = a_account_id a \<and> a_name b = a_name a"
  shows "\<not> live b"
proof
  assume lb: "live b"
  have "a \<in> set (apps s) \<and> \<not> (a_id a = app \<and> live a)" if "a = b" "live b" for a
    using assms(5) that unfolding set_upd_where live_def by fastforce
  then have b: "b \<in> set (apps s)" "a_id b \<noteq> app" using lb by blast+
  have names: "distinct (map a_slug (apps s))"
    "distinct (map (\<lambda>a. (a_account_id a, a_name a)) (filter live (apps s)))"
    using assms(1) by (simp_all add: store_ok_def names_ok_def)
  have "b = a"
    using assms(6) b(2)
  proof (elim disjE)
    assume "a_slug b = a_slug a"
    then show ?thesis by (rule keyed_eq[OF names(1) b(1) assms(2)])
  next
    assume "a_account_id b = a_account_id a \<and> a_name b = a_name a"
    then show ?thesis
      using keyed_eq[OF names(2), of b a] b(1) assms(2,4) lb by simp
  qed simp
  then show False using b(2) assms(3) by simp
qed

text \<open>A delete is refused while a deployment of the app is in flight and is not found when the app is
  already deleted or was never there; otherwise exactly that row is marked deleted, so that no
  read by identifier, name or hostname finds the app while its row keeps the hostname taken.\<close>

theorem soft_delete_outcome:
  assumes "store_reachable s"
  shows "case SoftDeleteApp s app now of
      Inl e \<Rightarrow> (e = ErrDeploymentInFlight \<and> (\<exists>d \<in> set (deployments s). d_app_id d = app \<and> \<not> Terminal (d_state d))) \<or>
        (e = ErrNotFound \<and> q_GetApp s app = None \<and>
          (\<forall>d \<in> set (deployments s). d_app_id d = app \<longrightarrow> Terminal (d_state d)))
    | Inr s' \<Rightarrow> (\<exists>a. q_GetApp s app = Some a \<and> q_GetApp s' app = None \<and>
        GetAppBySlug s' (a_slug a) = Inl ErrNotFound \<and> GetAppByName s' (a_account_id a) (a_name a) = Inl ErrNotFound \<and>
        SlugTaken s' (a_slug a)) \<and>
        apps s' = upd_where (\<lambda>a. a_id a = app \<and> live a)
          (\<lambda>a. a\<lparr>a_deleted_at := Some now, a_updated_at := now\<rparr>) (apps s) \<and> deployments s' = deployments s \<and> releases s' = releases s \<and>
        events s' = events s \<and> (\<forall>d \<in> set (deployments s). d_app_id d = app \<longrightarrow> Terminal (d_state d))"
proof (cases "q_CountInFlightDeploymentsForApp s app = 0")
  case False
  then have "\<exists>d \<in> set (deployments s). d_app_id d = app \<and> \<not> Terminal (d_state d)"
    by (auto simp: q_CountInFlightDeploymentsForApp_def count_where_zero in_flight_iff)
  then show ?thesis using False by (simp add: SoftDeleteApp_def)
next
  case True
  then have idle: "\<forall>d \<in> set (deployments s). d_app_id d = app \<longrightarrow> Terminal (d_state d)"
    by (auto simp: q_CountInFlightDeploymentsForApp_def count_where_zero in_flight_iff)
  let ?P = "\<lambda>a. a_id a = app \<and> live a"
  let ?f = "\<lambda>a. a\<lparr>a_deleted_at := Some now, a_updated_at := now\<rparr>"
  show ?thesis
  proof (cases "q_GetApp s app")
    case None
    then have "count_where ?P (apps s) = 0"
      unfolding q_GetApp_def sel_one_None count_where_zero .
    then show ?thesis using True None idle by (simp add: SoftDeleteApp_def q_SoftDeleteApp_def Let_def)
  next
    case (Some a)
    have a: "a \<in> set (apps s)" "a_id a = app" "live a"
      using sel_one_Some[OF Some[unfolded q_GetApp_def]] by auto
    let ?s' = "s\<lparr>apps := upd_where ?P ?f (apps s)\<rparr>"
    have ran: "SoftDeleteApp s app now = Inr ?s'"
      using True a by (auto simp: SoftDeleteApp_def q_SoftDeleteApp_def Let_def count_where_zero)
    have gone: "\<not> live b" if "b \<in> set (apps ?s')" "a_id b = app \<or> a_slug b = a_slug a \<or>
        a_account_id b = a_account_id a \<and> a_name b = a_name a" for b
      by (rule deleted_row_gone[OF reachable_ok[OF assms] a _ that(2)]) (use that(1) in simp)
    have none: "sel_one (\<lambda>b. Q b \<and> live b) (apps ?s') = None"
      if "\<And>b. Q b \<Longrightarrow> a_id b = app \<or> a_slug b = a_slug a \<or> a_account_id b = a_account_id a \<and> a_name b = a_name a" for Q
      unfolding sel_one_None using gone that by blast
    have "q_GetApp ?s' app = None" "q_GetAppBySlug ?s' (a_slug a) = None"
      "q_GetAppByName ?s' (a_account_id a) (a_name a) = None"
      unfolding q_GetApp_def q_GetAppBySlug_def
      by (rule none; simp)+ (use none[of "\<lambda>b. a_account_id b = a_account_id a \<and> a_name b = a_name a"]
        in \<open>simp add: q_GetAppByName_def\<close>)
    moreover have "SlugTaken ?s' (a_slug a)"
    proof -
      have "map a_slug (apps ?s') = map a_slug (apps s)" by (simp add: map_upd_where)
      then have "a_slug a \<in> set (map a_slug (apps ?s'))" using a(1) by simp
      then show ?thesis by (auto simp: SlugTaken_def q_SlugExists_def list_ex_iff)
    qed
    ultimately show ?thesis
      unfolding ran using Some idle by (simp add: GetAppBySlug_def GetAppByName_def)
  qed
qed

theorem soft_delete_outcome_witness:
  "SoftDeleteApp db_deploying (a_id app1) ''t20'' = Inl ErrDeploymentInFlight \<and>
   (\<exists>d \<in> set (deployments db_deploying). d_app_id d = a_id app1 \<and> \<not> Terminal (d_state d))"
proof -
  have "SoftDeleteApp db_deploying (a_id app1) ''t20'' = Inl ErrDeploymentInFlight" by code_simp
  then show ?thesis
    using soft_delete_outcome[OF reach_deploying, of "a_id app1" "''t20''"] by simp
qed

end
