(* ===== verification/Store_Tokens.thy ===== *)
theory Store_Tokens
  imports Store_Properties
begin

text \<open>
  Uploads and their fetch tokens: identifiers and token hashes stay unique over every step, a
  token buys one fetch, and the unclaimed ceiling is never passed.
\<close>

definition upload_keys :: "db \<Rightarrow> bool" where
  "upload_keys s \<longleftrightarrow> distinct (map u_id (uploads s)) \<and> distinct (map u_fetch_token_hash (uploads s))"

lemma upload_keys_same: "uploads s' = uploads s \<Longrightarrow> upload_keys s \<Longrightarrow> upload_keys s'"
  by (simp add: upload_keys_def)

lemma deploy_uploads: "CreateDeployment s inp evt dep evt' now = Inr (d, old, s') \<Longrightarrow> store_ok s \<Longrightarrow>
  uploads s' = uploads s"
proof -
  assume a: "CreateDeployment s inp evt dep evt' now = Inr (d, old, s')" "store_ok s"
  obtain s1 where s1: "supersede s (in_app inp) evt now = Inr (old, s1)"
    "s' = s1\<lparr>deployments := deployments s1 @ [d], events := events s1 @ [birth_event evt' dep now]\<rparr>"
    using birth_effect[OF a] by blast
  have "uploads s1 = uploads s"
  proof (rule supersede_Inr[OF s1(1)])
    show "Valid (d_state x)" if "x \<in> set (deployments s)" for x
      using store_ok_row(2)[OF a(2) that] by (simp add: d_check_def)
    show "distinct (map d_id (deployments s))" by (rule store_okD(1)[OF a(2)])
  qed simp_all
  then show ?thesis using s1(2) by simp
qed

lemma distinct_hash_replaced:
  assumes "distinct (map u_id t)" "distinct (map u_fetch_token_hash t)"
    and "\<not> list_ex (\<lambda>u. u_fetch_token_hash u = h \<and> u_id u \<noteq> i) t"
  shows "distinct (map u_fetch_token_hash (upd_where (\<lambda>u. u_id u = i)
     (\<lambda>u. u\<lparr>u_fetch_token_hash := h, u_redeemed_at := None, u_updated_at := now\<rparr>) t))"
  using assms
proof (induction t)
  case (Cons u t)
  have IH: "distinct (map u_fetch_token_hash (upd_where (\<lambda>u. u_id u = i)
     (\<lambda>u. u\<lparr>u_fetch_token_hash := h, u_redeemed_at := None, u_updated_at := now\<rparr>) t))"
    using Cons by simp
  show ?case
  proof (cases "u_id u = i")
    case True
    have others: "\<forall>v \<in> set t. u_id v \<noteq> i"
      using Cons.prems(1) True by (simp add: image_iff) metis
    then have same: "upd_where (\<lambda>u. u_id u = i)
       (\<lambda>u. u\<lparr>u_fetch_token_hash := h, u_redeemed_at := None, u_updated_at := now\<rparr>) t = t"
      by (rule upd_where_id)
    have "h \<notin> u_fetch_token_hash ` set t"
    proof
      assume "h \<in> u_fetch_token_hash ` set t"
      then obtain v where "v \<in> set t" "u_fetch_token_hash v = h" by blast
      then show False using others Cons.prems(3) by (simp add: list_ex_iff)
    qed
    then show ?thesis using Cons.prems(2) True by (simp add: same)
  next
    case False
    then have "u_fetch_token_hash u \<noteq> h" using Cons.prems(3) by simp
    then have "u_fetch_token_hash u \<notin> u_fetch_token_hash ` set (upd_where (\<lambda>u. u_id u = i)
       (\<lambda>u. u\<lparr>u_fetch_token_hash := h, u_redeemed_at := None, u_updated_at := now\<rparr>) t)"
      using Cons.prems(2) by (auto simp: set_upd_where)
    then show ?thesis using IH False by simp
  qed
qed simp

lemma CreateUpload_keys:
  assumes "CreateUpload s u lim i now = Inr (u', s')" "upload_keys s"
  shows "upload_keys s'"
proof -
  have st: "uploads s' = uploads s @ [u']"
    "\<not> list_ex (\<lambda>v. u_id v = u_id u' \<or> u_fetch_token_hash v = u_fetch_token_hash u') (uploads s)"
    using assms(1) by (auto simp: CreateUpload_def q_CreateUpload_def Let_def split: if_splits)
  have "u_id u' \<notin> u_id ` set (uploads s)" "u_fetch_token_hash u' \<notin> u_fetch_token_hash ` set (uploads s)"
    using st(2) by (simp add: list_ex_iff image_iff, metis)+
  then show ?thesis using assms(2) st(1) by (simp add: upload_keys_def)
qed

lemma work_upload_keys: "work_step s s' \<Longrightarrow> store_ok s \<Longrightarrow> upload_keys s \<Longrightarrow> upload_keys s'"
proof (induction rule: work_step.induct)
  case (account s name i now acc s')
  then have "uploads s' = uploads s"
    by (auto simp: CreateAccount_def q_CreateAccount_def Let_def split: if_splits)
  then show ?case using account upload_keys_same by blast
next
  case (app s acc name limit draws now a s')
  then obtain i sl where "q_CreateApp s i acc name sl now = Inr (a, s')"
    using slug_loop_Inr by (fastforce simp: CreateApp_def split: if_splits)
  then have "uploads s' = uploads s" using q_CreateApp_Inr by fastforce
  then show ?case using app upload_keys_same by blast
next
  case (delete s app now s')
  then have "uploads s' = uploads s"
    by (auto simp: SoftDeleteApp_def q_SoftDeleteApp_def Let_def split: if_splits)
  then show ?case using delete upload_keys_same by blast
next
  case (set_config s app es now s')
  then have "uploads s' = uploads s" using SetConfigBatch_frame by fastforce
  then show ?case using set_config upload_keys_same by blast
next
  case (unset_config s app keys s')
  then have "uploads s' = uploads s" using UnsetConfigBatch_frame by fastforce
  then show ?case using unset_config upload_keys_same by blast
next
  case (upload s u lim i now u' s')
  show ?case
    by (rule CreateUpload_keys[OF upload.hyps upload.prems(2)])
next
  case (redeem s h now u' s')
  have "map u_id (uploads s') = map u_id (uploads s)"
    "map u_fetch_token_hash (uploads s') = map u_fetch_token_hash (uploads s)"
    unfolding redeem_frame[OF redeem.hyps] by (simp_all add: map_upd_where redeemed_def)
  then show ?case using redeem.prems by (simp add: upload_keys_def)
next
  case (fetch_token s i h now s')
  have ne: "count_where (\<lambda>u. u_id u = i) (uploads s) \<noteq> 0"
    and free: "\<not> list_ex (\<lambda>u. u_fetch_token_hash u = h \<and> u_id u \<noteq> i) (uploads s)"
    and st: "uploads s' = upd_where (\<lambda>u. u_id u = i) (\<lambda>u. u\<lparr>u_fetch_token_hash := h,
      u_redeemed_at := None, u_updated_at := now\<rparr>) (uploads s)"
    using fetch_token.hyps by (auto simp: SetUploadFetchToken_def q_SetUploadFetchToken_def Let_def
        next_step_Inr count_where_zero list_ex_iff split: if_splits)
  then show ?case
    using fetch_token.prems(2) distinct_hash_replaced[OF _ _ free, of now]
    by (simp add: upload_keys_def map_upd_where)
next
  case (drop_upload s i s')
  then have "uploads s' = del_where (\<lambda>u. u_id u = i) (uploads s)"
    by (auto simp: DeleteUpload_def q_DeleteUpload_def Let_def next_step_Inr split: if_splits)
  then show ?case using drop_upload.prems by (auto simp: upload_keys_def)
next
  case (deploy s inp evt dep evt' now d old s')
  then show ?case using deploy_uploads upload_keys_same by blast
next
  case (transition s i to' reason detail evt now d s')
  show ?case
    by (rule Transition_Inr[OF transition.hyps]) (use transition.prems in \<open>simp add: upload_keys_def\<close>)
next
  case (build s i r now s')
  then have "uploads s' = uploads s"
    by (auto simp: RecordBuildResult_def q_RecordBuildResult_def next_step_Inr Let_def split: if_splits)
  then show ?case using build upload_keys_same by blast
next
  case (healthy s i config evt rel now d r s')
  show ?case
    by (rule MarkHealthy_Inr[OF healthy.hyps]) (use healthy.prems in \<open>simp add: upload_keys_def\<close>)
next
  case (claim s by' now d s')
  then have "uploads s' = uploads s"
    by (auto simp: ClaimNext_def q_ClaimNextDeployment_def split: option.splits)
  then show ?case using claim upload_keys_same by blast
next
  case (unclaim s i now b s')
  then have "uploads s' = uploads s"
    by (auto simp: ReleaseBuildingClaim_def q_ReleaseBuildingClaim_def Let_def)
  then show ?case using unclaim upload_keys_same by blast
next
  case (audit s e i now s')
  then have "uploads s' = uploads s" by (auto simp: RecordAudit_def q_InsertAuditLog_def split: if_splits)
  then show ?case using audit upload_keys_same by blast
next
  case (addresses s cutoff n s')
  then have "uploads s' = uploads s"
    by (auto simp: ClearOldAuditAddresses_def q_ClearOldAuditAddresses_def Let_def)
  then show ?case using addresses upload_keys_same by blast
next
  case (person s s')
  then have "uploads s' = uploads s" using person_write_frame by fastforce
  then show ?case using person upload_keys_same by blast
qed

lemma sweep_upload_keys:
  assumes "sweep_step s s'" "store_ok s" "upload_keys s"
  shows "upload_keys s'"
proof -
  obtain cutoff upload_cutoff now n where sw: "Sweep s cutoff upload_cutoff now = Inr (n, s')"
    using assms(1) by (cases rule: sweep_step.cases) blast
  then have "uploads s' = sweep_uploads s cutoff upload_cutoff now"
    using Sweep_total[OF assms(2), of cutoff upload_cutoff now] by auto
  then show ?thesis using assms(3) by (auto simp: upload_keys_def sweep_uploads_def)
qed

lemma reachable_upload_keys: "store_reachable s \<Longrightarrow> upload_keys s"
proof (induction rule: store_reachable.induct)
  case reach_empty
  then show ?case by (simp add: upload_keys_def empty_db_def)
next
  case (reach_work s s')
  then show ?case using work_upload_keys[OF reach_work.hyps(2) reachable_ok[OF reach_work.hyps(1)]] by blast
next
  case (reach_sweep s s')
  then show ?case using sweep_upload_keys[OF reach_sweep.hyps(2) reachable_ok[OF reach_sweep.hyps(1)]] by blast
qed

text \<open>C36: A fetch token buys one fetch. Redeeming answers exactly why it cannot: no upload has the token,
  it was spent, or it has expired; and once it succeeds, every further attempt with the same
  token, at any time, is refused as already redeemed.\<close>

theorem redeem_once:
  assumes "store_reachable s"
  shows "case RedeemUpload s h now of
      Inl e \<Rightarrow> (e = ErrNotFound \<and> (\<forall>u \<in> set (uploads s). u_fetch_token_hash u \<noteq> h)) \<or>
        (\<exists>u \<in> set (uploads s). u_fetch_token_hash u = h \<and>
          (e = ErrUploadRedeemed \<and> u_redeemed_at u \<noteq> None \<or>
           e = ErrUploadExpired \<and> u_redeemed_at u = None \<and> \<not> now < u_expires_at u))
    | Inr (u', s') \<Rightarrow> (\<exists>u \<in> set (uploads s). u_fetch_token_hash u = h \<and> u_redeemed_at u = None \<and>
          now < u_expires_at u \<and> u' = u\<lparr>u_redeemed_at := Some now, u_updated_at := now\<rparr>) \<and>
        (\<forall>later. RedeemUpload s' h later = Inl ErrUploadRedeemed)"
proof -
  have dist: "distinct (map u_fetch_token_hash (uploads s))"
    using reachable_upload_keys[OF assms] by (simp add: upload_keys_def)
  show ?thesis
  proof (cases "sel_one (\<lambda>u. u_fetch_token_hash u = h) (uploads s)")
    case None
    then have free: "\<forall>u \<in> set (uploads s). u_fetch_token_hash u \<noteq> h" by (simp add: sel_one_None)
    then have "sel_one (redeemable h now) (uploads s) = None"
      unfolding sel_one_None by (simp add: redeemable_def)
    then have "RedeemUpload s h now = Inl ErrNotFound"
      using None by (simp add: RedeemUpload_def q_RedeemUpload_def why_unredeemable_def del: sel_one_None)
    then show ?thesis using free by simp
  next
    case (Some u)
    have u: "u \<in> set (uploads s)" "u_fetch_token_hash u = h" using sel_one_Some[OF Some] by auto
    have only: "v = u" if "v \<in> set (uploads s)" "u_fetch_token_hash v = h" for v
      by (rule keyed_eq[OF dist that(1) u(1)]) (use that(2) u(2) in simp)
    show ?thesis
    proof (cases "redeemable h now u")
      case False
      then have "sel_one (redeemable h now) (uploads s) = None"
        using only by (auto simp: sel_one_None redeemable_def)
      then show ?thesis
        using Some u False by (auto simp: RedeemUpload_def q_RedeemUpload_def why_unredeemable_def redeemable_def)
    next
      case True
      have sel: "sel_one (redeemable h now) (uploads s) = Some u"
      proof (cases "sel_one (redeemable h now) (uploads s)")
        case None
        then show ?thesis using u True by (auto simp: sel_one_None)
      next
        case (Some v)
        then show ?thesis using only sel_one_Some[OF Some] by (auto simp: redeemable_def)
      qed
      let ?s' = "s\<lparr>uploads := upd_where (redeemable h now) (redeemed now) (uploads s)\<rparr>"
      have ran: "RedeemUpload s h now = Inr (redeemed now u, ?s')"
        by (simp add: RedeemUpload_def q_RedeemUpload_def sel)
      have after: "v = redeemed now u" if "v \<in> set (uploads ?s')" "u_fetch_token_hash v = h" for v
      proof -
        have "(v \<in> set (uploads s) \<and> \<not> redeemable h now v) \<or> (\<exists>w \<in> set (uploads s). redeemable h now w \<and> v = redeemed now w)"
          using that(1) by (auto simp: set_upd_where)
        then show ?thesis using only that(2) True by (auto simp: redeemable_def)
      qed
      have there: "redeemed now u \<in> set (uploads ?s')" using u(1) True by (auto simp: set_upd_where)
      have spent: "u_redeemed_at (redeemed now u) = Some now" "u_fetch_token_hash (redeemed now u) = h"
        using u(2) by (simp_all add: redeemed_def)
      have "RedeemUpload ?s' h later = Inl ErrUploadRedeemed" for later
      proof -
        have "sel_one (redeemable h later) (uploads ?s') = None"
          unfolding sel_one_None using after spent(1) by (fastforce simp: redeemable_def)
        moreover obtain w where w: "sel_one (\<lambda>u. u_fetch_token_hash u = h) (uploads ?s') = Some w"
          using there spent(2) by (cases "sel_one (\<lambda>u. u_fetch_token_hash u = h) (uploads ?s')")
            (auto simp: sel_one_None)
        moreover have "w = redeemed now u" using after sel_one_Some[OF w] by blast
        ultimately show ?thesis
          using spent(1) by (simp add: RedeemUpload_def q_RedeemUpload_def why_unredeemable_def)
      qed
      then show ?thesis
        unfolding ran using u True by (auto simp: redeemable_def redeemed_def)
    qed
  qed
qed

lemma demo_redeemable: "\<exists>u s'. RedeemUpload db_upload ''h1'' ''t4'' = Inr (u, s')"
proof -
  have "redeemable ''h1'' ''t4'' upl1" by code_simp
  then show ?thesis by (simp add: RedeemUpload_def q_RedeemUpload_def db_upload_def)
qed

theorem redeem_once_witness:
  "\<exists>u s'. RedeemUpload db_upload ''h1'' ''t4'' = Inr (u, s') \<and> RedeemUpload s' ''h1'' ''t5'' = Inl ErrUploadRedeemed"
  using redeem_once[OF reach_upload, of "''h1''" "''t4''"] demo_redeemable by auto

text \<open>Recording an upload under a positive ceiling is refused exactly when the account is at it, and
  never takes the account past it; the recorded upload is unspent whatever the caller sent, and
  only a repeated identifier or token, or an unknown account, can fail it otherwise.\<close>

theorem upload_ceiling:
  assumes "0 < limit"
  shows "case CreateUpload s u limit i now of
      Inl e \<Rightarrow> (e = ErrUploadLimit \<and> limit \<le> int (CountUnclaimedUploads s (u_account_id u) now)) \<or>
        (e = Fault UniqueViolation \<and> (\<exists>v \<in> set (uploads s). u_fetch_token_hash v = u_fetch_token_hash u \<or>
           u_id v = (if u_id u = [] then i else u_id u))) \<or>
        (e = Fault ForeignKeyViolation \<and> \<not> account_exists s (u_account_id u))
    | Inr (u', s') \<Rightarrow> u_redeemed_at u' = None \<and> u_id u' = (if u_id u = [] then i else u_id u) \<and>
        uploads s' = uploads s @ [u'] \<and> int (CountUnclaimedUploads s' (u_account_id u) now) \<le> limit"
  using assms by (auto simp: CreateUpload_def q_CreateUpload_def Let_def CountUnclaimedUploads_def
      q_CountUnclaimedUploads_def list_ex_iff)

theorem upload_ceiling_witness:
  "case CreateUpload db_upload upl1 1 [] ''t4'' of Inl e \<Rightarrow> e \<noteq> ErrNotFound | Inr _ \<Rightarrow> True"
  using upload_ceiling[where limit = 1 and s = db_upload and u = upl1 and i = "[]" and now = "''t4''"] by (auto split: sum.splits)

end
