(* ===== verification/Go_Encoding.thy ===== *)
theory Go_Encoding
  imports Go_Strings Timestamps
begin

text \<open>
  The standard library's encoders the composed objects go through: \<open>strconv.Itoa\<close> and the
  \<open>%d\<close> verb, \<open>strings.ReplaceAll\<close> of one byte, \<open>strings.ToLower\<close> on ASCII, and base64 with
  padding. Decimals are shown to be injective and to end where the digits do, which is what a
  length prefix relies on.
\<close>

section \<open>Decimals\<close>

fun decimal :: "nat \<Rightarrow> string" where
  "decimal n = (if n < 10 then [digit n] else decimal (n div 10) @ [digit (n mod 10)])"

declare decimal.simps [simp del]

definition Itoa :: "int \<Rightarrow> string" where
  "Itoa i = (if i < 0 then CHR ''-'' # decimal (nat (- i)) else decimal (nat i))"

definition is_digit :: "char \<Rightarrow> bool" where
  "is_digit c \<longleftrightarrow> CHR ''0'' \<le> c \<and> c \<le> CHR ''9''"

lemma digit_is_digit: "n < 10 \<Longrightarrow> is_digit (digit n)"
  by (simp add: is_digit_def digit_def less_eq_char_def)

lemma digit_inj: "a < 10 \<Longrightarrow> b < 10 \<Longrightarrow> digit a = digit b \<longleftrightarrow> a = b"
  by (simp add: digit_def char_of_eq_iff of_char_of take_bit_nat_eq_self)

lemma decimal_digits: "list_all is_digit (decimal n)"
proof (induction n rule: decimal.induct)
  case (1 n)
  then show ?case by (subst decimal.simps) (simp add: digit_is_digit)
qed

lemma decimal_not_Nil [simp]: "decimal n \<noteq> []" "[] \<noteq> decimal n"
  by (subst decimal.simps, simp)+

lemma decimal_inj [simp]: "decimal a = decimal b \<longleftrightarrow> a = b"
proof
  show "decimal a = decimal b \<Longrightarrow> a = b"
  proof (induction a arbitrary: b rule: decimal.induct)
    case (1 a)
    have a: "decimal a = (if a < 10 then [digit a] else decimal (a div 10) @ [digit (a mod 10)])"
      by (rule decimal.simps)
    have b: "decimal b = (if b < 10 then [digit b] else decimal (b div 10) @ [digit (b mod 10)])"
      by (rule decimal.simps)
    show ?case
    proof (cases "a < 10 \<or> b < 10")
      case True
      then show ?thesis using "1.prems" a b by (auto simp: digit_inj split: if_splits)
    next
      case False
      then have "decimal (a div 10) = decimal (b div 10)" "digit (a mod 10) = digit (b mod 10)"
        using "1.prems" a b by simp_all
      then have "a div 10 = b div 10" "a mod 10 = b mod 10" using "1.IH" False by (simp_all add: digit_inj)
      then show ?thesis by (metis div_mult_mod_eq)
    qed
  qed
qed simp

text \<open>A decimal followed by a byte that is no digit can be read back.\<close>

lemma decimal_prefix:
  assumes "decimal a @ c # s = decimal b @ d # t" "\<not> is_digit c" "\<not> is_digit d"
  shows "a = b \<and> c = d \<and> s = t"
proof -
  have "takeWhile is_digit (decimal a @ c # s) = decimal a" "takeWhile is_digit (decimal b @ d # t) = decimal b"
    using assms(2,3) decimal_digits[of a] decimal_digits[of b]
    by (simp_all add: takeWhile_append2 list_all_iff)
  then have "decimal a = decimal b" using assms(1) by simp
  then show ?thesis using assms(1) by simp
qed

section \<open>Bytes\<close>

definition ReplaceAll :: "char \<Rightarrow> char \<Rightarrow> string \<Rightarrow> string" where
  "ReplaceAll a b s = map (\<lambda>c. if c = a then b else c) s"

definition lower_char :: "char \<Rightarrow> char" where
  "lower_char c = (if CHR ''A'' \<le> c \<and> c \<le> CHR ''Z'' then char_of (of_char c + 32 :: nat) else c)"

definition ToLowerASCII :: "string \<Rightarrow> string" where
  "ToLowerASCII s = map lower_char s"

definition base64_char :: "nat \<Rightarrow> char" where
  "base64_char n = ''ABCDEFGHIJKLMNOPQRSTUVWXYZabcdefghijklmnopqrstuvwxyz0123456789+/'' ! n"

fun base64 :: "string \<Rightarrow> string" where
  "base64 [] = []"
| "base64 [a] = (let n = of_char a * 16 in [base64_char (n div 64), base64_char (n mod 64), CHR ''='', CHR ''=''])"
| "base64 [a, b] = (let n = (of_char a * 256 + of_char b) * 4 in
     [base64_char (n div 4096), base64_char (n div 64 mod 64), base64_char (n mod 64), CHR ''=''])"
| "base64 (a # b # c # s) = (let n = (of_char a * 256 + of_char b) * 256 + of_char c in
     base64_char (n div 262144) # base64_char (n div 4096 mod 64) # base64_char (n div 64 mod 64) #
     base64_char (n mod 64) # base64 s)"

end
