(* ===== verification/Kube_Objects.thy ===== *)
theory Kube_Objects
  imports Go_Encoding Store_Schema Slug Egress
begin

text \<open>
  The part of the Kubernetes API types the platform composes: one record per type, with exactly
  the fields some composer sets. A pointer field is an option, a Go map is an association list,
  a quantity is the text \<open>resource.MustParse\<close> is given.
\<close>

datatype Profile = RuntimeDefault | ProfileUnconfined

record ObjectMeta =
  m_name :: string
  m_namespace :: string
  m_labels :: "(string \<times> string) list"

record SecurityContext =
  sc_escalation :: "bool option"
  sc_privileged :: "bool option"
  sc_readonly_root :: "bool option"
  sc_nonroot :: "bool option"
  sc_user :: "int option"
  sc_drop :: "string list"
  sc_add :: "string list"
  sc_seccomp :: "Profile option"
  sc_apparmor :: "Profile option"

record PodSecurityContext =
  ps_nonroot :: "bool option"
  ps_user :: "int option"
  ps_group :: "int option"
  ps_fsgroup :: "int option"
  ps_seccomp :: "Profile option"

record VolumeMount =
  vm_name :: string
  vm_path :: string
  vm_readonly :: bool

datatype VolumeSource = EmptyDir | SecretVolume string "(string \<times> string) list"

type_synonym resource_list = "(string \<times> string) list"

record Resources =
  rq_requests :: resource_list
  rq_limits :: resource_list

record Probe =
  pr_tcp_port :: int
  pr_delay :: int
  pr_period :: int
  pr_threshold :: int

record Container =
  k_name :: string
  k_image :: string
  k_command :: "string list"
  k_args :: "string list"
  k_ports :: "(string \<times> int) list"
  k_env_from :: "string list"
  k_env :: "(string \<times> string) list"
  k_security :: SecurityContext
  k_probe :: "Probe option"
  k_mounts :: "VolumeMount list"
  k_resources :: Resources

record PodSpec =
  pod_restart :: "string option"
  pod_automount :: "bool option"
  pod_pull_secrets :: "string list"
  pod_security :: PodSecurityContext
  pod_init :: "Container list"
  pod_containers :: "Container list"
  pod_volumes :: "(string \<times> VolumeSource) list"

record PodTemplate =
  pt_labels :: "(string \<times> string) list"
  pt_annotations :: "(string \<times> string) list"
  pt_spec :: PodSpec

record KubeJob =
  job_meta :: ObjectMeta
  job_backoff :: int
  job_deadline :: int
  job_ttl :: int
  job_template :: PodTemplate

record OwnerReference =
  ow_kind :: string
  ow_name :: string
  ow_uid :: string

datatype SecretType = DockerConfigJson | Opaque

text \<open>Secret data is bytes; a docker config is kept as the JSON value that is encoded into them.\<close>

datatype SecretData = Bytes string | Encoded json

record KubeSecret =
  ks_meta :: ObjectMeta
  ks_owners :: "OwnerReference list"
  ks_type :: SecretType
  ks_data :: "(string \<times> SecretData) list"

record KubeNamespace =
  ns_name :: string
  ns_labels :: "(string \<times> string) list"

record KubeRoleBinding =
  rb_meta :: ObjectMeta
  rb_role :: "string \<times> string"
  rb_subjects :: "(string \<times> string \<times> string) list"

record KubeQuota =
  qt_meta :: ObjectMeta
  qt_hard :: resource_list

record KubeLimitRange =
  lr_meta :: ObjectMeta
  lr_type :: string
  lr_default :: resource_list
  lr_default_request :: resource_list
  lr_max :: resource_list

record KubeWorkload =
  wl_meta :: ObjectMeta
  wl_replicas :: "int option"
  wl_selector :: "(string \<times> string) list"
  wl_template :: PodTemplate

record KubeService =
  sv_meta :: ObjectMeta
  sv_selector :: "(string \<times> string) list"
  sv_port :: int
  sv_target :: string

record KubeIngress =
  ig_meta :: ObjectMeta
  ig_class :: string
  ig_host :: string
  ig_path :: string
  ig_service :: "string \<times> int"

section \<open>The restricted pod security standard\<close>

text \<open>
  What the API server admits into a namespace labelled restricted, over the fields above: every
  container refuses escalation, drops every capability and adds none but NET\_BIND\_SERVICE,
  runs as non root under a seccomp profile that is not unconfined (its own setting or else the
  pod's), and volumes are scratch or secrets.
\<close>

definition effective :: "'a option \<Rightarrow> 'a option \<Rightarrow> 'a option" where
  "effective own pod = (case own of None \<Rightarrow> pod | Some x \<Rightarrow> Some x)"

definition restricted_container :: "PodSecurityContext \<Rightarrow> Container \<Rightarrow> bool" where
  "restricted_container ps k \<longleftrightarrow>
     sc_escalation (k_security k) = Some False \<and>
     sc_privileged (k_security k) \<noteq> Some True \<and>
     List.member (sc_drop (k_security k)) ''ALL'' \<and>
     list_all (\<lambda>c. c = ''NET_BIND_SERVICE'') (sc_add (k_security k)) \<and>
     effective (sc_nonroot (k_security k)) (ps_nonroot ps) = Some True \<and>
     effective (sc_user (k_security k)) (ps_user ps) \<noteq> Some 0 \<and>
     effective (sc_seccomp (k_security k)) (ps_seccomp ps) = Some RuntimeDefault \<and>
     sc_apparmor (k_security k) \<noteq> Some ProfileUnconfined"

definition restricted_pod :: "PodSpec \<Rightarrow> bool" where
  "restricted_pod p \<longleftrightarrow>
     ps_seccomp (pod_security p) \<noteq> Some ProfileUnconfined \<and> ps_user (pod_security p) \<noteq> Some 0 \<and>
     list_all (restricted_container (pod_security p)) (pod_init p @ pod_containers p)"

end
