(* ===== verification/Build_Job.thy ===== *)
theory Build_Job
  imports Kube_Objects
begin

text \<open>
  \<^verbatim>\<open>internal/build/job.go\<close> and \<^verbatim>\<open>internal/build/credential.go\<close>: the Job that turns a source
  archive into an image, on either engine, and the registry credentials beside it.
\<close>

section \<open>Names and constants\<close>

definition workspaceDir :: string where "workspaceDir = ''/workspace''"
definition sourceDir :: string where "sourceDir = workspaceDir @ ''/source''"
definition layersDir :: string where "layersDir = ''/layers''"
definition platformDir :: string where "platformDir = ''/platform''"
definition dockerDir :: string where "dockerDir = ''/docker-config''"
definition lifecyclePath :: string where "lifecyclePath = ''/cnb/lifecycle/creator''"
definition buildkitEntrypoint :: string where "buildkitEntrypoint = ''buildctl-daemonless.sh''"
definition buildkitStateDir :: string where "buildkitStateDir = ''/home/user''"
definition buildkitRuntimeDir :: string where "buildkitRuntimeDir = buildkitStateDir @ ''/run''"
definition buildkitTmpDir :: string where "buildkitTmpDir = ''/tmp''"
definition buildkitdFlags :: string where
  "buildkitdFlags = ''--oci-worker-no-process-sandbox --oci-worker-snapshotter=native''"
definition ttlAfterFinished :: int where "ttlAfterFinished = 3600"

text \<open>\<open>type Path string\<close>: whatever text it holds, anything but the Dockerfile path reads as
  Buildpacks.\<close>

type_synonym Path = string

definition PathBuildpacks :: Path where "PathBuildpacks = ''buildpacks''"
definition PathDockerfile :: Path where "PathDockerfile = ''dockerfile''"

definition path_String :: "Path \<Rightarrow> string" where
  "path_String p = (if p = PathDockerfile then PathDockerfile else PathBuildpacks)"

record JobInput =
  DeploymentID :: string
  JobNamespace :: string
  AppSlug :: string
  JobPath :: Path
  SelfImage :: string
  BuilderImage :: string
  TargetImageRef :: string
  BuildUID :: int
  BuildGID :: int
  BuildkitImage :: string
  BuildkitUID :: int
  BuildkitGID :: int
  FetchURL :: string
  FetchToken :: string
  ExpectedSHA :: string
  JobMaxFiles :: int
  MaxExtracted :: int
  CredentialRef :: string
  DeadlineSeconds :: int

definition objectNameFor :: "string \<Rightarrow> string" where
  "objectNameFor i = ToLowerASCII (ReplaceAll CHR ''_'' CHR ''-'' i)"

definition JobName :: "string \<Rightarrow> string" where
  "JobName dep = ''build-'' @ objectNameFor dep"

definition SecretName :: "string \<Rightarrow> string" where
  "SecretName dep = ''build-'' @ objectNameFor dep"

definition TargetImage :: "string \<Rightarrow> string \<Rightarrow> string \<Rightarrow> string" where
  "TargetImage host slug dep = host @ ''/apps/'' @ slug @ '':'' @ dep"

definition ImageRepoFor :: "string \<Rightarrow> string \<Rightarrow> string" where
  "ImageRepoFor host slug = host @ ''/apps/'' @ slug"

section \<open>Containers\<close>

definition identity :: "JobInput \<Rightarrow> int \<times> int" where
  "identity inp =
     (if JobPath inp = PathDockerfile then (BuildkitUID inp, BuildkitGID inp)
      else (BuildUID inp, BuildGID inp))"

definition podSecurity :: "JobInput \<Rightarrow> PodSecurityContext" where
  "podSecurity inp =
     \<lparr>ps_nonroot = Some True, ps_user = Some (fst (identity inp)), ps_group = Some (snd (identity inp)),
      ps_fsgroup = Some (snd (identity inp)),
      ps_seccomp = Some (if JobPath inp = PathDockerfile then ProfileUnconfined else RuntimeDefault)\<rparr>"

definition containerSecurity :: "JobInput \<Rightarrow> bool \<Rightarrow> SecurityContext" where
  "containerSecurity inp readOnlyRoot =
     \<lparr>sc_escalation = Some False, sc_privileged = None, sc_readonly_root = Some readOnlyRoot,
      sc_nonroot = Some True, sc_user = Some (fst (identity inp)), sc_drop = [''ALL''], sc_add = [],
      sc_seccomp = Some RuntimeDefault, sc_apparmor = None\<rparr>"

definition buildkitCapabilities :: "string list" where
  "buildkitCapabilities = [''SETUID'', ''SETGID'']"

definition buildkitSecurity :: "JobInput \<Rightarrow> SecurityContext" where
  "buildkitSecurity inp =
     \<lparr>sc_escalation = Some True, sc_privileged = None, sc_readonly_root = Some False,
      sc_nonroot = Some True, sc_user = Some (BuildkitUID inp), sc_drop = [''ALL''],
      sc_add = buildkitCapabilities, sc_seccomp = Some ProfileUnconfined,
      sc_apparmor = Some ProfileUnconfined\<rparr>"

definition buildResources :: Resources where
  "buildResources =
     \<lparr>rq_requests = [(''cpu'', ''250m''), (''memory'', ''512Mi''), (''ephemeral-storage'', ''2Gi'')],
      rq_limits = [(''cpu'', ''2''), (''memory'', ''2Gi''), (''ephemeral-storage'', ''8Gi'')]\<rparr>"

definition mount :: "string \<Rightarrow> string \<Rightarrow> VolumeMount" where
  "mount v p = \<lparr>vm_name = v, vm_path = p, vm_readonly = False\<rparr>"

definition credential_mount :: VolumeMount where
  "credential_mount = \<lparr>vm_name = ''docker-config'', vm_path = dockerDir, vm_readonly = True\<rparr>"

definition fetchContainer :: "JobInput \<Rightarrow> Container" where
  "fetchContainer inp =
     \<lparr>k_name = ''fetch-source'', k_image = SelfImage inp, k_command = [''/ko-app/deployer''],
      k_args = [''fetch-source''], k_ports = [], k_env_from = [],
      k_env = [(''DEPLOYER_FETCH_URL'', FetchURL inp), (''DEPLOYER_FETCH_TOKEN'', FetchToken inp),
               (''DEPLOYER_EXPECTED_SHA256'', ExpectedSHA inp), (''DEPLOYER_SOURCE_DIR'', sourceDir),
               (''DEPLOYER_MAX_UPLOAD_FILES'', Itoa (JobMaxFiles inp)),
               (''DEPLOYER_MAX_EXTRACTED_BYTES'', Itoa (MaxExtracted inp))],
      k_security = containerSecurity inp True, k_probe = None,
      k_mounts = [mount ''workspace'' workspaceDir], k_resources = buildResources\<rparr>"

text \<open>The loop stops at the first slash, and takes the whole reference when there is none.\<close>

definition registryHost :: "string \<Rightarrow> string" where
  "registryHost ref = takeWhile (\<lambda>c. c \<noteq> CHR ''/'') ref"

definition builderContainer :: "JobInput \<Rightarrow> Container" where
  "builderContainer inp =
     \<lparr>k_name = ''build'', k_image = BuilderImage inp, k_command = [lifecyclePath],
      k_args = [''-app='' @ sourceDir, ''-layers='' @ layersDir, ''-platform='' @ platformDir,
                ''-report='' @ layersDir @ ''/report.toml'', ''-daemon=false'', TargetImageRef inp],
      k_ports = [], k_env_from = [],
      k_env = [(''DOCKER_CONFIG'', dockerDir), (''CNB_PLATFORM_API'', ''0.13''),
               (''CNB_INSECURE_REGISTRIES'', registryHost (TargetImageRef inp))],
      k_security = containerSecurity inp False, k_probe = None,
      k_mounts = [mount ''workspace'' workspaceDir, mount ''layers'' layersDir,
                  mount ''platform'' platformDir, credential_mount],
      k_resources = buildResources\<rparr>"

definition buildkitContainer :: "JobInput \<Rightarrow> Container" where
  "buildkitContainer inp =
     \<lparr>k_name = ''build'', k_image = BuildkitImage inp, k_command = [buildkitEntrypoint],
      k_args = [''build'', ''--frontend'', ''dockerfile.v0'', ''--local'', ''context='' @ sourceDir,
                ''--local'', ''dockerfile='' @ sourceDir, ''--output'',
                ''type=image,name='' @ TargetImageRef inp @ '',push=true,registry.insecure=true''],
      k_ports = [], k_env_from = [],
      k_env = [(''DOCKER_CONFIG'', dockerDir), (''BUILDKITD_FLAGS'', buildkitdFlags),
               (''HOME'', buildkitStateDir), (''XDG_RUNTIME_DIR'', buildkitRuntimeDir),
               (''TMPDIR'', buildkitTmpDir)],
      k_security = buildkitSecurity inp, k_probe = None,
      k_mounts = [mount ''workspace'' workspaceDir, mount ''buildkit-state'' buildkitStateDir,
                  credential_mount],
      k_resources = buildResources\<rparr>"

definition engineContainer :: "JobInput \<Rightarrow> Container" where
  "engineContainer inp =
     (if JobPath inp = PathDockerfile then buildkitContainer inp else builderContainer inp)"

definition job_volumes :: "JobInput \<Rightarrow> (string \<times> VolumeSource) list" where
  "job_volumes inp =
     [(''workspace'', EmptyDir)] @
     (if JobPath inp = PathDockerfile then [(''buildkit-state'', EmptyDir)]
      else [(''layers'', EmptyDir), (''platform'', EmptyDir)]) @
     [(''docker-config'', SecretVolume (CredentialRef inp) [(''.dockerconfigjson'', ''config.json'')])]"

definition Job :: "JobInput \<Rightarrow> KubeJob" where
  "Job inp =
     (let labels = [(''app.kubernetes.io/managed-by'', ''deployer''),
                    (''deployer.io/deployment'', DeploymentID inp), (''deployer.io/app'', AppSlug inp)]
      in \<lparr>job_meta = \<lparr>m_name = JobName (DeploymentID inp), m_namespace = JobNamespace inp, m_labels = labels\<rparr>,
          job_backoff = 0, job_deadline = DeadlineSeconds inp, job_ttl = ttlAfterFinished,
          job_template = \<lparr>pt_labels = labels, pt_annotations = [],
            pt_spec = \<lparr>pod_restart = Some ''Never'', pod_automount = Some False, pod_pull_secrets = [],
              pod_security = podSecurity inp, pod_init = [fetchContainer inp],
              pod_containers = [engineContainer inp], pod_volumes = job_volumes inp\<rparr>\<rparr>\<rparr>)"

section \<open>Credentials\<close>

record Credential =
  cr_host :: string
  cr_user :: string
  cr_password :: string

definition DockerConfigJSON :: "Credential \<Rightarrow> json" where
  "DockerConfigJSON c =
     JObject [(''auths'', JObject [(cr_host c, JObject
       [(''auth'', JString (base64 (cr_user c @ '':'' @ cr_password c))),
        (''password'', JString (cr_password c)), (''username'', JString (cr_user c))])])]"

definition PullSecret :: "string \<Rightarrow> string \<Rightarrow> Credential \<Rightarrow> KubeSecret" where
  "PullSecret name namespace c =
     \<lparr>ks_meta = \<lparr>m_name = name, m_namespace = namespace,
        m_labels = [(''app.kubernetes.io/managed-by'', ''deployer'')]\<rparr>,
      ks_owners = [], ks_type = DockerConfigJson,
      ks_data = [(''.dockerconfigjson'', Encoded (DockerConfigJSON c))]\<rparr>"

definition BuildCredentialSecret ::
  "string \<Rightarrow> string \<Rightarrow> Credential \<Rightarrow> OwnerReference \<Rightarrow> KubeSecret" where
  "BuildCredentialSecret dep namespace c owner =
     (PullSecret (SecretName dep) namespace c)\<lparr>ks_owners := [owner]\<rparr>"

section \<open>What the pod may do\<close>

text \<open>A platform identifier as \<open>ids.New\<close> draws it: lower case prefix, underscore, and twenty-six
  digits and upper case letters.\<close>

definition id_char :: "char \<Rightarrow> bool" where
  "id_char c \<longleftrightarrow> is_digit c \<or> (CHR ''A'' \<le> c \<and> c \<le> CHR ''Z'')"

lemma of_lower_char: "(of_char (lower_char c) :: nat) =
    (if CHR ''A'' \<le> c \<and> c \<le> CHR ''Z'' then of_char c + 32 else of_char c)"
  by (simp add: lower_char_def less_eq_char_def take_bit_nat_eq_self)

lemma lower_char_inj:
  assumes "id_char a" "id_char b" "lower_char a = lower_char b"
  shows "a = b"
proof -
  have "(of_char (lower_char a) :: nat) = of_char (lower_char b)" using assms(3) by simp
  then have "(of_char a :: nat) = of_char b"
    using assms(1,2) unfolding of_lower_char id_char_def is_digit_def less_eq_char_def
    by (auto split: if_splits)
  then show ?thesis by simp
qed

end
