(* ===== verification/App_Objects.thy ===== *)
theory App_Objects
  imports Build_Job
begin

text \<open>
  \<^verbatim>\<open>internal/deploy/deploy.go\<close>: the objects one app runs from. SHA-256 is a parameter of the
  checksum and of what carries it: nothing here depends on which digest it is.
\<close>

section \<open>Constants\<close>

definition ContainerPort :: int where "ContainerPort = 8080"
definition WorkloadName :: string where "WorkloadName = ''app''"
definition ServingReplicas :: int where "ServingReplicas = 1"
definition ServicePort :: int where "ServicePort = 80"
definition PullSecretName :: string where "PullSecretName = ''registry''"
definition ConfigSecretName :: string where "ConfigSecretName = ''config''"
definition ConfigChecksumAnnotation :: string where
  "ConfigChecksumAnnotation = ''deployer.internal/config-checksum''"
definition RoleBindingName :: string where "RoleBindingName = ''deployer''"
definition AppRole :: string where "AppRole = ''deployer-app''"
definition managedBy :: string where "managedBy = ''app.kubernetes.io/managed-by''"

record DeployInput =
  dI_app :: string
  dI_slug :: string
  dI_host :: string
  dI_image :: string
  dI_ingress_class :: string
  dI_cpu :: string
  dI_memory :: string
  dI_limit_cpu :: string
  dI_limit_memory :: string
  dI_quota_cpu :: string
  dI_quota_memory :: string
  dI_quota_pods :: int
  dI_control_plane :: string
  dI_blocked_cidrs :: "string list"
  dI_blocked_ports :: "int list"
  dI_config :: "(string \<times> string) list"

definition NamespaceName :: "string \<Rightarrow> string" where
  "NamespaceName slug = ''app-'' @ slug"

definition Selector :: "string \<Rightarrow> (string \<times> string) list" where
  "Selector slug = [(''app.kubernetes.io/name'', slug)]"

definition podLabels :: "string \<Rightarrow> (string \<times> string) list" where
  "podLabels slug = [(''app.kubernetes.io/name'', slug), (managedBy, ''deployer'')]"

definition objectMeta :: "string \<Rightarrow> string \<Rightarrow> ObjectMeta" where
  "objectMeta name slug =
     \<lparr>m_name = name, m_namespace = NamespaceName slug,
      m_labels = [(managedBy, ''deployer''), (''app.kubernetes.io/name'', slug)]\<rparr>"

section \<open>The namespace and its fence\<close>

definition Namespace :: "DeployInput \<Rightarrow> KubeNamespace" where
  "Namespace inp =
     \<lparr>ns_name = NamespaceName (dI_slug inp),
      ns_labels = [(managedBy, ''deployer''), (''deployer.internal/app-id'', dI_app inp),
        (''deployer.internal/app-slug'', dI_slug inp),
        (''pod-security.kubernetes.io/enforce'', ''restricted''),
        (''pod-security.kubernetes.io/enforce-version'', ''latest''),
        (''pod-security.kubernetes.io/warn'', ''restricted''),
        (''pod-security.kubernetes.io/audit'', ''restricted'')]\<rparr>"

definition RoleBinding :: "DeployInput \<Rightarrow> KubeRoleBinding" where
  "RoleBinding inp =
     \<lparr>rb_meta = objectMeta RoleBindingName (dI_slug inp), rb_role = (''ClusterRole'', AppRole),
      rb_subjects = [(''ServiceAccount'', ''deployer'', dI_control_plane inp)]\<rparr>"

definition ResourceQuota :: "DeployInput \<Rightarrow> KubeQuota" where
  "ResourceQuota inp =
     \<lparr>qt_meta = objectMeta ''app-quota'' (dI_slug inp),
      qt_hard = [(''requests.cpu'', dI_quota_cpu inp), (''limits.cpu'', dI_quota_cpu inp),
        (''requests.memory'', dI_quota_memory inp), (''limits.memory'', dI_quota_memory inp),
        (''pods'', Itoa (dI_quota_pods inp)), (''services'', ''3''), (''secrets'', ''10'')]\<rparr>"

definition LimitRange :: "DeployInput \<Rightarrow> KubeLimitRange" where
  "LimitRange inp =
     \<lparr>lr_meta = objectMeta ''app-defaults'' (dI_slug inp), lr_type = ''Container'',
      lr_default = [(''cpu'', dI_limit_cpu inp), (''memory'', dI_limit_memory inp)],
      lr_default_request = [(''cpu'', dI_cpu inp), (''memory'', dI_memory inp)],
      lr_max = [(''cpu'', dI_quota_cpu inp), (''memory'', dI_quota_memory inp)]\<rparr>"

section \<open>Configuration\<close>

definition ConfigSecret :: "DeployInput \<Rightarrow> KubeSecret" where
  "ConfigSecret inp =
     \<lparr>ks_meta = objectMeta ConfigSecretName (dI_slug inp), ks_owners = [], ks_type = Opaque,
      ks_data = map (\<lambda>(k, v). (k, Bytes v)) (dI_config inp)\<rparr>"

text \<open>What the checksum hashes: \<open>"%d:%s=%d:%s\n"\<close> for each key, in key order.\<close>

definition checksum_line :: "string \<times> string \<Rightarrow> string" where
  "checksum_line = (\<lambda>(k, v). decimal (length k) @ '':'' @ k @ ''='' @ decimal (length v) @ '':'' @ v @
     [CHR 0x0A])"

definition checksum_input :: "(string \<times> string) list \<Rightarrow> string" where
  "checksum_input config = concat (map checksum_line (sort_key fst config))"

definition ConfigChecksum :: "(string \<Rightarrow> string) \<Rightarrow> (string \<times> string) list \<Rightarrow> string" where
  "ConfigChecksum sha256 config = sha256 (checksum_input config)"

section \<open>The workload\<close>

definition container :: "DeployInput \<Rightarrow> Container" where
  "container inp =
     \<lparr>k_name = WorkloadName, k_image = dI_image inp, k_command = [], k_args = [],
      k_ports = [(''http'', ContainerPort)], k_env_from = [ConfigSecretName],
      k_env = [(ReservedKeyPort, Itoa ContainerPort), (ReservedKeyAppURL, ''https://'' @ dI_host inp)],
      k_security = \<lparr>sc_escalation = Some False, sc_privileged = None, sc_readonly_root = None,
        sc_nonroot = Some True, sc_user = None, sc_drop = [''ALL''], sc_add = [],
        sc_seccomp = Some RuntimeDefault, sc_apparmor = None\<rparr>,
      k_probe = Some \<lparr>pr_tcp_port = ContainerPort, pr_delay = 2, pr_period = 3, pr_threshold = 20\<rparr>,
      k_mounts = [],
      k_resources = \<lparr>rq_requests = [(''cpu'', dI_cpu inp), (''memory'', dI_memory inp)],
        rq_limits = [(''cpu'', dI_limit_cpu inp), (''memory'', dI_limit_memory inp)]\<rparr>\<rparr>"

definition Workload :: "(string \<Rightarrow> string) \<Rightarrow> DeployInput \<Rightarrow> KubeWorkload" where
  "Workload sha256 inp =
     \<lparr>wl_meta = objectMeta WorkloadName (dI_slug inp), wl_replicas = Some ServingReplicas,
      wl_selector = Selector (dI_slug inp),
      wl_template = \<lparr>pt_labels = podLabels (dI_slug inp),
        pt_annotations = [(ConfigChecksumAnnotation, ConfigChecksum sha256 (dI_config inp))],
        pt_spec = \<lparr>pod_restart = None, pod_automount = Some False, pod_pull_secrets = [PullSecretName],
          pod_security = \<lparr>ps_nonroot = Some True, ps_user = None, ps_group = None, ps_fsgroup = None,
            ps_seccomp = Some RuntimeDefault\<rparr>,
          pod_init = [], pod_containers = [container inp], pod_volumes = []\<rparr>\<rparr>\<rparr>"

definition Service :: "DeployInput \<Rightarrow> KubeService" where
  "Service inp =
     \<lparr>sv_meta = objectMeta WorkloadName (dI_slug inp), sv_selector = Selector (dI_slug inp),
      sv_port = ServicePort, sv_target = ''http''\<rparr>"

definition Ingress :: "DeployInput \<Rightarrow> KubeIngress" where
  "Ingress inp =
     \<lparr>ig_meta = objectMeta WorkloadName (dI_slug inp), ig_class = dI_ingress_class inp,
      ig_host = dI_host inp, ig_path = ''/'', ig_service = (WorkloadName, ServicePort)\<rparr>"

section \<open>The checksum names the configuration\<close>

lemma checksum_line_prefix:
  assumes "checksum_line p @ s = checksum_line q @ t"
  shows "p = q \<and> s = t"
proof -
  obtain k v where p: "p = (k, v)" by (cases p)
  obtain l w where q: "q = (l, w)" by (cases q)
  have colon: "\<not> is_digit CHR '':''" by (simp add: is_digit_def less_eq_char_def)
  have "decimal (length k) @ CHR '':'' # (k @ ''='' @ decimal (length v) @ '':'' @ v @ [CHR 0x0A] @ s)
      = decimal (length l) @ CHR '':'' # (l @ ''='' @ decimal (length w) @ '':'' @ w @ [CHR 0x0A] @ t)"
    using assms unfolding p q checksum_line_def by simp
  note one = decimal_prefix[OF this colon colon]
  have "k @ (''='' @ decimal (length v) @ '':'' @ v @ [CHR 0x0A] @ s)
      = l @ (''='' @ decimal (length w) @ '':'' @ w @ [CHR 0x0A] @ t)" and "length k = length l"
    using one by simp_all
  then have kl: "k = l" and "''='' @ decimal (length v) @ '':'' @ v @ [CHR 0x0A] @ s
      = ''='' @ decimal (length w) @ '':'' @ w @ [CHR 0x0A] @ t"
    using append_eq_append_conv[of k l] by blast+
  then have "decimal (length v) @ CHR '':'' # (v @ [CHR 0x0A] @ s)
      = decimal (length w) @ CHR '':'' # (w @ [CHR 0x0A] @ t)" by simp
  note two = decimal_prefix[OF this colon colon]
  then have "v = w \<and> [CHR 0x0A] @ s = [CHR 0x0A] @ t"
    using append_eq_append_conv[of v w "[CHR 0x0A] @ s" "[CHR 0x0A] @ t"] by simp
  then show ?thesis using kl by (simp add: p q)
qed

lemma checksum_lines_inj: "concat (map checksum_line xs) = concat (map checksum_line ys) \<Longrightarrow> xs = ys"
proof (induction xs arbitrary: ys)
  case Nil
  then show ?case by (cases ys) (auto simp: checksum_line_def split: prod.splits)
next
  case (Cons x xs)
  show ?case
  proof (cases ys)
    case Nil
    then show ?thesis using Cons.prems by (auto simp: checksum_line_def split: prod.splits)
  next
    case (Cons y zs)
    then show ?thesis
      using Cons.prems checksum_line_prefix[of x "concat (map checksum_line xs)" y "concat (map checksum_line zs)"]
        Cons.IH by simp
  qed
qed

lemma sorted_entries_unique:
  assumes "distinct (map fst c)" "distinct (map fst c')" "set c = set c'"
  shows "sort_key fst c = sort_key fst c'"
proof (rule map_sorted_distinct_set_unique[where f = fst])
  show "inj_on fst (set (sort_key fst c) \<union> set (sort_key fst c'))"
    using assms(1,3) by (simp add: distinct_map)
qed (use assms in \<open>simp_all add: distinct_map distinct_sort\<close>)

lemma same_entries:
  assumes "distinct (map fst c)" "distinct (map fst c')"
  shows "set c = set c' \<longleftrightarrow> map_of c = map_of c'"
  using assms by (metis map_of_eqI map_of_inject_set set_map)

text \<open>C38: Changing an app's configuration, and nothing else, changes the pod template, so the pods are
  rolled, exactly when some key or value differs; the order the rows were read in does not
  matter. This needs of the digest only that it separates the two texts it is given.\<close>

theorem configuration_rolls_pods:
  assumes "distinct (map fst c)" "distinct (map fst c')"
    and "inj_on sha256 {checksum_input c, checksum_input c'}"
  shows "Workload sha256 (inp\<lparr>dI_config := c\<rparr>) = Workload sha256 (inp\<lparr>dI_config := c'\<rparr>) \<longleftrightarrow>
    map_of c = map_of c'"
proof -
  have "Workload sha256 (inp\<lparr>dI_config := c\<rparr>) = Workload sha256 (inp\<lparr>dI_config := c'\<rparr>) \<longleftrightarrow>
      checksum_input c = checksum_input c'"
    using inj_on_eq_iff[OF assms(3), of "checksum_input c" "checksum_input c'"]
    by (simp add: Workload_def container_def ConfigChecksum_def)
  also have "\<dots> \<longleftrightarrow> set c = set c'"
    using sorted_entries_unique[OF assms(1,2)] checksum_lines_inj[of "sort_key fst c" "sort_key fst c'"]
    by (metis checksum_input_def set_sort)
  finally show ?thesis unfolding same_entries[OF assms(1,2)] .
qed

definition blog_input :: DeployInput where
  "blog_input = \<lparr>dI_app = ''app_1'', dI_slug = ''blog-k3x9q2'', dI_host = ''blog-k3x9q2.apps.example'',
     dI_image = ''r/apps/b@sha256:1'', dI_ingress_class = ''nginx'', dI_cpu = ''250m'', dI_memory = ''128Mi'', dI_limit_cpu = ''1'',
     dI_limit_memory = ''512Mi'', dI_quota_cpu = ''2'', dI_quota_memory = ''1Gi'', dI_quota_pods = 4,
     dI_control_plane = ''deployer'', dI_blocked_cidrs = [''10.0.0.0/8''], dI_blocked_ports = [25], dI_config = []\<rparr>"

theorem configuration_rolls_pods_witness:
  "Workload (\<lambda>t. t) (blog_input\<lparr>dI_config := [(''B'', ''2''), (''A'', ''1'')]\<rparr>) =
     Workload (\<lambda>t. t) (blog_input\<lparr>dI_config := [(''A'', ''1''), (''B'', ''2'')]\<rparr>) \<and>
   Workload (\<lambda>t. t) (blog_input\<lparr>dI_config := [(''A'', ''1=1:1'')]\<rparr>) \<noteq>
     Workload (\<lambda>t. t) (blog_input\<lparr>dI_config := [(''A'', ''1'')]\<rparr>)"
proof -
  have "map_of [(''B'', ''2''), (''A'', ''1'')] = map_of [(''A'', ''1''), (''B'', ''2'')]" by auto
  moreover have "map_of [(''A'', ''1=1:1'')] \<noteq> map_of [(''A'', ''1'')]" by (simp add: fun_eq_iff)
  ultimately show ?thesis
    using configuration_rolls_pods[of "[(''B'', ''2''), (''A'', ''1'')]" "[(''A'', ''1''), (''B'', ''2'')]" "\<lambda>t. t" blog_input]
      configuration_rolls_pods[of "[(''A'', ''1=1:1'')]" "[(''A'', ''1'')]" "\<lambda>t. t" blog_input]
    by simp
qed

section \<open>What a pod may do\<close>

text \<open>Kubernetes' reading of a container's environment: \<open>env\<close> wins over \<open>envFrom\<close>.\<close>

definition environment :: "(string \<Rightarrow> (string \<times> SecretData) list) \<Rightarrow> Container \<Rightarrow> string \<Rightarrow> SecretData option" where
  "environment secrets k key =
     (case map_of (k_env k) key of
        Some v \<Rightarrow> Some (Bytes v)
      | None \<Rightarrow> map_of (concat (map secrets (k_env_from k))) key)"

text \<open>The environment of an app's container is its whole configuration, except that PORT and APP\_URL
  are always the platform's, whatever the configuration holds; the address it is told is the one
  its Ingress serves. The workload depends on the values a caller sent only through their digest, the
  Service and the Ingress not at all.\<close>

theorem app_environment:
  "let secrets = (\<lambda>name. if name = m_name (ks_meta (ConfigSecret inp)) then ks_data (ConfigSecret inp) else [])
   in environment secrets (container inp) key =
        (if key = ''PORT'' then Some (Bytes ''8080'')
         else if key = ''APP_URL'' then Some (Bytes (''https://'' @ ig_host (Ingress inp)))
         else map_option Bytes (map_of (dI_config inp) key)) \<and>
      (\<forall>c. (Workload sha256 (inp\<lparr>dI_config := c\<rparr>) = Workload sha256 inp \<longleftrightarrow>
            ConfigChecksum sha256 c = ConfigChecksum sha256 (dI_config inp)) \<and>
         Service (inp\<lparr>dI_config := c\<rparr>) = Service inp \<and> Ingress (inp\<lparr>dI_config := c\<rparr>) = Ingress inp)"
proof -
  have "Itoa ContainerPort = ''8080''"
    by (simp add: Itoa_def ContainerPort_def decimal.simps digit_def char_of_def bit_iff_odd)
  moreover have "map_of (map (\<lambda>(k, v). (k, Bytes v)) c) key = map_option Bytes (map_of c key)" for c
    by (simp add: map_of_map)
  ultimately show ?thesis
    by (simp add: environment_def container_def ConfigSecret_def objectMeta_def Ingress_def Workload_def
        Service_def ReservedKeyPort_def ReservedKeyAppURL_def)
qed

text \<open>For non-zero build and engine user ids: the workload's pod meets the restricted standard, and so does
  the build pod of the buildpack path. On the Dockerfile path the build pod deviates twice: its
  own seccomp default is unconfined, and its engine container has four fields of its own and adds
  the capabilities that map user ids. The fetcher beside the engine states a seccomp profile of its
  own and stays restricted.\<close>

theorem composed_pods_restricted:
  assumes "0 < BuildUID inp" "0 < BuildkitUID inp"
  shows "restricted_pod (pt_spec (wl_template (Workload sha256 app))) \<and>
    (let pod = pt_spec (job_template (Job inp)) in
      pod_automount pod = Some False \<and> list_all (restricted_container (pod_security pod)) (pod_init pod) \<and>
      (if JobPath inp = PathDockerfile
       then map k_security (pod_containers pod) =
              [(containerSecurity inp False)\<lparr>sc_escalation := Some True, sc_add := [''SETUID'', ''SETGID''],
                sc_seccomp := Some ProfileUnconfined, sc_apparmor := Some ProfileUnconfined\<rparr>]
       else restricted_pod pod))"
  using assms
  by (simp add: restricted_pod_def restricted_container_def effective_def Workload_def container_def
      Job_def Let_def podSecurity_def fetchContainer_def engineContainer_def builderContainer_def
      buildkitContainer_def containerSecurity_def buildkitSecurity_def buildkitCapabilities_def identity_def)

definition demo_job :: JobInput where
  "demo_job = \<lparr>DeploymentID = ''dep_01A'', JobNamespace = ''builds'', AppSlug = ''blog-k3x9q2'',
     JobPath = PathDockerfile, SelfImage = ''self'', BuilderImage = ''paketo'', TargetImageRef = ''r/apps/b:d'',
     BuildUID = 1001, BuildGID = 1000, BuildkitImage = ''buildkit'', BuildkitUID = 1000, BuildkitGID = 1000,
     FetchURL = ''u'', FetchToken = ''t'', ExpectedSHA = ''s'', JobMaxFiles = 9, MaxExtracted = 99,
     CredentialRef = ''build-dep-01a'', DeadlineSeconds = 900\<rparr>"

theorem composed_pods_restricted_witness:
  "map (sc_add \<circ> k_security) (pod_containers (pt_spec (job_template (Job demo_job)))) = [[''SETUID'', ''SETGID'']] \<and>
   restricted_pod (pt_spec (job_template (Job (demo_job\<lparr>JobPath := []\<rparr>))))"
proof -
  have "0 < BuildUID demo_job" "0 < BuildkitUID demo_job" "JobPath demo_job = PathDockerfile"
    "JobPath (demo_job\<lparr>JobPath := []\<rparr>) \<noteq> PathDockerfile"
    by (simp_all add: demo_job_def PathDockerfile_def)
  then show ?thesis
    using composed_pods_restricted[of demo_job id app] composed_pods_restricted[of "demo_job\<lparr>JobPath := []\<rparr>" id app]
    by (auto simp: Let_def map_eq_Cons_conv)
qed

end
