(* ===== verification/Source.thy ===== *)
theory Source
  imports Go_Strings "HOL-Library.Sublist" "HOL-Library.Word" "HOL-Library.AList" "HOL-Library.Multiset"
begin

text \<open>
  \<^verbatim>\<open>internal/source\<close>: unpacking a source archive (\<open>Extract\<close>) and choosing the build engine from
  it (\<open>HasRootDockerfile\<close>). An archive is what the gzip and tar readers hand over: the entries in order and
  whether the stream ended cleanly. The file system is a map from absolute paths, as their
  components, to nodes; calls of it that fail for reasons of their own (a full disk) and the umask
  are left out. Sizes are unbounded: a limit of the largest int64, which the code's \<open>remaining + 1\<close>
  would wrap, is not covered.
\<close>

unbundle bit_operations_syntax

section \<open>Paths\<close>

text \<open>\<open>filepath.Clean\<close>, the same function as \<open>path.Clean\<close> on this platform, over the components; the
  stack is reversed.\<close>

fun clean_comp :: "bool \<Rightarrow> string \<Rightarrow> string list \<Rightarrow> string list" where
  "clean_comp rooted c st =
     (if c = [] \<or> c = ''.'' then st
      else if c = ''..'' then
        (if st \<noteq> [] \<and> hd st \<noteq> ''..'' then tl st else if rooted then st else ''..'' # st)
      else c # st)"

definition Clean :: "string \<Rightarrow> string" where
  "Clean p =
     (if p = [] then ''.''
      else let rooted = (hd p = CHR ''/'');
               out = rev (fold (clean_comp rooted) (Split CHR ''/'' p) [])
           in if rooted then CHR ''/'' # Join CHR ''/'' out
              else if out = [] then ''.'' else Join CHR ''/'' out)"

text \<open>\<open>filepath.Join\<close> of two elements: empty ones are left out, and the result is cleaned.\<close>

definition PathJoin :: "string \<Rightarrow> string \<Rightarrow> string" where
  "PathJoin a b =
     (if a = [] then (if b = [] then [] else Clean b)
      else if b = [] then Clean a else Clean (a @ CHR ''/'' # b))"

definition IsAbs :: "string \<Rightarrow> bool" where
  "IsAbs p \<longleftrightarrow> prefix ''/'' p"

definition Dir_of :: "string list \<Rightarrow> string list" where
  "Dir_of p = butlast p"

datatype src_error = ErrRejected | IOFault

definition safePath :: "string \<Rightarrow> string \<Rightarrow> src_error + string" where
  "safePath root name =
     (if name = [] \<or> IsAbs name \<or> prefix ''/'' name then Inl ErrRejected
      else if list_ex (\<lambda>c. c = CHR 0x5C \<or> c = CHR '':'') name then Inl ErrRejected
      else if list_ex (\<lambda>part. part = ''..'') (Split CHR ''/'' name) then Inl ErrRejected
      else let target = PathJoin root (Clean name) in
        if target \<noteq> root \<and> \<not> prefix (root @ ''/'') target then Inl ErrRejected else Inr target)"

section \<open>Archives\<close>

datatype Typeflag = TypeReg | TypeDir | TypeOther

text \<open>\<open>t_intact\<close> is false when reading the body fails after the bytes given; \<open>t_upto\<close> is how many
  uncompressed bytes the tar reader has to be given before it can hand over this header, the
  bodies it skips included.\<close>

record tar_entry =
  t_name :: string
  t_type :: Typeflag
  t_mode :: "64 word"
  t_body :: string
  t_intact :: bool
  t_upto :: int

record archive =
  ar_gzip :: bool
  ar_entries :: "tar_entry list"
  ar_eof :: bool
  ar_end :: int

record Limits =
  MaxFiles :: int
  MaxBytes :: int

section \<open>The file system\<close>

datatype node = Dir "32 word" | File "32 word" string

type_synonym fs = "string list \<Rightarrow> node option"

definition resolve :: "string \<Rightarrow> string list" where
  "resolve p = filter (\<lambda>c. c \<noteq> [] \<and> c \<noteq> ''.'') (Split CHR ''/'' p)"

text \<open>\<open>os.MkdirAll\<close>: every missing directory on the way is made; a file on the way is an error, and
  then nothing was made, since what is missing starts below what is there.\<close>

fun mkdirs :: "string list \<Rightarrow> string list \<Rightarrow> 32 word \<Rightarrow> fs \<Rightarrow> fs option" where
  "mkdirs pre [] perm fs = Some fs"
| "mkdirs pre (c # cs) perm fs =
     (case fs (pre @ [c]) of
        None \<Rightarrow> mkdirs (pre @ [c]) cs perm (fs(pre @ [c] \<mapsto> Dir perm))
      | Some (Dir _) \<Rightarrow> mkdirs (pre @ [c]) cs perm fs
      | Some (File _ _) \<Rightarrow> None)"

definition permMask :: "32 word" where "permMask = 0x1FF"
definition dirPerm :: "32 word" where "dirPerm = 0x1ED"
definition filePerm :: "32 word" where "filePerm = 0x1A4"

definition masked_mode :: "64 word \<Rightarrow> 32 word \<Rightarrow> 32 word" where
  "masked_mode mode floor = (ucast mode AND permMask) OR floor"

section \<open>Extraction\<close>

definition writeFile ::
  "string list \<Rightarrow> tar_entry \<Rightarrow> 32 word \<Rightarrow> int \<Rightarrow> fs \<Rightarrow> (src_error + int) \<times> fs" where
  "writeFile target e mode remaining fs =
     (if remaining \<le> 0 then (Inl ErrRejected, fs)
      else case mkdirs [] (Dir_of target) dirPerm fs of
        None \<Rightarrow> (Inl IOFault, fs)
      | Some fs1 \<Rightarrow>
          if fs1 target \<noteq> None then (Inl ErrRejected, fs1)
          else let written = take (nat (remaining + 1)) (t_body e);
                   fs2 = fs1(target \<mapsto> File mode written)
               in if \<not> t_intact e \<and> int (length (t_body e)) \<le> remaining then (Inl IOFault, fs2)
                  else if remaining < int (length written) then (Inl ErrRejected, fs2)
                  else (Inr (int (length written)), fs2))"

fun extract_loop ::
  "string \<Rightarrow> Limits \<Rightarrow> bool \<Rightarrow> int \<Rightarrow> int \<Rightarrow> tar_entry list \<Rightarrow> fs \<Rightarrow> (src_error + unit) \<times> fs" where
  "extract_loop root lim eof files remaining [] fs =
     (if eof then (Inr (), fs) else (Inl ErrRejected, fs))"
| "extract_loop root lim eof files remaining (e # es) fs =
     (if MaxFiles lim < files + 1 then (Inl ErrRejected, fs)
      else case safePath root (t_name e) of
        Inl err \<Rightarrow> (Inl err, fs)
      | Inr target \<Rightarrow>
          (case t_type e of
             TypeDir \<Rightarrow>
               (case mkdirs [] (resolve target) (masked_mode (t_mode e) dirPerm) fs of
                  None \<Rightarrow> (Inl IOFault, fs)
                | Some fs1 \<Rightarrow> extract_loop root lim eof (files + 1) remaining es fs1)
           | TypeReg \<Rightarrow>
               (case writeFile (resolve target) e (masked_mode (t_mode e) filePerm) remaining fs of
                  (Inl err, fs1) \<Rightarrow> (Inl err, fs1)
                | (Inr written, fs1) \<Rightarrow>
                    extract_loop root lim eof (files + 1) (remaining - written) es fs1)
           | TypeOther \<Rightarrow> (Inl ErrRejected, fs)))"

definition Extract :: "archive \<Rightarrow> string \<Rightarrow> Limits \<Rightarrow> fs \<Rightarrow> (src_error + unit) \<times> fs" where
  "Extract a root lim fs =
     (if \<not> ar_gzip a then (Inl ErrRejected, fs)
      else extract_loop root lim (ar_eof a) 0 (MaxBytes lim) (ar_entries a) fs)"

section \<open>Choosing the engine\<close>

definition rootDockerfile :: string where "rootDockerfile = ''Dockerfile''"

fun detect_loop :: "Limits \<Rightarrow> bool \<Rightarrow> int \<Rightarrow> int \<Rightarrow> bool \<Rightarrow> tar_entry list \<Rightarrow> src_error + bool" where
  "detect_loop lim eof reach files found [] =
     (if eof \<and> reach \<le> MaxBytes lim then Inr found else Inl ErrRejected)"
| "detect_loop lim eof reach files found (e # es) =
     (if MaxBytes lim < t_upto e then Inl ErrRejected
      else if MaxFiles lim < files + 1 then Inl ErrRejected
      else detect_loop lim eof reach (files + 1)
        (found \<or> t_type e = TypeReg \<and> Clean (t_name e) = rootDockerfile) es)"

definition HasRootDockerfile :: "archive \<Rightarrow> Limits \<Rightarrow> src_error + bool" where
  "HasRootDockerfile a lim =
     (if \<not> ar_gzip a then Inl ErrRejected
      else detect_loop lim (ar_eof a) (ar_end a) 0 False (ar_entries a))"

section \<open>Paths, split and joined\<close>

lemma Split_chars: "p \<in> set (Split c s) \<Longrightarrow> set p \<subseteq> set s"
proof (induction c s arbitrary: p rule: Split.induct)
  case (2 c x xs)
  obtain q qs where q: "Split c xs = q # qs" by (cases "Split c xs") auto
  show ?case
    using "2.prems" "2.IH"(1)[of p] "2.IH"(2)[of q] "2.IH"(2)[of p] q by (auto split: if_splits)
qed simp

lemma Join_Cons: "ps \<noteq> [] \<Longrightarrow> Join c (p # ps) = p @ c # Join c ps"
  by (cases ps) auto

text \<open>A path component as the kernel sees one.\<close>

definition proper :: "string list \<Rightarrow> bool" where
  "proper cs \<longleftrightarrow> list_all (\<lambda>c. c \<noteq> [] \<and> c \<noteq> ''.'' \<and> c \<noteq> ''..'' \<and> CHR ''/'' \<notin> set c) cs"

lemma proper_append [simp]: "proper (a @ b) \<longleftrightarrow> proper a \<and> proper b"
  by (simp add: proper_def)

definition abspath :: "string list \<Rightarrow> string" where
  "abspath cs = CHR ''/'' # Join CHR ''/'' cs"

lemma Split_abspath: "proper cs \<Longrightarrow> cs \<noteq> [] \<Longrightarrow> Split CHR ''/'' (abspath cs) = [] # cs"
  by (simp add: abspath_def Split_Join proper_def list_all_iff)

lemma resolve_abspath: "proper cs \<Longrightarrow> cs \<noteq> [] \<Longrightarrow> resolve (abspath cs) = cs"
  by (auto simp: resolve_def Split_abspath proper_def list_all_iff intro: filter_True)

lemma resolve_proper: "''..'' \<notin> set (Split CHR ''/'' p) \<Longrightarrow> proper (resolve p)"
  by (auto simp: proper_def list_all_iff resolve_def dest: Split_parts)

lemma clean_fold: "''..'' \<notin> set cs \<Longrightarrow>
    fold (clean_comp rooted) cs st = rev (filter (\<lambda>c. c \<noteq> [] \<and> c \<noteq> ''.'') cs) @ st"
  by (induction cs arbitrary: st) auto

lemma Clean_relative:
  assumes "name \<noteq> []" "hd name \<noteq> CHR ''/''" "''..'' \<notin> set (Split CHR ''/'' name)"
  shows "Clean name = (if resolve name = [] then ''.'' else Join CHR ''/'' (resolve name))"
  using assms by (simp add: Clean_def clean_fold resolve_def)

lemma Clean_rooted:
  assumes "''..'' \<notin> set (Split CHR ''/'' p)" "p \<noteq> []" "hd p = CHR ''/''"
  shows "Clean p = abspath (resolve p)"
  using assms by (simp add: Clean_def clean_fold resolve_def abspath_def)

lemma resolve_append: "resolve (a @ CHR ''/'' # b) = resolve a @ resolve b"
  by (simp add: resolve_def Split_append)

lemma resolve_resolve:
  assumes "''..'' \<notin> set (Split CHR ''/'' name)" "name \<noteq> []" "hd name \<noteq> CHR ''/''"
  shows "resolve (Clean name) = resolve name" "''..'' \<notin> set (Split CHR ''/'' (Clean name))"
proof -
  have p: "proper (resolve name)" by (rule resolve_proper[OF assms(1)])
  have "Split CHR ''/'' (Clean name) = (if resolve name = [] then [''.''] else resolve name)"
    using Clean_relative[OF assms(2,3,1)] p by (simp add: Split_Join proper_def list_all_iff)
  then show "resolve (Clean name) = resolve name" "''..'' \<notin> set (Split CHR ''/'' (Clean name))"
    using p by (auto simp: resolve_def[of "Clean name"] proper_def list_all_iff intro: filter_True)
qed

lemma Join_nonempty: "proper cs \<Longrightarrow> cs \<noteq> [] \<Longrightarrow> Join CHR ''/'' cs \<noteq> []"
proof -
  assume a: "proper cs" "cs \<noteq> []"
  then obtain p ps where "cs = p # ps" by (cases cs) auto
  then show ?thesis using a by (cases ps) (auto simp: proper_def)
qed

definition usable :: "string \<Rightarrow> bool" where
  "usable name \<longleftrightarrow> name \<noteq> [] \<and> hd name \<noteq> CHR ''/'' \<and> CHR 0x5C \<notin> set name \<and> CHR '':'' \<notin> set name \<and>
     ''..'' \<notin> set (Split CHR ''/'' name)"

lemma joined_target:
  assumes "proper rs" "rs \<noteq> []" "name \<noteq> []" "hd name \<noteq> CHR ''/''" "''..'' \<notin> set (Split CHR ''/'' name)"
  shows "PathJoin (abspath rs) (Clean name) = abspath (rs @ resolve name)"
proof -
  note rr = resolve_resolve[OF assms(5,3,4)]
  have ne: "Clean name \<noteq> []"
    using Clean_relative[OF assms(3,4,5)] Join_nonempty[OF resolve_proper[OF assms(5)]] by auto
  let ?p = "abspath rs @ CHR ''/'' # Clean name"
  have "''..'' \<notin> set (Split CHR ''/'' ?p)"
    using rr(2) assms(1,2) by (auto simp: Split_append Split_abspath proper_def list_all_iff)
  then have "Clean ?p = abspath (resolve ?p)" by (rule Clean_rooted) (simp_all add: abspath_def)
  then show ?thesis
    using ne rr(1) assms(1,2) by (simp add: PathJoin_def resolve_append resolve_abspath) (simp add: abspath_def)
qed

lemma Join_append: "a \<noteq> [] \<Longrightarrow> b \<noteq> [] \<Longrightarrow> Join c (a @ b) = Join c a @ c # Join c b"
proof (induction a)
  case (Cons x a)
  then show ?case by (cases a) (auto simp: Join_Cons)
qed simp

lemma below_root:
  assumes "rs \<noteq> []"
  shows "abspath (rs @ ps) = abspath rs \<or> prefix (abspath rs @ ''/'') (abspath (rs @ ps))"
proof (cases "ps = []")
  case False
  then show ?thesis using assms by (simp add: abspath_def Join_append)
qed simp

text \<open>The last check of \<open>safePath\<close> never fires: the first three decide.\<close>

lemma safePath_iff:
  assumes "proper rs" "rs \<noteq> []"
  shows "safePath (abspath rs) name = (if usable name then Inr (abspath (rs @ resolve name)) else Inl ErrRejected)"
proof -
  have "prefix ''/'' name \<longleftrightarrow> name \<noteq> [] \<and> hd name = CHR ''/''" by (cases name) auto
  then show ?thesis
    using joined_target[OF assms, of name] below_root[OF assms(2), of "resolve name"]
    by (auto simp: safePath_def usable_def IsAbs_def list_ex_iff Let_def)
qed

section \<open>Directories\<close>

lemma prefixes_Cons: "(\<exists>q. q \<noteq> [] \<and> prefix q (c # cs) \<and> P q) \<longleftrightarrow>
    P [c] \<or> (\<exists>q. q \<noteq> [] \<and> prefix q cs \<and> P (c # q))"
proof
  assume "\<exists>q. q \<noteq> [] \<and> prefix q (c # cs) \<and> P q"
  then obtain zs where "prefix zs cs" "P (c # zs)" by (auto simp: prefix_Cons)
  then show "P [c] \<or> (\<exists>q. q \<noteq> [] \<and> prefix q cs \<and> P (c # q))" by (cases "zs = []") auto
next
  assume "P [c] \<or> (\<exists>q. q \<noteq> [] \<and> prefix q cs \<and> P (c # q))"
  then show "\<exists>q. q \<noteq> [] \<and> prefix q (c # cs) \<and> P q"
  proof
    assume "P [c]"
    then show ?thesis by (intro exI[of _ "[c]"]) simp
  next
    assume "\<exists>q. q \<noteq> [] \<and> prefix q cs \<and> P (c # q)"
    then obtain q where "prefix q cs" "P (c # q)" by blast
    then show ?thesis by (intro exI[of _ "c # q"]) simp
  qed
qed

lemma mkdirs_result:
  assumes "mkdirs pre cs perm fs = Some fs1"
  shows "fs1 k = (case fs k of Some n \<Rightarrow> Some n
     | None \<Rightarrow> if \<exists>q. q \<noteq> [] \<and> prefix q cs \<and> k = pre @ q then Some (Dir perm) else None)"
  using assms
proof (induction pre cs perm fs arbitrary: fs1 rule: mkdirs.induct)
  case (1 pre perm fs)
  then show ?case by (auto split: option.splits)
next
  case (2 pre c cs perm fs)
  have step: "(\<exists>q. q \<noteq> [] \<and> prefix q (c # cs) \<and> k = pre @ q) \<longleftrightarrow>
      k = pre @ [c] \<or> (\<exists>q. q \<noteq> [] \<and> prefix q cs \<and> k = (pre @ [c]) @ q)" for k
    unfolding prefixes_Cons by simp
  show ?case
  proof (cases "fs (pre @ [c])")
    case None
    have p: "mkdirs (pre @ [c]) cs perm (fs(pre @ [c] \<mapsto> Dir perm)) = Some fs1"
      using "2.prems" None by simp
    show ?thesis
      unfolding step "2.IH"(1)[OF None p] using None by (cases "k = pre @ [c]") (auto split: option.splits)
  next
    case (Some n)
    then obtain m where m: "n = Dir m" using "2.prems" by (cases n) auto
    have p: "mkdirs (pre @ [c]) cs perm fs = Some fs1" using "2.prems" Some m by simp
    show ?thesis
      unfolding step "2.IH"(2)[OF Some m p] using Some by (cases "k = pre @ [c]") (auto split: option.splits)
  qed
qed

definition is_file :: "node option \<Rightarrow> bool" where
  "is_file n \<longleftrightarrow> (\<exists>m b. n = Some (File m b))"

lemma mkdirs_succeeds:
  "mkdirs pre cs perm fs \<noteq> None \<longleftrightarrow> (\<forall>q. q \<noteq> [] \<and> prefix q cs \<longrightarrow> \<not> is_file (fs (pre @ q)))"
proof (induction pre cs perm fs rule: mkdirs.induct)
  case (1 pre perm fs)
  then show ?case by auto
next
  case (2 pre c cs perm fs)
  have step: "(\<forall>q. q \<noteq> [] \<and> prefix q (c # cs) \<longrightarrow> \<not> is_file (fs (pre @ q))) \<longleftrightarrow>
      \<not> is_file (fs (pre @ [c])) \<and> (\<forall>q. q \<noteq> [] \<and> prefix q cs \<longrightarrow> \<not> is_file (fs ((pre @ [c]) @ q)))"
    using prefixes_Cons[of c cs "\<lambda>q. is_file (fs (pre @ q))"] by auto
  show ?case
  proof (cases "fs (pre @ [c])")
    case None
    have other: "q \<noteq> [] \<Longrightarrow> (fs(pre @ [c] \<mapsto> Dir perm)) ((pre @ [c]) @ q) = fs ((pre @ [c]) @ q)" for q
      by simp
    have "mkdirs pre (c # cs) perm fs \<noteq> None \<longleftrightarrow>
        (\<forall>q. q \<noteq> [] \<and> prefix q cs \<longrightarrow> \<not> is_file ((fs(pre @ [c] \<mapsto> Dir perm)) ((pre @ [c]) @ q)))"
    proof -
      have "mkdirs pre (c # cs) perm fs = mkdirs (pre @ [c]) cs perm (fs(pre @ [c] \<mapsto> Dir perm))"
        using None by simp
      then show ?thesis by (simp only: "2.IH"(1)[OF None])
    qed
    also have "\<dots> \<longleftrightarrow> (\<forall>q. q \<noteq> [] \<and> prefix q cs \<longrightarrow> \<not> is_file (fs ((pre @ [c]) @ q)))"
      using other by metis
    finally show ?thesis using None step by (simp add: is_file_def)
  next
    case (Some n)
    show ?thesis
    proof (cases n)
      case (Dir m)
      then show ?thesis using "2.IH"(2)[OF Some Dir] Some step by (simp add: is_file_def)
    next
      case (File m b)
      then show ?thesis using Some step by (simp add: is_file_def)
    qed
  qed
qed

text \<open>The destination and everything on the way to it is there.\<close>

definition dest_ok :: "string list \<Rightarrow> fs \<Rightarrow> bool" where
  "dest_ok rs fs \<longleftrightarrow> proper rs \<and> rs \<noteq> [] \<and> (\<forall>q. q \<noteq> [] \<and> prefix q rs \<longrightarrow> (\<exists>m. fs q = Some (Dir m)))"

text \<open>What a step may do to the file system: add nodes strictly below the root, and nothing else.\<close>

definition grows :: "string list \<Rightarrow> fs \<Rightarrow> fs \<Rightarrow> bool" where
  "grows rs fs fs' \<longleftrightarrow> (\<forall>k n. fs k = Some n \<longrightarrow> fs' k = Some n) \<and>
     (\<forall>k. fs k = None \<and> fs' k \<noteq> None \<longrightarrow> strict_prefix rs k)"

lemma grows_refl [simp]: "grows rs fs fs"
  by (auto simp: grows_def)

lemma grows_trans: "grows rs a b \<Longrightarrow> grows rs b c \<Longrightarrow> grows rs a c"
  unfolding grows_def by (metis not_None_eq)

lemma dest_ok_grows: "dest_ok rs fs \<Longrightarrow> grows rs fs fs' \<Longrightarrow> dest_ok rs fs'"
  unfolding dest_ok_def grows_def by blast

lemma mkdirs_grows:
  assumes "dest_ok rs fs" "mkdirs [] (rs @ ps) perm fs = Some fs1"
  shows "grows rs fs fs1"
proof -
  have "strict_prefix rs k" if "fs k = None" "fs1 k \<noteq> None" for k
  proof -
    have k: "k \<noteq> []" "prefix k (rs @ ps)"
      using mkdirs_result[OF assms(2), of k] that by (auto split: if_splits)
    then have "\<not> prefix k rs" using assms(1) that(1) unfolding dest_ok_def by force
    then show ?thesis using k(2) by (auto simp: prefix_append strict_prefix_def)
  qed
  moreover have "fs1 k = Some n" if "fs k = Some n" for k n
    using that by (simp add: mkdirs_result[OF assms(2)])
  ultimately show ?thesis unfolding grows_def by blast
qed

lemma writeFile_grows:
  assumes "dest_ok rs fs" "ps \<noteq> []" "writeFile (rs @ ps) e mode rem fs = (r, fs')"
  shows "grows rs fs fs'"
proof -
  have d: "Dir_of (rs @ ps) = rs @ butlast ps" using assms(2) by (simp add: Dir_of_def butlast_append)
  show ?thesis
  proof (cases "rem \<le> 0 \<or> mkdirs [] (rs @ butlast ps) dirPerm fs = None")
    case True
    then have "fs' = fs" using assms(3) by (auto simp: writeFile_def d split: if_splits)
    then show ?thesis by simp
  next
    case False
    then obtain fs1 where fs1: "mkdirs [] (rs @ butlast ps) dirPerm fs = Some fs1" by auto
    have g: "grows rs fs fs1" by (rule mkdirs_grows[OF assms(1) fs1])
    have below: "strict_prefix rs (rs @ ps)" using assms(2) by (simp add: strict_prefix_def)
    have "fs' = fs1 \<or> (fs1 (rs @ ps) = None \<and> (\<exists>n. fs' = fs1(rs @ ps \<mapsto> n)))"
      using assms(3) False d fs1 by (auto simp: writeFile_def Let_def split: if_splits)
    then have "grows rs fs1 fs'" using below by (auto simp: grows_def split: if_splits)
    then show ?thesis by (rule grows_trans[OF g])
  qed
qed

lemma writeFile_root:
  assumes "dest_ok rs fs" "writeFile rs e mode rem fs = (r, fs')"
  shows "fs' = fs \<and> (\<exists>err. r = Inl err)"
proof -
  have there: "fs rs \<noteq> None" using assms(1) by (auto simp: dest_ok_def)
  have "fs1 = fs" if "mkdirs [] (butlast rs) dirPerm fs = Some fs1" for fs1
  proof
    fix k
    show "fs1 k = fs k"
    proof (cases "fs k")
      case None
      have "\<not> (k \<noteq> [] \<and> prefix k (butlast rs))"
        using assms(1) None unfolding dest_ok_def by (metis option.distinct(1) prefix_order.trans prefixeq_butlast)
      then show ?thesis using None by (simp add: mkdirs_result[OF that])
    qed (simp add: mkdirs_result[OF that])
  qed
  then show ?thesis
    using assms(2) there by (auto simp: writeFile_def Dir_of_def split: if_splits option.splits)
qed

section \<open>What extraction leaves behind\<close>

lemma safe_target: "safePath (abspath rs) name = Inr target \<Longrightarrow> dest_ok rs fs \<Longrightarrow>
    usable name \<and> resolve target = rs @ resolve name \<and> proper (rs @ resolve name)"
  by (auto simp: dest_ok_def safePath_iff usable_def split: if_splits intro!: resolve_abspath
      dest: resolve_proper)

lemma safe_error: "safePath (abspath rs) name = Inl err \<Longrightarrow> dest_ok rs fs \<Longrightarrow> \<not> usable name \<and> err = ErrRejected"
  by (auto simp: dest_ok_def safePath_iff split: if_splits)

text \<open>One entry, as one step from file system to file system.\<close>

inductive entry_step :: "string list \<Rightarrow> tar_entry \<Rightarrow> int \<Rightarrow> fs \<Rightarrow> int \<Rightarrow> fs \<Rightarrow> bool" where
  step_dir: "usable (t_name e) \<Longrightarrow> t_type e = TypeDir \<Longrightarrow>
    mkdirs [] (rs @ resolve (t_name e)) (masked_mode (t_mode e) dirPerm) fs = Some fs' \<Longrightarrow>
    entry_step rs e rem fs rem fs'"
| step_file: "usable (t_name e) \<Longrightarrow> t_type e = TypeReg \<Longrightarrow>
    writeFile (rs @ resolve (t_name e)) e (masked_mode (t_mode e) filePerm) rem fs = (Inr n, fs') \<Longrightarrow>
    entry_step rs e rem fs (rem - n) fs'"

lemma extract_cases:
  assumes "extract_loop (abspath rs) lim eof files rem (e # es) fs = (r, fs')" "dest_ok rs fs"
  obtains (refused) "fs' = fs" "\<exists>err. r = Inl err"
  | (broken) err where "t_type e = TypeReg" "usable (t_name e)" "r = Inl err"
      "writeFile (rs @ resolve (t_name e)) e (masked_mode (t_mode e) filePerm) rem fs = (Inl err, fs')"
  | (goes) rem1 fs1 where "entry_step rs e rem fs rem1 fs1" "files + 1 \<le> MaxFiles lim"
      "extract_loop (abspath rs) lim eof (files + 1) rem1 es fs1 = (r, fs')"
proof (cases "MaxFiles lim < files + 1 \<or> \<not> usable (t_name e) \<or> t_type e = TypeOther")
  case True
  then show ?thesis
    using assms safe_target[OF _ assms(2), of "t_name e"]
    by (intro refused) (auto split: if_splits sum.splits)
next
  case False
  then obtain target where target: "safePath (abspath rs) (t_name e) = Inr target"
    using safe_error[OF _ assms(2)] by (cases "safePath (abspath rs) (t_name e)") auto
  note at = safe_target[OF target assms(2)]
  show ?thesis
  proof (cases "t_type e")
    case TypeDir
    then show ?thesis
      using assms(1) False target at step_dir[of e rs fs _ rem]
      by (cases "mkdirs [] (rs @ resolve (t_name e)) (masked_mode (t_mode e) dirPerm) fs")
        (auto intro: refused goes)
  next
    case TypeReg
    obtain w fs1 where w: "writeFile (rs @ resolve (t_name e)) e (masked_mode (t_mode e) filePerm) rem fs = (w, fs1)"
      by fastforce
    show ?thesis
    proof (cases w)
      case (Inl err)
      then show ?thesis using assms(1) False target at w TypeReg by (intro broken[of err]) auto
    next
      case (Inr n)
      then show ?thesis
        using assms(1) False target at w TypeReg step_file[of e rs rem fs n fs1]
        by (intro goes[of "rem - n" fs1]) auto
    qed
  qed (use False in simp)
qed

lemma write_grows:
  assumes "dest_ok rs fs" "writeFile (rs @ ps) e mode rem fs = (r, fs')"
  shows "grows rs fs fs'"
proof (cases "ps = []")
  case True
  then show ?thesis using writeFile_root[OF assms(1)] assms(2) by fastforce
qed (use writeFile_grows[OF assms(1) _ assms(2)] in blast)

lemma entry_grows: "entry_step rs e rem fs rem' fs' \<Longrightarrow> dest_ok rs fs \<Longrightarrow> grows rs fs fs'"
  by (cases rule: entry_step.cases) (auto intro: mkdirs_grows write_grows)

lemma extract_grows:
  "extract_loop (abspath rs) lim eof files rem es fs = (r, fs') \<Longrightarrow> dest_ok rs fs \<Longrightarrow> grows rs fs fs'"
proof (induction es arbitrary: files rem fs)
  case Nil
  then show ?case by (auto split: if_splits)
next
  case (Cons e es)
  show ?case
    using Cons.prems
  proof (cases rule: extract_cases)
    case refused
    then show ?thesis by simp
  next
    case (broken err)
    then show ?thesis using write_grows[OF Cons.prems(2)] by blast
  next
    case (goes rem1 fs1)
    have g: "grows rs fs fs1" by (rule entry_grows[OF goes(1) Cons.prems(2)])
    show ?thesis
      by (rule grows_trans[OF g Cons.IH[OF goes(3) dest_ok_grows[OF Cons.prems(2) g]]])
  qed
qed

text \<open>A node an archive may create: no setuid, setgid or sticky bit, and a body inside the bound.\<close>

definition plain :: "32 word \<Rightarrow> bool" where
  "plain mode \<longleftrightarrow> mode AND NOT permMask = 0"

fun tame :: "int \<Rightarrow> node \<Rightarrow> bool" where
  "tame bound (Dir mode) \<longleftrightarrow> plain mode"
| "tame bound (File mode body) \<longleftrightarrow> plain mode \<and> int (length body) \<le> bound"

lemma plain_iff: "plain mode \<longleftrightarrow> (\<forall>i. bit mode i \<longrightarrow> bit permMask i)"
proof -
  have "bit mode i \<Longrightarrow> i < 32" for i using bit_imp_le_length[of mode i] by simp
  then show ?thesis unfolding plain_def bit_eq_iff by (auto simp: bit_simps)
qed

lemma plain_masked: "plain floor \<Longrightarrow> plain (masked_mode mode floor)"
  by (auto simp: plain_iff masked_mode_def bit_or_iff bit_and_iff)

lemma plain_floors: "plain dirPerm" "plain filePerm"
  by (simp_all add: plain_def dirPerm_def filePerm_def permMask_def)

definition tame_growth :: "int \<Rightarrow> fs \<Rightarrow> fs \<Rightarrow> bool" where
  "tame_growth bound fs fs' \<longleftrightarrow> (\<forall>k n. fs k = None \<longrightarrow> fs' k = Some n \<longrightarrow> tame bound n)"

lemma tame_mkdirs: "mkdirs pre cs perm fs = Some fs1 \<Longrightarrow> plain perm \<Longrightarrow> tame_growth bound fs fs1"
  by (auto simp: tame_growth_def mkdirs_result[of pre cs perm fs fs1] split: if_splits)

lemma tame_write:
  assumes "writeFile target e mode rem fs = (r, fs')" "plain mode" "rem \<le> bound"
  shows "tame_growth (bound + 1) fs fs'"
proof (cases "rem \<le> 0 \<or> mkdirs [] (Dir_of target) dirPerm fs = None")
  case True
  then have "fs' = fs" using assms(1) by (auto simp: writeFile_def split: if_splits)
  then show ?thesis by (simp add: tame_growth_def)
next
  case False
  then obtain fs1 where fs1: "mkdirs [] (Dir_of target) dirPerm fs = Some fs1" by auto
  have "fs' = fs1 \<or> fs' = fs1(target \<mapsto> File mode (take (nat (rem + 1)) (t_body e)))"
    using assms(1) False fs1 by (auto simp: writeFile_def Let_def split: if_splits)
  then show ?thesis
    using tame_mkdirs[OF fs1 plain_floors(1), of "bound + 1"] assms(2,3) False
    by (auto simp: tame_growth_def split: if_splits)
qed

lemma tame_trans: "tame_growth b fs fs1 \<Longrightarrow> tame_growth b fs1 fs2 \<Longrightarrow> grows rs fs1 fs2 \<Longrightarrow> tame_growth b fs fs2"
  unfolding tame_growth_def grows_def by (metis not_None_eq option.inject)

lemma written_size: "writeFile target e mode rem fs = (Inr n, fs') \<Longrightarrow>
    0 < rem \<and> n = int (length (t_body e)) \<and> n \<le> rem \<and> t_intact e \<and> fs' target = Some (File mode (t_body e))"
  by (auto simp: writeFile_def Let_def split: if_splits option.splits)

lemma entry_tame:
  assumes "entry_step rs e rem fs rem' fs'" "rem \<le> bound"
  shows "tame_growth (bound + 1) fs fs' \<and> rem' \<le> rem"
  using assms(1)
proof cases
  case step_dir
  then show ?thesis using tame_mkdirs plain_masked[OF plain_floors(1)] by simp
next
  case (step_file n)
  then show ?thesis using tame_write[OF _ plain_masked[OF plain_floors(2)] assms(2)] written_size by fastforce
qed

lemma extract_tame:
  "extract_loop (abspath rs) lim eof files rem es fs = (r, fs') \<Longrightarrow> dest_ok rs fs \<Longrightarrow> rem \<le> bound \<Longrightarrow>
   tame_growth (bound + 1) fs fs'"
proof (induction es arbitrary: files rem fs)
  case Nil
  then show ?case by (auto simp: tame_growth_def split: if_splits)
next
  case (Cons e es)
  show ?case
    using Cons.prems(1,2)
  proof (cases rule: extract_cases)
    case refused
    then show ?thesis by (simp add: tame_growth_def)
  next
    case (broken err)
    then show ?thesis using tame_write[OF _ plain_masked[OF plain_floors(2)] Cons.prems(3)] by blast
  next
    case (goes rem1 fs1)
    note step = entry_tame[OF goes(1) Cons.prems(3)]
    have ok: "dest_ok rs fs1" by (rule dest_ok_grows[OF Cons.prems(2) entry_grows[OF goes(1) Cons.prems(2)]])
    have "tame_growth (bound + 1) fs1 fs'" using Cons.IH[OF goes(3) ok] step Cons.prems(3) by simp
    then show ?thesis using tame_trans step extract_grows[OF goes(3) ok] by blast
  qed
qed

text \<open>C22: Whatever an archive holds, and whether or not it is refused in the end, unpacking it only adds
  nodes strictly below the destination: nothing outside changes, nothing that was there is
  replaced, no new node carries a setuid, setgid or sticky bit, and no file grows more than one
  byte past the size bound.\<close>

theorem extraction_contained:
  assumes "dest_ok rs fs" "Extract a (abspath rs) lim fs = (r, fs')"
  shows "(\<forall>k n. fs k = Some n \<longrightarrow> fs' k = Some n) \<and>
    (\<forall>k n. fs k = None \<and> fs' k = Some n \<longrightarrow> strict_prefix rs k \<and> tame (MaxBytes lim + 1) n)"
proof (cases "ar_gzip a")
  case True
  then have run: "extract_loop (abspath rs) lim (ar_eof a) 0 (MaxBytes lim) (ar_entries a) fs = (r, fs')"
    using assms(2) by (simp add: Extract_def)
  have g: "grows rs fs fs'" by (rule extract_grows[OF run assms(1)])
  have t: "tame_growth (MaxBytes lim + 1) fs fs'" by (rule extract_tame[OF run assms(1) order_refl])
  show ?thesis using g t unfolding grows_def tame_growth_def by blast
next
  case False
  then have "fs' = fs" using assms(2) by (simp add: Extract_def)
  then show ?thesis by auto
qed

definition demo_fs :: fs where
  "demo_fs = [[''w''] \<mapsto> Dir 0x1ED, [''etc''] \<mapsto> Dir 0x1ED]"

definition entry_of :: "string \<Rightarrow> Typeflag \<Rightarrow> 64 word \<Rightarrow> string \<Rightarrow> tar_entry" where
  "entry_of name ty mode body = \<lparr>t_name = name, t_type = ty, t_mode = mode, t_body = body,
     t_intact = True, t_upto = 0\<rparr>"

definition demo_archive :: archive where
  "demo_archive = \<lparr>ar_gzip = True,
     ar_entries = [entry_of ''a'' TypeReg 0xFFF ''x'', entry_of ''../etc/p'' TypeReg 0 ''y''], ar_eof = True,
     ar_end = 4096\<rparr>"

lemma demo_dest: "dest_ok [''w''] demo_fs"
  by (auto simp: dest_ok_def demo_fs_def proper_def prefix_Cons)

theorem extraction_contained_witness:
  "snd (Extract demo_archive (abspath [''w'']) \<lparr>MaxFiles = 9, MaxBytes = 9\<rparr> demo_fs) [''etc'', ''p''] = None"
proof (rule ccontr)
  let ?run = "Extract demo_archive (abspath [''w'']) \<lparr>MaxFiles = 9, MaxBytes = 9\<rparr> demo_fs"
  assume "snd ?run [''etc'', ''p''] \<noteq> None"
  moreover have "demo_fs [''etc'', ''p''] = None" by (simp add: demo_fs_def)
  moreover have "?run = (fst ?run, snd ?run)" by simp
  ultimately have "strict_prefix [''w''] [''etc'', ''p'']"
    using extraction_contained[OF demo_dest] by blast
  then show False by simp
qed

section \<open>What a successful extraction means\<close>

definition body_size :: "tar_entry \<Rightarrow> int" where
  "body_size e = (if t_type e = TypeReg then int (length (t_body e)) else 0)"

definition landed :: "string list \<Rightarrow> fs \<Rightarrow> tar_entry \<Rightarrow> bool" where
  "landed rs fs e \<longleftrightarrow> usable (t_name e) \<and>
     (case t_type e of
        TypeReg \<Rightarrow> t_intact e \<and>
          fs (rs @ resolve (t_name e)) = Some (File (masked_mode (t_mode e) filePerm) (t_body e))
      | TypeDir \<Rightarrow> \<exists>m. fs (rs @ resolve (t_name e)) = Some (Dir m)
      | TypeOther \<Rightarrow> False)"

lemma landed_grows: "landed rs fs e \<Longrightarrow> grows rs fs fs' \<Longrightarrow> landed rs fs' e"
  by (auto simp: landed_def grows_def split: Typeflag.splits)

lemma entry_lands:
  assumes "entry_step rs e rem fs rem' fs'" "dest_ok rs fs"
  shows "landed rs fs' e \<and> rem' = rem - body_size e \<and> (0 \<le> rem \<longrightarrow> 0 \<le> rem') \<and>
    (\<forall>k. fs k = None \<and> fs' k \<noteq> None \<longrightarrow> prefix k (rs @ resolve (t_name e)))"
  using assms(1)
proof cases
  case step_dir
  let ?k = "rs @ resolve (t_name e)"
  have ne: "?k \<noteq> []" using assms(2) by (simp add: dest_ok_def)
  have "\<not> is_file (fs ?k)" using mkdirs_succeeds[of "[]" ?k "masked_mode (t_mode e) dirPerm" fs] step_dir ne by auto
  have there: "\<exists>m. fs' ?k = Some (Dir m)"
  proof (cases "fs ?k")
    case None
    then show ?thesis using ne by (auto simp: mkdirs_result[OF step_dir(4), of ?k])
  next
    case (Some n)
    then show ?thesis
      using \<open>\<not> is_file (fs ?k)\<close> by (cases n) (simp_all add: is_file_def mkdirs_result[OF step_dir(4), of ?k])
  qed
  have "prefix k ?k" if "fs k = None" "fs' k \<noteq> None" for k
    using that by (auto simp: mkdirs_result[OF step_dir(4), of k] split: if_splits)
  then show ?thesis using step_dir(1-3) there by (simp add: landed_def body_size_def)
next
  case (step_file n)
  let ?k = "rs @ resolve (t_name e)"
  note w = written_size[OF step_file(4)]
  have "prefix k ?k" if "fs k = None" "fs' k \<noteq> None" for k
  proof -
    obtain fs1 where fs1: "mkdirs [] (Dir_of ?k) dirPerm fs = Some fs1"
      and "fs' = fs1 \<or> (\<exists>x. fs' = fs1(?k \<mapsto> x))"
      using step_file(4) by (auto simp: writeFile_def Let_def split: if_splits option.splits)
    then have "k = ?k \<or> fs1 k \<noteq> None" using that(2) by (auto split: if_splits)
    then show ?thesis
      using that(1) mkdirs_result[OF fs1, of k] prefixeq_butlast[of ?k]
      by (auto simp: Dir_of_def split: if_splits intro: prefix_order.trans)
  qed
  then show ?thesis using step_file w by (auto simp: landed_def body_size_def)
qed

lemma extract_success:
  "extract_loop (abspath rs) lim eof files rem es fs = (Inr (), fs') \<Longrightarrow> dest_ok rs fs \<Longrightarrow> 0 \<le> rem \<Longrightarrow>
   eof \<and> (\<forall>e \<in> set es. landed rs fs' e) \<and> sum_list (map body_size es) \<le> rem \<and>
   (es \<noteq> [] \<longrightarrow> files + int (length es) \<le> MaxFiles lim) \<and>
   (\<forall>k. fs k = None \<and> fs' k \<noteq> None \<longrightarrow> (\<exists>e \<in> set es. prefix k (rs @ resolve (t_name e))))"
proof (induction es arbitrary: files rem fs)
  case Nil
  then show ?case by (auto split: if_splits)
next
  case (Cons e es)
  show ?case
    using Cons.prems(1,2)
  proof (cases rule: extract_cases)
    case (goes rem1 fs1)
    have ok: "dest_ok rs fs1" by (rule dest_ok_grows[OF Cons.prems(2) entry_grows[OF goes(1) Cons.prems(2)]])
    note first = entry_lands[OF goes(1) Cons.prems(2)]
    have "0 \<le> rem1" using first Cons.prems(3) by blast
    note rest = Cons.IH[OF goes(3) ok this]
    have "landed rs fs' e" using landed_grows[OF _ extract_grows[OF goes(3) ok]] first by blast
    moreover have "\<exists>x \<in> set (e # es). prefix k (rs @ resolve (t_name x))" if "fs k = None" "fs' k \<noteq> None" for k
      using first rest that by (cases "fs1 k") auto
    ultimately show ?thesis using rest first goes(2) by (cases es) auto
  qed auto
qed

text \<open>C23: When unpacking succeeds, the stream ended cleanly inside both bounds, every entry is a regular
  file or a directory under a usable relative name, every file is there in full with the mode it
  asked for masked and floored, and nothing else was created but the directories above an
  entry.\<close>

theorem extraction_complete:
  assumes "dest_ok rs fs" "0 \<le> MaxBytes lim" "Extract a (abspath rs) lim fs = (Inr (), fs')"
  shows "ar_gzip a \<and> ar_eof a \<and> (\<forall>e \<in> set (ar_entries a). landed rs fs' e) \<and>
    sum_list (map body_size (ar_entries a)) \<le> MaxBytes lim \<and>
    (ar_entries a \<noteq> [] \<longrightarrow> int (length (ar_entries a)) \<le> MaxFiles lim) \<and>
    (\<forall>k. fs k = None \<and> fs' k \<noteq> None \<longrightarrow> (\<exists>e \<in> set (ar_entries a). prefix k (rs @ resolve (t_name e))))"
proof (cases "ar_gzip a")
  case True
  then have run: "extract_loop (abspath rs) lim (ar_eof a) 0 (MaxBytes lim) (ar_entries a) fs = (Inr (), fs')"
    using assms(3) by (simp add: Extract_def)
  show ?thesis using extract_success[OF run assms(1,2)] True by simp
next
  case False
  then show ?thesis using assms(3) by (simp add: Extract_def)
qed

definition demo_good :: archive where
  "demo_good = \<lparr>ar_gzip = True, ar_entries = [entry_of ''d'' TypeDir 0x1FF [], entry_of ''d/a'' TypeReg 0xFFF ''x''],
     ar_eof = True, ar_end = 4096\<rparr>"

definition demo_limits :: Limits where
  "demo_limits = \<lparr>MaxFiles = 9, MaxBytes = 9\<rparr>"

lemma demo_good_runs: "fst (Extract demo_good (abspath [''w'']) demo_limits demo_fs) = Inr ()"
  by code_simp

theorem extraction_complete_witness:
  "fst (Extract demo_good (abspath [''w'']) demo_limits demo_fs) = Inr () \<and>
   snd (Extract demo_good (abspath [''w'']) demo_limits demo_fs) [''w'', ''d'', ''a''] =
     Some (File (masked_mode 0xFFF filePerm) ''x'')"
proof -
  let ?run = "Extract demo_good (abspath [''w'']) demo_limits demo_fs"
  have "0 \<le> MaxBytes demo_limits" by (simp add: demo_limits_def)
  moreover have "?run = (Inr (), snd ?run)" using demo_good_runs by (metis prod.collapse)
  ultimately have "\<forall>e \<in> set (ar_entries demo_good). landed [''w''] (snd ?run) e"
    using extraction_complete[OF demo_dest] by blast
  then have "landed [''w''] (snd ?run) (entry_of ''d/a'' TypeReg 0xFFF ''x'')" by (simp add: demo_good_def)
  then show ?thesis using demo_good_runs by (simp add: landed_def entry_of_def resolve_def)
qed

text \<open>Refusals come entry by entry, after what precedes them was written.\<close>

lemma extract_append:
  assumes "extract_loop root lim True files rem es fs = (Inr (), fs1)"
  shows "\<exists>rem1. extract_loop root lim eof files rem (es @ rest) fs =
    extract_loop root lim eof (files + int (length es)) rem1 rest fs1"
  using assms
proof (induction es arbitrary: files rem fs)
  case (Cons e es)
  have IH: "\<exists>rem1. extract_loop root lim eof (files + 1) r (es @ rest) f =
      extract_loop root lim eof (files + (1 + int (length es))) rem1 rest fs1"
    if "extract_loop root lim True (files + 1) r es f = (Inr (), fs1)" for r f
    using Cons.IH[OF that] by (simp add: add.assoc)
  show ?case
    using Cons.prems by (auto split: if_splits sum.splits Typeflag.splits option.splits prod.splits dest: IH)
qed auto

text \<open>A refused archive can leave a half unpacked tree behind: if the first entries of an archive would
  unpack on their own and the next one is a link, a device or badly named, the extraction is
  refused and every file of the entries before it stays on disk.\<close>

theorem refusal_leaves_entries:
  assumes "dest_ok rs fs" "ar_gzip a" "ar_entries a = es @ bad # rest"
    and "Extract \<lparr>ar_gzip = True, ar_entries = es, ar_eof = True, ar_end = 0\<rparr> (abspath rs) lim fs = (Inr (), fs1)"
    and "t_type bad = TypeOther \<or> \<not> usable (t_name bad)"
  shows "Extract a (abspath rs) lim fs = (Inl ErrRejected, fs1)"
proof -
  have "extract_loop (abspath rs) lim True 0 (MaxBytes lim) es fs = (Inr (), fs1)"
    using assms(4) by (simp add: Extract_def)
  then obtain rem1 where run: "extract_loop (abspath rs) lim (ar_eof a) 0 (MaxBytes lim) (es @ bad # rest) fs =
      extract_loop (abspath rs) lim (ar_eof a) (0 + int (length es)) rem1 (bad # rest) fs1"
    using extract_append by blast
  have "proper rs" "rs \<noteq> []" using assms(1) by (simp_all add: dest_ok_def)
  then have "extract_loop (abspath rs) lim (ar_eof a) n rem1 (bad # rest) fs1 = (Inl ErrRejected, fs1)" for n
    using assms(5) by (auto simp: safePath_iff split: Typeflag.splits)
  then show ?thesis using run assms(2,3) by (simp add: Extract_def)
qed

theorem refusal_leaves_entries_witness:
  "\<exists>fs'. Extract (demo_good\<lparr>ar_entries := ar_entries demo_good @ [entry_of ''l'' TypeOther 0 []]\<rparr>)
     (abspath [''w'']) demo_limits demo_fs = (Inl ErrRejected, fs') \<and> fs' [''w'', ''d''] \<noteq> None"
proof -
  let ?run = "Extract demo_good (abspath [''w'']) demo_limits demo_fs"
  let ?bad = "demo_good\<lparr>ar_entries := ar_entries demo_good @ [entry_of ''l'' TypeOther 0 []]\<rparr>"
  have run: "Extract \<lparr>ar_gzip = True, ar_entries = ar_entries demo_good, ar_eof = True, ar_end = 0\<rparr>
      (abspath [''w'']) demo_limits demo_fs = (Inr (), snd ?run)"
    using demo_good_runs by (simp add: Extract_def demo_good_def prod_eq_iff)
  have "ar_gzip ?bad" "ar_entries ?bad = ar_entries demo_good @ entry_of ''l'' TypeOther 0 [] # []"
    "t_type (entry_of ''l'' TypeOther 0 []) = TypeOther" by (simp_all add: demo_good_def entry_of_def)
  then have "Extract ?bad (abspath [''w'']) demo_limits demo_fs = (Inl ErrRejected, snd ?run)"
    using refusal_leaves_entries[OF demo_dest _ _ run] by blast
  moreover have "snd ?run [''w'', ''d''] \<noteq> None" by code_simp
  ultimately show ?thesis by blast
qed

end
