(* ===== verification/Source_Pack.thy ===== *)
theory Source_Pack
  imports Source
begin

text \<open>
  \<^verbatim>\<open>internal/uploads/pack.go\<close>: composing an archive from text files. What packs, unpacks: the
  composition with \<open>Extract\<close> gives the files back, and the names on which the two sides disagree
  are singled out.
\<close>

section \<open>Packing\<close>

datatype pack_error = ErrBadPath

definition packPath :: "string \<Rightarrow> pack_error + string" where
  "packPath name =
     (if name = [] \<or> list_ex (\<lambda>c. c = CHR 0x00) name \<or> prefix ''/'' name then Inl ErrBadPath
      else let clean = Clean name in
        if clean = ''.'' \<or> clean = ''..'' \<or> prefix ''../'' clean \<or> IsAbs clean then Inl ErrBadPath
        else Inr clean)"

text \<open>The first loop, over the caller's files in the order the map is ranged over.\<close>

fun judge :: "(string \<times> string) list \<Rightarrow> (string \<times> string) list \<Rightarrow> string list \<Rightarrow>
    pack_error + (string \<times> string) list \<times> string list" where
  "judge [] packed names = Inr (packed, names)"
| "judge ((name, body) # files) packed names =
     (case packPath name of
        Inl e \<Rightarrow> Inl e
      | Inr clean \<Rightarrow> judge files (AList.update clean body packed) (names @ [clean]))"

text \<open>The entries written for the sorted names. How many bytes the header of a name takes is left to
  \<open>archive/tar\<close>, the argument \<open>hdr\<close>; bodies are padded to whole blocks of 512.\<close>

definition blocks :: "string \<Rightarrow> int" where
  "blocks body = (int (length body) + 511) div 512 * 512"

definition body_of :: "(string \<times> string) list \<Rightarrow> string \<Rightarrow> string" where
  "body_of packed clean = (case map_of packed clean of None \<Rightarrow> [] | Some b \<Rightarrow> b)"

fun tar_of :: "(string \<Rightarrow> int) \<Rightarrow> int \<Rightarrow> (string \<times> string) list \<Rightarrow> string list \<Rightarrow> tar_entry list" where
  "tar_of hdr reach packed [] = []"
| "tar_of hdr reach packed (clean # names) =
     (let body = body_of packed clean
      in \<lparr>t_name = clean, t_type = TypeReg, t_mode = 0x1A4, t_body = body, t_intact = True,
          t_upto = reach + hdr clean\<rparr> # tar_of hdr (reach + hdr clean + blocks body) packed names)"

definition Pack :: "(string \<Rightarrow> int) \<Rightarrow> (string \<times> string) list \<Rightarrow> pack_error + archive" where
  "Pack hdr files =
     (if files = [] then Inl ErrBadPath
      else case judge files [] [] of
        Inl e \<Rightarrow> Inl e
      | Inr (packed, names) \<Rightarrow>
          Inr \<lparr>ar_gzip = True, ar_entries = tar_of hdr 0 packed (sort names), ar_eof = True,
               ar_end = sum_list (map (\<lambda>n. hdr n + blocks (body_of packed n)) names) + 1024\<rparr>)"

section \<open>Packing and unpacking\<close>

definition apart :: "string list \<Rightarrow> string list \<Rightarrow> bool" where
  "apart p q \<longleftrightarrow> \<not> prefix p q \<and> \<not> prefix q p"

definition holds_only :: "string list \<Rightarrow> string list set \<Rightarrow> fs \<Rightarrow> bool" where
  "holds_only rs D fs \<longleftrightarrow> dest_ok rs fs \<and> (\<forall>k. strict_prefix rs k \<and> fs k \<noteq> None \<longrightarrow>
     (\<exists>d \<in> D. prefix k (rs @ d)) \<and> (is_file (fs k) \<longrightarrow> k \<in> (@) rs ` D))"

lemma write_fresh:
  assumes "holds_only rs D fs" "p \<noteq> []" "\<forall>d \<in> D. apart p d" "t_intact e" "0 < rem" "int (length (t_body e)) \<le> rem"
  shows "\<exists>fs'. writeFile (rs @ p) e mode rem fs = (Inr (int (length (t_body e))), fs') \<and> holds_only rs (insert p D) fs'"
proof -
  have ok: "dest_ok rs fs" using assms(1) by (simp add: holds_only_def)
  have d: "Dir_of (rs @ p) = rs @ butlast p" using assms(2) by (simp add: Dir_of_def butlast_append)
  have clear: "\<not> is_file (fs q)" if q: "q \<noteq> []" "prefix q (rs @ butlast p)" for q
  proof
    assume f: "is_file (fs q)"
    show False
    proof (cases "prefix q rs")
      case True
      then show False using ok q f unfolding dest_ok_def is_file_def by fastforce
    next
      case False
      then obtain r where r: "q = rs @ r" "r \<noteq> []" "prefix r (butlast p)" using q(2) by (auto simp: prefix_append)
      then have "q \<in> (@) rs ` D"
        using assms(1) f unfolding holds_only_def by (auto simp: strict_prefix_def is_file_def)
      then have "r \<in> D" using r(1) by auto
      then have "apart p r" using assms(3) by blast
      then show False using r(3) prefixeq_butlast[of p] unfolding apart_def by (meson prefix_order.trans)
    qed
  qed
  then obtain fs1 where fs1: "mkdirs [] (rs @ butlast p) dirPerm fs = Some fs1"
    using mkdirs_succeeds[of "[]" "rs @ butlast p" dirPerm fs] by auto
  have vacant: "fs (rs @ p) = None"
  proof (rule ccontr)
    assume "fs (rs @ p) \<noteq> None"
    moreover have "strict_prefix rs (rs @ p)" using assms(2) by (simp add: strict_prefix_def)
    ultimately obtain x where "x \<in> D" "prefix (rs @ p) (rs @ x)"
      using assms(1) unfolding holds_only_def by blast
    then have "prefix p x" by simp
    then show False using assms(3) \<open>x \<in> D\<close> unfolding apart_def by blast
  qed
  have "\<not> prefix (rs @ p) (rs @ butlast p)"
    using assms(2) prefix_length_le[of "rs @ p" "rs @ butlast p"] by (cases p) auto
  then have free: "fs1 (rs @ p) = None" using vacant by (auto simp: mkdirs_result[OF fs1])
  let ?fs' = "fs1(rs @ p \<mapsto> File mode (t_body e))"
  have run: "writeFile (rs @ p) e mode rem fs = (Inr (int (length (t_body e))), ?fs')"
    using assms(4-6) d fs1 free by (simp add: writeFile_def Let_def)
  have "dest_ok rs ?fs'"
    using dest_ok_grows[OF ok] writeFile_grows[OF ok assms(2) run] by blast
  moreover have "(\<exists>d \<in> insert p D. prefix k (rs @ d)) \<and> (is_file (?fs' k) \<longrightarrow> k \<in> (@) rs ` insert p D)"
    if k: "strict_prefix rs k" "?fs' k \<noteq> None" for k
  proof (cases "k = rs @ p")
    case False
    show ?thesis
    proof (cases "fs k")
      case None
      then have "prefix k (rs @ butlast p) \<and> fs1 k = Some (Dir dirPerm)"
        using k(2) False by (auto simp: mkdirs_result[OF fs1] split: if_splits)
      moreover have "prefix (rs @ butlast p) (rs @ p)" by (simp add: prefixeq_butlast)
      ultimately show ?thesis using False by (auto simp: is_file_def intro: prefix_order.trans)
    next
      case (Some n)
      then show ?thesis using assms(1) k(1) False unfolding holds_only_def by (simp add: mkdirs_result[OF fs1])
    qed
  qed simp
  ultimately have "holds_only rs (insert p D) ?fs'" unfolding holds_only_def by blast
  then show ?thesis using run by blast
qed

lemma extract_packed:
  assumes "holds_only rs D fs" "distinct names" "files + int (length names) \<le> MaxFiles lim"
    and "\<forall>n \<in> set names. usable n \<and> resolve n \<noteq> [] \<and> (\<forall>d \<in> D. apart (resolve n) d)"
    and "\<forall>m \<in> set names. \<forall>n \<in> set names. m \<noteq> n \<longrightarrow> apart (resolve m) (resolve n)"
    and "sum_list (map (\<lambda>n. int (length (body_of packed n))) names) < rem"
  shows "\<exists>fs'. extract_loop (abspath rs) lim True files rem (tar_of hdr at packed names) fs = (Inr (), fs') \<and>
    holds_only rs (resolve ` set names \<union> D) fs'"
  using assms
proof (induction names arbitrary: D fs files rem at)
  case Nil
  then show ?case by auto
next
  case (Cons n names)
  let ?e = "\<lparr>t_name = n, t_type = TypeReg, t_mode = 0x1A4, t_body = body_of packed n, t_intact = True,
    t_upto = at + hdr n\<rparr>"
  let ?len = "int (length (body_of packed n))"
  have n: "usable n" "resolve n \<noteq> []" "\<forall>d \<in> D. apart (resolve n) d" using Cons.prems(4) by auto
  have ok: "dest_ok rs fs" using Cons.prems(1) by (simp add: holds_only_def)
  have nonneg: "0 \<le> sum_list (map (\<lambda>n. int (length (body_of packed n))) names)"
    by (rule sum_list_nonneg) auto
  obtain fs1 where w: "writeFile (rs @ resolve n) ?e (masked_mode 0x1A4 filePerm) rem fs = (Inr ?len, fs1)"
    and h: "holds_only rs (insert (resolve n) D) fs1"
    using write_fresh[OF Cons.prems(1) n(2,3), of ?e rem "masked_mode 0x1A4 filePerm"] Cons.prems(6) nonneg by auto
  have target: "safePath (abspath rs) n = Inr (abspath (rs @ resolve n))"
    using ok n(1) by (simp add: dest_ok_def safePath_iff)
  note at = safe_target[OF target ok]
  have step: "extract_loop (abspath rs) lim True files rem (tar_of hdr at packed (n # names)) fs =
      extract_loop (abspath rs) lim True (files + 1) (rem - ?len)
        (tar_of hdr (at + hdr n + blocks (body_of packed n)) packed names) fs1"
    using w target at Cons.prems(3) by (simp add: Let_def)
  have "\<exists>fs'. extract_loop (abspath rs) lim True (files + 1) (rem - ?len)
        (tar_of hdr (at + hdr n + blocks (body_of packed n)) packed names) fs1 = (Inr (), fs') \<and>
      holds_only rs (resolve ` set names \<union> insert (resolve n) D) fs'"
  proof (rule Cons.IH[OF h])
    show "\<forall>m \<in> set names. usable m \<and> resolve m \<noteq> [] \<and> (\<forall>d \<in> insert (resolve n) D. apart (resolve m) d)"
      using Cons.prems(2,4,5) by auto
    show "\<forall>m \<in> set names. \<forall>l \<in> set names. m \<noteq> l \<longrightarrow> apart (resolve m) (resolve l)"
      using Cons.prems(5) by auto
  qed (use Cons.prems in auto)
  then show ?case unfolding step by simp
qed

text \<open>What cleaning leaves of a relative name: parents that could not be resolved, then proper components.\<close>

lemma clean_stack:
  assumes "\<forall>c \<in> set cs. CHR ''/'' \<notin> set c" "proper ps"
  shows "\<exists>n qs. fold (clean_comp False) cs (rev ps @ replicate m ''..'') = rev qs @ replicate n ''..'' \<and>
    proper qs \<and> set qs \<subseteq> set ps \<union> set cs"
  using assms
proof (induction cs arbitrary: ps m)
  case Nil
  then show ?case by (intro exI[of _ m] exI[of _ ps]) simp
next
  case (Cons c cs)
  let ?st = "rev ps @ replicate m ''..''"
  have "\<exists>k rs. clean_comp False c ?st = rev rs @ replicate k ''..'' \<and> proper rs \<and> set rs \<subseteq> set ps \<union> {c}"
  proof (cases "c = [] \<or> c = ''.''")
    case True
    then show ?thesis using Cons.prems(2) by (intro exI[of _ m] exI[of _ ps]) auto
  next
    case plain: False
    show ?thesis
    proof (cases "c = ''..''")
      case up: True
      show ?thesis
      proof (cases ps rule: rev_cases)
        case Nil
        have "clean_comp False c ?st = rev [] @ replicate (Suc m) ''..''"
          using up Nil by (cases m) auto
        then show ?thesis by (intro exI[of _ "Suc m"] exI[of _ "[]"]) (simp add: proper_def)
      next
        case (snoc qs q)
        then have "q \<noteq> ''..''" "proper qs" using Cons.prems(2) by (simp_all add: proper_def)
        then show ?thesis using up snoc by (intro exI[of _ m] exI[of _ qs]) auto
      qed
    next
      case False
      have "proper (ps @ [c])" using Cons.prems plain False by (simp add: proper_def)
      then show ?thesis using plain False by (intro exI[of _ m] exI[of _ "ps @ [c]"]) auto
    qed
  qed
  then obtain k rs where k: "clean_comp False c ?st = rev rs @ replicate k ''..''" "proper rs" "set rs \<subseteq> set ps \<union> {c}"
    by blast
  obtain n qs where "fold (clean_comp False) cs (rev rs @ replicate k ''..'') = rev qs @ replicate n ''..''"
    "proper qs" "set qs \<subseteq> set rs \<union> set cs"
    using Cons.IH[of rs k] Cons.prems(1) k(2) by (auto simp del: clean_comp.simps)
  then show ?case
    using k by (intro exI[of _ n] exI[of _ qs]) (auto simp del: clean_comp.simps)
qed

lemma Join_chars: "set (Join c ps) \<subseteq> insert c (\<Union> (set ` set ps))"
  by (induction c ps rule: Join.induct) auto

lemma packPath_usable:
  assumes "packPath name = Inr clean" "CHR 0x5C \<notin> set name" "CHR '':'' \<notin> set name"
  shows "clean = Clean name \<and> usable clean \<and> resolve clean \<noteq> []"
proof -
  have clean: "clean = Clean name" "name \<noteq> []" "hd name \<noteq> CHR ''/''"
    "clean \<noteq> ''.''" "clean \<noteq> ''..''" "\<not> prefix ''../'' clean"
    using assms(1) by (cases name; auto simp: packPath_def Let_def split: if_splits)+
  have slash: "\<forall>c \<in> set (Split CHR ''/'' name). CHR ''/'' \<notin> set c"
    by (intro ballI) (erule Split_parts)
  obtain n ps where fold: "fold (clean_comp False) (Split CHR ''/'' name) [] = rev ps @ replicate n ''..''"
    and ps: "proper ps" "set ps \<subseteq> set (Split CHR ''/'' name)"
    using clean_stack[OF slash, of "[]" 0] by (auto simp: proper_def)
  then have out: "clean = (if replicate n ''..'' @ ps = [] then ''.'' else Join CHR ''/'' (replicate n ''..'' @ ps))"
    using clean(1-3) by (simp add: Clean_def Let_def)
  have n: "n = 0"
  proof (rule ccontr)
    assume "n \<noteq> 0"
    then obtain k where "n = Suc k" by (cases n) auto
    then have j: "clean = Join CHR ''/'' (''..'' # (replicate k ''..'' @ ps))" using out by simp
    show False
    proof (cases "replicate k ''..'' @ ps = []")
      case True
      then show False using j clean(5) by simp
    next
      case False
      then show False using j clean(6) by (simp add: Join_Cons)
    qed
  qed
  have ne: "ps \<noteq> []" using out n clean(4) by auto
  have j: "clean = Join CHR ''/'' ps" using out n ne by simp
  have split: "Split CHR ''/'' clean = ps"
    using ps(1) ne unfolding j by (intro Split_Join) (auto simp: proper_def list_all_iff)
  have chars: "c \<notin> set clean" if c: "c \<notin> set name" "c \<noteq> CHR ''/''" for c
  proof
    assume "c \<in> set clean"
    then have "c \<in> \<Union> (set ` set ps)" using Join_chars[of "CHR ''/''" ps] c(2) unfolding j by blast
    then obtain p where p: "p \<in> set ps" "c \<in> set p" by blast
    then have "p \<in> set (Split CHR ''/'' name)" using ps(2) by blast
    then have "c \<in> set name" using Split_chars p(2) by (metis subsetD)
    then show False using c(1) by simp
  qed
  obtain p qs where p: "ps = p # qs" using ne by (cases ps) auto
  obtain x y where x: "p = x # y" using ps(1) unfolding p proper_def by (cases p) auto
  have "x \<noteq> CHR ''/''" using ps(1) unfolding p x proper_def by auto
  then have "hd clean \<noteq> CHR ''/'' \<and> clean \<noteq> []" unfolding j p x by (cases qs) auto
  moreover have "resolve clean = ps"
    using ps(1) by (auto simp: resolve_def split proper_def list_all_iff intro: filter_True)
  ultimately show ?thesis
    using clean(1) chars assms(2,3) split ne ps(1) by (auto simp: usable_def proper_def list_all_iff)
qed

lemma judge_result:
  "judge files packed names = Inr (packed', names') \<Longrightarrow>
   names' = names @ map (Clean \<circ> fst) files \<and> (\<forall>f \<in> set files. packPath (fst f) = Inr (Clean (fst f))) \<and>
   map_of packed' = map_of packed ++ map_of (rev (map (\<lambda>(n, b). (Clean n, b)) files))"
proof (induction files packed names rule: judge.induct)
  case (2 name body files packed names)
  then obtain clean where c: "packPath name = Inr clean"
    "judge files (AList.update clean body packed) (names @ [clean]) = Inr (packed', names')"
    by (auto split: sum.splits)
  then have "clean = Clean name" by (auto simp: packPath_def Let_def split: if_splits)
  then show ?case
    using "2.IH"[OF c] c(1) by (auto simp: update_conv' map_add_def fun_eq_iff split: option.splits)
qed simp

text \<open>C24: Text files whose packing succeeds come out of the archive as they went in, when their cleaned
  paths are distinct, none is a directory of another, no path has a colon or a backslash, there
  are at most as many as the extractor allows and their texts are together below its bound in
  bytes. Unpacking that archive into an empty destination then succeeds and leaves exactly those
  files, each under its cleaned path with its own text and the plain mode. Without the first and
  the third condition it is false (\<open>colliding_names_pack_twice\<close>,
  \<open>colon_packs_but_does_not_unpack\<close>).\<close>

theorem pack_extract_roundtrip:
  assumes "Pack hdr files = Inr a" "dest_ok rs fs" "\<forall>k. strict_prefix rs k \<longrightarrow> fs k = None"
    and "distinct (map (Clean \<circ> fst) files)"
    and "\<forall>f \<in> set files. \<forall>g \<in> set files. Clean (fst f) \<noteq> Clean (fst g) \<longrightarrow>
      apart (resolve (Clean (fst f))) (resolve (Clean (fst g)))"
    and "\<forall>f \<in> set files. CHR 0x5C \<notin> set (fst f) \<and> CHR '':'' \<notin> set (fst f)"
    and "int (length files) \<le> MaxFiles lim" "sum_list (map (\<lambda>f. int (length (snd f))) files) < MaxBytes lim"
  shows "\<exists>fs'. Extract a (abspath rs) lim fs = (Inr (), fs') \<and>
    (\<forall>f \<in> set files. fs' (rs @ resolve (Clean (fst f))) = Some (File (masked_mode 0x1A4 filePerm) (snd f))) \<and>
    (\<forall>k. strict_prefix rs k \<and> is_file (fs' k) \<longrightarrow> (\<exists>f \<in> set files. k = rs @ resolve (Clean (fst f))))"
proof -
  obtain packed names where j: "judge files [] [] = Inr (packed, names)"
    and a: "ar_gzip a" "ar_eof a" "ar_entries a = tar_of hdr 0 packed (sort names)"
    using assms(1) by (auto simp: Pack_def split: if_splits sum.splits)
  note judged = judge_result[OF j]
  have names: "names = map (Clean \<circ> fst) files" using judged by simp
  have usable: "usable (Clean (fst f)) \<and> resolve (Clean (fst f)) \<noteq> []" if "f \<in> set files" for f
    using packPath_usable[of "fst f" "Clean (fst f)"] judged assms(6) that by blast
  have body: "body_of packed (Clean (fst f)) = snd f" if "f \<in> set files" for f
  proof -
    have "distinct (map fst (rev (map (\<lambda>(n, b). (Clean n, b)) files)))"
      using assms(4) by (simp add: rev_map[symmetric] comp_def case_prod_beta)
    moreover have "(Clean (fst f), snd f) \<in> set (rev (map (\<lambda>(n, b). (Clean n, b)) files))"
      using that by force
    ultimately show ?thesis using judged by (simp add: body_of_def map_of_is_SomeI)
  qed
  have "sum_list (map (\<lambda>n. int (length (body_of packed n))) (sort names)) =
      sum_list (map (\<lambda>n. int (length (body_of packed n))) names)"
    by (simp flip: sum_mset_sum_list)
  also have "\<dots> = sum_list (map (\<lambda>f. int (length (snd f))) files)"
    unfolding names map_map by (rule arg_cong[of _ _ sum_list], rule map_cong) (simp_all add: body)
  finally have size: "sum_list (map (\<lambda>n. int (length (body_of packed n))) (sort names)) < MaxBytes lim"
    using assms(8) by simp
  have empty: "holds_only rs {} fs" using assms(2,3) by (auto simp: holds_only_def)
  have "\<exists>fs'. extract_loop (abspath rs) lim True 0 (MaxBytes lim) (tar_of hdr 0 packed (sort names)) fs = (Inr (), fs') \<and>
      holds_only rs (resolve ` set (sort names) \<union> {}) fs'"
  proof (rule extract_packed[OF empty])
    show "\<forall>n \<in> set (sort names). usable n \<and> resolve n \<noteq> [] \<and> (\<forall>d \<in> {}. apart (resolve n) d)"
      using usable names by auto
  qed (use assms(4,5,7) names size in auto)
  then obtain fs' where run: "extract_loop (abspath rs) lim True 0 (MaxBytes lim) (ar_entries a) fs = (Inr (), fs')"
    and only: "holds_only rs (resolve ` set names) fs'" using a by auto
  have ex: "Extract a (abspath rs) lim fs = (Inr (), fs')" using run a by (simp add: Extract_def)
  have sum0: "0 \<le> sum_list (map (\<lambda>f. int (length (snd f))) files)" by (rule sum_list_nonneg) auto
  have landed: "\<forall>e \<in> set (ar_entries a). landed rs fs' e"
    using extract_success[OF run assms(2)] assms(8) sum0 by simp
  have entry: "\<exists>e \<in> set (tar_of hdr at packed ns). t_name e = n \<and> t_type e = TypeReg \<and> t_mode e = 0x1A4 \<and>
      t_body e = body_of packed n" if "n \<in> set ns" for n at ns
    using that by (induction hdr at packed ns rule: tar_of.induct) (auto simp: Let_def)
  have "fs' (rs @ resolve (Clean (fst f))) = Some (File (masked_mode 0x1A4 filePerm) (snd f))" if f: "f \<in> set files" for f
  proof -
    have "Clean (fst f) \<in> set (sort names)" using f names by simp
    from entry[OF this] obtain e where "e \<in> set (ar_entries a)" "t_name e = Clean (fst f)" "t_type e = TypeReg"
      "t_mode e = 0x1A4" "t_body e = body_of packed (Clean (fst f))" using a(3) by metis
    then show ?thesis using landed body[OF f] by (force simp: landed_def)
  qed
  moreover have "\<exists>f \<in> set files. k = rs @ resolve (Clean (fst f))" if "strict_prefix rs k" "is_file (fs' k)" for k
  proof -
    have "k \<in> (@) rs ` resolve ` set names" using only that unfolding holds_only_def is_file_def by force
    then show ?thesis using names by auto
  qed
  ultimately show ?thesis using ex by blast
qed

definition demo_files :: "(string \<times> string) list" where
  "demo_files = [(''b/c'', ''x''), (''./a'', ''yy'')]"

lemma demo_clean: "Clean ''b/c'' = ''b/c''" "Clean ''./a'' = ''a''"
  by code_simp+

theorem pack_extract_roundtrip_witness:
  "\<exists>a fs'. Pack (\<lambda>_. 512) demo_files = Inr a \<and>
     Extract a (abspath [''w'']) demo_limits demo_fs = (Inr (), fs') \<and>
     fs' [''w'', ''a''] = Some (File (masked_mode 0x1A4 filePerm) ''yy'')"
proof -
  have "\<exists>a. Pack (\<lambda>_. 512) demo_files = Inr a"
    by (simp add: Pack_def demo_files_def packPath_def demo_clean IsAbs_def Let_def)
  then obtain a where a: "Pack (\<lambda>_. 512) demo_files = Inr a" by blast
  have empty: "\<forall>k. strict_prefix [''w''] k \<longrightarrow> demo_fs k = None"
    by (auto simp: demo_fs_def strict_prefix_def prefix_Cons)
  have sides: "distinct (map (Clean \<circ> fst) demo_files)" "int (length demo_files) \<le> MaxFiles demo_limits"
    "sum_list (map (\<lambda>f. int (length (snd f))) demo_files) < MaxBytes demo_limits"
    "\<forall>f \<in> set demo_files. CHR 0x5C \<notin> set (fst f) \<and> CHR '':'' \<notin> set (fst f)"
    "\<forall>f \<in> set demo_files. \<forall>g \<in> set demo_files. Clean (fst f) \<noteq> Clean (fst g) \<longrightarrow>
      apart (resolve (Clean (fst f))) (resolve (Clean (fst g)))"
    by (simp_all add: demo_files_def demo_limits_def demo_clean apart_def resolve_def)
  from pack_extract_roundtrip[OF a demo_dest empty sides(1,5,4,2,3)] obtain fs' where
    fs': "Extract a (abspath [''w'']) demo_limits demo_fs = (Inr (), fs')"
    "\<forall>f \<in> set demo_files. fs' ([''w''] @ resolve (Clean (fst f))) = Some (File (masked_mode 0x1A4 filePerm) (snd f))"
    by blast
  have "(''./a'', ''yy'') \<in> set demo_files" by (simp add: demo_files_def)
  from bspec[OF fs'(2) this] have "fs' [''w'', ''a''] = Some (File (masked_mode 0x1A4 filePerm) ''yy'')"
    by (simp add: demo_clean resolve_def)
  then show ?thesis using a fs'(1) by blast
qed

text \<open>Where the two rules on names part: a colon or a backslash packs and is then refused, after the call
  that made the mistake has been answered; and two names that clean to one path put two entries
  of that path in the archive.\<close>

lemma colon_packs_but_does_not_unpack:
  "\<exists>a. Pack hdr [(''a:b'', body)] = Inr a \<and> fst (Extract a (abspath [''w'']) lim fs) = Inl ErrRejected"
proof -
  have "Clean ''a:b'' = ''a:b''" by code_simp
  then have "\<exists>a. Pack hdr [(''a:b'', body)] = Inr a \<and> ar_gzip a \<and> map t_name (ar_entries a) = [''a:b'']"
    by (simp add: Pack_def packPath_def IsAbs_def Let_def)
  moreover have "safePath (abspath [''w'']) ''a:b'' = Inl ErrRejected"
    by (simp add: safePath_def IsAbs_def)
  ultimately show ?thesis by (auto simp: Extract_def map_eq_Cons_conv)
qed

lemma colliding_names_pack_twice:
  "\<exists>a. Pack hdr [(''a'', x), (''./a'', y)] = Inr a \<and> map t_name (ar_entries a) = [''a'', ''a'']"
proof -
  have "Clean ''a'' = ''a''" "Clean ''./a'' = ''a''" by code_simp+
  then show ?thesis by (simp add: Pack_def packPath_def IsAbs_def Let_def)
qed

end
