(* ===== verification/Reconcile.thy ===== *)
theory Reconcile
  imports App_Objects Source Store_Deployments
begin

text \<open>
  \<^verbatim>\<open>internal/reconcile\<close>: the loop that drives a deployment from queued to healthy or failed. The
  package reaches everything else through five interfaces; each is a record of functions here,
  over a world of any type \<open>'w\<close>, which every call may change in any way (other requests, the
  cluster, the passing of time). A \<open>context.Context\<close> is its deadline and whether the process's
  own cancellation reaches it. The loops that poll are \<open>partial_function\<close>s, so that not
  returning is the value \<open>None\<close>. What \<open>Drive\<close> logs is its result.
\<close>

section \<open>Rows and errors\<close>

datatype JobState = JobRunning | JobSucceeded | JobFailed | JobGone

datatype rc_error = ErrNoWork | ErrNotInFlight | ContextDone | Suspended | StoreErr store_error | OtherErr

record failure =
  f_reason :: Reason
  f_err :: rc_error

record RDeployment =
  rd_id :: ident
  rd_app :: ident
  rd_upload :: ident
  rd_state :: State
  rd_repo :: string
  rd_digest :: string
  rd_created :: "int option"
  rd_job :: string
  rd_path :: string
  rd_source :: ident

definition Rollback :: "RDeployment \<Rightarrow> bool" where
  "Rollback d \<longleftrightarrow> rd_source d \<noteq> []"

record RApp =
  ra_id :: ident
  ra_slug :: string
  ra_suspended :: bool

record RUpload =
  ru_id :: ident
  ru_path :: string
  ru_sha :: string

record RRelease =
  rr_number :: int
  rr_digest :: string

record ctx =
  ctx_deadline :: "int option"
  ctx_attached :: bool

section \<open>Interfaces\<close>

record 'w Deployments =
  d_ClaimNext :: "ctx \<Rightarrow> string \<Rightarrow> 'w \<Rightarrow> (rc_error + RDeployment) \<times> 'w"
  d_ReleaseClaim :: "ctx \<Rightarrow> ident \<Rightarrow> 'w \<Rightarrow> (rc_error + bool) \<times> 'w"
  d_ListNonTerminal :: "ctx \<Rightarrow> 'w \<Rightarrow> (rc_error + RDeployment list) \<times> 'w"
  d_Transition :: "ctx \<Rightarrow> ident \<Rightarrow> State \<Rightarrow> string \<Rightarrow> string \<Rightarrow> 'w \<Rightarrow> (rc_error + unit) \<times> 'w"
  d_RecordBuild :: "ctx \<Rightarrow> ident \<Rightarrow> string \<Rightarrow> string \<Rightarrow> string \<Rightarrow> string \<Rightarrow> 'w \<Rightarrow> (rc_error + unit) \<times> 'w"
  d_MarkHealthy :: "ctx \<Rightarrow> ident \<Rightarrow> config \<Rightarrow> 'w \<Rightarrow> (rc_error + RRelease) \<times> 'w"

record 'w Apps =
  a_Get :: "ctx \<Rightarrow> ident \<Rightarrow> 'w \<Rightarrow> (rc_error + RApp) \<times> 'w"
  a_ConfigForDeploy :: "ctx \<Rightarrow> ident \<Rightarrow> 'w \<Rightarrow> (rc_error + config) \<times> 'w"
  a_ReleaseSnapshot :: "ctx \<Rightarrow> ident \<Rightarrow> 'w \<Rightarrow> (rc_error + config) \<times> 'w"
  a_LiveAppSlugs :: "ctx \<Rightarrow> 'w \<Rightarrow> (rc_error + string list) \<times> 'w"

record 'w Uploads =
  u_Get :: "ctx \<Rightarrow> ident \<Rightarrow> 'w \<Rightarrow> (rc_error + RUpload) \<times> 'w"
  u_Open :: "string \<Rightarrow> 'w \<Rightarrow> (rc_error + archive) \<times> 'w"
  u_MintFetchToken :: "ctx \<Rightarrow> ident \<Rightarrow> 'w \<Rightarrow> (rc_error + string) \<times> 'w"
  u_Remove :: "ctx \<Rightarrow> string \<Rightarrow> 'w \<Rightarrow> 'w"

record 'w Registry =
  r_Digest :: "ctx \<Rightarrow> string \<Rightarrow> string \<Rightarrow> 'w \<Rightarrow> (rc_error + string) \<times> 'w"
  r_ImageUser :: "ctx \<Rightarrow> string \<Rightarrow> string \<Rightarrow> 'w \<Rightarrow> (rc_error + runes) \<times> 'w"

record 'w Cluster =
  c_CreateJob :: "ctx \<Rightarrow> KubeJob \<Rightarrow> 'w \<Rightarrow> (rc_error + OwnerReference) \<times> 'w"
  c_JobState :: "ctx \<Rightarrow> string \<Rightarrow> string \<Rightarrow> 'w \<Rightarrow> (rc_error + JobState) \<times> 'w"
  c_ApplySecret :: "ctx \<Rightarrow> KubeSecret \<Rightarrow> 'w \<Rightarrow> (rc_error + unit) \<times> 'w"
  c_EnsureNamespace :: "ctx \<Rightarrow> KubeNamespace \<Rightarrow> KubeRoleBinding \<Rightarrow> KubeQuota \<Rightarrow> KubeLimitRange \<Rightarrow> 'w \<Rightarrow> (rc_error + unit) \<times> 'w"
  c_ApplyNetworkPolicies :: "ctx \<Rightarrow> NetworkPolicy list \<Rightarrow> 'w \<Rightarrow> (rc_error + unit) \<times> 'w"
  c_AppNamespaces :: "ctx \<Rightarrow> 'w \<Rightarrow> (rc_error + string list) \<times> 'w"
  c_AppNamespacesOlderThan :: "ctx \<Rightarrow> int \<Rightarrow> int \<Rightarrow> 'w \<Rightarrow> (rc_error + string list) \<times> 'w"
  c_DeleteNamespace :: "ctx \<Rightarrow> string \<Rightarrow> 'w \<Rightarrow> (rc_error + unit) \<times> 'w"
  c_ApplyWorkload :: "ctx \<Rightarrow> KubeWorkload \<Rightarrow> KubeService \<Rightarrow> KubeIngress \<Rightarrow> 'w \<Rightarrow> (rc_error + unit) \<times> 'w"
  c_WorkloadReady :: "ctx \<Rightarrow> string \<Rightarrow> string \<Rightarrow> 'w \<Rightarrow> (rc_error + bool) \<times> 'w"
  c_DeleteJob :: "ctx \<Rightarrow> string \<Rightarrow> string \<Rightarrow> 'w \<Rightarrow> (rc_error + unit) \<times> 'w"

text \<open>The Go runtime as the loop sees it: the time in nanoseconds, whether the process was told to
  stop, and a \<open>select\<close> over a timer and a context, which says whether the timer's case was taken.
  SHA-256 is the library's.\<close>

record 'w Runtime =
  t_now :: "'w \<Rightarrow> int"
  t_stopped :: "'w \<Rightarrow> bool"
  t_select :: "int \<Rightarrow> ctx \<Rightarrow> 'w \<Rightarrow> bool \<times> 'w"
  t_sha256 :: "string \<Rightarrow> string"

record Options =
  o_PodName :: string
  o_ControlPlaneNamespace :: string
  o_BuildNamespace :: string
  o_BuildkitNamespace :: string
  o_AppDomain :: string
  o_IngressClassName :: string
  o_SelfImage :: string
  o_BuilderImage :: string
  o_BuildUID :: int
  o_BuildGID :: int
  o_BuildkitImage :: string
  o_BuildkitUID :: int
  o_BuildkitGID :: int
  o_InternalURL :: string
  o_RegistryHost :: string
  o_RegistryUser :: string
  o_RegistryPass :: string
  o_DeployTimeout :: int
  o_BuildTimeout :: int
  o_ReadyTimeout :: int
  o_ReconcileInterval :: int
  o_OrphanGrace :: int
  o_MaxUploadFiles :: int
  o_MaxExtractedBytes :: int
  o_CPU :: string
  o_Memory :: string
  o_LimitCPU :: string
  o_LimitMemory :: string
  o_QuotaCPU :: string
  o_QuotaMemory :: string
  o_QuotaPods :: int
  o_EgressBlockedCIDRs :: "string list"
  o_EgressBlockedPorts :: "int list"

record 'w Reconciler =
  deployments_of :: "'w Deployments"
  apps_of :: "'w Apps"
  uploads_of :: "'w Uploads"
  registry_of :: "'w Registry"
  cluster_of :: "'w Cluster"
  runtime_of :: "'w Runtime"
  opts :: Options

section \<open>Contexts and results\<close>

definition ctx_err :: "'w Reconciler \<Rightarrow> ctx \<Rightarrow> 'w \<Rightarrow> bool" where
  "ctx_err R c w \<longleftrightarrow> (ctx_attached c \<and> t_stopped (runtime_of R) w) \<or>
     (case ctx_deadline c of None \<Rightarrow> False | Some t \<Rightarrow> t \<le> t_now (runtime_of R) w)"

definition WithTimeout :: "'w Reconciler \<Rightarrow> ctx \<Rightarrow> int \<Rightarrow> 'w \<Rightarrow> ctx" where
  "WithTimeout R c d w =
     (let t = t_now (runtime_of R) w + d
      in c\<lparr>ctx_deadline := Some (case ctx_deadline c of None \<Rightarrow> t | Some u \<Rightarrow> min u t)\<rparr>)"

definition WithoutCancel :: "ctx \<Rightarrow> ctx" where
  "WithoutCancel c = \<lparr>ctx_deadline = None, ctx_attached = False\<rparr>"

type_synonym 'w outcome = "failure option \<times> RDeployment \<times> 'w"

definition failing :: "RDeployment \<Rightarrow> Reason \<Rightarrow> rc_error \<Rightarrow> 'w \<Rightarrow> 'w outcome" where
  "failing d reason e w = (Some \<lparr>f_reason = reason, f_err = e\<rparr>, d, w)"

text \<open>\<open>if fail := ...; fail != nil \<open>{\<close> return fail \<open>}\<close>\<close>.\<close>

definition and_then :: "'w outcome \<Rightarrow> (RDeployment \<Rightarrow> 'w \<Rightarrow> 'w outcome) \<Rightarrow> 'w outcome" where
  "and_then r k = (case r of (Some f, d, w) \<Rightarrow> (Some f, d, w) | (None, d, w) \<Rightarrow> k d w)"

definition or_stop :: "'w outcome \<Rightarrow> (RDeployment \<Rightarrow> 'w \<Rightarrow> 'w outcome option) \<Rightarrow> 'w outcome option" where
  "or_stop r k = (case r of (Some f, d, w) \<Rightarrow> Some (Some f, d, w) | (None, d, w) \<Rightarrow> k d w)"

section \<open>Phase boundaries\<close>

definition overBudget :: "'w Reconciler \<Rightarrow> ctx \<Rightarrow> 'w \<Rightarrow> failure option" where
  "overBudget R c w =
     (if ctx_err R c w then Some \<lparr>f_reason = ReasonTimeout, f_err = ContextDone\<rparr> else None)"

definition blocked :: "'w Reconciler \<Rightarrow> ctx \<Rightarrow> ident \<Rightarrow> RDeployment \<Rightarrow> 'w \<Rightarrow> 'w outcome" where
  "blocked R c app d w =
     (case overBudget R c w of
        Some f \<Rightarrow> (Some f, d, w)
      | None \<Rightarrow> attempt (a_Get (apps_of R) c app w)
          (\<lambda>e. failing d ReasonInternal e)
          (\<lambda>a w1. if ra_suspended a then failing d ReasonAccountSuspended Suspended w1 else (None, d, w1)))"

definition move :: "'w Reconciler \<Rightarrow> ctx \<Rightarrow> RDeployment \<Rightarrow> State \<Rightarrow> 'w \<Rightarrow> 'w outcome" where
  "move R c d to' w =
     attempt (d_Transition (deployments_of R) c (rd_id d) to' [] [] w)
       (\<lambda>e. failing d ReasonInternal e)
       (\<lambda>_ w1. (None, d\<lparr>rd_state := to'\<rparr>, w1))"

definition wait :: "'w Reconciler \<Rightarrow> ctx \<Rightarrow> ctx \<Rightarrow> ident \<Rightarrow> Reason \<Rightarrow> RDeployment \<Rightarrow> 'w \<Rightarrow> 'w outcome" where
  "wait R c phase app onPhaseDeadline d w =
     (case t_select (runtime_of R) (o_ReconcileInterval (opts R)) phase w of (fired, w1) \<Rightarrow>
        if fired \<and> \<not> ctx_err R phase w1 then blocked R c app d w1
        else if ctx_err R c w1 then failing d ReasonTimeout ContextDone w1
        else failing d onPhaseDeadline ContextDone w1)"

section \<open>Building\<close>

definition buildNamespace :: "'w Reconciler \<Rightarrow> RDeployment \<Rightarrow> string" where
  "buildNamespace R d =
     (if rd_path d = PathDockerfile then o_BuildkitNamespace (opts R) else o_BuildNamespace (opts R))"

definition credential :: "'w Reconciler \<Rightarrow> Credential" where
  "credential R = \<lparr>cr_host = o_RegistryHost (opts R), cr_user = o_RegistryUser (opts R),
     cr_password = o_RegistryPass (opts R)\<rparr>"

definition buildPath :: "'w Reconciler \<Rightarrow> RUpload \<Rightarrow> 'w \<Rightarrow> (failure + Path) \<times> 'w" where
  "buildPath R upload w =
     attempt (u_Open (uploads_of R) (ru_path upload) w)
       (\<lambda>e w1. (Inl \<lparr>f_reason = ReasonInternal, f_err = e\<rparr>, w1))
       (\<lambda>f w1. (case HasRootDockerfile f \<lparr>MaxFiles = o_MaxUploadFiles (opts R),
                   MaxBytes = o_MaxExtractedBytes (opts R)\<rparr> of
            Inl ErrRejected \<Rightarrow> Inl \<lparr>f_reason = ReasonSourceRejected, f_err = OtherErr\<rparr>
          | Inl IOFault \<Rightarrow> Inl \<lparr>f_reason = ReasonInternal, f_err = OtherErr\<rparr>
          | Inr found \<Rightarrow> Inr (if found then PathDockerfile else PathBuildpacks), w1))"

definition job_input :: "'w Reconciler \<Rightarrow> RDeployment \<Rightarrow> RApp \<Rightarrow> RUpload \<Rightarrow> Path \<Rightarrow> string \<Rightarrow> JobInput" where
  "job_input R d app upload path token =
     \<lparr>DeploymentID = rd_id d, JobNamespace = buildNamespace R d, AppSlug = ra_slug app, JobPath = path,
      SelfImage = o_SelfImage (opts R), BuilderImage = o_BuilderImage (opts R),
      TargetImageRef = TargetImage (o_RegistryHost (opts R)) (ra_slug app) (rd_id d),
      BuildUID = o_BuildUID (opts R), BuildGID = o_BuildGID (opts R),
      BuildkitImage = o_BuildkitImage (opts R), BuildkitUID = o_BuildkitUID (opts R),
      BuildkitGID = o_BuildkitGID (opts R),
      FetchURL = o_InternalURL (opts R) @ ''/v1/uploads/'' @ ru_id upload, FetchToken = token,
      ExpectedSHA = ru_sha upload, JobMaxFiles = o_MaxUploadFiles (opts R),
      MaxExtracted = o_MaxExtractedBytes (opts R), CredentialRef = SecretName (rd_id d),
      DeadlineSeconds = o_BuildTimeout (opts R) div 1000000000\<rparr>"

definition startBuild :: "'w Reconciler \<Rightarrow> ctx \<Rightarrow> RDeployment \<Rightarrow> RApp \<Rightarrow> RUpload \<Rightarrow> 'w \<Rightarrow> 'w outcome" where
  "startBuild R c dep app upload w =
     and_then (move R c dep StateBuilding w) (\<lambda>d w.
     attempt (buildPath R upload w) (\<lambda>f w. (Some f, d, w)) (\<lambda>path w.
     let d = d\<lparr>rd_path := path_String path\<rparr> in
     attempt (u_MintFetchToken (uploads_of R) c (ru_id upload) w) (failing d ReasonInternal) (\<lambda>token w.
     attempt (c_CreateJob (cluster_of R) c (Job (job_input R d app upload path token)) w)
       (failing d ReasonInternal) (\<lambda>owner w.
     attempt (c_ApplySecret (cluster_of R) c
         (BuildCredentialSecret (rd_id d) (buildNamespace R d) (credential R) owner) w)
       (failing d ReasonInternal) (\<lambda>_ w.
     let d = d\<lparr>rd_repo := ImageRepoFor (o_RegistryHost (opts R)) (ra_slug app), rd_job := JobName (rd_id d)\<rparr> in
     attempt (d_RecordBuild (deployments_of R) c (rd_id d) (path_String path) (rd_job d) (rd_repo d) [] w)
       (failing d ReasonInternal) (\<lambda>_ w. (None, d, w)))))))"

partial_function (option) build_loop ::
  "'w Reconciler \<Rightarrow> ctx \<Rightarrow> ctx \<Rightarrow> RDeployment \<Rightarrow> 'w \<Rightarrow> 'w outcome option" where
  "build_loop R c phase d w =
     (case c_JobState (cluster_of R) phase (buildNamespace R d) (JobName (rd_id d)) w of
        (Inr JobSucceeded, w1) \<Rightarrow> Some (move R c d StatePushing w1)
      | (Inr JobFailed, w1) \<Rightarrow> Some (failing d ReasonBuildFailed OtherErr w1)
      | (Inr JobGone, w1) \<Rightarrow> Some (failing d ReasonBuildFailed OtherErr w1)
      | (Inr JobRunning, w1) \<Rightarrow>
          (case wait R c phase (rd_app d) ReasonBuildFailed d w1 of
             (Some f, d2, w2) \<Rightarrow> Some (Some f, d2, w2) | (None, d2, w2) \<Rightarrow> build_loop R c phase d2 w2)
      | (Inl e, w1) \<Rightarrow>
          (case wait R c phase (rd_app d) ReasonBuildFailed d w1 of
             (Some f, d2, w2) \<Rightarrow> Some (Some f, d2, w2) | (None, d2, w2) \<Rightarrow> build_loop R c phase d2 w2))"

definition awaitBuild :: "'w Reconciler \<Rightarrow> ctx \<Rightarrow> RDeployment \<Rightarrow> 'w \<Rightarrow> 'w outcome option" where
  "awaitBuild R c d w = build_loop R c (WithTimeout R c (o_BuildTimeout (opts R)) w) d w"

definition resolveImage :: "'w Reconciler \<Rightarrow> ctx \<Rightarrow> RDeployment \<Rightarrow> RApp \<Rightarrow> 'w \<Rightarrow> 'w outcome" where
  "resolveImage R c d app w =
     (let repo = ImageRepoFor (o_RegistryHost (opts R)) (ra_slug app) in
      attempt (r_Digest (registry_of R) c repo (rd_id d) w) (failing d ReasonBuildNoDigest) (\<lambda>digest w.
      attempt (r_ImageUser (registry_of R) c repo digest w) (failing d ReasonInternal) (\<lambda>user w.
      if RunsAsRoot user then failing d ReasonImageRunsAsRoot OtherErr w
      else
        let d = d\<lparr>rd_repo := repo, rd_digest := digest\<rparr> in
        attempt (d_RecordBuild (deployments_of R) c (rd_id d) [] (JobName (rd_id d)) repo digest w)
          (failing d ReasonInternal) (\<lambda>_ w. move R c d StateDeploying w))))"

section \<open>Deploying\<close>

definition deployConfig :: "'w Reconciler \<Rightarrow> ctx \<Rightarrow> RDeployment \<Rightarrow> RApp \<Rightarrow> 'w \<Rightarrow> (rc_error + config) \<times> 'w" where
  "deployConfig R c d app w =
     (if Rollback d then a_ReleaseSnapshot (apps_of R) c (rd_source d) w
      else a_ConfigForDeploy (apps_of R) c (ra_id app) w)"

definition appInput :: "'w Reconciler \<Rightarrow> RApp \<Rightarrow> string \<Rightarrow> config \<Rightarrow> DeployInput" where
  "appInput R app img config =
     \<lparr>dI_app = ra_id app, dI_slug = ra_slug app, dI_host = ra_slug app @ ''.'' @ o_AppDomain (opts R),
      dI_image = img, dI_ingress_class = o_IngressClassName (opts R), dI_cpu = o_CPU (opts R),
      dI_memory = o_Memory (opts R), dI_limit_cpu = o_LimitCPU (opts R),
      dI_limit_memory = o_LimitMemory (opts R), dI_quota_cpu = o_QuotaCPU (opts R),
      dI_quota_memory = o_QuotaMemory (opts R), dI_quota_pods = o_QuotaPods (opts R),
      dI_control_plane = o_ControlPlaneNamespace (opts R),
      dI_blocked_cidrs = o_EgressBlockedCIDRs (opts R), dI_blocked_ports = o_EgressBlockedPorts (opts R),
      dI_config = map (\<lambda>(k, v). (k, cv_value v)) config\<rparr>"

definition policies :: "DeployInput \<Rightarrow> NetworkPolicy list" where
  "policies inp = [DefaultDenyPolicy (dI_slug inp),
     AllowPolicy (dI_slug inp) (dI_blocked_cidrs inp) (dI_blocked_ports inp)]"

partial_function (option) ready_loop ::
  "'w Reconciler \<Rightarrow> ctx \<Rightarrow> ctx \<Rightarrow> RApp \<Rightarrow> RDeployment \<Rightarrow> 'w \<Rightarrow> 'w outcome option" where
  "ready_loop R c phase app d w =
     (case c_WorkloadReady (cluster_of R) phase (NamespaceName (ra_slug app)) WorkloadName w of (r, w1) \<Rightarrow>
        if r = Inr True then Some (None, d, w1)
        else case wait R c phase (ra_id app) ReasonAppNeverReady d w1 of
          (Some f, d2, w2) \<Rightarrow> Some (Some f, d2, w2) | (None, d2, w2) \<Rightarrow> ready_loop R c phase app d2 w2)"

definition awaitReady :: "'w Reconciler \<Rightarrow> ctx \<Rightarrow> RApp \<Rightarrow> RDeployment \<Rightarrow> 'w \<Rightarrow> 'w outcome option" where
  "awaitReady R c app d w = ready_loop R c (WithTimeout R c (o_ReadyTimeout (opts R)) w) app d w"

text \<open>What \<open>deployApp\<close> does up to the wait: everything in the namespace before the workload.\<close>

definition applyApp :: "'w Reconciler \<Rightarrow> ctx \<Rightarrow> RDeployment \<Rightarrow> RApp \<Rightarrow> config \<Rightarrow> 'w \<Rightarrow> 'w outcome" where
  "applyApp R c d app config w =
     (let repo = (if Rollback d then ImageRepoFor (o_RegistryHost (opts R)) (ra_slug app) else rd_repo d);
          inp = appInput R app (repo @ ''@'' @ rd_digest d) config in
      attempt (c_EnsureNamespace (cluster_of R) c (Namespace inp) (RoleBinding inp) (ResourceQuota inp)
          (LimitRange inp) w) (failing d ReasonInternal) (\<lambda>_ w.
      attempt (c_ApplyNetworkPolicies (cluster_of R) c (policies inp) w) (failing d ReasonInternal) (\<lambda>_ w.
      attempt (c_ApplySecret (cluster_of R) c
          (PullSecret PullSecretName (NamespaceName (ra_slug app)) (credential R)) w)
        (failing d ReasonInternal) (\<lambda>_ w.
      attempt (c_ApplySecret (cluster_of R) c (ConfigSecret inp) w) (failing d ReasonInternal) (\<lambda>_ w.
      attempt (c_ApplyWorkload (cluster_of R) c (Workload (t_sha256 (runtime_of R)) inp) (Service inp)
          (Ingress inp) w) (failing d ReasonInternal) (\<lambda>_ w. (None, d, w)))))))"

definition deployApp :: "'w Reconciler \<Rightarrow> ctx \<Rightarrow> RDeployment \<Rightarrow> RApp \<Rightarrow> 'w \<Rightarrow> 'w outcome option" where
  "deployApp R c d app w =
     (if rd_digest d = [] then Some (failing d ReasonBuildNoDigest OtherErr w)
      else attempt (deployConfig R c d app w) (\<lambda>e w. Some (failing d ReasonInternal e w)) (\<lambda>config w.
        or_stop (applyApp R c d app config w) (\<lambda>d w.
        Option.bind (awaitReady R c app d w) (\<lambda>r.
        Some (and_then r (\<lambda>d w.
          attempt (d_MarkHealthy (deployments_of R) c (rd_id d) config w) (failing d ReasonInternal)
            (\<lambda>_ w. (None, d\<lparr>rd_state := StateHealthy\<rparr>, w))))))))"

section \<open>One drive\<close>

definition in_state :: "State \<Rightarrow> (RDeployment \<Rightarrow> 'w \<Rightarrow> 'w outcome option) \<Rightarrow>
    (RDeployment \<Rightarrow> 'w \<Rightarrow> 'w outcome option) \<Rightarrow> RDeployment \<Rightarrow> 'w \<Rightarrow> 'w outcome option" where
  "in_state s act k d w =
     (if rd_state d = s then Option.bind (act d w) (\<lambda>r. or_stop r k) else k d w)"

definition run :: "'w Reconciler \<Rightarrow> ctx \<Rightarrow> RDeployment \<Rightarrow> RUpload \<Rightarrow> rc_error option \<Rightarrow> 'w \<Rightarrow> 'w outcome option" where
  "run R c dep upload uploadErr w =
     attempt (a_Get (apps_of R) c (rd_app dep) w) (\<lambda>e w. Some (failing dep ReasonInternal e w)) (\<lambda>app w.
     case uploadErr of
       Some e \<Rightarrow> Some (failing dep ReasonUploadInvalid e w)
     | None \<Rightarrow>
         in_state StateQueued
           (\<lambda>d w. or_stop (blocked R c (rd_app d) d w) (\<lambda>d w.
              Some (if Rollback d then move R c d StateDeploying w else startBuild R c d app upload w)))
        (in_state StateBuilding
           (\<lambda>d w. or_stop (blocked R c (rd_app d) d w) (awaitBuild R c))
        (in_state StatePushing
           (\<lambda>d w. or_stop (blocked R c (rd_app d) d w) (\<lambda>d w. Some (resolveImage R c d app w)))
        (\<lambda>d w. or_stop (blocked R c (rd_app d) d w) (\<lambda>d w. deployApp R c d app w)))) dep w)"

datatype drive_log = BecameHealthy | EndedMeanwhile | FailureRecorded Reason | FailureLost Reason

definition fail :: "'w Reconciler \<Rightarrow> ctx \<Rightarrow> ident \<Rightarrow> failure \<Rightarrow> 'w \<Rightarrow> drive_log \<times> 'w" where
  "fail R c i f w =
     (let wc = WithTimeout R (WithoutCancel c) 10000000000 w in
      attempt (d_Transition (deployments_of R) wc i StateFailed (reason_code (f_reason f))
          (Message (reason_code (f_reason f))) w)
        (\<lambda>e w. if e = ErrNotInFlight then (EndedMeanwhile, w) else (FailureLost (f_reason f), w))
        (\<lambda>_ w. (FailureRecorded (f_reason f), w)))"

definition deleteBuildJob :: "'w Reconciler \<Rightarrow> ctx \<Rightarrow> RDeployment \<Rightarrow> 'w \<Rightarrow> 'w" where
  "deleteBuildJob R c d w =
     (if rd_job d = [] then w
      else snd (c_DeleteJob (cluster_of R) c (buildNamespace R d) (rd_job d) w))"

definition remainingBudget :: "'w Reconciler \<Rightarrow> RDeployment \<Rightarrow> 'w \<Rightarrow> int" where
  "remainingBudget R d w =
     (case rd_created d of
        None \<Rightarrow> o_DeployTimeout (opts R)
      | Some t \<Rightarrow> o_DeployTimeout (opts R) - (t_now (runtime_of R) w - t))"

definition expire :: "'w Reconciler \<Rightarrow> ctx \<Rightarrow> RDeployment \<Rightarrow> 'w \<Rightarrow> drive_log \<times> 'w" where
  "expire R c d w =
     (let w = deleteBuildJob R c d w;
          (log, w) = fail R c (rd_id d) \<lparr>f_reason = ReasonTimeout, f_err = OtherErr\<rparr> w
      in attempt (u_Get (uploads_of R) c (rd_upload d) w) (\<lambda>_ w. (log, w))
           (\<lambda>u w. (log, u_Remove (uploads_of R) c (ru_path u) w)))"

text \<open>The switch after \<open>run\<close>: \<open>runCtx\<close> decides whether the budget is the reason.\<close>

definition settle :: "'w Reconciler \<Rightarrow> ctx \<Rightarrow> ctx \<Rightarrow> 'w outcome \<Rightarrow> drive_log \<times> 'w" where
  "settle R c runCtx r =
     (case r of
        (None, d, w) \<Rightarrow> (BecameHealthy, w)
      | (Some f, d, w) \<Rightarrow>
          if f_err f = ErrNotInFlight then (EndedMeanwhile, w)
          else
            let f = (if ctx_err R runCtx w then \<lparr>f_reason = ReasonTimeout, f_err = ContextDone\<rparr> else f);
                w = (if f_reason f = ReasonTimeout \<or> f_reason f = ReasonAccountSuspended
                     then deleteBuildJob R c d w else w)
            in fail R c (rd_id d) f w)"

definition no_upload :: RUpload where
  "no_upload = \<lparr>ru_id = [], ru_path = [], ru_sha = []\<rparr>"

definition Drive :: "'w Reconciler \<Rightarrow> ctx \<Rightarrow> RDeployment \<Rightarrow> 'w \<Rightarrow> (drive_log \<times> 'w) option" where
  "Drive R c dep w =
     (let budget = remainingBudget R dep w in
      if budget \<le> 0 then Some (expire R c dep w)
      else
        let runCtx = WithTimeout R c budget w;
            (upload, uploadErr, w) =
              (if Rollback dep then (no_upload, None, w)
               else attempt (u_Get (uploads_of R) runCtx (rd_upload dep) w)
                 (\<lambda>e w. (no_upload, Some e, w)) (\<lambda>u w. (u, None, w)))
        in Option.bind (run R runCtx dep upload uploadErr w) (\<lambda>r.
           case settle R c runCtx r of (log, w) \<Rightarrow>
             Some (log, if Rollback dep then w else u_Remove (uploads_of R) c (ru_path upload) w)))"

section \<open>The loop\<close>

fun recoverStranded :: "'w Reconciler \<Rightarrow> ctx \<Rightarrow> RDeployment list \<Rightarrow> 'w \<Rightarrow> 'w" where
  "recoverStranded R c [] w = w"
| "recoverStranded R c (d # deps) w =
     (if ctx_err R c w then w
      else if rd_state d \<noteq> StateBuilding \<or> rd_job d = [] then recoverStranded R c deps w
      else case c_JobState (cluster_of R) c (buildNamespace R d) (rd_job d) w of
          (Inl e, w1) \<Rightarrow> recoverStranded R c deps w1
        | (Inr JobRunning, w1) \<Rightarrow> recoverStranded R c deps w1
        | (Inr JobSucceeded, w1) \<Rightarrow>
            recoverStranded R c deps (snd (d_ReleaseClaim (deployments_of R) c (rd_id d) w1))
        | (Inr _, w1) \<Rightarrow>
            recoverStranded R c deps (snd (fail R c (rd_id d) \<lparr>f_reason = ReasonBuildFailed, f_err = OtherErr\<rparr> w1)))"

fun expireOverdue :: "'w Reconciler \<Rightarrow> ctx \<Rightarrow> RDeployment list \<Rightarrow> 'w \<Rightarrow> 'w" where
  "expireOverdue R c [] w = w"
| "expireOverdue R c (d # deps) w =
     (if ctx_err R c w then w
      else if 0 < remainingBudget R d w then expireOverdue R c deps w
      else expireOverdue R c deps (snd (expire R c d w)))"

definition Tick :: "'w Reconciler \<Rightarrow> ctx \<Rightarrow> 'w \<Rightarrow> 'w option" where
  "Tick R c w =
     (let w = attempt (d_ListNonTerminal (deployments_of R) c w) (\<lambda>_ w. w)
                (\<lambda>deps w. expireOverdue R c deps (recoverStranded R c deps w))
      in attempt (d_ClaimNext (deployments_of R) c (o_PodName (opts R)) w) (\<lambda>_ w. Some w)
           (\<lambda>d w. map_option snd (Drive R c d w)))"

fun sweep_list :: "'w Reconciler \<Rightarrow> ctx \<Rightarrow> RDeployment list \<Rightarrow> 'w \<Rightarrow> 'w option" where
  "sweep_list R c [] w = Some w"
| "sweep_list R c (d # deps) w =
     (if ctx_err R c w then Some w
      else Option.bind (Drive R c d w) (\<lambda>(_, w). sweep_list R c deps w))"

definition SweepInFlight :: "'w Reconciler \<Rightarrow> ctx \<Rightarrow> 'w \<Rightarrow> 'w option" where
  "SweepInFlight R c w =
     attempt (d_ListNonTerminal (deployments_of R) c w) (\<lambda>_ w. Some w) (sweep_list R c)"

fun reap :: "'w Reconciler \<Rightarrow> ctx \<Rightarrow> string list \<Rightarrow> string list \<Rightarrow> 'w \<Rightarrow> 'w" where
  "reap R c slugs [] w = w"
| "reap R c slugs (slug # candidates) w =
     (if ctx_err R c w then w
      else if slug \<in> set slugs then reap R c slugs candidates w
      else reap R c slugs candidates (snd (c_DeleteNamespace (cluster_of R) c slug w)))"

definition ReapOrphanNamespaces :: "'w Reconciler \<Rightarrow> ctx \<Rightarrow> int \<Rightarrow> 'w \<Rightarrow> 'w" where
  "ReapOrphanNamespaces R c now w =
     attempt (a_LiveAppSlugs (apps_of R) c w) (\<lambda>_ w. w) (\<lambda>slugs w.
     attempt (c_AppNamespacesOlderThan (cluster_of R) c now (o_OrphanGrace (opts R)) w) (\<lambda>_ w. w)
       (\<lambda>candidates w. reap R c slugs candidates w))"

definition policy_input :: "'w Reconciler \<Rightarrow> string \<Rightarrow> NetworkPolicy list" where
  "policy_input R slug = [DefaultDenyPolicy slug,
     AllowPolicy slug (o_EgressBlockedCIDRs (opts R)) (o_EgressBlockedPorts (opts R))]"

fun police :: "'w Reconciler \<Rightarrow> ctx \<Rightarrow> string list \<Rightarrow> 'w \<Rightarrow> 'w" where
  "police R c [] w = w"
| "police R c (slug # slugs) w =
     (if ctx_err R c w then w
      else police R c slugs (snd (c_ApplyNetworkPolicies (cluster_of R) c (policy_input R slug) w)))"

definition PolicySweep :: "'w Reconciler \<Rightarrow> ctx \<Rightarrow> 'w \<Rightarrow> 'w" where
  "PolicySweep R c w =
     attempt (c_AppNamespaces (cluster_of R) c w) (\<lambda>_ w. w) (police R c)"

text \<open>\<open>Run\<close>: what happens at startup, then one event of the two tickers after another until the
  context is done; the \<open>select\<close>'s choices are the list. A ticker that is ready together with the
  context is not picked here, where Go's \<open>select\<close> may still pick it once.\<close>

datatype run_event = TickerFired | ReaperFired

fun run_events :: "'w Reconciler \<Rightarrow> ctx \<Rightarrow> run_event list \<Rightarrow> 'w \<Rightarrow> 'w option" where
  "run_events R c [] w = Some w"
| "run_events R c (e # es) w =
     (if ctx_err R c w then Some w
      else case e of
          TickerFired \<Rightarrow> Option.bind (Tick R c w) (run_events R c es)
        | ReaperFired \<Rightarrow> run_events R c es (ReapOrphanNamespaces R c (t_now (runtime_of R) w) w))"

definition Run :: "'w Reconciler \<Rightarrow> ctx \<Rightarrow> run_event list \<Rightarrow> 'w \<Rightarrow> 'w option" where
  "Run R c fired w =
     Option.bind (SweepInFlight R c (PolicySweep R c w)) (\<lambda>w.
     run_events R c fired (ReapOrphanNamespaces R c (t_now (runtime_of R) w) w))"

end
