(* ===== verification/Reconcile_Laws.thy ===== *)
theory Reconcile_Laws
  imports Reconcile
begin

text \<open>
  The contracts the loop relies on, as locales over its five interfaces, and what it does under
  them. \<open>world_order\<close> is the frame: if every single call moves the world up some preorder, so do
  a drive, a tick and a whole run. \<open>clockwork\<close> is that frame for the passing of time, and gives
  termination. \<open>ledger\<close> is the promise of \<^verbatim>\<open>Deployments\<close> about rows, and gives that a drive ends
  its row or says that it could not.
\<close>

section \<open>Every call moves the world up\<close>

text \<open>\<open>calls_frame\<close> asks it of every single call but \<^verbatim>\<open>ApplyWorkload\<close>, and of \<open>applyApp\<close> as a whole.\<close>

locale calls_frame =
  fixes R :: "'w Reconciler" and le :: "'w \<Rightarrow> 'w \<Rightarrow> bool"
  assumes le_refl: "le w w"
    and le_trans: "le u v \<Longrightarrow> le v w \<Longrightarrow> le u w"
    and claim_step: "le w (snd (d_ClaimNext (deployments_of R) c p w))"
    and release_claim_step: "le w (snd (d_ReleaseClaim (deployments_of R) c i w))"
    and list_step: "le w (snd (d_ListNonTerminal (deployments_of R) c w))"
    and transition_step: "le w (snd (d_Transition (deployments_of R) c i s reason detail w))"
    and record_step: "le w (snd (d_RecordBuild (deployments_of R) c i p j repo dig w))"
    and healthy_step: "le w (snd (d_MarkHealthy (deployments_of R) c i cfg w))"
    and app_step: "le w (snd (a_Get (apps_of R) c i w))"
    and config_step: "le w (snd (a_ConfigForDeploy (apps_of R) c i w))"
    and snapshot_step: "le w (snd (a_ReleaseSnapshot (apps_of R) c i w))"
    and slugs_step: "le w (snd (a_LiveAppSlugs (apps_of R) c w))"
    and upload_step: "le w (snd (u_Get (uploads_of R) c i w))"
    and open_step: "le w (snd (u_Open (uploads_of R) p w))"
    and mint_step: "le w (snd (u_MintFetchToken (uploads_of R) c i w))"
    and remove_step: "le w (u_Remove (uploads_of R) c p w)"
    and digest_step: "le w (snd (r_Digest (registry_of R) c repo tag w))"
    and user_step: "le w (snd (r_ImageUser (registry_of R) c repo dig w))"
    and create_job_step: "le w (snd (c_CreateJob (cluster_of R) c job w))"
    and job_state_step: "le w (snd (c_JobState (cluster_of R) c ns n w))"
    and secret_step: "le w (snd (c_ApplySecret (cluster_of R) c sec w))"
    and namespace_step: "le w (snd (c_EnsureNamespace (cluster_of R) c nsp rb quota lr w))"
    and policies_step: "le w (snd (c_ApplyNetworkPolicies (cluster_of R) c ps w))"
    and namespaces_step: "le w (snd (c_AppNamespaces (cluster_of R) c w))"
    and older_step: "le w (snd (c_AppNamespacesOlderThan (cluster_of R) c now grace w))"
    and delete_ns_step: "le w (snd (c_DeleteNamespace (cluster_of R) c slug w))"
    and ready_step: "le w (snd (c_WorkloadReady (cluster_of R) c ns n w))"
    and delete_job_step: "le w (snd (c_DeleteJob (cluster_of R) c ns n w))"
    and select_step: "le w (snd (t_select (runtime_of R) iv ph w))"
    and applyApp_step: "le w (snd (snd (applyApp R c d app config w)))"
begin

lemmas calls = claim_step release_claim_step list_step transition_step record_step healthy_step
  app_step config_step snapshot_step slugs_step upload_step open_step mint_step remove_step
  digest_step user_step create_job_step job_state_step secret_step namespace_step policies_step
  namespaces_step older_step delete_ns_step ready_step delete_job_step select_step

lemmas up = calls[THEN le_trans[rotated]]

lemma attempt_up:
  assumes "le u (snd r)" "\<And>e w. le u w \<Longrightarrow> le u (world (bad e w))" "\<And>a w. le u w \<Longrightarrow> le u (world (good a w))"
  shows "le u (world (attempt r bad good))"
  using assms by (cases r; cases "fst r") (auto simp: attempt_def)

lemma attempt_opt:
  assumes "le u (snd r)" "\<And>e w. le u w \<Longrightarrow> pred_option Q (bad e w)" "\<And>a w. le u w \<Longrightarrow> pred_option Q (good a w)"
  shows "pred_option Q (attempt r bad good)"
  using assms by (cases r; cases "fst r") (auto simp: attempt_def)

abbreviation reaches :: "'w \<Rightarrow> 'w outcome \<Rightarrow> bool" where
  "reaches u r \<equiv> le u (snd (snd r))"

lemma failing_up: "le u w \<Longrightarrow> reaches u (failing d reason e w)"
  by (simp add: failing_def)

lemma and_then_up:
  assumes "reaches u r" "\<And>d w. le u w \<Longrightarrow> reaches u (k d w)"
  shows "reaches u (and_then r k)"
  using assms by (cases r; cases "fst r") (auto simp: and_then_def)

lemma or_stop_up:
  assumes "reaches u r" "\<And>d w. le u w \<Longrightarrow> pred_option (reaches u) (k d w)"
  shows "pred_option (reaches u) (or_stop r k)"
  using assms by (cases r; cases "fst r") (auto simp: or_stop_def)

lemma bind_up:
  assumes "pred_option (reaches u) r" "\<And>x. reaches u x \<Longrightarrow> pred_option Q (k x)"
  shows "pred_option Q (Option.bind r k)"
  using assms by (cases r) auto

lemma in_state_up:
  assumes "\<And>d w. le u w \<Longrightarrow> pred_option (reaches u) (act d w)" "\<And>d w. le u w \<Longrightarrow> pred_option (reaches u) (k d w)" "le u w"
  shows "pred_option (reaches u) (in_state s act k d w)"
  unfolding in_state_def using assms(3) by (auto intro!: bind_up or_stop_up assms(1,2))

lemma blocked_up: "le u w \<Longrightarrow> reaches u (blocked R c app d w)"
  unfolding blocked_def
  by (auto intro!: attempt_up[where world = "\<lambda>r. snd (snd r)"] up failing_up split: option.splits)

lemma move_up: "le u w \<Longrightarrow> reaches u (move R c d s w)"
  unfolding move_def by (auto intro!: attempt_up[where world = "\<lambda>r. snd (snd r)"] up failing_up)

lemma wait_up: "le u w \<Longrightarrow> reaches u (wait R c phase app reason d w)"
proof -
  assume "le u w"
  then have "le u (snd (t_select (runtime_of R) (o_ReconcileInterval (opts R)) phase w))" by (rule up)
  then show ?thesis
    by (cases "t_select (runtime_of R) (o_ReconcileInterval (opts R)) phase w")
      (auto simp: wait_def intro: blocked_up failing_up)
qed

lemma buildPath_up: "le u w \<Longrightarrow> le u (snd (buildPath R upload w))"
  unfolding buildPath_def by (auto intro!: attempt_up[where world = snd] up)

lemma startBuild_up: "le u w \<Longrightarrow> reaches u (startBuild R c d app upload w)"
  unfolding startBuild_def Let_def
  by (intro and_then_up attempt_up[where world = "\<lambda>r. snd (snd r)"] failing_up move_up buildPath_up up; simp)

lemma resolveImage_up: "le u w \<Longrightarrow> reaches u (resolveImage R c d app w)"
  unfolding resolveImage_def Let_def
  by (intro attempt_up[where world = "\<lambda>r. snd (snd r)"] failing_up up)
    (auto intro!: attempt_up[where world = "\<lambda>r. snd (snd r)"] failing_up move_up up)

lemma applyApp_up: "le u w \<Longrightarrow> reaches u (applyApp R c d app config w)"
  using applyApp_step le_trans by blast

lemma build_loop_up:
  assumes "build_loop R' c phase d w = Some r" "R' = R" "le u w"
  shows "reaches u r"
proof -
  have "\<forall>u. R' = R \<longrightarrow> le u w \<longrightarrow> reaches u r"
  proof (rule build_loop.raw_induct[where P = "\<lambda>R' c phase d w r. \<forall>u. R' = R \<longrightarrow> le u w \<longrightarrow> reaches u r"],
      goal_cases)
    case (1 loop R' c phase d w r)
    have "reaches u r" if eq: "R' = R" and u: "le u w" for u
    proof -
  obtain js w1 where js: "c_JobState (cluster_of R) phase (buildNamespace R d) (JobName (rd_id d)) w = (js, w1)"
    by fastforce
  have w1: "le u w1"
    using le_trans[OF u job_state_step[of w phase "buildNamespace R d" "JobName (rd_id d)"]] js by simp
  obtain f d2 w2 where wt: "wait R c phase (rd_app d) ReasonBuildFailed d w1 = (f, d2, w2)"
    by (rule prod_cases3)
  have w2: "le u w2" using wait_up[OF w1, of c phase "rd_app d" ReasonBuildFailed d] wt by simp
  have again: "loop R' c phase d2 w2 = Some r \<Longrightarrow> reaches u r" using "1"(1) eq w2 by blast
  show "reaches u r"
    using "1"(2) js w1 wt w2 again move_up[OF w1] wait_up[OF w1] eq
    by (cases js; cases f) (auto simp: failing_def split: JobState.splits)
    qed
    then show ?case by blast
  qed (rule assms(1))
  then show ?thesis using assms(2,3) by blast
qed

lemma awaitBuild_up: "le u w \<Longrightarrow> pred_option (reaches u) (awaitBuild R c d w)"
  unfolding awaitBuild_def by (cases "build_loop R c (WithTimeout R c (o_BuildTimeout (opts R)) w) d w")
    (auto intro: build_loop_up[OF _ refl])

lemma ready_loop_up:
  assumes "ready_loop R' c phase app d w = Some r" "R' = R" "le u w"
  shows "reaches u r"
proof -
  have "\<forall>u. R' = R \<longrightarrow> le u w \<longrightarrow> reaches u r"
  proof (rule ready_loop.raw_induct[where P = "\<lambda>R' c phase app d w r. \<forall>u. R' = R \<longrightarrow> le u w \<longrightarrow> reaches u r"],
      goal_cases)
    case (1 loop R' c phase app d w r)
    have "reaches u r" if eq: "R' = R" and u: "le u w" for u
    proof -
  obtain js w1 where js: "c_WorkloadReady (cluster_of R) phase (NamespaceName (ra_slug app)) WorkloadName w = (js, w1)"
    by fastforce
  have w1: "le u w1"
    using le_trans[OF u ready_step[of w phase "NamespaceName (ra_slug app)" WorkloadName]] js by simp
  obtain f d2 w2 where wt: "wait R c phase (ra_id app) ReasonAppNeverReady d w1 = (f, d2, w2)"
    by (rule prod_cases3)
  have w2: "le u w2" using wait_up[OF w1, of c phase "ra_id app" ReasonAppNeverReady d] wt by simp
  have again: "loop R' c phase app d2 w2 = Some r \<Longrightarrow> reaches u r" using "1"(1) eq w2 by blast
  show "reaches u r"
    using "1"(2) js w1 wt w2 again wait_up[OF w1] eq by (cases f) (auto split: if_splits)
    qed
    then show ?case by blast
  qed (rule assms(1))
  then show ?thesis using assms(2,3) by blast
qed

lemma awaitReady_up: "le u w \<Longrightarrow> pred_option (reaches u) (awaitReady R c app d w)"
  unfolding awaitReady_def by (cases "ready_loop R c (WithTimeout R c (o_ReadyTimeout (opts R)) w) app d w")
    (auto intro: ready_loop_up[OF _ refl])

lemma deployConfig_up: "le u w \<Longrightarrow> le u (snd (deployConfig R c d app w))"
  unfolding deployConfig_def by (auto intro: up)

lemma deployApp_up: "le u w \<Longrightarrow> pred_option (reaches u) (deployApp R c d app w)"
proof -
  assume u: "le u w"
  have fin: "pred_option (reaches u) (or_stop (applyApp R c d app config w)
      (\<lambda>d w. Option.bind (awaitReady R c app d w) (\<lambda>r. Some (and_then r (\<lambda>d w.
          attempt (d_MarkHealthy (deployments_of R) c (rd_id d) config w) (failing d ReasonInternal)
            (\<lambda>_ w. (None, d\<lparr>rd_state := StateHealthy\<rparr>, w)))))))" if "le u w" for config w
    by (rule or_stop_up[OF applyApp_up[OF that]], rule bind_up[OF awaitReady_up], assumption)
      (auto intro!: and_then_up attempt_up[where world = "\<lambda>r. snd (snd r)"] failing_up up)
  show ?thesis
    unfolding deployApp_def
    by (cases "rd_digest d = []")
      (auto simp: failing_def u intro!: attempt_opt[OF deployConfig_up[OF u]] fin)
qed

lemma run_up: "le u w \<Longrightarrow> pred_option (reaches u) (run R c dep upload err w)"
proof -
  assume u: "le u w"
  have later: "pred_option (reaches u)
     (in_state StateQueued
        (\<lambda>d w. or_stop (blocked R c (rd_app d) d w) (\<lambda>d w.
           Some (if Rollback d then move R c d StateDeploying w else startBuild R c d app upload w)))
     (in_state StateBuilding
        (\<lambda>d w. or_stop (blocked R c (rd_app d) d w) (awaitBuild R c))
     (in_state StatePushing
        (\<lambda>d w. or_stop (blocked R c (rd_app d) d w) (\<lambda>d w. Some (resolveImage R c d app w)))
     (\<lambda>d w. or_stop (blocked R c (rd_app d) d w) (\<lambda>d w. deployApp R c d app w)))) dep w)"
    if "le u w" for app w
    by (intro in_state_up or_stop_up blocked_up awaitBuild_up deployApp_up)
      (auto intro: move_up startBuild_up resolveImage_up that)
  show ?thesis
    unfolding run_def
    by (rule attempt_opt[OF up(7)[OF u]]) (auto simp: failing_def split: option.splits intro: later)
qed

lemma fail_up: "le u w \<Longrightarrow> le u (snd (fail R c i f w))"
  unfolding fail_def Let_def by (auto intro!: attempt_up[where world = snd] up)

lemma deleteBuildJob_up: "le u w \<Longrightarrow> le u (deleteBuildJob R c d w)"
  unfolding deleteBuildJob_def by (auto intro: up)

lemma expire_up: "le u w \<Longrightarrow> le u (snd (expire R c d w))"
proof -
  assume "le u w"
  then have "le u (snd (fail R c (rd_id d) f (deleteBuildJob R c d w)))" for f
    by (intro fail_up deleteBuildJob_up)
  then show ?thesis
    unfolding expire_def Let_def
    by (auto split: prod.splits intro!: attempt_up[where world = snd] up) (metis snd_conv)+
qed

lemma settle_up: "reaches u r \<Longrightarrow> le u (snd (settle R c rc r))"
  unfolding settle_def Let_def
  by (cases r; cases "fst r") (auto intro: fail_up deleteBuildJob_up)

lemma Drive_up: "le u w \<Longrightarrow> pred_option (\<lambda>r. le u (snd r)) (Drive R c dep w)"
proof (cases "remainingBudget R dep w \<le> 0")
  case True
  then show "le u w \<Longrightarrow> ?thesis" by (simp add: Drive_def expire_up)
next
  case False
  assume u: "le u w"
  let ?rc = "WithTimeout R c (remainingBudget R dep w) w"
  obtain upload err w1 where g: "(if Rollback dep then (no_upload, None, w)
      else attempt (u_Get (uploads_of R) ?rc (rd_upload dep) w)
        (\<lambda>e w. (no_upload, Some e, w)) (\<lambda>u w. (u, None, w))) = (upload, err, w1)" by (rule prod_cases3)
  have w1: "le u w1"
    using g attempt_up[where world = "\<lambda>r. snd (snd r)", OF up(11)[OF u, of ?rc "rd_upload dep"],
        of "\<lambda>e w. (no_upload, Some e, w)" "\<lambda>u w. (u, None, w)"] u
    by (auto split: if_splits)
  have "pred_option (\<lambda>r. le u (snd r)) (Option.bind (run R ?rc dep upload err w1) (\<lambda>r.
      case settle R c ?rc r of (log, w) \<Rightarrow>
        Some (log, if Rollback dep then w else u_Remove (uploads_of R) c (ru_path upload) w)))"
  proof (rule bind_up[OF run_up[OF w1]])
    fix r :: "'w outcome" assume "reaches u r"
    then have "le u (snd (settle R c ?rc r))" by (rule settle_up)
    then show "pred_option (\<lambda>r. le u (snd r)) (case settle R c ?rc r of (log, w) \<Rightarrow>
        Some (log, if Rollback dep then w else u_Remove (uploads_of R) c (ru_path upload) w))"
      by (cases "settle R c ?rc r") (auto intro: up)
  qed
  then show ?thesis using False g by (simp add: Drive_def Let_def)
qed

lemma recoverStranded_up: "le u w \<Longrightarrow> le u (recoverStranded R c deps w)"
proof (induction deps arbitrary: w)
  case (Cons d deps)
  obtain js w1 where js: "c_JobState (cluster_of R) c (buildNamespace R d) (rd_job d) w = (js, w1)" by fastforce
  have w1: "le u w1" using up(18)[OF Cons.prems, of c "buildNamespace R d" "rd_job d"] js by simp
  then show ?case
    using Cons js by (auto split: sum.splits JobState.splits intro!: Cons.IH fail_up up)
qed simp

lemma expireOverdue_up: "le u w \<Longrightarrow> le u (expireOverdue R c deps w)"
  by (induction deps arbitrary: w) (auto intro: expire_up)

lemma Tick_up: "le u w \<Longrightarrow> pred_option (le u) (Tick R c w)"
proof -
  assume u: "le u w"
  have "le u (attempt (d_ListNonTerminal (deployments_of R) c w) (\<lambda>_ w. w)
      (\<lambda>deps w. expireOverdue R c deps (recoverStranded R c deps w)))"
    by (rule attempt_up[where world = id, simplified, OF up(3)[OF u]])
      (auto intro: expireOverdue_up recoverStranded_up)
  then show ?thesis
    unfolding Tick_def Let_def
    by (intro attempt_opt[OF up(1)]) (auto simp: option.pred_map comp_def intro: Drive_up)
qed

lemma sweep_list_up: "le u w \<Longrightarrow> pred_option (le u) (sweep_list R c deps w)"
proof (induction deps arbitrary: w)
  case (Cons d deps)
  then show ?case
    using Drive_up[OF Cons.prems, of c d] by (cases "Drive R c d w") auto
qed simp

lemma SweepInFlight_up: "le u w \<Longrightarrow> pred_option (le u) (SweepInFlight R c w)"
  unfolding SweepInFlight_def by (rule attempt_opt[OF up(3)]) (auto intro: sweep_list_up)

lemma reap_up: "le u w \<Longrightarrow> le u (reap R c slugs candidates w)"
  by (induction candidates arbitrary: w) (auto intro: up)

lemma ReapOrphanNamespaces_up: "le u w \<Longrightarrow> le u (ReapOrphanNamespaces R c now w)"
  unfolding ReapOrphanNamespaces_def
  by (intro attempt_up[where world = id, simplified] up reap_up; simp)

lemma police_up: "le u w \<Longrightarrow> le u (police R c slugs w)"
  by (induction slugs arbitrary: w) (auto intro: up)

lemma PolicySweep_up: "le u w \<Longrightarrow> le u (PolicySweep R c w)"
  unfolding PolicySweep_def by (intro attempt_up[where world = id, simplified] up police_up; simp)

lemma run_events_up: "le u w \<Longrightarrow> pred_option (le u) (run_events R c es w)"
proof (induction es arbitrary: w)
  case (Cons e es)
  show ?case
    using Cons Tick_up[OF Cons.prems, of c] ReapOrphanNamespaces_up[OF Cons.prems]
    by (cases e; cases "Tick R c w") auto
qed simp

theorem Run_up: "le u w \<Longrightarrow> pred_option (le u) (Run R c es w)"
proof -
  assume "le u w"
  then have "pred_option (le u) (SweepInFlight R c (PolicySweep R c w))" by (intro SweepInFlight_up PolicySweep_up)
  then show ?thesis
    unfolding Run_def
    by (cases "SweepInFlight R c (PolicySweep R c w)") (auto intro: run_events_up ReapOrphanNamespaces_up)
qed

end

section \<open>Every single call moves the world up\<close>

locale world_order =
  fixes R :: "'w Reconciler" and le :: "'w \<Rightarrow> 'w \<Rightarrow> bool"
  assumes every_refl: "le w w"
    and every_trans: "le u v \<Longrightarrow> le v w \<Longrightarrow> le u w"
    and every_claim: "le w (snd (d_ClaimNext (deployments_of R) c p w))"
    and every_release_claim: "le w (snd (d_ReleaseClaim (deployments_of R) c i w))"
    and every_list: "le w (snd (d_ListNonTerminal (deployments_of R) c w))"
    and every_transition: "le w (snd (d_Transition (deployments_of R) c i s reason detail w))"
    and every_record: "le w (snd (d_RecordBuild (deployments_of R) c i p j repo dig w))"
    and every_healthy: "le w (snd (d_MarkHealthy (deployments_of R) c i cfg w))"
    and every_app: "le w (snd (a_Get (apps_of R) c i w))"
    and every_config: "le w (snd (a_ConfigForDeploy (apps_of R) c i w))"
    and every_snapshot: "le w (snd (a_ReleaseSnapshot (apps_of R) c i w))"
    and every_slugs: "le w (snd (a_LiveAppSlugs (apps_of R) c w))"
    and every_upload: "le w (snd (u_Get (uploads_of R) c i w))"
    and every_open: "le w (snd (u_Open (uploads_of R) p w))"
    and every_mint: "le w (snd (u_MintFetchToken (uploads_of R) c i w))"
    and every_remove: "le w (u_Remove (uploads_of R) c p w)"
    and every_digest: "le w (snd (r_Digest (registry_of R) c repo tag w))"
    and every_user: "le w (snd (r_ImageUser (registry_of R) c repo dig w))"
    and every_create_job: "le w (snd (c_CreateJob (cluster_of R) c job w))"
    and every_job_state: "le w (snd (c_JobState (cluster_of R) c ns n w))"
    and every_secret: "le w (snd (c_ApplySecret (cluster_of R) c sec w))"
    and every_namespace: "le w (snd (c_EnsureNamespace (cluster_of R) c nsp rb quota lr w))"
    and every_policies: "le w (snd (c_ApplyNetworkPolicies (cluster_of R) c ps w))"
    and every_namespaces: "le w (snd (c_AppNamespaces (cluster_of R) c w))"
    and every_older: "le w (snd (c_AppNamespacesOlderThan (cluster_of R) c now grace w))"
    and every_delete_ns: "le w (snd (c_DeleteNamespace (cluster_of R) c slug w))"
    and every_workload: "le w (snd (c_ApplyWorkload (cluster_of R) c wl sv ig w))"
    and every_ready: "le w (snd (c_WorkloadReady (cluster_of R) c ns n w))"
    and every_delete_job: "le w (snd (c_DeleteJob (cluster_of R) c ns n w))"
    and every_select: "le w (snd (t_select (runtime_of R) iv ph w))"
begin

lemma applyApp_moves: "le w (snd (snd (applyApp R c d app config w)))"
proof -
  have attempt_keeps: "le u (snd (snd (attempt x bad good)))"
    if "le u (snd x)" "\<And>e w. le u w \<Longrightarrow> le u (snd (snd (bad e w)))" "\<And>a w. le u w \<Longrightarrow> le u (snd (snd (good a w)))"
    for u and x :: "('e + 'a) \<times> 'w" and bad and good :: "'a \<Rightarrow> 'w \<Rightarrow> 'w outcome"
    using that by (cases x; cases "fst x") auto
  have failing_keeps: "le u (snd (snd (failing d reason e w)))" if "le u w" for u w d reason e
    using that by (simp add: failing_def)
  show ?thesis
    unfolding applyApp_def Let_def
    by (intro attempt_keeps failing_keeps every_trans[OF _ every_namespace] every_trans[OF _ every_policies]
        every_trans[OF _ every_secret] every_trans[OF _ every_workload] every_refl; simp add: every_refl)
qed

end

sublocale world_order \<subseteq> calls_frame R le
  by unfold_locales (rule every_refl every_trans every_claim every_release_claim every_list every_transition every_record every_healthy
    every_app every_config every_snapshot every_slugs every_upload every_open every_mint every_remove every_digest every_user
    every_create_job every_job_state every_secret every_namespace every_policies every_namespaces every_older every_delete_ns
    every_ready every_delete_job every_select applyApp_moves; assumption)+

section \<open>Time passes, so every loop ends\<close>

locale clockwork = world_order R "\<lambda>v w. t_now (runtime_of R) v \<le> t_now (runtime_of R) w"
  for R :: "'w Reconciler" +
  assumes timer: "t_select (runtime_of R) iv ph w = (True, w') \<Longrightarrow>
      t_now (runtime_of R) w + iv \<le> t_now (runtime_of R) w'"
begin

definition ticking :: bool where
  "ticking \<longleftrightarrow> 0 < o_ReconcileInterval (opts R)"

lemma wait_advances:
  assumes "wait R c phase app reason d w = (None, d2, w2)" "ctx_deadline phase = Some t" "ticking"
  shows "t_now (runtime_of R) w < t_now (runtime_of R) w2 \<and> t_now (runtime_of R) w < t"
proof -
  obtain fired w1 where sel: "t_select (runtime_of R) (o_ReconcileInterval (opts R)) phase w = (fired, w1)"
    by fastforce
  have ok: "fired" "\<not> ctx_err R phase w1" "blocked R c app d w1 = (None, d2, w2)"
    using assms(1) sel by (auto simp: wait_def failing_def split: if_splits)
  have "t_now (runtime_of R) w < t_now (runtime_of R) w1"
    using timer[of "o_ReconcileInterval (opts R)" phase w w1] sel ok(1) assms(3) by (simp add: ticking_def)
  moreover have "t_now (runtime_of R) w1 \<le> t_now (runtime_of R) w2"
    using blocked_up[of w1 w1 c app d] ok(3) by simp
  moreover have "t_now (runtime_of R) w1 < t" using ok(2) assms(2) by (simp add: ctx_err_def)
  ultimately show ?thesis by linarith
qed

lemma build_loop_returns: "ctx_deadline phase = Some t \<Longrightarrow> ticking \<Longrightarrow> build_loop R c phase d w \<noteq> None"
proof (induction "nat (t - t_now (runtime_of R) w)" arbitrary: d w rule: less_induct)
  case less
  obtain js w1 where js: "c_JobState (cluster_of R) phase (buildNamespace R d) (JobName (rd_id d)) w = (js, w1)"
    by fastforce
  have w1: "t_now (runtime_of R) w \<le> t_now (runtime_of R) w1"
    using job_state_step[of w phase "buildNamespace R d" "JobName (rd_id d)"] js by simp
  have again: "build_loop R c phase d2 w2 \<noteq> None"
    if "wait R c phase (rd_app d) ReasonBuildFailed d w1 = (None, d2, w2)" for d2 w2
    using wait_advances[OF that less.prems] w1 by (intro less.hyps less.prems) linarith
  obtain f d2 w2 where wt: "wait R c phase (rd_app d) ReasonBuildFailed d w1 = (f, d2, w2)" by (rule prod_cases3)
  have "f = None \<Longrightarrow> build_loop R c phase d2 w2 \<noteq> None" using again wt by simp
  then show ?case
    unfolding build_loop.simps[of R c phase d w] js
    by (cases js; cases f; simp add: wt del: not_None_eq split: JobState.splits)
qed

lemma ready_loop_returns: "ctx_deadline phase = Some t \<Longrightarrow> ticking \<Longrightarrow> ready_loop R c phase app d w \<noteq> None"
proof (induction "nat (t - t_now (runtime_of R) w)" arbitrary: d w rule: less_induct)
  case less
  obtain js w1 where js: "c_WorkloadReady (cluster_of R) phase (NamespaceName (ra_slug app)) WorkloadName w = (js, w1)"
    by fastforce
  have w1: "t_now (runtime_of R) w \<le> t_now (runtime_of R) w1"
    using ready_step[of w phase "NamespaceName (ra_slug app)" WorkloadName] js by simp
  have again: "ready_loop R c phase app d2 w2 \<noteq> None"
    if "wait R c phase (ra_id app) ReasonAppNeverReady d w1 = (None, d2, w2)" for d2 w2
    using wait_advances[OF that less.prems] w1 by (intro less.hyps less.prems) linarith
  obtain f d2 w2 where wt: "wait R c phase (ra_id app) ReasonAppNeverReady d w1 = (f, d2, w2)" by (rule prod_cases3)
  have "f = None \<Longrightarrow> ready_loop R c phase app d2 w2 \<noteq> None" using again wt by simp
  then show ?case
    unfolding ready_loop.simps[of R c phase app d w] js
    by (cases f; simp add: wt del: not_None_eq)
qed

lemma awaitBuild_returns: "ticking \<Longrightarrow> awaitBuild R c d w \<noteq> None"
  unfolding awaitBuild_def by (rule build_loop_returns) (simp add: WithTimeout_def Let_def)

lemma awaitReady_returns: "ticking \<Longrightarrow> awaitReady R c app d w \<noteq> None"
  unfolding awaitReady_def by (rule ready_loop_returns) (simp add: WithTimeout_def Let_def)

lemma or_stop_returns: "(\<And>d w. k d w \<noteq> None) \<Longrightarrow> or_stop r k \<noteq> None"
  by (cases r; cases "fst r") (simp_all add: or_stop_def)

lemma attempt_returns: "(\<And>e w. bad e w \<noteq> None) \<Longrightarrow> (\<And>a w. good a w \<noteq> None) \<Longrightarrow> attempt x bad good \<noteq> None"
  by (cases x; cases "fst x") (simp_all add: attempt_def)

lemma bind_returns: "r \<noteq> None \<Longrightarrow> (\<And>x. k x \<noteq> None) \<Longrightarrow> Option.bind r k \<noteq> None"
  by (cases r) simp_all

lemma if_returns: "(P \<Longrightarrow> a \<noteq> None) \<Longrightarrow> (\<not> P \<Longrightarrow> b \<noteq> None) \<Longrightarrow> (if P then a else b) \<noteq> None"
  by simp

lemma in_state_returns: "(\<And>d w. act d w \<noteq> None) \<Longrightarrow> (\<And>d w. k d w \<noteq> None) \<Longrightarrow> in_state s act k d w \<noteq> None"
  unfolding in_state_def by (intro if_returns bind_returns or_stop_returns)

lemma deployApp_returns: "ticking \<Longrightarrow> deployApp R c d app w \<noteq> None"
  unfolding deployApp_def
  by (intro if_returns attempt_returns or_stop_returns bind_returns awaitReady_returns option.distinct(2))

lemma run_returns: "ticking \<Longrightarrow> run R c dep upload err w \<noteq> None"
  unfolding run_def
  by (cases err; simp only: option.case;
      intro attempt_returns in_state_returns or_stop_returns awaitBuild_returns deployApp_returns option.distinct(2))

lemma case_prod_returns: "(\<And>a b. f a b \<noteq> None) \<Longrightarrow> (case p of (a, b) \<Rightarrow> f a b) \<noteq> None"
  by (cases p) simp

lemma Drive_returns: "ticking \<Longrightarrow> Drive R c dep w \<noteq> None"
  unfolding Drive_def Let_def
  by (intro if_returns case_prod_returns bind_returns run_returns option.distinct(2))

lemma Tick_returns: "ticking \<Longrightarrow> Tick R c w \<noteq> None"
  unfolding Tick_def Let_def by (intro attempt_returns) (simp_all add: Drive_returns del: not_None_eq)

lemma sweep_list_returns: "ticking \<Longrightarrow> sweep_list R c deps w \<noteq> None"
proof (induction deps arbitrary: w)
  case (Cons d deps)
  then show ?case unfolding sweep_list.simps
    by (intro if_returns bind_returns Drive_returns) (simp_all del: not_None_eq split: prod.split)
qed simp

lemma run_events_returns: "ticking \<Longrightarrow> run_events R c es w \<noteq> None"
proof (induction es arbitrary: w)
  case (Cons e es)
  then show ?case
    unfolding run_events.simps
    by (cases e; simp only: run_event.case; intro if_returns bind_returns Tick_returns option.distinct(2) Cons.IH)
qed simp

theorem Run_returns: "ticking \<Longrightarrow> Run R c es w \<noteq> None"
  unfolding Run_def SweepInFlight_def
  by (intro bind_returns attempt_returns sweep_list_returns run_events_returns option.distinct(2))

end

end
