(* ===== verification/Reconcile_Ledger.thy ===== *)
theory Reconcile_Ledger
  imports Reconcile_Laws
begin

text \<open>
  What the persistence behind the loop promises about a deployment's row, and the outcome of a
  drive under that promise.
\<close>

section \<open>The promise\<close>

locale ledger = world_order R le for R :: "'w Reconciler" and le :: "'w \<Rightarrow> 'w \<Rightarrow> bool" +
  fixes inv :: "'w \<Rightarrow> bool" and row :: "'w \<Rightarrow> ident \<Rightarrow> State option"
  assumes inv_up: "inv w \<Longrightarrow> le w w' \<Longrightarrow> inv w'"
    and stable: "inv w \<Longrightarrow> le w w' \<Longrightarrow> row w i = Some s \<Longrightarrow> Terminal s \<Longrightarrow> row w' i = Some s"
    and moved_row: "inv w \<Longrightarrow> d_Transition (deployments_of R) c i s reason detail w = (Inr (), w') \<Longrightarrow> row w' i = Some s"
    and beaten: "inv w \<Longrightarrow> d_Transition (deployments_of R) c i s reason detail w = (Inl ErrNotInFlight, w') \<Longrightarrow>
      \<exists>t. row w' i = Some t \<and> Terminal t"
    and promoted: "inv w \<Longrightarrow> d_MarkHealthy (deployments_of R) c i cfg w = (Inr rel, w') \<Longrightarrow> row w' i = Some StateHealthy"
    and beaten_healthy: "inv w \<Longrightarrow> d_MarkHealthy (deployments_of R) c i cfg w = (Inl ErrNotInFlight, w') \<Longrightarrow>
      \<exists>t. row w' i = Some t \<and> Terminal t"
    and app_honest: "fst (a_Get (apps_of R) c i w) \<noteq> Inl ErrNotInFlight"
    and config_honest: "fst (a_ConfigForDeploy (apps_of R) c i w) \<noteq> Inl ErrNotInFlight"
    and snapshot_honest: "fst (a_ReleaseSnapshot (apps_of R) c i w) \<noteq> Inl ErrNotInFlight"
    and upload_honest: "fst (u_Get (uploads_of R) c i w) \<noteq> Inl ErrNotInFlight"
    and open_honest: "fst (u_Open (uploads_of R) p w) \<noteq> Inl ErrNotInFlight"
    and mint_honest: "fst (u_MintFetchToken (uploads_of R) c i w) \<noteq> Inl ErrNotInFlight"
    and record_honest: "fst (d_RecordBuild (deployments_of R) c i p j repo dig w) \<noteq> Inl ErrNotInFlight"
    and digest_honest: "fst (r_Digest (registry_of R) c repo tag w) \<noteq> Inl ErrNotInFlight"
    and user_honest: "fst (r_ImageUser (registry_of R) c repo dig w) \<noteq> Inl ErrNotInFlight"
    and create_job_honest: "fst (c_CreateJob (cluster_of R) c job w) \<noteq> Inl ErrNotInFlight"
    and secret_honest: "fst (c_ApplySecret (cluster_of R) c sec w) \<noteq> Inl ErrNotInFlight"
    and namespace_honest: "fst (c_EnsureNamespace (cluster_of R) c nsp rb quota lr w) \<noteq> Inl ErrNotInFlight"
    and policies_honest: "fst (c_ApplyNetworkPolicies (cluster_of R) c ps w) \<noteq> Inl ErrNotInFlight"
    and workload_honest: "fst (c_ApplyWorkload (cluster_of R) c wl sv ig w) \<noteq> Inl ErrNotInFlight"
begin

lemmas keeps_inv = calls[THEN inv_up[rotated]] inv_up[OF _ every_workload]

definition ended :: "'w \<Rightarrow> ident \<Rightarrow> bool" where
  "ended w i \<longleftrightarrow> (\<exists>s. row w i = Some s \<and> Terminal s)"

text \<open>A step told the truth about the row \<open>i\<close> when a failure that says so really found it ended.\<close>

definition told :: "ident \<Rightarrow> 'w outcome \<Rightarrow> bool" where
  "told i r \<longleftrightarrow> (case r of (f, d, w) \<Rightarrow> rd_id d = i \<and> inv w \<and>
     (\<forall>x. f = Some x \<and> f_err x = ErrNotInFlight \<longrightarrow> ended w i))"

definition told_all :: "ident \<Rightarrow> 'w outcome \<Rightarrow> bool" where
  "told_all i r \<longleftrightarrow> told i r \<and> (fst r = None \<longrightarrow> row (snd (snd r)) i = Some StateHealthy)"

lemma ended_up: "inv w \<Longrightarrow> le w w' \<Longrightarrow> ended w i \<Longrightarrow> ended w' i"
  unfolding ended_def using stable by blast

lemma told_failing: "inv w \<Longrightarrow> rd_id d = i \<Longrightarrow> e \<noteq> ErrNotInFlight \<Longrightarrow> told i (failing d reason e w)"
  by (simp add: told_def failing_def)

lemma told_attempt:
  assumes "inv (snd r)" "rd_id d = i" "fst r \<noteq> Inl ErrNotInFlight" "\<And>a w. inv w \<Longrightarrow> told i (good a w)"
  shows "told i (attempt r (failing d reason) good)"
  using assms by (cases r; cases "fst r") (auto simp: attempt_def told_def failing_def)

lemma told_and_then:
  assumes "told i r" "\<And>d w. rd_id d = i \<Longrightarrow> inv w \<Longrightarrow> told i (k d w)"
  shows "told i (and_then r k)"
  using assms by (cases r; cases "fst r") (auto simp: and_then_def told_def)

lemma told_or_stop:
  assumes "told i r" "\<And>d w. rd_id d = i \<Longrightarrow> inv w \<Longrightarrow> pred_option (told i) (k d w)"
  shows "pred_option (told i) (or_stop r k)"
  using assms by (cases r; cases "fst r") (auto simp: or_stop_def told_def)

lemma told_all_or_stop:
  assumes "told i r" "\<And>d w. rd_id d = i \<Longrightarrow> inv w \<Longrightarrow> pred_option (told_all i) (k d w)"
  shows "pred_option (told_all i) (or_stop r k)"
  using assms by (cases r; cases "fst r") (auto simp: or_stop_def told_def told_all_def)

lemma told_in_state:
  assumes "\<And>d w. rd_id d = i \<Longrightarrow> inv w \<Longrightarrow> pred_option (told i) (act d w)"
    and "\<And>d w. rd_id d = i \<Longrightarrow> inv w \<Longrightarrow> pred_option (told_all i) (k d w)"
    and "rd_id d = i" "inv w"
  shows "pred_option (told_all i) (in_state s act k d w)"
proof (cases "act d w")
  case (Some r)
  then have "told i r" using assms(1)[OF assms(3,4)] by simp
  then show ?thesis using Some assms by (auto simp: in_state_def intro!: told_all_or_stop)
qed (use assms in \<open>auto simp: in_state_def\<close>)

lemma told_blocked: "inv w \<Longrightarrow> rd_id d = i \<Longrightarrow> told i (blocked R c app d w)"
  unfolding blocked_def overBudget_def
  by (auto intro!: told_attempt keeps_inv app_honest simp: told_def[of _ "(_, _)"] told_failing split: option.splits)

lemma told_move: "inv w \<Longrightarrow> rd_id d = i \<Longrightarrow> told i (move R c d s w)"
proof -
  assume w: "inv w" "rd_id d = i"
  obtain r w' where r: "d_Transition (deployments_of R) c (rd_id d) s [] [] w = (r, w')" by fastforce
  have "inv w'" using keeps_inv(4)[OF w(1), of c "rd_id d" s "[]" "[]"] r by simp
  then show ?thesis
    using r w beaten[OF w(1), of c "rd_id d" s "[]" "[]" w']
    by (cases r) (auto simp: move_def attempt_def failing_def told_def ended_def)
qed

lemma told_wait: "inv w \<Longrightarrow> rd_id d = i \<Longrightarrow> told i (wait R c phase app reason d w)"
proof -
  assume w: "inv w" "rd_id d = i"
  obtain fired w' where r: "t_select (runtime_of R) (o_ReconcileInterval (opts R)) phase w = (fired, w')" by fastforce
  have "inv w'" using keeps_inv(27)[OF w(1), of "o_ReconcileInterval (opts R)" phase] r by simp
  then show ?thesis using r w(2) by (auto simp: wait_def intro: told_blocked told_failing)
qed

lemma told_buildPath:
  assumes "inv w" "rd_id d = i" "\<And>p w. inv w \<Longrightarrow> told i (k p w)"
  shows "told i (attempt (buildPath R upload w) (\<lambda>f w. (Some f, d, w)) k)"
proof -
  obtain r w' where r: "u_Open (uploads_of R) (ru_path upload) w = (r, w')" by fastforce
  have w': "inv w'" using keeps_inv(12)[OF assms(1), of "ru_path upload"] r by simp
  have "r \<noteq> Inl ErrNotInFlight" using open_honest[of "ru_path upload" w] r by simp
  then show ?thesis
    using w' assms(2) r assms(3)[OF w']
    by (auto simp: buildPath_def attempt_def told_def split: sum.splits src_error.splits)
qed

lemma told_startBuild: "inv w \<Longrightarrow> rd_id d = i \<Longrightarrow> told i (startBuild R c d app upload w)"
  unfolding startBuild_def Let_def
  by (intro told_and_then told_buildPath told_attempt told_move keeps_inv mint_honest create_job_honest
      secret_honest record_honest; simp add: told_def)

lemma told_resolveImage: "inv w \<Longrightarrow> rd_id d = i \<Longrightarrow> told i (resolveImage R c d app w)"
  unfolding resolveImage_def Let_def
  by (auto intro!: told_attempt told_move told_failing keeps_inv digest_honest user_honest record_honest)

lemma told_applyApp: "inv w \<Longrightarrow> rd_id d = i \<Longrightarrow> told i (applyApp R c d app config w)"
  unfolding applyApp_def Let_def
  by (intro told_attempt keeps_inv namespace_honest policies_honest secret_honest workload_honest;
      simp add: told_def)

lemma told_build_loop:
  assumes "build_loop R' c phase d w = Some r" "R' = R" "inv w" "rd_id d = i"
  shows "told i r"
proof -
  have "R' = R \<longrightarrow> inv w \<longrightarrow> rd_id d = i \<longrightarrow> told i r"
  proof (rule build_loop.raw_induct[where P = "\<lambda>R' c phase d w r. R' = R \<longrightarrow> inv w \<longrightarrow> rd_id d = i \<longrightarrow> told i r"],
      goal_cases)
    case (1 loop R' c phase d w r)
    have "told i r" if eq: "R' = R" and w: "inv w" and d: "rd_id d = i"
    proof -
      obtain js w1 where js: "c_JobState (cluster_of R) phase (buildNamespace R d) (JobName (rd_id d)) w = (js, w1)"
        by fastforce
      have w1: "inv w1" using keeps_inv(18)[OF w, of phase "buildNamespace R d" "JobName (rd_id d)"] js by simp
      obtain f d2 w2 where wt: "wait R c phase (rd_app d) ReasonBuildFailed d w1 = (f, d2, w2)"
        by (rule prod_cases3)
      have t: "told i (f, d2, w2)" using told_wait[OF w1 d, of c phase "rd_app d" ReasonBuildFailed] wt by simp
      then have again: "loop R' c phase d2 w2 = Some r \<Longrightarrow> told i r" using "1"(1) eq by (auto simp: told_def)
      show "told i r"
        using "1"(2) js w1 wt t again told_move[OF w1 d] told_failing[OF w1 d] eq
        by (cases js; cases f) (auto split: JobState.splits)
    qed
    then show ?case by blast
  qed (rule assms(1))
  then show ?thesis using assms(2-4) by blast
qed

lemma told_awaitBuild: "inv w \<Longrightarrow> rd_id d = i \<Longrightarrow> pred_option (told i) (awaitBuild R c d w)"
  unfolding awaitBuild_def by (cases "build_loop R c (WithTimeout R c (o_BuildTimeout (opts R)) w) d w")
    (auto intro: told_build_loop[OF _ refl])

lemma told_ready_loop:
  assumes "ready_loop R' c phase app d w = Some r" "R' = R" "inv w" "rd_id d = i"
  shows "told i r"
proof -
  have "R' = R \<longrightarrow> inv w \<longrightarrow> rd_id d = i \<longrightarrow> told i r"
  proof (rule ready_loop.raw_induct[where P = "\<lambda>R' c phase app d w r. R' = R \<longrightarrow> inv w \<longrightarrow> rd_id d = i \<longrightarrow> told i r"],
      goal_cases)
    case (1 loop R' c phase app d w r)
    have "told i r" if eq: "R' = R" and w: "inv w" and d: "rd_id d = i"
    proof -
      obtain js w1 where js: "c_WorkloadReady (cluster_of R) phase (NamespaceName (ra_slug app)) WorkloadName w = (js, w1)"
        by fastforce
      have w1: "inv w1" using keeps_inv(25)[OF w, of phase "NamespaceName (ra_slug app)" WorkloadName] js by simp
      obtain f d2 w2 where wt: "wait R c phase (ra_id app) ReasonAppNeverReady d w1 = (f, d2, w2)"
        by (rule prod_cases3)
      have t: "told i (f, d2, w2)" using told_wait[OF w1 d, of c phase "ra_id app" ReasonAppNeverReady] wt by simp
      then have again: "loop R' c phase app d2 w2 = Some r \<Longrightarrow> told i r" using "1"(1) eq by (auto simp: told_def)
      show "told i r"
        using "1"(2) js w1 wt t again eq d by (cases f) (auto simp: told_def split: if_splits)
    qed
    then show ?case by blast
  qed (rule assms(1))
  then show ?thesis using assms(2-4) by blast
qed

lemma told_awaitReady: "inv w \<Longrightarrow> rd_id d = i \<Longrightarrow> pred_option (told i) (awaitReady R c app d w)"
  unfolding awaitReady_def by (cases "ready_loop R c (WithTimeout R c (o_ReadyTimeout (opts R)) w) app d w")
    (auto intro: told_ready_loop[OF _ refl])

lemma told_bind:
  assumes "pred_option P r" "\<And>x. P x \<Longrightarrow> pred_option Q (k x)"
  shows "pred_option Q (Option.bind r k)"
  using assms by (cases r) auto

lemma told_promote:
  assumes "inv w" "rd_id d = i"
  shows "told_all i (attempt (d_MarkHealthy (deployments_of R) c (rd_id d) cfg w) (failing d ReasonInternal)
    (\<lambda>_ w. (None, d\<lparr>rd_state := StateHealthy\<rparr>, w)))"
proof -
  obtain r w' where r: "d_MarkHealthy (deployments_of R) c (rd_id d) cfg w = (r, w')" by fastforce
  have "inv w'" using keeps_inv(6)[OF assms(1), of c "rd_id d" cfg] r by simp
  then show ?thesis
    using r assms(2) promoted[OF assms(1), of c "rd_id d" cfg _ w'] beaten_healthy[OF assms(1), of c "rd_id d" cfg w']
    by (cases r) (auto simp: attempt_def failing_def told_all_def told_def ended_def)
qed

lemma told_all_and_then:
  assumes "told i r" "\<And>d w. rd_id d = i \<Longrightarrow> inv w \<Longrightarrow> told_all i (k d w)"
  shows "told_all i (and_then r k)"
  using assms by (cases r; cases "fst r") (auto simp: and_then_def told_def told_all_def)

lemma told_all_failing: "inv w \<Longrightarrow> rd_id d = i \<Longrightarrow> e \<noteq> ErrNotInFlight \<Longrightarrow> told_all i (failing d reason e w)"
  by (simp add: told_all_def told_def failing_def)

lemma told_all_attempt:
  assumes "inv (snd r)" "rd_id d = i" "fst r \<noteq> Inl ErrNotInFlight"
    and "\<And>a w. inv w \<Longrightarrow> pred_option (told_all i) (good a w)"
  shows "pred_option (told_all i) (attempt r (\<lambda>e w. Some (failing d reason e w)) good)"
  using assms by (cases r; cases "fst r") (auto simp: attempt_def intro: told_all_failing)

lemma config_inv: "inv w \<Longrightarrow> inv (snd (deployConfig R c d app w))"
  unfolding deployConfig_def by (auto intro: keeps_inv)

lemma deploy_config_honest: "fst (deployConfig R c d app w) \<noteq> Inl ErrNotInFlight"
  unfolding deployConfig_def by (auto simp: config_honest snapshot_honest)

lemma told_deployApp:
  assumes "inv w" "rd_id d = i"
  shows "pred_option (told_all i) (deployApp R c d app w)"
  unfolding deployApp_def
  by (cases "rd_digest d = []")
    (auto simp: assms told_all_failing intro!: told_all_attempt told_all_or_stop told_applyApp config_inv
      deploy_config_honest told_bind[OF told_awaitReady] told_all_and_then told_promote)

lemma told_run:
  assumes "inv w" "rd_id d = i" "err \<noteq> Some ErrNotInFlight"
  shows "pred_option (told_all i) (run R c d upload err w)"
proof -
  have later: "pred_option (told_all i)
     (in_state StateQueued
        (\<lambda>d w. or_stop (blocked R c (rd_app d) d w) (\<lambda>d w.
           Some (if Rollback d then move R c d StateDeploying w else startBuild R c d app upload w)))
     (in_state StateBuilding
        (\<lambda>d w. or_stop (blocked R c (rd_app d) d w) (awaitBuild R c))
     (in_state StatePushing
        (\<lambda>d w. or_stop (blocked R c (rd_app d) d w) (\<lambda>d w. Some (resolveImage R c d app w)))
     (\<lambda>d w. or_stop (blocked R c (rd_app d) d w) (\<lambda>d w. deployApp R c d app w)))) d w)"
    if "inv w" for app w
    by (intro told_in_state told_or_stop told_all_or_stop told_blocked told_awaitBuild told_deployApp)
      (auto intro: told_move told_startBuild told_resolveImage that assms(2))
  show ?thesis
    unfolding run_def
    by (rule told_all_attempt[OF keeps_inv(7)[OF assms(1)] assms(2) app_honest])
      (use assms(3) in \<open>auto split: option.splits intro: later told_all_failing[OF _ assms(2)]\<close>)
qed

section \<open>What a drive reports is so\<close>

definition reported :: "ident \<Rightarrow> drive_log \<times> 'w \<Rightarrow> bool" where
  "reported i r \<longleftrightarrow> inv (snd r) \<and>
     (case fst r of
        BecameHealthy \<Rightarrow> row (snd r) i = Some StateHealthy
      | FailureRecorded _ \<Rightarrow> row (snd r) i = Some StateFailed
      | EndedMeanwhile \<Rightarrow> ended (snd r) i
      | FailureLost _ \<Rightarrow> True)"

lemma reported_up: "reported i (log, w) \<Longrightarrow> le w w' \<Longrightarrow> reported i (log, w')"
  unfolding reported_def
  by (auto intro: inv_up stable ended_up split: drive_log.splits)

lemma fail_reports: "inv w \<Longrightarrow> reported i (fail R c i f w)"
proof -
  assume w: "inv w"
  let ?c = "WithTimeout R (WithoutCancel c) 10000000000 w"
  obtain r w' where r: "d_Transition (deployments_of R) ?c i StateFailed (reason_code (f_reason f))
      (Message (reason_code (f_reason f))) w = (r, w')" by fastforce
  have "inv w'" using keeps_inv(4)[OF w, of ?c i StateFailed] r by (metis snd_conv)
  then show ?thesis
    using r moved_row[OF w, of ?c i StateFailed _ _ w'] beaten[OF w, of ?c i StateFailed _ _ w']
    by (cases r) (auto simp: fail_def Let_def attempt_def reported_def ended_def)
qed

lemma deleteBuildJob_inv: "inv w \<Longrightarrow> inv (deleteBuildJob R c d w)"
  by (rule inv_up[OF _ deleteBuildJob_up[OF le_refl]])

lemma settle_reports: "told_all i r \<Longrightarrow> reported i (settle R c rc r)"
  unfolding settle_def Let_def
  by (cases r; cases "fst r")
    (auto simp: told_all_def told_def fail_reports deleteBuildJob_inv reported_def[of _ "(_, _)"])

lemma expire_reports: "inv w \<Longrightarrow> reported (rd_id d) (expire R c d w)"
proof -
  assume w: "inv w"
  let ?f = "\<lparr>f_reason = ReasonTimeout, f_err = OtherErr\<rparr>"
  obtain log w1 where f: "fail R c (rd_id d) ?f (deleteBuildJob R c d w) = (log, w1)" by fastforce
  have r1: "reported (rd_id d) (log, w1)" using fail_reports[OF deleteBuildJob_inv[OF w], of "rd_id d" c ?f c d] f by simp
  obtain u w2 where g: "u_Get (uploads_of R) c (rd_upload d) w1 = (u, w2)" by fastforce
  have "le w1 w2" using upload_step[of w1 c "rd_upload d"] g by simp
  then have "reported (rd_id d) (log, w2)" by (rule reported_up[OF r1])
  then show ?thesis
    using f g by (cases u) (auto simp: expire_def Let_def attempt_def intro: reported_up remove_step)
qed

theorem Drive_reports:
  assumes w: "inv w"
  shows "pred_option (reported (rd_id d)) (Drive R c d w)"
proof (cases "remainingBudget R d w \<le> 0")
  case True
  then show ?thesis by (simp add: Drive_def expire_reports[OF w])
next
  case False
  let ?rc = "WithTimeout R c (remainingBudget R d w) w"
  obtain upload err w1 where g: "(if Rollback d then (no_upload, None, w)
      else attempt (u_Get (uploads_of R) ?rc (rd_upload d) w)
        (\<lambda>e w. (no_upload, Some e, w)) (\<lambda>u w. (u, None, w))) = (upload, err, w1)" by (rule prod_cases3)
  obtain u w' where r: "u_Get (uploads_of R) ?rc (rd_upload d) w = (u, w')" by fastforce
  have "inv w'" using keeps_inv(11)[OF w, of ?rc "rd_upload d"] r by simp
  moreover have "u \<noteq> Inl ErrNotInFlight" using upload_honest[of ?rc "rd_upload d" w] r by simp
  ultimately have w1: "inv w1" "err \<noteq> Some ErrNotInFlight"
    using g r w by (cases u; auto simp: attempt_def split: if_splits)+
  have "pred_option (reported (rd_id d)) (Option.bind (run R ?rc d upload err w1) (\<lambda>r.
      case settle R c ?rc r of (log, w) \<Rightarrow>
        Some (log, if Rollback d then w else u_Remove (uploads_of R) c (ru_path upload) w)))"
  proof (rule told_bind[OF told_run[OF w1(1) refl w1(2)]])
    fix r :: "'w outcome" assume "told_all (rd_id d) r"
    then have "reported (rd_id d) (settle R c ?rc r)" by (rule settle_reports)
    then show "pred_option (reported (rd_id d)) (case settle R c ?rc r of (log, w) \<Rightarrow>
        Some (log, if Rollback d then w else u_Remove (uploads_of R) c (ru_path upload) w))"
      by (cases "settle R c ?rc r") (auto intro: reported_up remove_step)
  qed
  then show ?thesis using False g by (simp add: Drive_def Let_def)
qed

end

end
