(* ===== verification/Uploads_Service.thy ===== *)
theory Uploads_Service
  imports Store_Demo Source
begin

text \<open>
  \<^verbatim>\<open>internal/uploads/uploads.go\<close> over its narrow \<open>Store\<close> interface, and the adapter of
  \<^verbatim>\<open>internal/store/uploadadapter.go\<close> that satisfies it. The volume is a map from paths to
  bytes. SHA-256 in hexadecimal, the identifier, the random bytes and the stamps are arguments;
  a disk that fails on its own is left out, a body that stops being readable is not.
\<close>

section \<open>The service\<close>

datatype up_error = ErrTooLarge | ErrNotGzip | UpNotFound | UpExpired | UpRedeemed | ErrTooManyUnclaimed | UpFault

record Upload =
  up_id :: ident
  up_account :: ident
  up_path :: string
  up_size :: int
  up_sha :: string
  up_expires :: stamp
  up_redeemed :: bool

record New =
  n_id :: ident
  n_account :: ident
  n_path :: string
  n_size :: int
  n_sha :: string
  n_token_hash :: string
  n_expires :: stamp

record 's UploadStore =
  us_CreateUpload :: "New \<Rightarrow> int \<Rightarrow> 's \<Rightarrow> (up_error + Upload) \<times> 's"
  us_CountUnclaimed :: "ident \<Rightarrow> 's \<Rightarrow> (up_error + int) \<times> 's"
  us_ListSweepable :: "'s \<Rightarrow> (up_error + (ident \<times> string) list) \<times> 's"
  us_DeleteRow :: "ident \<Rightarrow> 's \<Rightarrow> (up_error + unit) \<times> 's"
  us_GetUpload :: "ident \<Rightarrow> 's \<Rightarrow> (up_error + Upload) \<times> 's"
  us_RedeemUpload :: "string \<Rightarrow> 's \<Rightarrow> (up_error + Upload) \<times> 's"
  us_SetFetchToken :: "ident \<Rightarrow> string \<Rightarrow> 's \<Rightarrow> (up_error + unit) \<times> 's"

type_synonym files = "string \<Rightarrow> string option"

record 's Service =
  sv_store :: "'s UploadStore"
  sv_dir :: string
  sv_maxBytes :: int
  sv_maxUnclaimed :: int
  sv_sha :: "string \<Rightarrow> string"

definition gzipMagic :: string where "gzipMagic = [CHR 0x1F, CHR 0x8B]"

definition checkGzip :: "string \<Rightarrow> up_error option" where
  "checkGzip content = (if take 2 content = gzipMagic then None else Some ErrNotGzip)"

text \<open>A body is the bytes it yields and whether it ends there rather than with an error.\<close>

definition write_body :: "'s Service \<Rightarrow> string \<Rightarrow> string \<times> bool \<Rightarrow> files \<Rightarrow> (up_error + int \<times> string) \<times> files" where
  "write_body sv path body fs =
     (if fs path \<noteq> None then (Inl UpFault, fs)
      else let content = take (nat (sv_maxBytes sv + 1)) (fst body);
               size = int (length content);
               fs1 = fs(path \<mapsto> content)
           in if \<not> snd body \<and> int (length (fst body)) \<le> sv_maxBytes sv then (Inl UpFault, fs1)
              else if sv_maxBytes sv < size then (Inl ErrTooLarge, fs1)
              else if size < int (length gzipMagic) then (Inl ErrNotGzip, fs1)
              else case checkGzip content of
                Some e \<Rightarrow> (Inl e, fs1) | None \<Rightarrow> (Inr (size, sv_sha sv content), fs1))"

definition discard :: "string \<Rightarrow> files \<Rightarrow> files" where
  "discard path fs = fs(path := None)"

definition too_many :: "'s Service \<Rightarrow> ident \<Rightarrow> 's \<Rightarrow> (up_error + unit) \<times> 's" where
  "too_many sv acc s =
     (if 0 < sv_maxUnclaimed sv
      then attempt (us_CountUnclaimed (sv_store sv) acc s) (\<lambda>e s. (Inl e, s))
        (\<lambda>held s. if sv_maxUnclaimed sv \<le> held then (Inl ErrTooManyUnclaimed, s) else (Inr (), s))
      else (Inr (), s))"

definition Accept :: "'s Service \<Rightarrow> ident \<Rightarrow> string \<times> bool \<Rightarrow> ident \<Rightarrow> string \<Rightarrow> stamp \<Rightarrow> 's \<times> files \<Rightarrow>
    (up_error + Upload) \<times> 's \<times> files" where
  "Accept sv acc body i seed expires v =
     (case v of (s, fs) \<Rightarrow>
      attempt (too_many sv acc s) (\<lambda>e s. (Inl e, s, fs)) (\<lambda>_ s.
      let path = PathJoin (sv_dir sv) i in
      attempt (write_body sv path body fs) (\<lambda>e fs. (Inl e, s, discard path fs)) (\<lambda>(size, sha) fs.
      attempt (us_CreateUpload (sv_store sv)
          \<lparr>n_id = i, n_account = acc, n_path = path, n_size = size, n_sha = sha,
           n_token_hash = sv_sha sv seed, n_expires = expires\<rparr> (sv_maxUnclaimed sv) s)
        (\<lambda>e s. (Inl e, s, discard path fs)) (\<lambda>up s. (Inr up, s, fs)))))"

definition Open :: "string \<Rightarrow> files \<Rightarrow> up_error + string" where
  "Open path fs = (case fs path of None \<Rightarrow> Inl UpFault | Some content \<Rightarrow> Inr content)"

definition Remove :: "string \<Rightarrow> files \<Rightarrow> files" where
  "Remove path fs = (if path = [] then fs else discard path fs)"

definition Redeem :: "'s Service \<Rightarrow> string \<Rightarrow> 's \<Rightarrow> (up_error + Upload) \<times> 's" where
  "Redeem sv raw s =
     (if raw = [] then (Inl UpNotFound, s) else us_RedeemUpload (sv_store sv) (sv_sha sv raw) s)"

definition MintFetchToken :: "'s Service \<Rightarrow> ident \<Rightarrow> string \<Rightarrow> 's \<Rightarrow> (up_error + string) \<times> 's" where
  "MintFetchToken sv i token s =
     attempt (us_SetFetchToken (sv_store sv) i (sv_sha sv token) s)
       (\<lambda>e s. (Inl e, s)) (\<lambda>_ s. (Inr token, s))"

fun sweep_rows :: "'s Service \<Rightarrow> (ident \<times> string) list \<Rightarrow> int \<Rightarrow> 's \<times> files \<Rightarrow> int \<times> 's \<times> files" where
  "sweep_rows sv [] n v = (n, v)"
| "sweep_rows sv ((i, path) # rows) n (s, fs) =
     attempt (us_DeleteRow (sv_store sv) i s)
       (\<lambda>e s. sweep_rows sv rows n (s, discard path fs))
       (\<lambda>_ s. sweep_rows sv rows (n + 1) (s, discard path fs))"

definition SweepExpired :: "'s Service \<Rightarrow> 's \<times> files \<Rightarrow> (up_error + int) \<times> 's \<times> files" where
  "SweepExpired sv v =
     (case v of (s, fs) \<Rightarrow>
      attempt (us_ListSweepable (sv_store sv) s) (\<lambda>e s. (Inl e, s, fs))
        (\<lambda>rows s. case sweep_rows sv rows 0 (s, fs) of (n, v) \<Rightarrow> (Inr n, v)))"

section \<open>Every file has its row\<close>

text \<open>What the service needs of its store so that no file is left on the volume without a row to
  find it by: \<open>path_of\<close> is the path column of the row under an id.\<close>

locale upload_rows =
  fixes U :: "'s UploadStore" and ok :: "'s \<Rightarrow> bool" and path_of :: "'s \<Rightarrow> ident \<Rightarrow> string option"
  assumes create_ok: "ok s \<Longrightarrow> n_id new \<noteq> [] \<Longrightarrow> us_CreateUpload U new lim s = (Inr u, s') \<Longrightarrow>
      ok s' \<and> path_of s' = (path_of s)(n_id new \<mapsto> n_path new) \<and> path_of s (n_id new) = None"
    and create_bad: "us_CreateUpload U new lim s = (Inl e, s') \<Longrightarrow> s' = s"
    and count_keeps: "snd (us_CountUnclaimed U acc s) = s"
    and list_keeps: "snd (us_ListSweepable U s) = s"
    and listed: "ok s \<Longrightarrow> us_ListSweepable U s = (Inr rows, s') \<Longrightarrow>
      distinct (map fst rows) \<and> (\<forall>(i, p) \<in> set rows. path_of s i = Some p)"
    and delete_drops: "ok s \<Longrightarrow> us_DeleteRow U i s = (r, s') \<Longrightarrow>
      ok s' \<and> (path_of s' = path_of s \<or> path_of s' = (path_of s)(i := None))"
    and redeem_keeps: "ok s \<Longrightarrow> ok (snd (us_RedeemUpload U h s)) \<and> path_of (snd (us_RedeemUpload U h s)) = path_of s"
    and token_keeps: "ok s \<Longrightarrow> ok (snd (us_SetFetchToken U i h s)) \<and> path_of (snd (us_SetFetchToken U i h s)) = path_of s"
begin

definition covered :: "'s \<times> files \<Rightarrow> bool" where
  "covered v \<longleftrightarrow> ok (fst v) \<and> dom (snd v) \<subseteq> ran (path_of (fst v))"

lemma too_many_keeps: "snd (too_many sv acc s) = s" if "sv_store sv = U"
  using count_keeps[of acc s] that
  by (cases "us_CountUnclaimed U acc s"; cases "fst (us_CountUnclaimed U acc s)") (auto simp: too_many_def)

lemma write_body_dom: "dom (snd (write_body sv path body fs)) \<subseteq> insert path (dom fs)"
  by (auto simp: write_body_def Let_def split: option.splits if_splits)

lemma dom_discard: "dom (discard path fs) = dom fs - {path}"
  by (auto simp: discard_def)

lemma Accept_covered:
  assumes "sv_store sv = U" "covered v" "i \<noteq> []"
  shows "covered (snd (Accept sv acc body i seed expires v))"
proof -
  obtain s fs where v: "v = (s, fs)" by fastforce
  obtain t s1 where t: "too_many sv acc s = (t, s1)" by fastforce
  have s1: "s1 = s" using too_many_keeps[OF assms(1), of acc s] t by simp
  let ?p = "PathJoin (sv_dir sv) i"
  obtain w fs1 where w: "write_body sv ?p body fs = (w, fs1)" by fastforce
  have fs1: "dom fs1 \<subseteq> insert ?p (dom fs)" using write_body_dom[of sv ?p body fs] w by simp
  show ?thesis
  proof (cases t)
    case (Inl e)
    then show ?thesis using assms(2) v t s1 by (auto simp: Accept_def covered_def)
  next
    case tr: (Inr a)
    show ?thesis
    proof (cases w)
      case (Inl e)
      then show ?thesis using tr assms(2) v t w fs1 s1 by (force simp: Accept_def covered_def dom_discard Let_def)
    next
      case (Inr x)
      obtain size sha where x: "x = (size, sha)" by fastforce
      let ?n = "\<lparr>n_id = i, n_account = acc, n_path = ?p, n_size = size, n_sha = sha,
        n_token_hash = sv_sha sv seed, n_expires = expires\<rparr>"
      obtain c s2 where c: "us_CreateUpload U ?n (sv_maxUnclaimed sv) s1 = (c, s2)" by fastforce
      have r: "Accept sv acc body i seed expires v =
          (case c of Inl e \<Rightarrow> (Inl e, s2, discard ?p fs1) | Inr up \<Rightarrow> (Inr up, s2, fs1))"
        using tr Inr x v t w c assms(1) by (auto simp: Accept_def Let_def split: sum.splits)
      show ?thesis
      proof (cases c)
        case (Inl e)
        then show ?thesis using r create_bad[of ?n "sv_maxUnclaimed sv" s1 e s2] c fs1 s1 assms(2) v
          by (force simp: covered_def dom_discard)
      next
        case (Inr up)
        then have "ok s2" "path_of s2 = (path_of s)(i \<mapsto> ?p)" "path_of s i = None"
          using create_ok[of s ?n "sv_maxUnclaimed sv" up s2] c s1 assms(2,3) v by (auto simp: covered_def)
        then have "ok s2" "ran (path_of s2) = insert ?p (ran (path_of s))" by simp_all
        then show ?thesis using r Inr fs1 assms(2) v by (auto simp: covered_def)
      qed
    qed
  qed
qed

lemma sweep_rows_covered:
  assumes "sv_store sv = U" "covered (s, fs)" "distinct (map fst rows)" "\<forall>(i, p) \<in> set rows. path_of s i = Some p"
  shows "covered (snd (sweep_rows sv rows n (s, fs)))"
  using assms(2-)
proof (induction rows arbitrary: s fs n)
  case (Cons r rows)
  obtain i p where r: "r = (i, p)" by fastforce
  obtain d s1 where d: "us_DeleteRow U i s = (d, s1)" by fastforce
  have s1: "ok s1" "path_of s1 = path_of s \<or> path_of s1 = (path_of s)(i := None)"
    using delete_drops[OF _ d] Cons.prems(1) by (auto simp: covered_def)
  have "path_of s i = Some p" using Cons.prems(3) r by simp
  then have "ran (path_of s) - {p} \<subseteq> ran (path_of s1)"
    using s1(2) by (auto simp: ran_def) (metis option.inject)
  then have "covered (s1, discard p fs)"
    using Cons.prems(1) s1(1) by (auto simp: covered_def dom_discard)
  moreover have "path_of s1 j = Some q" if q: "(j, q) \<in> set rows" for j q
  proof -
    have "j \<noteq> i" using Cons.prems(2) r q by force
    then show ?thesis using s1(2) Cons.prems(3) q by auto
  qed
  ultimately show ?case
    using Cons.IH[of s1 "discard p fs"] Cons.prems(2) assms(1) r d
    by (cases d) (auto simp: split_def)
qed simp

lemma SweepExpired_covered:
  assumes "sv_store sv = U" "covered v"
  shows "covered (snd (SweepExpired sv v))"
proof -
  obtain s fs where v: "v = (s, fs)" by fastforce
  obtain l s1 where l: "us_ListSweepable U s = (l, s1)" by fastforce
  have s1: "s1 = s" using list_keeps[of s] l by simp
  show ?thesis
  proof (cases l)
    case (Inr rows)
    have "covered (snd (sweep_rows sv rows 0 (s1, fs)))"
      using assms(2) v s1 listed[of s rows s1] l Inr
      by (intro sweep_rows_covered[OF assms(1)]) (auto simp: covered_def)
    then show ?thesis using v l Inr assms(1) by (auto simp: SweepExpired_def split: prod.splits)
  qed (use assms v l s1 in \<open>auto simp: SweepExpired_def covered_def\<close>)
qed

lemma Remove_covered: "covered (s, fs) \<Longrightarrow> covered (s, Remove path fs)"
  by (auto simp: covered_def Remove_def discard_def)

lemma Redeem_covered: "sv_store sv = U \<Longrightarrow> covered (s, fs) \<Longrightarrow> covered (snd (Redeem sv raw s), fs)"
  using redeem_keeps[of s "sv_sha sv raw"] by (auto simp: covered_def Redeem_def)

lemma MintFetchToken_covered: "sv_store sv = U \<Longrightarrow> covered (s, fs) \<Longrightarrow> covered (snd (MintFetchToken sv i token s), fs)"
  using token_keeps[of s i "sv_sha sv token"]
  by (cases "us_SetFetchToken U i (sv_sha sv token) s"; cases "fst (us_SetFetchToken U i (sv_sha sv token) s)")
    (auto simp: covered_def MintFetchToken_def)

end

section \<open>The adapter\<close>

definition row :: "upload \<Rightarrow> Upload" where
  "row u = \<lparr>up_id = u_id u, up_account = u_account_id u, up_path = u_path u, up_size = u_size_bytes u,
     up_sha = u_sha256 u, up_expires = u_expires_at u, up_redeemed = (u_redeemed_at u \<noteq> None)\<rparr>"

definition new_row :: "New \<Rightarrow> stamp \<Rightarrow> upload" where
  "new_row n now = \<lparr>u_id = n_id n, u_account_id = n_account n, u_path = n_path n, u_size_bytes = n_size n,
     u_sha256 = n_sha n, u_fetch_token_hash = n_token_hash n, u_redeemed_at = None,
     u_expires_at = n_expires n, u_created_at = now, u_updated_at = now\<rparr>"

definition ForUploads :: "ident \<Rightarrow> stamp \<Rightarrow> db UploadStore" where
  "ForUploads drawn now =
     \<lparr>us_CreateUpload = (\<lambda>n limit s.
        case CreateUpload s (new_row n now) limit drawn now of
          Inl e \<Rightarrow> (Inl (if e = ErrUploadLimit then ErrTooManyUnclaimed else UpFault), s)
        | Inr (u, s1) \<Rightarrow> (Inr (row u), s1)),
      us_CountUnclaimed = (\<lambda>acc s. (Inr (int (CountUnclaimedUploads s acc now)), s)),
      us_ListSweepable = (\<lambda>s. (Inr (ListSweepableUploads s now), s)),
      us_DeleteRow = (\<lambda>i s. case DeleteUpload s i of Inl e \<Rightarrow> (Inl UpFault, s) | Inr s1 \<Rightarrow> (Inr (), s1)),
      us_GetUpload = (\<lambda>i s. (case GetUpload s i of
          Inl e \<Rightarrow> Inl (if e = ErrNotFound then UpNotFound else UpFault) | Inr u \<Rightarrow> Inr (row u), s)),
      us_RedeemUpload = (\<lambda>h s. case RedeemUpload s h now of
          Inl e \<Rightarrow> (Inl (if e = ErrNotFound then UpNotFound else if e = ErrUploadExpired then UpExpired
             else if e = ErrUploadRedeemed then UpRedeemed else UpFault), s)
        | Inr (u, s1) \<Rightarrow> (Inr (row u), s1)),
      us_SetFetchToken = (\<lambda>i h s. case SetUploadFetchToken s i h now of
          Inl e \<Rightarrow> (Inl (if e = ErrNotFound then UpNotFound else UpFault), s) | Inr s1 \<Rightarrow> (Inr (), s1))\<rparr>"

definition path_of :: "db \<Rightarrow> ident \<Rightarrow> string option" where
  "path_of s i = map_option u_path (q_GetUpload s i)"

definition uploads_keyed :: "db \<Rightarrow> bool" where
  "uploads_keyed s \<longleftrightarrow> distinct (map u_id (uploads s))"

lemma sel_one_upd_id:
  "(\<And>r. key (f r) = key r) \<Longrightarrow> map_option g (sel_one (\<lambda>x. key x = i) (upd_where P f t)) =
     map_option (\<lambda>r. g (if P r then f r else r)) (sel_one (\<lambda>x. key x = i) t)"
  by (induction t) auto

lemma sel_one_del: "sel_one (\<lambda>x. key x = i) (del_where (\<lambda>x. key x = j) t) =
    (if i = j then None else sel_one (\<lambda>x. key x = i) t)"
  by (induction t) auto

lemma sel_one_snoc: "sel_one P (t @ [r]) = (case sel_one P t of None \<Rightarrow> if P r then Some r else None | x \<Rightarrow> x)"
  by (induction t) auto

lemma path_of_created:
  assumes "CreateUpload s u lim drawn now = Inr (u', s')" "u_id u \<noteq> []"
  shows "path_of s' = (path_of s)(u_id u \<mapsto> u_path u) \<and> path_of s (u_id u) = None \<and>
    (uploads_keyed s \<longrightarrow> uploads_keyed s')"
proof -
  let ?r = "u\<lparr>u_redeemed_at := None, u_created_at := now, u_updated_at := now\<rparr>"
  have s': "s' = s\<lparr>uploads := uploads s @ [?r]\<rparr>" and fresh: "u_id u \<notin> u_id ` set (uploads s)"
    using assms by (auto simp: CreateUpload_def q_CreateUpload_def Let_def list_ex_iff split: if_splits)
  then have "sel_one (\<lambda>x. u_id x = u_id u) (uploads s) = None" unfolding sel_one_None by (metis image_eqI)
  then show ?thesis
    using s' fresh
    by (auto simp: path_of_def q_GetUpload_def sel_one_snoc fun_eq_iff uploads_keyed_def split: option.splits)
qed

lemma path_of_updated:
  assumes "\<And>u. u_id (f u) = u_id u" "\<And>u. u_path (f u) = u_path u"
  shows "path_of (s\<lparr>uploads := upd_where P f (uploads s)\<rparr>) = path_of s"
    "uploads_keyed (s\<lparr>uploads := upd_where P f (uploads s)\<rparr>) = uploads_keyed s"
  using sel_one_upd_id[of u_id f u_path _ P "uploads s"] assms
  by (auto simp: path_of_def q_GetUpload_def fun_eq_iff uploads_keyed_def table_simps if_distrib cong: if_cong)

lemma path_of_deleted:
  "path_of (s\<lparr>uploads := del_where (\<lambda>u. u_id u = i) (uploads s)\<rparr>) = (path_of s)(i := None)"
  by (auto simp: path_of_def q_GetUpload_def sel_one_del fun_eq_iff)

lemma sweepable_keyed:
  assumes "uploads_keyed s"
  shows "distinct (map fst (ListSweepableUploads s now)) \<and>
    (\<forall>(i, p) \<in> set (ListSweepableUploads s now). path_of s i = Some p)"
proof -
  have "distinct (map u_id (sort_key u_expires_at (filter P (uploads s))))" for P
    using assms unfolding uploads_keyed_def
    by (auto simp: distinct_map intro: inj_on_subset)
  moreover have "path_of s (u_id u) = Some (u_path u)" if "u \<in> set (uploads s)" for u
    using sel_one_unique[OF assms[unfolded uploads_keyed_def] that] by (simp add: path_of_def q_GetUpload_def)
  ultimately show ?thesis
    by (auto simp: ListSweepableUploads_def q_ListSweepableUploads_def comp_def)
qed

interpretation vol: upload_rows "ForUploads drawn now" uploads_keyed path_of for drawn now
proof (unfold_locales, goal_cases)
  case (1 s new lim u s')
  then show ?case
    using path_of_created[of s "new_row new now" lim drawn now _ s']
    by (auto simp: ForUploads_def new_row_def split: sum.splits prod.splits)
next
  case (6 s i r s')
  then show ?case
    using path_of_deleted[where s = s and i = i]
    by (auto simp: ForUploads_def DeleteUpload_def q_DeleteUpload_def next_step_Inr uploads_keyed_def
        Let_def distinct_map_del_where split: sum.splits if_splits)
next
  case (7 s h)
  show ?case
    using 7 path_of_updated[of "redeemed now" "redeemable h now" s]
    by (auto simp: ForUploads_def RedeemUpload_def q_RedeemUpload_def redeemed_def split: sum.splits option.splits sql_error.splits)
next
  case (8 s i h)
  show ?case
    using 8 path_of_updated[of "\<lambda>u. u\<lparr>u_fetch_token_hash := h, u_redeemed_at := None, u_updated_at := now\<rparr>" "\<lambda>u. u_id u = i" s]
    by (auto simp: ForUploads_def SetUploadFetchToken_def q_SetUploadFetchToken_def next_step_Inr Let_def split: sum.splits if_splits)
next
  case (5 s rows s')
  then show ?case using sweepable_keyed[of s now] by (auto simp: ForUploads_def)
qed (auto simp: ForUploads_def split: sum.splits prod.splits)

section \<open>Accepting an upload\<close>

lemma write_body_fresh:
  assumes "fs p = None" "0 \<le> sv_maxBytes sv"
  shows "write_body sv p (bytes, intact) fs =
    (if sv_maxBytes sv < int (length bytes)
     then (Inl ErrTooLarge, fs(p \<mapsto> take (nat (sv_maxBytes sv + 1)) bytes))
     else if \<not> intact then (Inl UpFault, fs(p \<mapsto> bytes))
     else if take 2 bytes \<noteq> gzipMagic then (Inl ErrNotGzip, fs(p \<mapsto> bytes))
     else (Inr (int (length bytes), sv_sha sv bytes), fs(p \<mapsto> bytes)))"
proof (cases "sv_maxBytes sv < int (length bytes)")
  case True
  then have "int (length (take (nat (sv_maxBytes sv + 1)) bytes)) = sv_maxBytes sv + 1"
    using assms(2) by simp
  then show ?thesis using True assms(1) by (simp add: write_body_def Let_def)
next
  case False
  then have "take (nat (sv_maxBytes sv + 1)) bytes = bytes" by simp
  moreover have "take 2 bytes = gzipMagic \<Longrightarrow> 2 \<le> length bytes"
    by (cases bytes; cases "tl bytes") (auto simp: gzipMagic_def)
  ultimately show ?thesis using False assms(1)
    by (auto simp: write_body_def Let_def checkGzip_def gzipMagic_def numeral_2_eq_2)
qed

text \<open>C26: Accept has six outcomes and leaves the volume and the database as they were in every one
  but the last: over the ceiling of unclaimed uploads, too large, unreadable, not gzip, refused by
  the schema, and recorded. The file then holds the body to the byte under the directory and the
  identifier the platform drew, and the row its size and digest.\<close>

theorem accept_outcome:
  assumes "sv_store sv = ForUploads drawn now" "0 \<le> sv_maxBytes sv" "i \<noteq> []"
    and "p = PathJoin (sv_dir sv) i" "fs p = None"
    and "r = new_row \<lparr>n_id = i, n_account = acc, n_path = p, n_size = int (length bytes),
      n_sha = sv_sha sv bytes, n_token_hash = sv_sha sv seed, n_expires = expires\<rparr> now"
  shows "Accept sv acc (bytes, intact) i seed expires (s, fs) =
    (if 0 < sv_maxUnclaimed sv \<and> sv_maxUnclaimed sv \<le> int (CountUnclaimedUploads s acc now)
     then (Inl ErrTooManyUnclaimed, s, fs)
     else if sv_maxBytes sv < int (length bytes) then (Inl ErrTooLarge, s, fs)
     else if \<not> intact then (Inl UpFault, s, fs)
     else if take 2 bytes \<noteq> gzipMagic then (Inl ErrNotGzip, s, fs)
     else case q_CreateUpload s r of
       Inl e \<Rightarrow> (Inl UpFault, s, fs)
     | Inr (u, s') \<Rightarrow> (Inr (row r), s', fs(p \<mapsto> bytes)))"
proof (cases "0 < sv_maxUnclaimed sv \<and> sv_maxUnclaimed sv \<le> int (CountUnclaimedUploads s acc now)")
  case True
  then have "too_many sv acc s = (Inl ErrTooManyUnclaimed, s)"
    using assms(1) by (auto simp: too_many_def ForUploads_def)
  then show ?thesis using True by (simp add: Accept_def)
next
  case False
  then have go: "too_many sv acc s = (Inr (), s)"
    using assms(1) by (auto simp: too_many_def ForUploads_def)
  have undo: "discard p (fs(p \<mapsto> b)) = fs" for b using assms(5) by (auto simp: discard_def)
  have made: "us_CreateUpload (sv_store sv) \<lparr>n_id = i, n_account = acc, n_path = p,
      n_size = int (length bytes), n_sha = sv_sha sv bytes, n_token_hash = sv_sha sv seed,
      n_expires = expires\<rparr> (sv_maxUnclaimed sv) s =
    (case q_CreateUpload s r of Inl e \<Rightarrow> (Inl UpFault, s) | Inr (u, s') \<Rightarrow> (Inr (row r), s'))"
    using False assms(1,3,6)
    by (auto simp: ForUploads_def CreateUpload_def CountUnclaimedUploads_def new_row_def Let_def
        q_CreateUpload_def split: sum.splits)
  show ?thesis
    unfolding Accept_def Let_def prod.case go attempt_simps assms(4)[symmetric] write_body_fresh[where fs = fs and p = p, OF assms(5,2)]
    using False made by (auto simp: undo split: sum.splits)
qed

definition demo_service :: "db Service" where
  "demo_service = \<lparr>sv_store = ForUploads [] ''t4'', sv_dir = ''/uploads'', sv_maxBytes = 4, sv_maxUnclaimed = 3,
     sv_sha = id\<rparr>"

lemma accept_outcome_witness:
  "fst (Accept demo_service ''acc_1'' (''zip!'', True) ''upl_2'' ''seed'' ''t9'' (db_upload, Map.empty)) = Inl ErrNotGzip"
proof -
  have "\<not> sv_maxUnclaimed demo_service \<le> int (CountUnclaimedUploads db_upload ''acc_1'' ''t4'')"
    by (simp add: demo_service_def CountUnclaimedUploads_def q_CountUnclaimedUploads_def db_upload_def)
  then show ?thesis
    by (subst accept_outcome[where drawn = "[]" and now = "''t4''", OF _ _ _ refl _ refl])
      (simp_all add: demo_service_def gzipMagic_def)
qed

text \<open>What the service does between two states of the database and the volume.\<close>

inductive service_step :: "db \<times> files \<Rightarrow> db \<times> files \<Rightarrow> bool" where
  "sv_store sv = ForUploads drawn now \<Longrightarrow> i \<noteq> [] \<Longrightarrow>
    service_step v (snd (Accept sv acc body i seed expires v))"
| "sv_store sv = ForUploads drawn now \<Longrightarrow> service_step v (snd (SweepExpired sv v))"
| "sv_store sv = ForUploads drawn now \<Longrightarrow> service_step (s, fs) (snd (Redeem sv raw s), fs)"
| "sv_store sv = ForUploads drawn now \<Longrightarrow> service_step (s, fs) (snd (MintFetchToken sv j token s), fs)"
| "service_step (s, fs) (s, Remove path fs)"

text \<open>C27: Whatever sequence of accepts, expiry sweeps, redemptions, mintings and removals runs, every
  file on the volume keeps a row that names it, so that the next sweep can find it.\<close>

theorem every_file_has_a_row:
  assumes "service_step\<^sup>*\<^sup>* (s, fs) (s', fs')" "uploads_keyed s" "dom fs \<subseteq> ran (path_of s)"
  shows "uploads_keyed s' \<and> dom fs' \<subseteq> ran (path_of s')"
proof -
  have step: "vol.covered w" if "service_step v w" "vol.covered v" for v w
    using that
    by (cases rule: service_step.cases)
      (auto intro: vol.Accept_covered vol.SweepExpired_covered vol.Redeem_covered
        vol.MintFetchToken_covered vol.Remove_covered)
  have "vol.covered w" if "service_step\<^sup>*\<^sup>* v w" "vol.covered v" for v w
    using that by (induction rule: rtranclp_induct) (auto intro: step)
  from this[OF assms(1)] show ?thesis using assms(2,3) by (simp add: vol.covered_def)
qed

lemma every_file_has_a_row_witness:
  "dom (snd (snd (Accept demo_service ''acc_1'' (gzipMagic @ ''ab'', True) ''upl_2'' ''seed'' ''t9''
      (db_upload, Map.empty)))) \<subseteq>
   ran (path_of (fst (snd (Accept demo_service ''acc_1'' (gzipMagic @ ''ab'', True) ''upl_2'' ''seed'' ''t9''
      (db_upload, Map.empty)))))"
proof -
  let ?v = "snd (Accept demo_service ''acc_1'' (gzipMagic @ ''ab'', True) ''upl_2'' ''seed'' ''t9'' (db_upload, Map.empty))"
  have "service_step (db_upload, Map.empty) ?v"
    by (rule service_step.intros(1)[where drawn = "[]" and now = "''t4''"]) (simp_all add: demo_service_def)
  then have "service_step\<^sup>*\<^sup>* (db_upload, Map.empty) (fst ?v, snd ?v)" by simp
  moreover have "uploads_keyed db_upload" by (simp add: uploads_keyed_def db_upload_def db_app_def db_account_def empty_db_def)
  ultimately show ?thesis using every_file_has_a_row[of db_upload Map.empty "fst ?v" "snd ?v"] by simp
qed

text \<open>The rows and the files part where the retention sweep takes a row: the upload of a deployment
  that was superseded while it was queued, which no drive ever saw, is named by the cancelled row
  until that goes, so the expiry sweep leaves the file; then both rows go in one transaction, and
  nothing names the file any more.\<close>

definition upl2 :: upload where
  "upl2 = upl1\<lparr>u_id := ''upl_2'', u_path := ''/uploads/upl_2'', u_fetch_token_hash := ''h2''\<rparr>"

lemma retention_forgets_a_file:
  "case CreateDeployment (db_queued\<lparr>uploads := [upl1, upl2]\<rparr>) \<lparr>in_app = ''app_1'', in_account = ''acc_1'',
       in_upload = Some ''upl_2'', in_source = None\<rparr> ''evt_3'' ''dep_2'' ''evt_4'' ''t5'' of
     Inl _ \<Rightarrow> False
   | Inr (d, old, s1) \<Rightarrow> old = ''dep_1'' \<and> path_of s1 ''upl_1'' = Some ''/uploads/upl_1'' \<and>
       map fst (ListSweepableUploads s1 ''u'') = [] \<and>
       (case Sweep s1 ''u'' ''u'' ''u'' of
          Inl _ \<Rightarrow> False
        | Inr (n, s2) \<Rightarrow> map u_path (uploads s2) = [''/uploads/upl_2''])"
  by code_simp

end
