(* ===== verification/Requests.thy ===== *)
theory Requests
  imports Store_History
begin

text \<open>
  The calls that other callers of the store may commit between two calls of the one that is
  followed, as a datatype with the database each leaves behind, and the proof that each is a
  sequence of steps of \<open>Store_Machine\<close>.
\<close>

section \<open>Requests\<close>

datatype request =
    ReqAccount string ident
  | ReqApp ident runes int "(ident \<times> string) list"
  | ReqDelete ident
  | ReqSet ident "ConfigEntry list"
  | ReqUnset ident "string list"
  | ReqUpload upload int ident
  | ReqRedeem string
  | ReqDropUpload ident
  | ReqDeploy CreateDeploymentInput ident ident ident
  | ReqAudit AuditEntry ident
  | ReqAddresses stamp
  | ReqRegister ident string "string option" "string option"
  | ReqVerify ident
  | ReqConnect ident
  | ReqPassword ident "string option"
  | ReqLock ident bool

fun committed :: "db \<Rightarrow> store_error + db \<Rightarrow> db" where
  "committed s (Inl e) = s"
| "committed s (Inr s') = s'"

fun serve :: "stamp \<Rightarrow> request \<Rightarrow> db \<Rightarrow> db" where
  "serve now (ReqAccount name i) s = committed s (map_sum id snd (CreateAccount s name i now))"
| "serve now (ReqApp acc name limit draws) s = committed s (map_sum id snd (CreateApp s acc name limit draws now))"
| "serve now (ReqDelete app) s = committed s (SoftDeleteApp s app now)"
| "serve now (ReqSet app es) s = committed s (SetConfigBatch s app es now)"
| "serve now (ReqUnset app keys) s = committed s (UnsetConfigBatch s app keys)"
| "serve now (ReqUpload u limit i) s = committed s (map_sum id snd (CreateUpload s u limit i now))"
| "serve now (ReqRedeem h) s = committed s (map_sum id snd (RedeemUpload s h now))"
| "serve now (ReqDropUpload i) s = committed s (DeleteUpload s i)"
| "serve now (ReqDeploy inp evt dep evt') s =
     committed s (map_sum id (snd \<circ> snd) (CreateDeployment s inp evt dep evt' now))"
| "serve now (ReqAudit e i) s = committed s (RecordAudit s e i now)"
| "serve now (ReqAddresses cutoff) s = snd (ClearOldAuditAddresses s cutoff)"
| "serve now (ReqRegister i email hash display) s =
     (case q_CreateIdentityAccount s i (Some email) hash display now of Inl _ \<Rightarrow> s | Inr (acc, s') \<Rightarrow> s')"
| "serve now (ReqVerify i) s = snd (q_MarkEmailVerified s i now)"
| "serve now (ReqConnect i) s = snd (q_MarkAccountConnected s i now)"
| "serve now (ReqPassword i hash) s = snd (q_SetPasswordHash s i hash now)"
| "serve now (ReqLock i lock) s = snd (q_SetAccountDisabled s i (if lock then Some now else None) now)"

section \<open>They are steps\<close>

lemmas work_step_once = r_into_rtranclp[of work_step]

lemma serve_steps: "work_step\<^sup>*\<^sup>* s (serve now r s)"
proof (cases r)
  case (ReqAccount name i)
  then show ?thesis by (cases "CreateAccount s name i now") (auto intro!: work_step_once work_step.account)
next
  case (ReqApp acc name limit draws)
  then show ?thesis by (cases "CreateApp s acc name limit draws now") (auto intro!: work_step_once work_step.app)
next
  case (ReqDelete app)
  then show ?thesis by (cases "SoftDeleteApp s app now") (auto intro!: work_step_once work_step.delete)
next
  case (ReqSet app es)
  then show ?thesis by (cases "SetConfigBatch s app es now") (auto intro!: work_step_once work_step.set_config)
next
  case (ReqUnset app keys)
  then show ?thesis by (cases "UnsetConfigBatch s app keys") (auto intro!: work_step_once work_step.unset_config)
next
  case (ReqUpload u limit i)
  then show ?thesis by (cases "CreateUpload s u limit i now") (auto intro!: work_step_once work_step.upload)
next
  case (ReqRedeem h)
  then show ?thesis by (cases "RedeemUpload s h now") (auto intro!: work_step_once work_step.redeem)
next
  case (ReqDropUpload i)
  then show ?thesis by (cases "DeleteUpload s i") (auto intro!: work_step_once work_step.drop_upload)
next
  case (ReqDeploy inp evt dep evt')
  then show ?thesis by (cases "CreateDeployment s inp evt dep evt' now") (auto intro!: work_step_once work_step.deploy)
next
  case (ReqAudit e i)
  then show ?thesis by (cases "RecordAudit s e i now") (auto intro!: work_step_once work_step.audit)
next
  case (ReqAddresses cutoff)
  then show ?thesis by (cases "ClearOldAuditAddresses s cutoff") (auto intro!: work_step_once work_step.addresses)
next
  case (ReqRegister i email hash display)
  then show ?thesis
    by (cases "q_CreateIdentityAccount s i (Some email) hash display now")
      (auto intro!: work_step_once work_step.person person_write.registered)
next
  case (ReqVerify i)
  then show ?thesis
    by (cases "q_MarkEmailVerified s i now") (auto intro!: work_step_once work_step.person person_write.verified)
next
  case (ReqConnect i)
  then show ?thesis
    by (cases "q_MarkAccountConnected s i now") (auto intro!: work_step_once work_step.person person_write.connected)
next
  case (ReqPassword i hash)
  then show ?thesis
    by (cases "q_SetPasswordHash s i hash now") (auto intro!: work_step_once work_step.person person_write.password)
next
  case (ReqLock i lock)
  then show ?thesis
    by (cases "q_SetAccountDisabled s i (if lock then Some now else None) now")
      (auto intro!: work_step_once work_step.person person_write.locked)
qed

lemma serves_steps: "work_step\<^sup>*\<^sup>* s (fold (serve now) rs s)"
  by (induction rs arbitrary: s) (auto intro: rtranclp_trans[OF serve_steps])

end
