(* ===== verification/Reconcile_Store.thy ===== *)
theory Reconcile_Store
  imports Reconcile_Ledger Uploads_Service Requests
begin

text \<open>
  The loop over its real neighbours: \<^verbatim>\<open>internal/store/reconcileadapter.go\<close> over the store,
  \<^verbatim>\<open>cmd/deployer/wiring.go\<close> over the upload service, and the cluster and the registry as
  whatever they are. The world is the database, the volume, the clock and an outside of any type;
  before each call the outside says what happened since the last one: how long it took, what other
  callers of the store committed and wrote, and whether this call is refused, or runs and has its
  answer lost. The contracts of \<open>Reconcile_Laws\<close> and \<open>Reconcile_Ledger\<close> hold of this world
  without any hypothesis on the outside. The retention sweep is not among the other callers.
\<close>

section \<open>The world\<close>

datatype weather = Fair | Refused | AnswerLost

record turn =
  tn_elapsed :: nat
  tn_stopped :: bool
  tn_others :: "request list"
  tn_files :: "(string \<times> string option) list"
  tn_weather :: weather
  tn_event :: ident
  tn_release :: ident
  tn_token :: string
  tn_pick :: bool

record 'o Outside =
  ox_next :: "'o \<Rightarrow> turn \<times> 'o"
  ox_cluster :: "'o Cluster"
  ox_registry :: "'o Registry"
  ox_untar :: "string \<Rightarrow> archive"
  ox_stamp :: "int \<Rightarrow> stamp"
  ox_parse :: "stamp \<Rightarrow> int option"
  ox_sha :: "string \<Rightarrow> string"

record 'o world =
  w_db :: db
  w_files :: files
  w_now :: int
  w_stopped :: bool
  w_out :: 'o

definition stamp_now :: "'o Outside \<Rightarrow> 'o world \<Rightarrow> stamp" where
  "stamp_now ox w = ox_stamp ox (w_now w)"

definition pass_turn :: "'o Outside \<Rightarrow> 'o world \<Rightarrow> turn \<times> 'o world" where
  "pass_turn ox w =
     (case ox_next ox (w_out w) of (tn, out) \<Rightarrow>
        let now = w_now w + int (tn_elapsed tn)
        in (tn, w\<lparr>w_now := now, w_out := out, w_stopped := w_stopped w \<or> tn_stopped tn,
             w_files := fold (\<lambda>(p, c) fs. fs(p := c)) (tn_files tn) (w_files w),
             w_db := fold (serve (ox_stamp ox now)) (tn_others tn) (w_db w)\<rparr>))"

definition done_ctx :: "ctx \<Rightarrow> 'o world \<Rightarrow> bool" where
  "done_ctx c w \<longleftrightarrow> (ctx_attached c \<and> w_stopped w) \<or>
     (case ctx_deadline c of None \<Rightarrow> False | Some t \<Rightarrow> t \<le> w_now w)"

text \<open>One call under a context: refused once the context is done, as \<^verbatim>\<open>database/sql\<close> and the HTTP
  clients do.\<close>

definition call :: "'o Outside \<Rightarrow> ctx \<Rightarrow> (turn \<Rightarrow> 'o world \<Rightarrow> (rc_error + 'a) \<times> 'o world) \<Rightarrow> 'o world \<Rightarrow>
    (rc_error + 'a) \<times> 'o world" where
  "call ox c f w =
     (case pass_turn ox w of (tn, w1) \<Rightarrow>
        if done_ctx c w1 then (Inl ContextDone, w1)
        else case tn_weather tn of
            Refused \<Rightarrow> (Inl OtherErr, w1)
          | AnswerLost \<Rightarrow> (Inl OtherErr, snd (f tn w1))
          | Fair \<Rightarrow> f tn w1)"

definition background :: ctx where
  "background = \<lparr>ctx_deadline = None, ctx_attached = False\<rparr>"

definition on_db :: "(db \<Rightarrow> 'r \<times> db) \<Rightarrow> 'o world \<Rightarrow> 'r \<times> 'o world" where
  "on_db f w = (case f (w_db w) of (r, s) \<Rightarrow> (r, w\<lparr>w_db := s\<rparr>))"

definition on_out :: "('o \<Rightarrow> (rc_error + 'a) \<times> 'o) \<Rightarrow> 'o world \<Rightarrow> (rc_error + 'a) \<times> 'o world" where
  "on_out f w = (case f (w_out w) of (r, out) \<Rightarrow> (map_sum (\<lambda>_. OtherErr) id r, w\<lparr>w_out := out\<rparr>))"

section \<open>The store's adapter\<close>

definition stamped :: "(stamp \<Rightarrow> int option) \<Rightarrow> stamp \<Rightarrow> int option" where
  "stamped parse s = parse s"

definition deploymentRow :: "(stamp \<Rightarrow> int option) \<Rightarrow> deployment \<Rightarrow> RDeployment" where
  "deploymentRow parse d =
     \<lparr>rd_id = d_id d, rd_app = d_app_id d, rd_upload = deref (d_upload_id d), rd_state = d_state d,
      rd_repo = deref (d_image_repo d), rd_digest = deref (d_image_digest d),
      rd_created = stamped parse (d_created_at d), rd_job = deref (d_build_job_name d),
      rd_path = deref (d_build_path d), rd_source = deref (d_source_release_id d)\<rparr>"

definition RS_ClaimNext :: "(stamp \<Rightarrow> int option) \<Rightarrow> string \<Rightarrow> stamp \<Rightarrow> db \<Rightarrow> (rc_error + RDeployment) \<times> db" where
  "RS_ClaimNext parse by' now s =
     (case ClaimNext s by' now of
        Inl e \<Rightarrow> (Inl (if e = ErrNotFound then ErrNoWork else StoreErr e), s)
      | Inr (d, s1) \<Rightarrow> (Inr (deploymentRow parse d), s1))"

definition RS_ReleaseClaim :: "ident \<Rightarrow> stamp \<Rightarrow> db \<Rightarrow> (rc_error + bool) \<times> db" where
  "RS_ReleaseClaim i now s = (case ReleaseBuildingClaim s i now of (b, s1) \<Rightarrow> (Inr b, s1))"

definition RS_ListNonTerminal :: "(stamp \<Rightarrow> int option) \<Rightarrow> db \<Rightarrow> (rc_error + RDeployment list) \<times> db" where
  "RS_ListNonTerminal parse s = (Inr (map (deploymentRow parse) (ListNonTerminalDeployments s)), s)"

definition RS_Transition ::
  "ident \<Rightarrow> State \<Rightarrow> string \<Rightarrow> string \<Rightarrow> ident \<Rightarrow> stamp \<Rightarrow> db \<Rightarrow> (rc_error + unit) \<times> db" where
  "RS_Transition i to' reason detail evt now s =
     (case Transition s i to' reason detail evt now of
        Inl e \<Rightarrow> (Inl (if err_is e ErrTerminal then ErrNotInFlight else StoreErr e), s)
      | Inr (d, s1) \<Rightarrow> (Inr (), s1))"

definition RS_RecordBuild ::
  "ident \<Rightarrow> string \<Rightarrow> string \<Rightarrow> string \<Rightarrow> string \<Rightarrow> stamp \<Rightarrow> db \<Rightarrow> (rc_error + unit) \<times> db" where
  "RS_RecordBuild i path job repo digest now s =
     (case RecordBuildResult s i
        \<lparr>BuildPath = path, BuildJobName = job, ImageRepo = repo, ImageDigest = digest\<rparr> now of
        Inl e \<Rightarrow> (Inl (StoreErr e), s)
      | Inr s1 \<Rightarrow> (Inr (), s1))"

definition RS_MarkHealthy :: "ident \<Rightarrow> config \<Rightarrow> ident \<Rightarrow> ident \<Rightarrow> stamp \<Rightarrow> db \<Rightarrow> (rc_error + RRelease) \<times> db" where
  "RS_MarkHealthy i config evt rel now s =
     (case MarkHealthy s i config evt rel now of
        Inl e \<Rightarrow> (Inl (if err_is e ErrTerminal then ErrNotInFlight else StoreErr e), s)
      | Inr (d, r, s1) \<Rightarrow> (Inr \<lparr>rr_number = r_release_number r, rr_digest = r_image_digest r\<rparr>, s1))"

text \<open>A read of the store: what it returns, and the database as it was.\<close>

definition reading :: "(db \<Rightarrow> store_error + 'a) \<Rightarrow> db \<Rightarrow> (rc_error + 'a) \<times> db" where
  "reading f s = (map_sum StoreErr id (f s), s)"

definition RS_Get :: "'o Outside \<Rightarrow> ctx \<Rightarrow> ident \<Rightarrow> 'o world \<Rightarrow> (rc_error + RApp) \<times> 'o world" where
  "RS_Get ox c i w =
     attempt (call ox c (\<lambda>_. on_db (reading (\<lambda>s. GetApp s i))) w) (\<lambda>e w. (Inl e, w)) (\<lambda>app w.
     attempt (call ox c (\<lambda>_. on_db (reading (\<lambda>s. GetAccount s (a_account_id app)))) w) (\<lambda>e w. (Inl e, w)) (\<lambda>acc w.
     (Inr \<lparr>ra_id = a_id app, ra_slug = a_slug app, ra_suspended = (acc_disabled_at acc \<noteq> None)\<rparr>, w)))"

definition RS_ConfigForDeploy :: "ident \<Rightarrow> db \<Rightarrow> config" where
  "RS_ConfigForDeploy i s =
     map (\<lambda>e. (ce_key e, \<lparr>cv_value = ce_value e, cv_secret = ce_secret e\<rparr>)) (ListConfigForDeploy s i)"

section \<open>The wiring of the upload service\<close>

definition for_loop :: "Upload \<Rightarrow> RUpload" where
  "for_loop up = \<lparr>ru_id = up_id up, ru_path = up_path up, ru_sha = up_sha up\<rparr>"

definition upload_source :: "'o Outside \<Rightarrow> 'o world Uploads" where
  "upload_source ox =
     \<lparr>u_Get = (\<lambda>c i. call ox c (\<lambda>_ w. on_db (\<lambda>s.
        case us_GetUpload (ForUploads [] (stamp_now ox w)) i s of (r, s) \<Rightarrow> (map_sum (\<lambda>_. OtherErr) for_loop r, s)) w)),
      u_Open = (\<lambda>p. call ox background (\<lambda>_ w. (map_sum (\<lambda>_. OtherErr) (ox_untar ox) (Open p (w_files w)), w))),
      u_MintFetchToken = (\<lambda>c i. call ox c (\<lambda>tn w. on_db (\<lambda>s.
        case MintFetchToken \<lparr>sv_store = ForUploads [] (stamp_now ox w), sv_dir = [], sv_maxBytes = 0,
            sv_maxUnclaimed = 0, sv_sha = ox_sha ox\<rparr> i (tn_token tn) s of
          (r, s) \<Rightarrow> (map_sum (\<lambda>_. OtherErr) id r, s)) w)),
      u_Remove = (\<lambda>c p w. snd (call ox background (\<lambda>_ w. (Inr (), w\<lparr>w_files := Remove p (w_files w)\<rparr>)) w))\<rparr>"

section \<open>The loop's five neighbours\<close>

definition store_deployments :: "'o Outside \<Rightarrow> 'o world Deployments" where
  "store_deployments ox =
     \<lparr>d_ClaimNext = (\<lambda>c by'. call ox c (\<lambda>_ w. on_db (RS_ClaimNext (ox_parse ox) by' (stamp_now ox w)) w)),
      d_ReleaseClaim = (\<lambda>c i. call ox c (\<lambda>_ w. on_db (RS_ReleaseClaim i (stamp_now ox w)) w)),
      d_ListNonTerminal = (\<lambda>c. call ox c (\<lambda>_. on_db (RS_ListNonTerminal (ox_parse ox)))),
      d_Transition = (\<lambda>c i to' reason detail. call ox c (\<lambda>tn w.
        on_db (RS_Transition i to' reason detail (tn_event tn) (stamp_now ox w)) w)),
      d_RecordBuild = (\<lambda>c i path job repo digest. call ox c (\<lambda>_ w.
        on_db (RS_RecordBuild i path job repo digest (stamp_now ox w)) w)),
      d_MarkHealthy = (\<lambda>c i config. call ox c (\<lambda>tn w.
        on_db (RS_MarkHealthy i config (tn_event tn) (tn_release tn) (stamp_now ox w)) w))\<rparr>"

definition store_apps :: "'o Outside \<Rightarrow> 'o world Apps" where
  "store_apps ox =
     \<lparr>a_Get = RS_Get ox,
      a_ConfigForDeploy = (\<lambda>c i. call ox c (\<lambda>_. on_db (reading (\<lambda>s. Inr (RS_ConfigForDeploy i s))))),
      a_ReleaseSnapshot = (\<lambda>c i. call ox c (\<lambda>_. on_db (reading (\<lambda>s. ReleaseConfigSnapshot s i)))),
      a_LiveAppSlugs = (\<lambda>c. call ox c (\<lambda>_. on_db (reading (\<lambda>s. Inr (LiveAppSlugs s)))))\<rparr>"

definition out_registry :: "'o Outside \<Rightarrow> 'o world Registry" where
  "out_registry ox =
     \<lparr>r_Digest = (\<lambda>c repo tag. call ox c (\<lambda>_. on_out (r_Digest (ox_registry ox) c repo tag))),
      r_ImageUser = (\<lambda>c repo digest. call ox c (\<lambda>_. on_out (r_ImageUser (ox_registry ox) c repo digest)))\<rparr>"

definition out_cluster :: "'o Outside \<Rightarrow> 'o world Cluster" where
  "out_cluster ox =
     \<lparr>c_CreateJob = (\<lambda>c j. call ox c (\<lambda>_. on_out (c_CreateJob (ox_cluster ox) c j))),
      c_JobState = (\<lambda>c ns n. call ox c (\<lambda>_. on_out (c_JobState (ox_cluster ox) c ns n))),
      c_ApplySecret = (\<lambda>c s. call ox c (\<lambda>_. on_out (c_ApplySecret (ox_cluster ox) c s))),
      c_EnsureNamespace = (\<lambda>c ns rb q l. call ox c (\<lambda>_. on_out (c_EnsureNamespace (ox_cluster ox) c ns rb q l))),
      c_ApplyNetworkPolicies = (\<lambda>c ps. call ox c (\<lambda>_. on_out (c_ApplyNetworkPolicies (ox_cluster ox) c ps))),
      c_AppNamespaces = (\<lambda>c. call ox c (\<lambda>_. on_out (c_AppNamespaces (ox_cluster ox) c))),
      c_AppNamespacesOlderThan = (\<lambda>c now g. call ox c (\<lambda>_. on_out (c_AppNamespacesOlderThan (ox_cluster ox) c now g))),
      c_DeleteNamespace = (\<lambda>c slug. call ox c (\<lambda>_. on_out (c_DeleteNamespace (ox_cluster ox) c slug))),
      c_ApplyWorkload = (\<lambda>c wl sv ig. call ox c (\<lambda>_. on_out (c_ApplyWorkload (ox_cluster ox) c wl sv ig))),
      c_WorkloadReady = (\<lambda>c ns n. call ox c (\<lambda>_. on_out (c_WorkloadReady (ox_cluster ox) c ns n))),
      c_DeleteJob = (\<lambda>c ns n. call ox c (\<lambda>_. on_out (c_DeleteJob (ox_cluster ox) c ns n)))\<rparr>"

text \<open>A \<open>select\<close> over a timer and a context: the context's case is taken when it is done and the
  timer has not fired, or when both are ready and the runtime picks it.\<close>

definition select_timer :: "'o Outside \<Rightarrow> int \<Rightarrow> ctx \<Rightarrow> 'o world \<Rightarrow> bool \<times> 'o world" where
  "select_timer ox iv c w =
     (case pass_turn ox w of (tn, w1) \<Rightarrow>
        if done_ctx c w1 \<and> (w_now w1 < w_now w + iv \<or> tn_pick tn) then (False, w1)
        else (True, w1\<lparr>w_now := max (w_now w1) (w_now w + iv)\<rparr>))"

definition deployer :: "'o Outside \<Rightarrow> Options \<Rightarrow> 'o world Reconciler" where
  "deployer ox os =
     \<lparr>deployments_of = store_deployments ox, apps_of = store_apps ox, uploads_of = upload_source ox,
      registry_of = out_registry ox, cluster_of = out_cluster ox,
      runtime_of = \<lparr>t_now = w_now, t_stopped = w_stopped, t_select = select_timer ox, t_sha256 = ox_sha ox\<rparr>,
      opts = os\<rparr>"

section \<open>What a call leaves behind\<close>

definition ahead :: "'o world \<Rightarrow> 'o world \<Rightarrow> bool" where
  "ahead v w \<longleftrightarrow> work_step\<^sup>*\<^sup>* (w_db v) (w_db w)"

lemma pass_turn_rel:
  "ahead w (snd (pass_turn ox w))" "w_now w \<le> w_now (snd (pass_turn ox w))"
  by (auto simp: pass_turn_def ahead_def Let_def serves_steps split: prod.splits)

lemma call_rel:
  assumes "\<And>w. P w (snd (pass_turn ox w))" "\<And>tn w. P w (snd (f tn w))" "\<And>u v w. P u v \<Longrightarrow> P v w \<Longrightarrow> P u w"
  shows "P w (snd (call ox c f w))"
proof -
  obtain tn w1 where t: "pass_turn ox w = (tn, w1)" by fastforce
  then have "P w w1" "P w1 (snd (f tn w1))" using assms(1)[of w] assms(2)[of w1 tn] by auto
  then show ?thesis using assms(3) t by (auto simp: call_def split: weather.splits)
qed

lemma call_ahead: "(\<And>tn w. ahead w (snd (f tn w))) \<Longrightarrow> ahead w (snd (call ox c f w))"
  by (rule call_rel[where P = ahead, OF pass_turn_rel(1)]) (auto simp: ahead_def)

lemma call_later: "(\<And>tn w. w_now w \<le> w_now (snd (f tn w))) \<Longrightarrow> w_now w \<le> w_now (snd (call ox c f w))"
  by (rule call_rel[where P = "\<lambda>v w. w_now v \<le> w_now w", OF pass_turn_rel(2)]) auto

lemma on_db_ahead: "(\<And>s. work_step\<^sup>*\<^sup>* s (snd (f s))) \<Longrightarrow> ahead w (snd (on_db f w))"
  by (auto simp: on_db_def ahead_def split: prod.splits) (metis snd_conv)

lemma on_db_later [simp]: "w_now (snd (on_db f w)) = w_now w" "w_now (snd (on_out g w)) = w_now w"
  by (auto simp: on_db_def on_out_def split: prod.splits)

lemma on_out_ahead: "ahead w (snd (on_out f w))"
  by (auto simp: on_out_def ahead_def split: prod.splits)

lemma adapter_steps:
  "work_step\<^sup>*\<^sup>* s (snd (RS_ClaimNext parse by' now s))"
  "work_step\<^sup>*\<^sup>* s (snd (RS_ReleaseClaim i now s))"
  "work_step\<^sup>*\<^sup>* s (snd (RS_ListNonTerminal parse s))"
  "work_step\<^sup>*\<^sup>* s (snd (RS_Transition i to' reason detail evt now s))"
  "work_step\<^sup>*\<^sup>* s (snd (RS_RecordBuild i path job repo digest now s))"
  "work_step\<^sup>*\<^sup>* s (snd (RS_MarkHealthy i config evt rel now s))"
  "work_step\<^sup>*\<^sup>* s (snd (reading f s))"
  by (auto simp: RS_ClaimNext_def RS_ReleaseClaim_def RS_ListNonTerminal_def RS_Transition_def RS_RecordBuild_def
      RS_MarkHealthy_def reading_def split: sum.splits prod.splits
      intro: work_step_once work_step.intros)

lemma upload_steps:
  "work_step\<^sup>*\<^sup>* s (snd (us_GetUpload (ForUploads drawn now) i s))"
  "work_step\<^sup>*\<^sup>* s (snd (us_SetFetchToken (ForUploads drawn now) i h s))"
  by (auto simp: ForUploads_def split: sum.splits intro: work_step_once work_step.fetch_token)

lemma mint_steps: "sv_store sv = ForUploads drawn now \<Longrightarrow> work_step\<^sup>*\<^sup>* s (snd (MintFetchToken sv i token s))"
  using upload_steps(2)[of s drawn now i "sv_sha sv token"]
  by (cases "us_SetFetchToken (ForUploads drawn now) i (sv_sha sv token) s";
      cases "fst (us_SetFetchToken (ForUploads drawn now) i (sv_sha sv token) s)") (auto simp: MintFetchToken_def)

lemma snd_case_fst: "snd (case p of (r, s) \<Rightarrow> (f r, s)) = snd p"
  by (cases p) simp

lemma RS_Get_rel:
  assumes "\<And>(f :: db \<Rightarrow> store_error + app) w. P w (snd (call ox c (\<lambda>_. on_db (reading f)) w) :: 'o world)"
    and "\<And>(f :: db \<Rightarrow> store_error + account) w. P w (snd (call ox c (\<lambda>_. on_db (reading f)) w))" "\<And>u v w. P u v \<Longrightarrow> P v w \<Longrightarrow> P u w"
  shows "P w (snd (RS_Get ox c i w))"
proof -
  obtain r w1 where r: "call ox c (\<lambda>_. on_db (reading (\<lambda>s. GetApp s i))) w = (r, w1)" by fastforce
  then have w1: "P w w1" using assms(1)[of w "\<lambda>s. GetApp s i"] by simp
  show ?thesis
  proof (cases r)
    case (Inr app)
    obtain r' w2 where r': "call ox c (\<lambda>_. on_db (reading (\<lambda>s. GetAccount s (a_account_id app)))) w1 = (r', w2)"
      by fastforce
    then have "P w1 w2" using assms(2)[of w1 "\<lambda>s. GetAccount s (a_account_id app)"] by simp
    then show ?thesis using r r' Inr w1 assms(3) by (cases r') (auto simp: RS_Get_def)
  qed (use r w1 in \<open>simp add: RS_Get_def\<close>)
qed

lemmas neighbours = deployer_def store_deployments_def store_apps_def upload_source_def out_registry_def out_cluster_def

lemma ahead_refl [simp]: "ahead w w"
  by (simp add: ahead_def)

lemma ahead_trans: "ahead u v \<Longrightarrow> ahead v w \<Longrightarrow> ahead u w"
  unfolding ahead_def by (rule rtranclp_trans)

lemma ahead_files [simp]: "ahead w (w\<lparr>w_files := fs\<rparr>)" "ahead w (w\<lparr>w_now := t\<rparr>)"
  by (simp_all add: ahead_def)

lemma RS_Get_ahead: "ahead w (snd (RS_Get ox c i w))"
  by (rule RS_Get_rel[where P = ahead]) (auto intro!: call_ahead on_db_ahead adapter_steps intro: ahead_trans)

lemma select_ahead: "ahead w (snd (select_timer ox iv c w))"
  using pass_turn_rel(1)[of w ox] by (auto simp: select_timer_def ahead_def split: prod.splits)

interpretation steps: world_order "deployer ox os" ahead for ox :: "'o Outside" and os
  by unfold_locales
    (simp_all add: neighbours snd_case_fst ahead_trans call_ahead on_db_ahead on_out_ahead adapter_steps
      upload_steps mint_steps RS_Get_ahead select_ahead)

section \<open>Time\<close>

lemma RS_Get_later: "w_now w \<le> w_now (snd (RS_Get ox c i w))"
  by (rule RS_Get_rel[where P = "\<lambda>v w. w_now v \<le> w_now w"]) (auto intro!: call_later)

lemma select_later: "w_now w \<le> w_now (snd (select_timer ox iv c w))"
  using pass_turn_rel(2)[of w ox] by (auto simp: select_timer_def split: prod.splits)

lemma select_fired: "select_timer ox iv c w = (True, w') \<Longrightarrow> w_now w + iv \<le> w_now w'"
  by (auto simp: select_timer_def split: prod.splits if_splits)

interpretation time: clockwork "deployer ox os" for ox :: "'o Outside" and os
  by unfold_locales
    (simp_all add: neighbours snd_case_fst call_later RS_Get_later select_later select_fired)

section \<open>Rows\<close>

definition row_state :: "'o world \<Rightarrow> ident \<Rightarrow> State option" where
  "row_state w i = map_option d_state (q_GetDeployment (w_db w) i)"

definition sound :: "'o world \<Rightarrow> bool" where
  "sound w \<longleftrightarrow> store_ok (w_db w)"

lemma work_steps_ok: "work_step\<^sup>*\<^sup>* s s' \<Longrightarrow> store_ok s \<Longrightarrow> store_ok s'"
  by (induction rule: rtranclp_induct) (auto intro: work_ok)

lemma sound_ahead: "sound w \<Longrightarrow> ahead w w' \<Longrightarrow> sound w'"
  using work_steps_ok by (auto simp: sound_def ahead_def)

lemma row_by_id:
  assumes "store_ok s" "d \<in> set (deployments s)"
  shows "q_GetDeployment s (d_id d) = Some d"
  using sel_one_unique[of d_id "deployments s" d] assms
  by (simp add: q_GetDeployment_def store_ok_def keys_ok_def)

lemma work_steps_effects: "work_step\<^sup>*\<^sup>* s s' \<Longrightarrow> store_ok s \<Longrightarrow> effect\<^sup>*\<^sup>* s s'"
proof (induction rule: rtranclp_induct)
  case (step y z)
  then have "effect\<^sup>*\<^sup>* y z" using work_effects work_steps_ok by blast
  then show ?case using step by auto
qed simp

lemma terminal_stays:
  assumes "sound w" "ahead w w'" "row_state w i = Some t" "Terminal t"
  shows "row_state w' i = Some t"
proof -
  obtain d where d: "q_GetDeployment (w_db w) i = Some d" "d_state d = t"
    using assms(3) by (auto simp: row_state_def)
  then have dm: "d \<in> set (deployments (w_db w))" "d_id d = i" using q_GetDeployment_Some by blast+
  have "work_step\<^sup>*\<^sup>* (w_db w) (w_db w')" "store_ok (w_db w)" using assms(1,2) by (auto simp: sound_def ahead_def)
  then have "\<exists>e \<in> set (deployments (w_db w')). row_next d e" by (intro effects_rows[OF work_steps_effects _ dm(1)])
  then obtain e where e: "e \<in> set (deployments (w_db w'))" "row_next d e" by blast
  then have "q_GetDeployment (w_db w') i = Some e"
    using row_by_id[of "w_db w'" e] sound_ahead[OF assms(1,2)] dm(2)
    by (auto simp: sound_def row_next_def)
  then show ?thesis using e(2) d(2) assms(4) by (auto simp: row_state_def row_next_def)
qed

lemma call_Inr:
  assumes "call ox c f w = (Inr a, w')" "sound w"
  obtains tn w1 where "f tn w1 = (Inr a, w')" "sound w1"
  using assms pass_turn_rel(1)[of w ox] sound_ahead[OF assms(2)]
  by (auto simp: call_def split: prod.splits if_splits weather.splits)

lemma call_beaten:
  assumes "call ox c f w = (Inl ErrNotInFlight, w')" "sound w"
  obtains tn w1 where "f tn w1 = (Inl ErrNotInFlight, w')" "sound w1"
  using assms pass_turn_rel(1)[of w ox] sound_ahead[OF assms(2)]
  by (auto simp: call_def split: prod.splits if_splits weather.splits)

lemma call_honest: "(\<And>tn w. fst (f tn w) \<noteq> Inl ErrNotInFlight) \<Longrightarrow> fst (call ox c f w) \<noteq> Inl ErrNotInFlight"
  by (auto simp: call_def split: prod.splits weather.splits)

lemma moved_state:
  assumes "q_GetDeployment s i = Some d"
  shows "map_option d_state (q_GetDeployment (moved s d p e now) i) = Some (p_state p)"
proof -
  have "d_id d = i" using assms by (auto simp: q_GetDeployment_def)
  have "sel_one (\<lambda>x. d_id x = i) (upd_where (\<lambda>x. d_id x = i) (set_state p now) t) =
      map_option (set_state p now) (sel_one (\<lambda>x. d_id x = i) t)" for t
    by (induction t) auto
  then show ?thesis using assms \<open>d_id d = i\<close> by (simp add: q_GetDeployment_def)
qed

lemma faulted_terminal [simp]: "faulted r \<noteq> Inl ErrTerminal"
  by (cases r) auto

lemma next_step_terminal:
  "next_step r k = Inl ErrTerminal \<longleftrightarrow> r = Inl ErrTerminal \<or> (\<exists>x. r = Inr x \<and> k x = Inl ErrTerminal)"
  by (cases r) auto

lemma row_or_terminal [simp]: "row_or ErrNotFound r \<noteq> Inl ErrTerminal"
  by (cases r) auto

lemma move_check_terminal: "move_check from to' = Inl ErrTerminal \<longleftrightarrow> Terminal from"
  by (auto simp: move_check_def)

lemma restore_config_terminal: "restore_config s app cfg now \<noteq> Inl ErrTerminal"
  by (induction cfg arbitrary: s) (auto simp: next_step_terminal)

lemma insert_release_terminal [simp]: "insert_release s r \<noteq> Inl ErrTerminal"
  by (auto simp: insert_release_def split: sum.splits)

lemma applyTransition_terminal [simp]: "applyTransition s d t reason detail evt now \<noteq> Inl ErrTerminal"
  by (auto simp: applyTransition_def next_step_terminal)

lemma Transition_terminal:
  "Transition s i to' reason detail evt now = Inl ErrTerminal \<Longrightarrow> \<exists>d. q_GetDeployment s i = Some d \<and> Terminal (d_state d)"
  by (auto simp: Transition_def next_step_terminal move_check_terminal split: if_splits)

lemma MarkHealthy_terminal:
  "MarkHealthy s i cfg evt rel now = Inl ErrTerminal \<Longrightarrow> \<exists>d. q_GetDeployment s i = Some d \<and> Terminal (d_state d)"
  by (auto simp: MarkHealthy_def next_step_terminal move_check_terminal replaceConfig_def restore_config_terminal
      split: if_splits prod.splits)

lemma transition_row:
  assumes "on_db (RS_Transition i t reason detail evt now) w = (Inr u, w')"
  shows "row_state w' i = Some t"
proof -
  obtain d s' where t: "Transition (w_db w) i t reason detail evt now = Inr (d, s')" "w' = w\<lparr>w_db := s'\<rparr>"
    using assms by (auto simp: on_db_def RS_Transition_def split: prod.splits sum.splits)
  then show ?thesis
    using moved_state by (auto simp: row_state_def elim!: Transition_Inr)
qed

lemma transition_beaten:
  assumes "on_db (RS_Transition i t reason detail evt now) w = (Inl ErrNotInFlight, w')"
  shows "\<exists>t. row_state w' i = Some t \<and> Terminal t"
proof -
  have "Transition (w_db w) i t reason detail evt now = Inl ErrTerminal" "w' = w"
    using assms by (auto simp: on_db_def RS_Transition_def err_is_def split: prod.splits sum.splits if_splits)
  then show ?thesis using Transition_terminal by (fastforce simp: row_state_def)
qed

lemma healthy_row:
  assumes "on_db (RS_MarkHealthy i cfg evt rel now) w = (Inr r, w')"
  shows "row_state w' i = Some StateHealthy"
proof -
  obtain d rl s' where t: "MarkHealthy (w_db w) i cfg evt rel now = Inr (d, rl, s')" "w' = w\<lparr>w_db := s'\<rparr>"
    using assms by (auto simp: on_db_def RS_MarkHealthy_def split: prod.splits sum.splits)
  show ?thesis
  proof (rule MarkHealthy_Inr[OF t(1)], goal_cases)
    case (1 x p e s1 cs)
    have "q_GetDeployment s' i = q_GetDeployment s1 i" using 1(11) by (simp add: q_GetDeployment_def)
    then show ?case using 1 moved_state[OF 1(1), of p e now] t(2) by (simp add: row_state_def)
  qed
qed

lemma healthy_beaten:
  assumes "on_db (RS_MarkHealthy i cfg evt rel now) w = (Inl ErrNotInFlight, w')"
  shows "\<exists>t. row_state w' i = Some t \<and> Terminal t"
proof -
  have "MarkHealthy (w_db w) i cfg evt rel now = Inl ErrTerminal" "w' = w"
    using assms by (auto simp: on_db_def RS_MarkHealthy_def err_is_def split: prod.splits sum.splits if_splits)
  then show ?thesis using MarkHealthy_terminal by (fastforce simp: row_state_def)
qed

lemma fst_on_db [simp]: "fst (on_db f w) = fst (f (w_db w))"
  by (simp add: on_db_def split: prod.splits)

lemma fst_case_fst: "fst (case p of (r, s) \<Rightarrow> (f r, s)) = f (fst p)"
  by (cases p) simp

lemma map_sum_honest [simp]: "map_sum (\<lambda>_. OtherErr) g r \<noteq> Inl ErrNotInFlight" "map_sum StoreErr g q \<noteq> Inl ErrNotInFlight"
  by (cases r; simp) (cases q; simp)

lemma honest_answers [simp]:
  "fst (on_out f w) \<noteq> Inl ErrNotInFlight" "fst (reading g s) \<noteq> Inl ErrNotInFlight"
  "fst (RS_RecordBuild i path job repo digest now s) \<noteq> Inl ErrNotInFlight"
  by (auto simp: on_out_def reading_def RS_RecordBuild_def split: prod.splits sum.splits)

lemma RS_Get_honest [simp]: "fst (RS_Get ox c i w) \<noteq> Inl ErrNotInFlight"
proof -
  obtain r w1 where r: "call ox c (\<lambda>_. on_db (reading (\<lambda>s. GetApp s i))) w = (r, w1)" by fastforce
  show ?thesis
  proof (cases r)
    case (Inl e)
    have "r \<noteq> Inl ErrNotInFlight" using call_honest[of "\<lambda>_. on_db (reading (\<lambda>s. GetApp s i))" ox c w] r by simp
    then show ?thesis using r Inl by (simp add: RS_Get_def)
  next
    case (Inr app)
    obtain r' w2 where r': "call ox c (\<lambda>_. on_db (reading (\<lambda>s. GetAccount s (a_account_id app)))) w1 = (r', w2)"
      by fastforce
    have "r' \<noteq> Inl ErrNotInFlight"
      using call_honest[of "\<lambda>_. on_db (reading (\<lambda>s. GetAccount s (a_account_id app)))" ox c w1] r' by simp
    then show ?thesis using r r' Inr by (cases r') (auto simp: RS_Get_def)
  qed
qed

interpretation book: ledger "deployer ox os" ahead sound row_state for ox :: "'o Outside" and os
proof (unfold_locales, goal_cases)
  case (1 w w')
  then show ?case by (rule sound_ahead)
next
  case (2 w w' i s)
  then show ?case by (rule terminal_stays)
next
  case (3 w c i s reason detail w')
  then show ?case by (auto simp: neighbours elim!: call_Inr intro: transition_row)
next
  case (4 w c i s reason detail w')
  then show ?case by (auto simp: neighbours elim!: call_beaten intro: transition_beaten)
next
  case (5 w c i cfg rel w')
  then show ?case by (auto simp: neighbours elim!: call_Inr intro: healthy_row)
next
  case (6 w c i cfg w')
  then show ?case by (auto simp: neighbours elim!: call_beaten intro: healthy_beaten)
qed (simp_all add: neighbours call_honest fst_case_fst)

end
