(* ===== verification/Cluster_Trace.thy ===== *)
theory Cluster_Trace
  imports Reconcile_Store
begin

text \<open>
  The order of what the loop asks of the cluster. The outside is watched: every call its cluster
  receives is noted, with whether it succeeded. Whatever the outside answers and whatever happens
  in between, the log of a run has each workload right behind its namespace, its fence and its
  secrets.
\<close>

section \<open>A watched cluster\<close>

datatype cluster_call =
    CalledCreateJob KubeJob bool
  | CalledJobState string string bool
  | CalledSecret KubeSecret bool
  | CalledEnsure KubeNamespace KubeRoleBinding KubeQuota KubeLimitRange bool
  | CalledPolicies "NetworkPolicy list" bool
  | CalledNamespaces bool
  | CalledOlder int int bool
  | CalledDeleteNamespace string bool
  | CalledWorkload KubeWorkload KubeService KubeIngress bool
  | CalledReady string string bool
  | CalledDeleteJob string string bool

type_synonym 'o watched = "'o \<times> cluster_call list"

definition noted :: "(bool \<Rightarrow> 'c) \<Rightarrow> ('o \<Rightarrow> ('e + 'a) \<times> 'o) \<Rightarrow> 'o \<times> 'c list \<Rightarrow>
    ('e + 'a) \<times> 'o \<times> 'c list" where
  "noted k f x = (case f (fst x) of (r, out) \<Rightarrow> (r, out, snd x @ [k (\<not> isl r)]))"

definition unnoted :: "('o \<Rightarrow> 'r \<times> 'o) \<Rightarrow> 'o \<times> 'c list \<Rightarrow> 'r \<times> 'o \<times> 'c list" where
  "unnoted f x = (case f (fst x) of (r, out) \<Rightarrow> (r, out, snd x))"

definition watched_cluster :: "'o Cluster \<Rightarrow> 'o watched Cluster" where
  "watched_cluster C =
     \<lparr>c_CreateJob = (\<lambda>c j. noted (CalledCreateJob j) (c_CreateJob C c j)),
      c_JobState = (\<lambda>c ns n. noted (CalledJobState ns n) (c_JobState C c ns n)),
      c_ApplySecret = (\<lambda>c s. noted (CalledSecret s) (c_ApplySecret C c s)),
      c_EnsureNamespace = (\<lambda>c ns rb q l. noted (CalledEnsure ns rb q l) (c_EnsureNamespace C c ns rb q l)),
      c_ApplyNetworkPolicies = (\<lambda>c ps. noted (CalledPolicies ps) (c_ApplyNetworkPolicies C c ps)),
      c_AppNamespaces = (\<lambda>c. noted CalledNamespaces (c_AppNamespaces C c)),
      c_AppNamespacesOlderThan = (\<lambda>c now g. noted (CalledOlder now g) (c_AppNamespacesOlderThan C c now g)),
      c_DeleteNamespace = (\<lambda>c slug. noted (CalledDeleteNamespace slug) (c_DeleteNamespace C c slug)),
      c_ApplyWorkload = (\<lambda>c wl sv ig. noted (CalledWorkload wl sv ig) (c_ApplyWorkload C c wl sv ig)),
      c_WorkloadReady = (\<lambda>c ns n. noted (CalledReady ns n) (c_WorkloadReady C c ns n)),
      c_DeleteJob = (\<lambda>c ns n. noted (CalledDeleteJob ns n) (c_DeleteJob C c ns n))\<rparr>"

definition watching :: "('o \<times> 'c list) Cluster \<Rightarrow> 'o Outside \<Rightarrow> ('o \<times> 'c list) Outside" where
  "watching C ox =
     \<lparr>ox_next = unnoted (ox_next ox), ox_cluster = C,
      ox_registry = \<lparr>r_Digest = (\<lambda>c repo tag. unnoted (r_Digest (ox_registry ox) c repo tag)),
        r_ImageUser = (\<lambda>c repo digest. unnoted (r_ImageUser (ox_registry ox) c repo digest))\<rparr>,
      ox_untar = ox_untar ox, ox_stamp = ox_stamp ox, ox_parse = ox_parse ox, ox_sha = ox_sha ox\<rparr>"

definition watched :: "'o Outside \<Rightarrow> 'o watched Outside" where
  "watched ox = watching (watched_cluster (ox_cluster ox)) ox"

definition cluster_log :: "('o \<times> 'c list) world \<Rightarrow> 'c list" where
  "cluster_log w = snd (w_out w)"

section \<open>What comes before a workload\<close>

definition fenced_before ::
  "(string \<Rightarrow> string) \<Rightarrow> cluster_call list \<Rightarrow> KubeWorkload \<Rightarrow> KubeService \<Rightarrow> KubeIngress \<Rightarrow> bool" where
  "fenced_before sha l wl sv ig \<longleftrightarrow> (\<exists>earlier inp cred.
     l = earlier @
       [CalledEnsure (Namespace inp) (RoleBinding inp) (ResourceQuota inp) (LimitRange inp) True,
        CalledPolicies (policies inp) True,
        CalledSecret (PullSecret PullSecretName (NamespaceName (dI_slug inp)) cred) True,
        CalledSecret (ConfigSecret inp) True] \<and>
     wl = Workload sha inp \<and> sv = Service inp \<and> ig = Ingress inp)"

definition in_order :: "(string \<Rightarrow> string) \<Rightarrow> cluster_call list \<Rightarrow> bool" where
  "in_order sha l \<longleftrightarrow> (\<forall>pre wl sv ig b post.
     l = pre @ CalledWorkload wl sv ig b # post \<longrightarrow> fenced_before sha pre wl sv ig)"

lemma in_order_snoc:
  "in_order sha l \<Longrightarrow> (\<And>wl sv ig b. x = CalledWorkload wl sv ig b \<Longrightarrow> fenced_before sha l wl sv ig) \<Longrightarrow>
   in_order sha (l @ [x])"
  unfolding in_order_def by (auto simp: append_eq_append_conv2 append_eq_Cons_conv Cons_eq_append_conv) (metis append_Nil2)+

definition keeps_order :: "(string \<Rightarrow> string) \<Rightarrow> 'o watched world \<Rightarrow> 'o watched world \<Rightarrow> bool" where
  "keeps_order sha v w \<longleftrightarrow> (in_order sha (cluster_log v) \<longrightarrow> in_order sha (cluster_log w))"

lemma keeps_order_refl [simp]: "keeps_order sha w w"
  by (simp add: keeps_order_def)

lemma keeps_order_trans: "keeps_order sha u v \<Longrightarrow> keeps_order sha v w \<Longrightarrow> keeps_order sha u w"
  by (simp add: keeps_order_def)

lemma watching_simps [simp]:
  "ox_next (watching C ox) = unnoted (ox_next ox)" "ox_cluster (watching C ox) = C"
  "r_Digest (ox_registry (watching C ox)) c repo tag = unnoted (r_Digest (ox_registry ox) c repo tag)"
  "r_ImageUser (ox_registry (watching C ox)) c repo digest = unnoted (r_ImageUser (ox_registry ox) c repo digest)"
  "ox_sha (watching C ox) = ox_sha ox" "ox_stamp (watching C ox) = ox_stamp ox"
  "ox_parse (watching C ox) = ox_parse ox" "ox_untar (watching C ox) = ox_untar ox"
  by (simp_all add: watching_def)

lemma watched_simps [simp]:
  "ox_next (watched ox) = unnoted (ox_next ox)" "ox_cluster (watched ox) = watched_cluster (ox_cluster ox)"
  "r_Digest (ox_registry (watched ox)) c repo tag = unnoted (r_Digest (ox_registry ox) c repo tag)"
  "r_ImageUser (ox_registry (watched ox)) c repo digest = unnoted (r_ImageUser (ox_registry ox) c repo digest)"
  "ox_sha (watched ox) = ox_sha ox"
  by (simp_all add: watched_def)

lemma watching_turn [simp]: "cluster_log (snd (pass_turn (watching C ox) w)) = cluster_log w"
  by (simp add: pass_turn_def cluster_log_def unnoted_def Let_def split: prod.splits)

lemma watched_turn [simp]: "cluster_log (snd (pass_turn (watched ox) w)) = cluster_log w"
  by (simp add: watched_def)

lemma log_on_db [simp]: "cluster_log (snd (on_db f w)) = cluster_log w"
  by (simp add: on_db_def cluster_log_def split: prod.splits)

lemma log_unnoted [simp]: "cluster_log (snd (on_out (unnoted f) w)) = cluster_log w"
  by (simp add: on_out_def unnoted_def cluster_log_def split: prod.splits)

lemma log_files [simp]: "cluster_log (w\<lparr>w_files := fs\<rparr>) = cluster_log w" "cluster_log (w\<lparr>w_now := t\<rparr>) = cluster_log w"
  by (simp_all add: cluster_log_def)

lemma call_keeps_order:
  "(\<And>tn w. cluster_log (snd (f tn w)) = cluster_log w) \<Longrightarrow> keeps_order sha w (snd (call (watched ox) c f w))"
  by (rule call_rel[where P = "keeps_order sha"]) (auto simp: keeps_order_def)

text \<open>A call that succeeded is the last entry of the log; one that failed may not have arrived.\<close>

lemma call_noted:
  assumes "call (watched ox) c (\<lambda>_. on_out (noted k f)) w = (r, w')"
  shows "(\<forall>a. r = Inr a \<longrightarrow> cluster_log w' = cluster_log w @ [k True]) \<and>
    (cluster_log w' = cluster_log w \<or> (\<exists>b. cluster_log w' = cluster_log w @ [k b]))"
proof -
  obtain tn w1 where t: "pass_turn (watched ox) w = (tn, w1)" by fastforce
  then have w1: "snd (w_out w1) = cluster_log w" using watched_turn[of ox w] by (simp add: cluster_log_def)
  obtain a out where f: "f (fst (w_out w1)) = (a, out)" by fastforce
  show ?thesis
    using assms w1 t f
    by (cases a) (auto simp: call_def on_out_def noted_def cluster_log_def split: if_splits weather.splits)
qed

lemma call_noted_order:
  assumes "\<And>b wl sv ig d. k b \<noteq> CalledWorkload wl sv ig d"
  shows "keeps_order sha w (snd (call (watched ox) c (\<lambda>_. on_out (noted k f)) w))"
proof -
  obtain r w' where r: "call (watched ox) c (\<lambda>_. on_out (noted k f)) w = (r, w')" by fastforce
  show ?thesis using call_noted[OF r] assms r by (auto simp: keeps_order_def intro!: in_order_snoc)
qed

lemma RS_Get_keeps_order: "keeps_order sha w (snd (RS_Get (watched ox) c i w))"
  by (rule RS_Get_rel[where P = "keeps_order sha"]) (auto intro: call_keeps_order keeps_order_trans)

lemma select_keeps_order: "keeps_order sha w (snd (select_timer (watched ox) iv c w))"
proof -
  obtain tn w1 where "pass_turn (watched ox) w = (tn, w1)" by fastforce
  then show ?thesis using watched_turn[of ox w] by (auto simp: select_timer_def keeps_order_def)
qed

lemma applyApp_in_order:
  "keeps_order (ox_sha ox) w (snd (snd (applyApp (deployer (watched ox) os) c d app config w)))"
proof -
  let ?R = "deployer (watched ox) os"
  let ?repo = "if Rollback d then ImageRepoFor (o_RegistryHost (opts ?R)) (ra_slug app) else rd_repo d"
  let ?inp = "appInput ?R app (?repo @ ''@'' @ rd_digest d) config"
  let ?k1 = "CalledEnsure (Namespace ?inp) (RoleBinding ?inp) (ResourceQuota ?inp) (LimitRange ?inp)"
  let ?k2 = "CalledPolicies (policies ?inp)"
  let ?pull = "PullSecret PullSecretName (NamespaceName (ra_slug app)) (credential ?R)"
  let ?wl = "Workload (ox_sha ox) ?inp"
  let ?cl = "\<lambda>k f. call (watched ox) c (\<lambda>_. on_out (noted k f))"
  let ?C = "ox_cluster ox"
  obtain r1 w1 where 1: "?cl ?k1 (c_EnsureNamespace ?C c (Namespace ?inp) (RoleBinding ?inp) (ResourceQuota ?inp) (LimitRange ?inp)) w = (r1, w1)"
    by fastforce
  obtain r2 w2 where 2: "?cl ?k2 (c_ApplyNetworkPolicies ?C c (policies ?inp)) w1 = (r2, w2)" by fastforce
  obtain r3 w3 where 3: "?cl (CalledSecret ?pull) (c_ApplySecret ?C c ?pull) w2 = (r3, w3)" by fastforce
  obtain r4 w4 where 4: "?cl (CalledSecret (ConfigSecret ?inp)) (c_ApplySecret ?C c (ConfigSecret ?inp)) w3 = (r4, w4)"
    by fastforce
  obtain r5 w5 where 5: "?cl (CalledWorkload ?wl (Service ?inp) (Ingress ?inp)) (c_ApplyWorkload ?C c ?wl (Service ?inp) (Ingress ?inp)) w4 = (r5, w5)"
    by fastforce
  have run: "snd (snd (applyApp ?R c d app config w)) =
      (if isl r1 then w1 else if isl r2 then w2 else if isl r3 then w3 else if isl r4 then w4 else w5)"
  proof -
    have "c_EnsureNamespace (cluster_of ?R) c (Namespace ?inp) (RoleBinding ?inp) (ResourceQuota ?inp) (LimitRange ?inp) w = (r1, w1)"
      "c_ApplyNetworkPolicies (cluster_of ?R) c (policies ?inp) w1 = (r2, w2)"
      "c_ApplySecret (cluster_of ?R) c ?pull w2 = (r3, w3)"
      "c_ApplySecret (cluster_of ?R) c (ConfigSecret ?inp) w3 = (r4, w4)"
      "c_ApplyWorkload (cluster_of ?R) c (Workload (t_sha256 (runtime_of ?R)) ?inp) (Service ?inp) (Ingress ?inp) w4 = (r5, w5)"
      using 1 2 3 4 5 by (simp_all only: deployer_def out_cluster_def watched_cluster_def watched_simps
          Reconciler.simps Cluster.simps Runtime.simps)
    then show ?thesis unfolding applyApp_def Let_def
      by (cases r1; cases r2; cases r3; cases r4; cases r5) (simp_all only: attempt_simps failing_def snd_conv sum.disc if_True if_False not_True_eq_False)
  qed
  have quiet: "keeps_order (ox_sha ox) w w1" "keeps_order (ox_sha ox) w1 w2" "keeps_order (ox_sha ox) w2 w3"
    "keeps_order (ox_sha ox) w3 w4"
    using call_noted_order[of ?k1 "ox_sha ox" w ox c] 1 call_noted_order[of ?k2 "ox_sha ox" w1 ox c] 2
      call_noted_order[of "CalledSecret ?pull" "ox_sha ox" w2 ox c] 3
      call_noted_order[of "CalledSecret (ConfigSecret ?inp)" "ox_sha ox" w3 ox c] 4
    by (metis cluster_call.distinct snd_conv)+
  note q1 = quiet(1) and q2 = keeps_order_trans[OF quiet(1,2)]
  note q3 = keeps_order_trans[OF q2 quiet(3)]
  note q4 = keeps_order_trans[OF q3 quiet(4)]
  have last: "keeps_order (ox_sha ox) w4 w5"
    if ok: "\<not> isl r1" "\<not> isl r2" "\<not> isl r3" "\<not> isl r4"
  proof -
    have log: "cluster_log v' = cluster_log v @ [k True]" if "?cl k f v = (r, v')" "\<not> isl r" for k f v r v'
      using call_noted[OF that(1)] that(2) by (cases r) simp_all
    have "cluster_log w4 = cluster_log w @ [?k1 True, ?k2 True, CalledSecret ?pull True, CalledSecret (ConfigSecret ?inp) True]"
      unfolding log[OF 4 ok(4)] log[OF 3 ok(3)] log[OF 2 ok(2)] log[OF 1 ok(1)] by simp
    moreover have "dI_slug ?inp = ra_slug app" by (simp add: appInput_def)
    ultimately have "fenced_before (ox_sha ox) (cluster_log w4) ?wl (Service ?inp) (Ingress ?inp)"
      unfolding fenced_before_def
      by (intro exI[of _ "cluster_log w"] exI[of _ ?inp] exI[of _ "credential ?R"] conjI refl) (simp only:)
    then show ?thesis using call_noted[OF 5] by (auto simp: keeps_order_def intro!: in_order_snoc)
  qed
  show ?thesis
    unfolding run using q1 q2 q3 q4 keeps_order_trans[OF q4 last] by presburger
qed

interpretation trace: calls_frame "deployer (watched ox) os" "keeps_order (ox_sha ox)" for ox :: "'o Outside" and os
proof (unfold_locales, goal_cases)
  case (1 w)
  show ?case by simp
next
  case (2 u v w)
  then show ?case by (rule keeps_order_trans)
next
  case (30 c d app config w)
  show ?case by (rule applyApp_in_order)
qed (simp_all add: neighbours watched_cluster_def call_noted_order call_keeps_order RS_Get_keeps_order select_keeps_order)

text \<open>C5: In every run, whatever the cluster answers and whatever other callers do in between, a
  workload is applied only right behind four calls that succeeded, with nothing else asked of the
  cluster in between: its namespace with its quota and limits, both of its network policies, its
  pull secret and its configuration secret, all composed from the one input the workload is
  composed from.\<close>

theorem workload_behind_fence:
  assumes "Run (deployer (watched ox) os) c fired w = Some w'" "cluster_log w = []"
    and "cluster_log w' = pre @ CalledWorkload wl sv ig b # post"
  shows "\<exists>earlier inp cred. pre = earlier @
      [CalledEnsure (Namespace inp) (RoleBinding inp) (ResourceQuota inp) (LimitRange inp) True,
       CalledPolicies [DefaultDenyPolicy (dI_slug inp),
         AllowPolicy (dI_slug inp) (dI_blocked_cidrs inp) (dI_blocked_ports inp)] True,
       CalledSecret (PullSecret PullSecretName (NamespaceName (dI_slug inp)) cred) True,
       CalledSecret (ConfigSecret inp) True] \<and>
    wl = Workload (ox_sha ox) inp \<and> sv = Service inp \<and> ig = Ingress inp"
proof -
  have "keeps_order (ox_sha ox) w w'" using trace.Run_up[OF keeps_order_refl, of ox w os c fired] assms(1) by simp
  then have "fenced_before (ox_sha ox) pre wl sv ig" using assms(2,3) by (simp add: keeps_order_def in_order_def)
  then show ?thesis unfolding fenced_before_def policies_def .
qed

section \<open>What the reaper deletes\<close>

text \<open>\<open>v\<close> grew into \<open>w\<close> by calls that satisfy \<open>P\<close>.\<close>

definition grew_by :: "('c \<Rightarrow> bool) \<Rightarrow> ('o \<times> 'c list) world \<Rightarrow> ('o \<times> 'c list) world \<Rightarrow> bool" where
  "grew_by P v w \<longleftrightarrow> (\<exists>l. cluster_log w = cluster_log v @ l \<and> (\<forall>x \<in> set l. P x))"

lemma grew_by_refl [simp]: "grew_by P w w"
  by (simp add: grew_by_def)

lemma grew_by_trans: "grew_by P u v \<Longrightarrow> grew_by P v w \<Longrightarrow> grew_by P u w"
  unfolding grew_by_def by (elim exE conjE) (auto intro!: exI[of _ "_ @ _"])

lemma call_noted_grew:
  "(\<And>b. P (k b)) \<Longrightarrow> grew_by P w (snd (call (watched ox) c (\<lambda>_. on_out (noted k f)) w))"
  using call_noted[of ox c k f w "fst (call (watched ox) c (\<lambda>_. on_out (noted k f)) w)"
      "snd (call (watched ox) c (\<lambda>_. on_out (noted k f)) w)"]
  by (auto simp: grew_by_def)

definition reaped_from :: "string list \<Rightarrow> cluster_call \<Rightarrow> bool" where
  "reaped_from slugs x \<longleftrightarrow> (case x of CalledDeleteNamespace slug b \<Rightarrow> slug \<notin> set slugs | CalledOlder t g b \<Rightarrow> True | _ \<Rightarrow> False)"

definition deleted_slugs :: "cluster_call list \<Rightarrow> string set" where
  "deleted_slugs calls = {slug. \<exists>b. CalledDeleteNamespace slug b \<in> set calls}"

lemma reap_log:
  "grew_by (reaped_from slugs) w (reap (deployer (watched ox) os) c slugs candidates w)"
proof (induction candidates arbitrary: w)
  case (Cons slug candidates)
  have "grew_by (reaped_from slugs) w (snd (c_DeleteNamespace (cluster_of (deployer (watched ox) os)) c slug w))"
    if "slug \<notin> set slugs"
    using call_noted_grew[of "reaped_from slugs" "CalledDeleteNamespace slug" w ox c] that
    by (simp add: neighbours watched_cluster_def reaped_from_def)
  then show ?case using Cons.IH grew_by_trans by (auto; blast)
qed simp

lemma live_slugs_read:
  assumes "a_LiveAppSlugs (apps_of (deployer (watched ox) os)) c w = (r, w1)"
  shows "cluster_log w1 = cluster_log w \<and> ahead w w1 \<and> (\<forall>slugs. r = Inr slugs \<longrightarrow> slugs = LiveAppSlugs (w_db w1))"
proof -
  have c: "call (watched ox) c (\<lambda>_. on_db (reading (\<lambda>s. Inr (LiveAppSlugs s)))) w = (r, w1)"
    using assms by (simp add: neighbours)
  obtain tn w0 where t: "pass_turn (watched ox) w = (tn, w0)" by fastforce
  have "cluster_log w0 = cluster_log w" "ahead w w0" using watched_turn[of ox w] pass_turn_rel(1)[of w "watched ox"] t by auto
  moreover have "on_db (reading (\<lambda>s. Inr (LiveAppSlugs s))) w0 = (Inr (LiveAppSlugs (w_db w0)), w0)"
    by (simp add: on_db_def reading_def)
  ultimately show ?thesis using c t by (auto simp: call_def split: if_splits weather.splits)
qed

text \<open>C25: A pass of the reaper asks the cluster for the deletion of a namespace only when the
  database, at one moment of that pass, had no live app under its slug; the passes of everything
  else in the meantime, the answers of the cluster and a database that cannot answer included.\<close>

theorem reaper_spares_live_apps:
  "\<exists>s calls. let w' = ReapOrphanNamespaces (deployer (watched ox) os) c now w in
     work_step\<^sup>*\<^sup>* (w_db w) s \<and> work_step\<^sup>*\<^sup>* s (w_db w') \<and> cluster_log w' = cluster_log w @ calls \<and>
     deleted_slugs calls \<inter> set (LiveAppSlugs s) = {}"
proof -
  define w' where "w' = ReapOrphanNamespaces (deployer (watched ox) os) c now w"
  let ?R = "deployer (watched ox) os"
  obtain r w1 where r: "a_LiveAppSlugs (apps_of ?R) c w = (r, w1)" by fastforce
  note read = live_slugs_read[OF r]
  obtain q w2 where q: "c_AppNamespacesOlderThan (cluster_of ?R) c now (o_OrphanGrace (opts ?R)) w1 = (q, w2)" by fastforce
  have w2: "ahead w1 w2" using steps.older_step[of w1 "watched ox" os c now "o_OrphanGrace (opts ?R)"] q by simp
  have grown: "grew_by (reaped_from slugs) w1 w2" for slugs
    using call_noted_grew[of "reaped_from slugs" "CalledOlder now (o_OrphanGrace (opts ?R))" w1 ox c
        "c_AppNamespacesOlderThan (ox_cluster ox) c now (o_OrphanGrace (opts ?R))"] q
    by (simp add: neighbours watched_cluster_def reaped_from_def)
  show ?thesis
  proof (cases r)
    case (Inl e)
    then have "w' = w1" using w'_def r by (simp add: ReapOrphanNamespaces_def)
    then show ?thesis unfolding w'_def[symmetric] Let_def
      using read by (auto simp: ahead_def deleted_slugs_def intro!: exI[of _ "w_db w1"] exI[of _ "[]"])
  next
    case (Inr slugs)
    then have w': "w' = (case q of Inl _ \<Rightarrow> w2 | Inr cs \<Rightarrow> reap ?R c slugs cs w2)"
      using w'_def r q Inr by (cases q) (simp_all add: ReapOrphanNamespaces_def)
    then have "ahead w1 w'" "grew_by (reaped_from slugs) w1 w'"
      using w2 steps.reap_up[OF w2] grown reap_log grew_by_trans[OF grown reap_log]
      by (auto split: sum.splits)
    then obtain calls where calls: "cluster_log w' = cluster_log w1 @ calls" "\<forall>x \<in> set calls. reaped_from slugs x"
      by (auto simp: grew_by_def)
    have "deleted_slugs calls \<inter> set slugs = {}"
      using calls(2) by (force simp: reaped_from_def deleted_slugs_def)
    moreover have "slugs = LiveAppSlugs (w_db w1)" using read Inr by simp
    ultimately show ?thesis unfolding w'_def[symmetric] Let_def
      using read calls(1) \<open>ahead w1 w'\<close> unfolding ahead_def by (intro exI[of _ "w_db w1"] exI[of _ calls]) simp
  qed
qed

end
