(* ===== verification/Deployer_Demo.thy ===== *)
theory Deployer_Demo
  imports Cluster_Trace
begin

text \<open>
  One run of the loop evaluated in full: a deployment found in \<open>deploying\<close> at startup is driven to
  healthy on a cluster that answers everything, and the calls the cluster received are the log.
\<close>

section \<open>A run\<close>

definition demo_turn :: "nat \<Rightarrow> turn" where
  "demo_turn n = \<lparr>tn_elapsed = 1, tn_stopped = False, tn_others = [], tn_files = [], tn_weather = Fair,
     tn_event = ''evt_9'', tn_release = ''rel_1'', tn_token = ''t'', tn_pick = False\<rparr>"

definition demo_cluster :: "nat Cluster" where
  "demo_cluster =
     \<lparr>c_CreateJob = (\<lambda>c j n. (Inr \<lparr>ow_kind = ''Job'', ow_name = [], ow_uid = []\<rparr>, n)),
      c_JobState = (\<lambda>c ns i n. (Inr JobSucceeded, n)), c_ApplySecret = (\<lambda>c s n. (Inr (), n)),
      c_EnsureNamespace = (\<lambda>c ns rb q l n. (Inr (), n)), c_ApplyNetworkPolicies = (\<lambda>c ps n. (Inr (), n)),
      c_AppNamespaces = (\<lambda>c n. (Inr [], n)), c_AppNamespacesOlderThan = (\<lambda>c t g n. (Inr [], n)),
      c_DeleteNamespace = (\<lambda>c s n. (Inr (), n)), c_ApplyWorkload = (\<lambda>c wl sv ig n. (Inr (), n)),
      c_WorkloadReady = (\<lambda>c ns i n. (Inr True, n)), c_DeleteJob = (\<lambda>c ns i n. (Inr (), n))\<rparr>"

definition demo_outside :: "nat Outside" where
  "demo_outside =
     \<lparr>ox_next = (\<lambda>n. (demo_turn n, Suc n)), ox_cluster = demo_cluster,
      ox_registry = \<lparr>r_Digest = (\<lambda>c repo tag n. (Inr ''sha256:1'', n)), r_ImageUser = (\<lambda>c repo d n. (Inr (runes_of ''1000''), n))\<rparr>,
      ox_untar = (\<lambda>_. \<lparr>ar_gzip = True, ar_entries = [], ar_eof = True, ar_end = 0\<rparr>),
      ox_stamp = (\<lambda>_. ''t9''), ox_parse = (\<lambda>_. None), ox_sha = id\<rparr>"

definition demo_options :: Options where
  "demo_options = \<lparr>o_PodName = ''pod-1'', o_ControlPlaneNamespace = ''deployer'', o_BuildNamespace = ''builds'',
     o_BuildkitNamespace = ''buildkit'', o_AppDomain = ''example.com'', o_IngressClassName = ''nginx'',
     o_SelfImage = ''self'', o_BuilderImage = ''builder'', o_BuildUID = 1000, o_BuildGID = 1000,
     o_BuildkitImage = ''bk'', o_BuildkitUID = 1000, o_BuildkitGID = 1000, o_InternalURL = ''http://d'',
     o_RegistryHost = ''reg'', o_RegistryUser = ''u'', o_RegistryPass = ''p'', o_DeployTimeout = 1000,
     o_BuildTimeout = 500, o_ReadyTimeout = 500, o_ReconcileInterval = 10, o_OrphanGrace = 10,
     o_MaxUploadFiles = 10, o_MaxExtractedBytes = 1000, o_CPU = ''1'', o_Memory = ''1Gi'', o_LimitCPU = ''1'',
     o_LimitMemory = ''1Gi'', o_QuotaCPU = ''1'', o_QuotaMemory = ''1Gi'', o_QuotaPods = 3,
     o_EgressBlockedCIDRs = [], o_EgressBlockedPorts = []\<rparr>"

definition demo_world :: "nat watched world" where
  "demo_world = \<lparr>w_db = db_deploying, w_files = Map.empty, w_now = 0, w_stopped = False, w_out = (0, [])\<rparr>"

lemma demo_call:
  "call (watched demo_outside) c f w = (let w1 = w\<lparr>w_now := w_now w + 1, w_out := (Suc (fst (w_out w)), snd (w_out w))\<rparr> in
     if done_ctx c w1 then (Inl ContextDone, w1) else f (demo_turn 0) w1)"
  by (simp add: call_def pass_turn_def demo_outside_def watched_def unnoted_def demo_turn_def Let_def)

lemma demo_noted: "on_out (noted k f) w = (case f (fst (w_out w)) of (r, out) \<Rightarrow>
    (map_sum (\<lambda>_. OtherErr) id r, w\<lparr>w_out := (out, snd (w_out w) @ [k (\<not> isl r)])\<rparr>))"
  by (simp add: on_out_def noted_def split: prod.splits)

lemma weak_congs:
  "x = y \<Longrightarrow> attempt x b g = attempt y b g"
  "r = r' \<Longrightarrow> Option.bind r k = Option.bind r' k"
  "d = d' \<Longrightarrow> w = w' \<Longrightarrow> in_state s act k' d w = in_state s act k' d' w'"
  "q = q' \<Longrightarrow> or_stop q k2 = or_stop q' k2"
  "q3 = q3' \<Longrightarrow> and_then q3 k3 = and_then q3' k3"
  by simp_all

definition demo :: "nat watched world Reconciler" where
  "demo = deployer (watched demo_outside) demo_options"

definition tick :: "nat watched world \<Rightarrow> nat watched world" where
  "tick w = w\<lparr>w_now := w_now w + 1, w_out := (Suc (fst (w_out w)), snd (w_out w))\<rparr>"

definition demo_step :: "ctx \<Rightarrow> 'a \<Rightarrow> cluster_call \<Rightarrow> nat watched world \<Rightarrow> (rc_error + 'a) \<times> nat watched world" where
  "demo_step c a k w = (if done_ctx c (tick w) then (Inl ContextDone, tick w)
     else (Inr a, (tick w)\<lparr>w_out := (Suc (fst (w_out w)), snd (w_out w) @ [k])\<rparr>))"

definition demo_db :: "ctx \<Rightarrow> (db \<Rightarrow> (rc_error + 'a) \<times> db) \<Rightarrow> nat watched world \<Rightarrow> (rc_error + 'a) \<times> nat watched world" where
  "demo_db c f w = (if done_ctx c (tick w) then (Inl ContextDone, tick w) else on_db f (tick w))"

lemma demo_cluster_calls:
  "c_ApplySecret (cluster_of demo) c s w = demo_step c () (CalledSecret s True) w"
  "c_EnsureNamespace (cluster_of demo) c ns rb q l w = demo_step c () (CalledEnsure ns rb q l True) w"
  "c_ApplyNetworkPolicies (cluster_of demo) c ps w = demo_step c () (CalledPolicies ps True) w"
  "c_AppNamespaces (cluster_of demo) c w = demo_step c [] (CalledNamespaces True) w"
  "c_AppNamespacesOlderThan (cluster_of demo) c t g w = demo_step c [] (CalledOlder t g True) w"
  "c_ApplyWorkload (cluster_of demo) c wl sv ig w = demo_step c () (CalledWorkload wl sv ig True) w"
  "c_WorkloadReady (cluster_of demo) c n i w = demo_step c True (CalledReady n i True) w"
  by (simp_all add: demo_def neighbours demo_call demo_noted demo_step_def tick_def watched_cluster_def Let_def)
    (simp_all add: demo_outside_def demo_cluster_def)

lemma demo_stamp: "stamp_now (watched demo_outside) w = ''t9''"
  by (simp add: stamp_now_def watched_def demo_outside_def)

lemma demo_call_db:
  "call (watched demo_outside) c (\<lambda>_. on_db f) w = demo_db c f w"
  "call (watched demo_outside) c (\<lambda>_ w. on_db (g w) w) w = (if done_ctx c (tick w) then (Inl ContextDone, tick w) else on_db (g (tick w)) (tick w))"
  by (simp_all add: demo_call demo_db_def tick_def Let_def)

lemma demo_event:
  "call (watched demo_outside) c (\<lambda>tn. on_db (RS_MarkHealthy i cfg (tn_event tn) (tn_release tn) now)) w =
   demo_db c (RS_MarkHealthy i cfg ''evt_9'' ''rel_1'' now) w"
  by (simp_all add: demo_call demo_db_def tick_def Let_def demo_turn_def)

lemma demo_db_calls:
  "d_ListNonTerminal (deployments_of demo) c w = demo_db c (RS_ListNonTerminal (\<lambda>_. None)) w"
  "d_MarkHealthy (deployments_of demo) c i cfg w = demo_db c (RS_MarkHealthy i cfg ''evt_9'' ''rel_1'' ''t9'') w"
  "a_ConfigForDeploy (apps_of demo) c i w = demo_db c (reading (\<lambda>s. Inr (RS_ConfigForDeploy i s))) w"
  "a_LiveAppSlugs (apps_of demo) c w = demo_db c (reading (\<lambda>s. Inr (LiveAppSlugs s))) w"
  "a_Get (apps_of demo) c i w = attempt (demo_db c (reading (\<lambda>s. GetApp s i)) w) (\<lambda>e w. (Inl e, w)) (\<lambda>app w.
     attempt (demo_db c (reading (\<lambda>s. GetAccount s (a_account_id app))) w) (\<lambda>e w. (Inl e, w)) (\<lambda>acc w.
     (Inr \<lparr>ra_id = a_id app, ra_slug = a_slug app, ra_suspended = (acc_disabled_at acc \<noteq> None)\<rparr>, w)))"
  "u_Get (uploads_of demo) c i w = demo_db c (\<lambda>s. case us_GetUpload (ForUploads [] ''t9'') i s of
     (r, s) \<Rightarrow> (map_sum (\<lambda>_. OtherErr) for_loop r, s)) w"
  by (simp_all add: demo_def neighbours demo_call_db RS_Get_def demo_stamp demo_event)
    (simp_all add: demo_outside_def watched_def)

lemma demo_rest:
  "u_Remove (uploads_of demo) c p w = (tick w)\<lparr>w_files := Remove p (w_files w)\<rparr>"
  "t_now (runtime_of demo) w = w_now w" "t_stopped (runtime_of demo) w = w_stopped w"
  "t_sha256 (runtime_of demo) = id" "opts demo = demo_options"
  by (simp_all add: demo_def neighbours demo_call tick_def Let_def background_def done_ctx_def)
    (simp add: demo_outside_def)

definition demo_dep :: RDeployment where
  "demo_dep = deploymentRow (\<lambda>_. None) deploying1"

definition demo_live_db :: db where
  "demo_live_db = db_deploying\<lparr>
     deployments := [deploying1\<lparr>d_state := StateHealthy, d_finished_at := Some ''t9'', d_updated_at := ''t9''\<rparr>],
     events := events db_deploying @ [moved_event ''evt_9'' StateDeploying StateHealthy ''t9''],
     releases := [rel1\<lparr>r_config_snapshot := configSnapshot []\<rparr>],
     apps := [app1\<lparr>a_current_release_id := Some ''rel_1'', a_updated_at := ''t9''\<rparr>]\<rparr>"

lemma demo_reads:
  "RS_ListNonTerminal (\<lambda>_. None) db_deploying = (Inr [demo_dep], db_deploying)"
  "GetApp db_deploying ''app_1'' = Inr app1"
  "GetAccount db_deploying ''acc_1'' = Inr acc1"
  "us_GetUpload (ForUploads [] ''t9'') ''upl_1'' db_deploying = (Inr (row upl1), db_deploying)"
  "RS_ConfigForDeploy ''app_1'' db_deploying = []"
  "RS_MarkHealthy ''dep_1'' [] ''evt_9'' ''rel_1'' ''t9'' db_deploying =
     (Inr \<lparr>rr_number = 1, rr_digest = ''sha256:1''\<rparr>, demo_live_db)"
  "LiveAppSlugs demo_live_db = [''blog-k3x9q2'']"
  apply code_simp
  apply code_simp
  apply code_simp
  apply (simp add: ForUploads_def)
  apply code_simp
  apply code_simp
  apply code_simp
  apply code_simp
  done

lemma demo_dep_row: "demo_dep = \<lparr>rd_id = ''dep_1'', rd_app = ''app_1'', rd_upload = ''upl_1'', rd_state = StateDeploying,
    rd_repo = ''repo'', rd_digest = ''sha256:1'', rd_created = None, rd_job = ''job'', rd_path = ''dockerfile'', rd_source = []\<rparr>"
  by code_simp

lemmas demo_simps = demo_cluster_calls demo_db_calls demo_rest demo_reads demo_db_def demo_step_def on_db_def
  reading_def done_ctx_def tick_def

definition demo_at :: "db \<Rightarrow> int \<Rightarrow> nat \<Rightarrow> 'c list \<Rightarrow> (nat \<times> 'c list) world" where
  "demo_at s t n l = \<lparr>w_db = s, w_files = Map.empty, w_now = t, w_stopped = False, w_out = (n, l)\<rparr>"

lemma demo_ready: "ready_loop demo c ph app d w =
  (case c_WorkloadReady (cluster_of demo) ph (NamespaceName (ra_slug app)) WorkloadName w of (r, w1) \<Rightarrow>
        if r = Inr True then Some (None, d, w1)
        else case wait demo c ph (ra_id app) ReasonAppNeverReady d w1 of
          (Some f, d2, w2) \<Rightarrow> Some (Some f, d2, w2) | (None, d2, w2) \<Rightarrow> ready_loop demo c ph app d2 w2)"
  by (rule ready_loop.simps)

definition demo_input :: DeployInput where
  "demo_input = appInput demo \<lparr>ra_id = ''app_1'', ra_slug = ''blog-k3x9q2'', ra_suspended = False\<rparr> ''repo@sha256:1'' []"

definition demo_log :: "cluster_call list" where
  "demo_log =
     [CalledNamespaces True,
      CalledEnsure (Namespace demo_input) (RoleBinding demo_input) (ResourceQuota demo_input) (LimitRange demo_input) True,
      CalledPolicies (policies demo_input) True,
      CalledSecret (PullSecret PullSecretName (NamespaceName ''blog-k3x9q2'') (credential demo)) True,
      CalledSecret (ConfigSecret demo_input) True,
      CalledWorkload (Workload id demo_input) (Service demo_input) (Ingress demo_input) True,
      CalledReady (NamespaceName ''blog-k3x9q2'') WorkloadName True]"

lemma demo_drive: "Drive demo background demo_dep (demo_at db_deploying 2 2 [CalledNamespaces True]) =
    Some (BecameHealthy, demo_at demo_live_db 16 16 demo_log)"
  by (simp add: Drive_def remainingBudget_def demo_dep_row demo_simps demo_options_def WithTimeout_def background_def demo_at_def
      run_def in_state_def or_stop_def blocked_def overBudget_def ctx_err_def deployApp_def applyApp_def Let_def deployConfig_def Rollback_def
      awaitReady_def demo_ready and_then_def settle_def app1_def acc1_def Remove_def upl1_def row_def for_loop_def
      demo_log_def demo_input_def discard_def fun_upd_idem cong: weak_congs prod.case_cong_weak option.case_cong_weak)

lemma demo_not_done: "\<not> ctx_err demo background w"
  by (simp add: ctx_err_def background_def)

lemma demo_run: "Run demo background [] demo_world =
    Some (demo_at demo_live_db 18 18 (demo_log @ [CalledOlder 16 10 True]))"
proof -
  have "PolicySweep demo background demo_world = demo_at db_deploying 1 1 [CalledNamespaces True]"
    by (simp add: PolicySweep_def demo_simps demo_world_def background_def demo_at_def)
  moreover have "SweepInFlight demo background (demo_at db_deploying 1 1 [CalledNamespaces True]) =
      Some (demo_at demo_live_db 16 16 demo_log)"
  proof -
    have "d_ListNonTerminal (deployments_of demo) background (demo_at db_deploying 1 1 [CalledNamespaces True]) =
        (Inr [demo_dep], demo_at db_deploying 2 2 [CalledNamespaces True])"
      by (simp add: demo_simps background_def demo_at_def)
    then show ?thesis
      by (simp add: SweepInFlight_def demo_drive demo_not_done)
  qed
  moreover have "ReapOrphanNamespaces demo background 16 (demo_at demo_live_db 16 16 demo_log) =
      demo_at demo_live_db 18 18 (demo_log @ [CalledOlder 16 10 True])"
    by (simp add: ReapOrphanNamespaces_def demo_simps background_def demo_at_def demo_options_def)
  ultimately show ?thesis by (simp add: Run_def demo_rest demo_at_def)
qed

lemma workload_behind_fence_witness:
  "\<exists>earlier inp cred. take 5 demo_log = earlier @
      [CalledEnsure (Namespace inp) (RoleBinding inp) (ResourceQuota inp) (LimitRange inp) True,
       CalledPolicies [DefaultDenyPolicy (dI_slug inp),
         AllowPolicy (dI_slug inp) (dI_blocked_cidrs inp) (dI_blocked_ports inp)] True,
       CalledSecret (PullSecret PullSecretName (NamespaceName (dI_slug inp)) cred) True,
       CalledSecret (ConfigSecret inp) True] \<and>
    Workload id demo_input = Workload id inp \<and> Service demo_input = Service inp \<and> Ingress demo_input = Ingress inp"
  using workload_behind_fence[OF demo_run[unfolded demo_def], of "take 5 demo_log" "Workload id demo_input"
      "Service demo_input" "Ingress demo_input" True "drop 6 demo_log @ [CalledOlder 16 10 True]"]
  by (simp add: cluster_log_def demo_world_def demo_at_def demo_log_def demo_outside_def)

end
