(* ===== verification/Kube_Client.thy ===== *)
theory Kube_Client
  imports Reconcile
begin

text \<open>
  \<^verbatim>\<open>internal/kube/kube.go\<close>: what the platform asks of the Kubernetes API, over the clientset it is
  given. The clientset is a parameter: per kind, create, get, update and delete over a world of
  any type, each of which may fail in any of the ways the code tells apart. A live object is the
  composed one and the fields the API server adds. Opening a client from the pod's service
  account is left out.
\<close>

section \<open>The clientset\<close>

text \<open>The errors the code tells apart.\<close>

datatype api_error = AlreadyExists | ApiNotFound | Forbidden | ApiOther

record ('w, 'o, 'l) Api =
  api_Create :: "ctx \<Rightarrow> string \<Rightarrow> 'o \<Rightarrow> 'w \<Rightarrow> (api_error + 'l) \<times> 'w"
  api_Get :: "ctx \<Rightarrow> string \<Rightarrow> string \<Rightarrow> 'w \<Rightarrow> (api_error + 'l) \<times> 'w"
  api_Update :: "ctx \<Rightarrow> string \<Rightarrow> 'l \<Rightarrow> 'w \<Rightarrow> (api_error + 'l) \<times> 'w"
  api_Delete :: "ctx \<Rightarrow> string \<Rightarrow> string \<Rightarrow> string option \<Rightarrow> 'w \<Rightarrow> (api_error + unit) \<times> 'w"

record LiveNamespace = KubeNamespace +
  ns_phase :: string
  ns_created :: int

record LivePolicy = NetworkPolicy +
  np_version :: string

record LiveJob = KubeJob +
  job_uid :: string
  job_conditions :: "(string \<times> string) list"

record LiveWorkload = KubeWorkload +
  wl_version :: string
  wl_generation :: int
  wl_observed :: int
  wl_count :: int
  wl_updated :: int
  wl_available :: int

record LiveService = KubeService +
  sv_version :: string
  sv_cluster_ip :: string

record LiveIngress = KubeIngress +
  ig_version :: string

record ContainerStatus =
  cst_name :: string
  cst_restarts :: int
  cst_waiting :: bool

record LivePod =
  pd_name :: string
  pd_created :: int
  pd_conditions :: "(string \<times> string) list"
  pd_containers :: "ContainerStatus list"

text \<open>A log stream is the bytes it yields and whether it then ends cleanly.\<close>

record 'w Clientset =
  cs_Namespaces :: "('w, KubeNamespace, LiveNamespace) Api"
  cs_RoleBindings :: "('w, KubeRoleBinding, KubeRoleBinding) Api"
  cs_Quotas :: "('w, KubeQuota, KubeQuota) Api"
  cs_LimitRanges :: "('w, KubeLimitRange, KubeLimitRange) Api"
  cs_Policies :: "('w, NetworkPolicy, LivePolicy) Api"
  cs_Secrets :: "('w, KubeSecret, KubeSecret) Api"
  cs_Jobs :: "('w, KubeJob, LiveJob) Api"
  cs_Workloads :: "('w, KubeWorkload, LiveWorkload) Api"
  cs_Services :: "('w, KubeService, LiveService) Api"
  cs_Ingresses :: "('w, KubeIngress, LiveIngress) Api"
  cs_ListNamespaces :: "ctx \<Rightarrow> string \<Rightarrow> 'w \<Rightarrow> (api_error + LiveNamespace list) \<times> 'w"
  cs_ListPods :: "ctx \<Rightarrow> string \<Rightarrow> string \<Rightarrow> 'w \<Rightarrow> (api_error + LivePod list) \<times> 'w"
  cs_Log :: "ctx \<Rightarrow> string \<Rightarrow> string \<Rightarrow> string \<Rightarrow> bool \<Rightarrow> int \<Rightarrow> bool \<Rightarrow> 'w \<Rightarrow> (api_error + string \<times> bool) \<times> 'w"

text \<open>What a caller of this package sees: every error wrapped, and the one it gives a name to.\<close>

datatype kube_error = KubeErr api_error | ErrNoNamespace | StreamErr

type_synonym ('w, 'a) kube_call = "'w \<Rightarrow> (kube_error + 'a) \<times> 'w"

definition wrapped :: "api_error \<Rightarrow> 'w \<Rightarrow> (kube_error + 'a) \<times> 'w" where
  "wrapped e w = (Inl (KubeErr e), w)"

section \<open>Ensuring and applying\<close>

definition ignoreExists :: "(api_error + 'l) \<times> 'w \<Rightarrow> (api_error + unit) \<times> 'w" where
  "ignoreExists r = attempt r (\<lambda>e w. if e = AlreadyExists then (Inr (), w) else (Inl e, w)) (\<lambda>_ w. (Inr (), w))"

definition EnsureNamespace ::
  "'w Clientset \<Rightarrow> ctx \<Rightarrow> KubeNamespace \<Rightarrow> KubeRoleBinding \<Rightarrow> KubeQuota \<Rightarrow> KubeLimitRange \<Rightarrow> ('w, unit) kube_call" where
  "EnsureNamespace cs c ns rb quota limits w =
     attempt (ignoreExists (api_Create (cs_Namespaces cs) c [] ns w)) wrapped (\<lambda>_ w.
     attempt (ignoreExists (api_Create (cs_RoleBindings cs) c (m_namespace (rb_meta rb)) rb w)) wrapped (\<lambda>_ w.
     attempt (ignoreExists (api_Create (cs_Quotas cs) c (m_namespace (qt_meta quota)) quota w)) wrapped (\<lambda>_ w.
     attempt (ignoreExists (api_Create (cs_LimitRanges cs) c (m_namespace (lr_meta limits)) limits w)) wrapped (\<lambda>_ w.
     (Inr (), w)))))"

text \<open>The composed policy over the live one: its labels, which come from the slug, and its spec.\<close>

definition over_policy :: "NetworkPolicy \<Rightarrow> LivePolicy \<Rightarrow> LivePolicy" where
  "over_policy p cur = cur\<lparr>np_slug := np_slug p, np_types := np_types p, np_ingress := np_ingress p, np_egress := np_egress p\<rparr>"

definition ApplyPolicy :: "'w Clientset \<Rightarrow> ctx \<Rightarrow> NetworkPolicy \<Rightarrow> ('w, unit) kube_call" where
  "ApplyPolicy cs c p w =
     (let api = cs_Policies cs; ns = NamespaceName (np_slug p) in
      attempt (api_Create api c ns p w)
        (\<lambda>e w. if e = AlreadyExists
           then attempt (api_Get api c ns (np_name p) w) wrapped (\<lambda>cur w.
                attempt (api_Update api c ns (over_policy p cur) w) wrapped (\<lambda>_ w. (Inr (), w)))
           else wrapped e w)
        (\<lambda>_ w. (Inr (), w)))"

fun ApplyNetworkPolicies :: "'w Clientset \<Rightarrow> ctx \<Rightarrow> NetworkPolicy list \<Rightarrow> ('w, unit) kube_call" where
  "ApplyNetworkPolicies cs c [] w = (Inr (), w)"
| "ApplyNetworkPolicies cs c (p # ps) w =
     attempt (ApplyPolicy cs c p w) (\<lambda>e w. (Inl e, w)) (\<lambda>_ w. ApplyNetworkPolicies cs c ps w)"

definition ApplySecret :: "'w Clientset \<Rightarrow> ctx \<Rightarrow> KubeSecret \<Rightarrow> ('w, unit) kube_call" where
  "ApplySecret cs c s w =
     (let api = cs_Secrets cs; ns = m_namespace (ks_meta s) in
      attempt (api_Get api c ns (m_name (ks_meta s)) w)
        (\<lambda>e w. if e = ApiNotFound then attempt (api_Create api c ns s w) wrapped (\<lambda>_ w. (Inr (), w)) else wrapped e w)
        (\<lambda>_ w. attempt (api_Update api c ns s w) wrapped (\<lambda>_ w. (Inr (), w))))"

definition updateDeployment :: "'w Clientset \<Rightarrow> ctx \<Rightarrow> KubeWorkload \<Rightarrow> ('w, unit) kube_call" where
  "updateDeployment cs c d w =
     (let api = cs_Workloads cs; ns = m_namespace (wl_meta d) in
      attempt (api_Get api c ns (m_name (wl_meta d)) w) wrapped (\<lambda>cur w.
      attempt (api_Update api c ns
          (cur\<lparr>wl_meta := (wl_meta cur)\<lparr>m_labels := m_labels (wl_meta d)\<rparr>, wl_replicas := wl_replicas d,
            wl_selector := wl_selector d, wl_template := wl_template d\<rparr>) w) wrapped (\<lambda>_ w. (Inr (), w))))"

definition ApplyService :: "'w Clientset \<Rightarrow> ctx \<Rightarrow> KubeService \<Rightarrow> ('w, unit) kube_call" where
  "ApplyService cs c s w =
     (let api = cs_Services cs; ns = m_namespace (sv_meta s) in
      attempt (api_Get api c ns (m_name (sv_meta s)) w)
        (\<lambda>e w. if e = ApiNotFound then attempt (api_Create api c ns s w) wrapped (\<lambda>_ w. (Inr (), w)) else wrapped e w)
        (\<lambda>cur w. attempt (api_Update api c ns
            (cur\<lparr>sv_selector := sv_selector s, sv_port := sv_port s, sv_target := sv_target s\<rparr>) w)
          wrapped (\<lambda>_ w. (Inr (), w))))"

definition ApplyIngress :: "'w Clientset \<Rightarrow> ctx \<Rightarrow> KubeIngress \<Rightarrow> ('w, unit) kube_call" where
  "ApplyIngress cs c i w =
     (let api = cs_Ingresses cs; ns = m_namespace (ig_meta i) in
      attempt (api_Create api c ns i w)
        (\<lambda>e w. if e = AlreadyExists
           then attempt (api_Get api c ns (m_name (ig_meta i)) w) wrapped (\<lambda>cur w.
                attempt (api_Update api c ns
                  (cur\<lparr>ig_class := ig_class i, ig_host := ig_host i, ig_path := ig_path i, ig_service := ig_service i\<rparr>) w)
                  wrapped (\<lambda>_ w. (Inr (), w)))
           else wrapped e w)
        (\<lambda>_ w. (Inr (), w)))"

definition ApplyWorkload ::
  "'w Clientset \<Rightarrow> ctx \<Rightarrow> KubeWorkload \<Rightarrow> KubeService \<Rightarrow> KubeIngress \<Rightarrow> ('w, unit) kube_call" where
  "ApplyWorkload cs c d s i w =
     (let serve = (\<lambda>w. attempt (ApplyService cs c s w) (\<lambda>e w. (Inl e, w)) (\<lambda>_ w. ApplyIngress cs c i w)) in
      attempt (api_Create (cs_Workloads cs) c (m_namespace (wl_meta d)) d w)
        (\<lambda>e w. if e = AlreadyExists
           then attempt (updateDeployment cs c d w) (\<lambda>e w. (Inl e, w)) (\<lambda>_ w. serve w)
           else wrapped e w)
        (\<lambda>_ w. serve w))"

section \<open>Namespaces\<close>

definition managedByDeployer :: string where
  "managedByDeployer = ''app.kubernetes.io/managed-by=deployer''"

definition appSlugLabel :: string where
  "appSlugLabel = ''deployer.internal/app-slug''"

definition slug_label :: "LiveNamespace \<Rightarrow> string" where
  "slug_label ns = deref (map_of (ns_labels ns) appSlugLabel)"

definition AppNamespaces :: "'w Clientset \<Rightarrow> ctx \<Rightarrow> ('w, string list) kube_call" where
  "AppNamespaces cs c w =
     attempt (cs_ListNamespaces cs c managedByDeployer w) wrapped (\<lambda>items w.
       (Inr (filter (\<lambda>slug. slug \<noteq> []) (map slug_label items)), w))"

definition AppNamespacesOlderThan :: "'w Clientset \<Rightarrow> ctx \<Rightarrow> int \<Rightarrow> int \<Rightarrow> ('w, string list) kube_call" where
  "AppNamespacesOlderThan cs c now grace w =
     attempt (cs_ListNamespaces cs c managedByDeployer w) wrapped (\<lambda>items w.
       (Inr (map slug_label (filter (\<lambda>ns. \<not> (slug_label ns = [] \<or> \<not> ns_created ns < now - grace)) items)), w))"

definition DeleteNamespace :: "'w Clientset \<Rightarrow> ctx \<Rightarrow> string \<Rightarrow> ('w, unit) kube_call" where
  "DeleteNamespace cs c slug w =
     (let name = NamespaceName slug; api = cs_Namespaces cs in
      attempt (api_Get api c [] name w)
        (\<lambda>e w. if e = ApiNotFound then (Inr (), w) else wrapped e w)
        (\<lambda>ns w. if ns_phase ns = ''Terminating'' then (Inr (), w)
          else attempt (api_Delete api c [] name None w)
            (\<lambda>e w. if e = ApiNotFound then (Inr (), w) else wrapped e w) (\<lambda>_ w. (Inr (), w))))"

definition namespaceGone :: "'w Clientset \<Rightarrow> ctx \<Rightarrow> string \<Rightarrow> ('w, bool) kube_call" where
  "namespaceGone cs c name w =
     attempt (api_Get (cs_Namespaces cs) c [] name w)
       (\<lambda>e w. if e = ApiNotFound then (Inr True, w) else wrapped e w) (\<lambda>_ w. (Inr False, w))"

section \<open>Jobs\<close>

definition CreateJob :: "'w Clientset \<Rightarrow> ctx \<Rightarrow> KubeJob \<Rightarrow> ('w, OwnerReference) kube_call" where
  "CreateJob cs c job w =
     (let api = cs_Jobs cs; ns = m_namespace (job_meta job);
          owner = (\<lambda>live. \<lparr>ow_kind = ''Job'', ow_name = m_name (job_meta live), ow_uid = job_uid live\<rparr>) in
      attempt (api_Create api c ns job w)
        (\<lambda>e w. if e = AlreadyExists
           then attempt (api_Get api c ns (m_name (job_meta job)) w) wrapped (\<lambda>live w. (Inr (owner live), w))
           else wrapped e w)
        (\<lambda>live w. (Inr (owner live), w)))"

definition DeleteJob :: "'w Clientset \<Rightarrow> ctx \<Rightarrow> string \<Rightarrow> string \<Rightarrow> ('w, unit) kube_call" where
  "DeleteJob cs c namespace name w =
     attempt (api_Delete (cs_Jobs cs) c namespace name (Some ''Background'') w)
       (\<lambda>e w. if e = ApiNotFound then (Inr (), w) else wrapped e w) (\<lambda>_ w. (Inr (), w))"

fun job_state :: "(string \<times> string) list \<Rightarrow> JobState" where
  "job_state [] = JobRunning"
| "job_state ((kind, status) # conds) =
     (if status \<noteq> ''True'' then job_state conds
      else if kind = ''Complete'' then JobSucceeded
      else if kind = ''Failed'' then JobFailed
      else job_state conds)"

definition GetJobState :: "'w Clientset \<Rightarrow> ctx \<Rightarrow> string \<Rightarrow> string \<Rightarrow> ('w, JobState) kube_call" where
  "GetJobState cs c namespace name w =
     attempt (api_Get (cs_Jobs cs) c namespace name w)
       (\<lambda>e w. if e = ApiNotFound then (Inr JobGone, w) else wrapped e w)
       (\<lambda>job w. (Inr (job_state (job_conditions job)), w))"

section \<open>Workloads\<close>

definition ScaleWorkload :: "'w Clientset \<Rightarrow> ctx \<Rightarrow> string \<Rightarrow> string \<Rightarrow> int \<Rightarrow> ('w, unit) kube_call" where
  "ScaleWorkload cs c namespace name replicas w =
     (let api = cs_Workloads cs in
      attempt (api_Get api c namespace name w)
        (\<lambda>e w. if e = ApiNotFound then (Inr (), w)
          else if e = Forbidden
          then attempt (namespaceGone cs c namespace w) (\<lambda>e w. (Inl e, w))
            (\<lambda>gone w. if gone then (Inr (), w) else wrapped e w)
          else wrapped e w)
        (\<lambda>cur w. attempt (api_Update api c namespace (cur\<lparr>wl_replicas := Some replicas\<rparr>) w) wrapped
          (\<lambda>_ w. (Inr (), w))))"

definition rolled_out :: "LiveWorkload \<Rightarrow> bool" where
  "rolled_out d =
     (if wl_observed d < wl_generation d then False
      else let want = case_option 1 id (wl_replicas d) in
        want \<le> wl_updated d \<and> wl_count d = wl_updated d \<and> wl_updated d \<le> wl_available d)"

definition WorkloadReady :: "'w Clientset \<Rightarrow> ctx \<Rightarrow> string \<Rightarrow> string \<Rightarrow> ('w, bool) kube_call" where
  "WorkloadReady cs c namespace name w =
     attempt (api_Get (cs_Workloads cs) c namespace name w)
       (\<lambda>e w. if e = ApiNotFound then (Inr False, w) else wrapped e w) (\<lambda>d w. (Inr (rolled_out d), w))"

section \<open>Pods and their logs\<close>

record PodStatus =
  ps_Name :: string
  ps_Ready :: bool
  ps_ContainerStarted :: bool
  ps_RestartCount :: int

definition podStatus :: "LivePod \<Rightarrow> PodStatus" where
  "podStatus pod =
     fold (\<lambda>k st. if cst_name k \<noteq> WorkloadName then st
         else st\<lparr>ps_RestartCount := cst_restarts k, ps_ContainerStarted := \<not> cst_waiting k\<rparr>) (pd_containers pod)
      (fold (\<lambda>(kind, status) st. if kind = ''Ready'' then st\<lparr>ps_Ready := (status = ''True'')\<rparr> else st)
        (pd_conditions pod)
        \<lparr>ps_Name = pd_name pod, ps_Ready = False, ps_ContainerStarted = False, ps_RestartCount = 0\<rparr>)"

text \<open>The text of a label selector; a selector here has one entry.\<close>

definition selector_text :: "(string \<times> string) list \<Rightarrow> string" where
  "selector_text sel = Join (CHR '','') (map (\<lambda>(k, v). k @ ''='' @ v) sel)"

definition PodsForApp :: "'w Clientset \<Rightarrow> ctx \<Rightarrow> string \<Rightarrow> string \<Rightarrow> ('w, PodStatus list) kube_call" where
  "PodsForApp cs c namespace slug w =
     attempt (cs_ListPods cs c namespace (selector_text (Selector slug)) w)
       (\<lambda>e w. if e = Forbidden \<or> e = ApiNotFound then (Inl ErrNoNamespace, w) else wrapped e w)
       (\<lambda>items w. (Inr (map podStatus (sort_key (\<lambda>p. - pd_created p) items)), w))"

definition logReadCeiling :: nat where
  "logReadCeiling = push_bit 20 8"

definition PodLog :: "'w Clientset \<Rightarrow> ctx \<Rightarrow> string \<Rightarrow> string \<Rightarrow> int \<Rightarrow> bool \<Rightarrow> ('w, string) kube_call" where
  "PodLog cs c namespace pod tailLines previous w =
     attempt (cs_Log cs c namespace pod WorkloadName True tailLines previous w) wrapped (\<lambda>(body, intact) w.
       if logReadCeiling \<le> length body \<or> intact then (Inr (take logReadCeiling body), w) else (Inl StreamErr, w))"

section \<open>The client as the loop's cluster\<close>

definition seen_by_loop :: "('w, 'a) kube_call \<Rightarrow> 'w \<Rightarrow> (rc_error + 'a) \<times> 'w" where
  "seen_by_loop f w = attempt (f w) (\<lambda>e w. (Inl OtherErr, w)) (\<lambda>a w. (Inr a, w))"

definition kube_cluster :: "'w Clientset \<Rightarrow> 'w Cluster" where
  "kube_cluster cs =
     \<lparr>c_CreateJob = (\<lambda>c job. seen_by_loop (CreateJob cs c job)),
      c_JobState = (\<lambda>c ns name. seen_by_loop (GetJobState cs c ns name)),
      c_ApplySecret = (\<lambda>c s. seen_by_loop (ApplySecret cs c s)),
      c_EnsureNamespace = (\<lambda>c ns rb quota limits. seen_by_loop (EnsureNamespace cs c ns rb quota limits)),
      c_ApplyNetworkPolicies = (\<lambda>c ps. seen_by_loop (ApplyNetworkPolicies cs c ps)),
      c_AppNamespaces = (\<lambda>c. seen_by_loop (AppNamespaces cs c)),
      c_AppNamespacesOlderThan = (\<lambda>c now grace. seen_by_loop (AppNamespacesOlderThan cs c now grace)),
      c_DeleteNamespace = (\<lambda>c slug. seen_by_loop (DeleteNamespace cs c slug)),
      c_ApplyWorkload = (\<lambda>c d s i. seen_by_loop (ApplyWorkload cs c d s i)),
      c_WorkloadReady = (\<lambda>c ns name. seen_by_loop (WorkloadReady cs c ns name)),
      c_DeleteJob = (\<lambda>c ns name. seen_by_loop (DeleteJob cs c ns name))\<rparr>"

end
