(* ===== verification/Kube_Trace.thy ===== *)
theory Kube_Trace
  imports Kube_Client Deployer_Demo
begin

text \<open>
  The calls the API server receives: the clientset is watched, and the loop runs over the client of
  \<open>Kube_Client\<close> over it. What is shown of every run is which objects are ever updated or deleted.
\<close>

section \<open>A watched clientset\<close>

datatype kind = KindNamespace | KindRoleBinding | KindQuota | KindLimitRange | KindPolicy | KindSecret
  | KindJob | KindWorkload | KindService | KindIngress | KindPod

datatype verb = VerbCreate | VerbGet | VerbUpdate | VerbDelete | VerbList | VerbLog

datatype api_call = Asked kind verb string string bool

definition watched_api ::
  "kind \<Rightarrow> ('o \<Rightarrow> string) \<Rightarrow> ('l \<Rightarrow> string) \<Rightarrow> ('w, 'o, 'l) Api \<Rightarrow> ('w \<times> api_call list, 'o, 'l) Api" where
  "watched_api k name live_name A =
     \<lparr>api_Create = (\<lambda>c ns obj. noted (Asked k VerbCreate ns (name obj)) (api_Create A c ns obj)),
      api_Get = (\<lambda>c ns n. noted (Asked k VerbGet ns n) (api_Get A c ns n)),
      api_Update = (\<lambda>c ns live. noted (Asked k VerbUpdate ns (live_name live)) (api_Update A c ns live)),
      api_Delete = (\<lambda>c ns n policy. noted (Asked k VerbDelete ns n) (api_Delete A c ns n policy))\<rparr>"

definition watched_clientset :: "'w Clientset \<Rightarrow> ('w \<times> api_call list) Clientset" where
  "watched_clientset cs =
     \<lparr>cs_Namespaces = watched_api KindNamespace ns_name ns_name (cs_Namespaces cs),
      cs_RoleBindings = watched_api KindRoleBinding (m_name \<circ> rb_meta) (m_name \<circ> rb_meta) (cs_RoleBindings cs),
      cs_Quotas = watched_api KindQuota (m_name \<circ> qt_meta) (m_name \<circ> qt_meta) (cs_Quotas cs),
      cs_LimitRanges = watched_api KindLimitRange (m_name \<circ> lr_meta) (m_name \<circ> lr_meta) (cs_LimitRanges cs),
      cs_Policies = watched_api KindPolicy np_name np_name (cs_Policies cs),
      cs_Secrets = watched_api KindSecret (m_name \<circ> ks_meta) (m_name \<circ> ks_meta) (cs_Secrets cs),
      cs_Jobs = watched_api KindJob (m_name \<circ> job_meta) (m_name \<circ> job_meta) (cs_Jobs cs),
      cs_Workloads = watched_api KindWorkload (m_name \<circ> wl_meta) (m_name \<circ> wl_meta) (cs_Workloads cs),
      cs_Services = watched_api KindService (m_name \<circ> sv_meta) (m_name \<circ> sv_meta) (cs_Services cs),
      cs_Ingresses = watched_api KindIngress (m_name \<circ> ig_meta) (m_name \<circ> ig_meta) (cs_Ingresses cs),
      cs_ListNamespaces = (\<lambda>c sel. noted (Asked KindNamespace VerbList [] sel) (cs_ListNamespaces cs c sel)),
      cs_ListPods = (\<lambda>c ns sel. noted (Asked KindPod VerbList ns sel) (cs_ListPods cs c ns sel)),
      cs_Log = (\<lambda>c ns pod k ts tail prev. noted (Asked KindPod VerbLog ns pod) (cs_Log cs c ns pod k ts tail prev))\<rparr>"

section \<open>What a function of the client asks for\<close>

definition asks :: "('c \<Rightarrow> bool) \<Rightarrow> ('w \<times> 'c list \<Rightarrow> 'r \<times> 'w \<times> 'c list) \<Rightarrow> bool" where
  "asks P f \<longleftrightarrow> (\<forall>x. \<exists>l. snd (snd (f x)) = snd x @ l \<and> (\<forall>y \<in> set l. P y))"

named_theorems asks_intros \<open>what is composed of calls that ask for what is permitted does so too\<close>

lemma asks_return [asks_intros]: "asks P (\<lambda>x. (r, x))" "asks P (wrapped e)"
  by (auto simp: asks_def wrapped_def)

lemma asks_noted [asks_intros]: "(\<And>b. P (k b)) \<Longrightarrow> asks P (noted k f)"
  by (auto simp: asks_def noted_def split: prod.splits)

lemma asks_attempt [asks_intros]:
  assumes "asks P f" "\<And>e. asks P (bad e)" "\<And>a. asks P (good a)"
  shows "asks P (\<lambda>x. attempt (f x) bad good)"
  unfolding asks_def
proof
  fix x
  obtain r y where f: "f x = (r, y)" by (rule prod.exhaust)
  obtain l where l: "snd y = snd x @ l" "\<forall>z \<in> set l. P z"
    using assms(1) f unfolding asks_def by (metis snd_conv)
  have "\<exists>k. snd (snd (case r of Inl e \<Rightarrow> bad e y | Inr a \<Rightarrow> good a y)) = snd y @ k \<and> (\<forall>z \<in> set k. P z)"
    using assms(2,3) unfolding asks_def by (cases r; simp only: sum.case; blast)
  then obtain k where "snd (snd (case r of Inl e \<Rightarrow> bad e y | Inr a \<Rightarrow> good a y)) = snd y @ k" "\<forall>z \<in> set k. P z"
    by blast
  then show "\<exists>l. snd (snd (attempt (f x) bad good)) = snd x @ l \<and> (\<forall>y\<in>set l. P y)"
    using f l by (intro exI[of _ "l @ k"]) (auto simp: attempt_def split: sum.splits)
qed

lemma asks_if [asks_intros]: "(b \<Longrightarrow> asks P f) \<Longrightarrow> (\<not> b \<Longrightarrow> asks P g) \<Longrightarrow> asks P (\<lambda>x. if b then f x else g x)"
  by (cases b) auto

lemma asks_ignoreExists [asks_intros]: "asks P f \<Longrightarrow> asks P (\<lambda>x. ignoreExists (f x))"
  unfolding ignoreExists_def by (intro asks_intros)

lemma asks_seen [asks_intros]: "asks P f \<Longrightarrow> asks P (seen_by_loop f)"
  unfolding seen_by_loop_def[abs_def] by (intro asks_intros)

section \<open>What the platform is permitted to ask for\<close>

text \<open>An app's fence, its namespace, its role binding, its quota and its limits, is never written
  over; the only things ever deleted are Jobs and namespaces that carry an app's name.\<close>

fun permitted :: "api_call \<Rightarrow> bool" where
  "permitted (Asked k VerbUpdate ns n b) \<longleftrightarrow> k \<in> {KindPolicy, KindSecret, KindWorkload, KindService, KindIngress}"
| "permitted (Asked k VerbDelete ns n b) \<longleftrightarrow> k = KindJob \<or> k = KindNamespace \<and> take 4 n = ''app-''"
| "permitted (Asked k v ns n b) \<longleftrightarrow> True"

lemmas client_defs = EnsureNamespace_def ApplyPolicy_def ApplySecret_def updateDeployment_def ApplyService_def
  ApplyIngress_def ApplyWorkload_def AppNamespaces_def AppNamespacesOlderThan_def DeleteNamespace_def
  namespaceGone_def CreateJob_def DeleteJob_def GetJobState_def ScaleWorkload_def WorkloadReady_def

lemmas watched_clientset_simps = watched_clientset_def watched_api_def Clientset.simps Api.simps

lemma policies_permitted: "asks permitted (ApplyNetworkPolicies (watched_clientset cs) c ps)"
proof (induction ps)
  case (Cons p ps)
  have "asks permitted (ApplyPolicy (watched_clientset cs) c p)"
    unfolding ApplyPolicy_def[abs_def] Let_def watched_clientset_simps by (intro asks_intros; simp)
  then show ?case unfolding ApplyNetworkPolicies.simps by (intro asks_intros Cons.IH)
qed (simp add: asks_intros)

lemma client_permitted:
  "asks permitted (EnsureNamespace (watched_clientset cs) c ns rb quota limits)"
  "asks permitted (ApplySecret (watched_clientset cs) c s)"
  "asks permitted (AppNamespaces (watched_clientset cs) c)"
  "asks permitted (AppNamespacesOlderThan (watched_clientset cs) c now grace)"
  "asks permitted (DeleteNamespace (watched_clientset cs) c slug)"
  "asks permitted (CreateJob (watched_clientset cs) c job)"
  "asks permitted (DeleteJob (watched_clientset cs) c nsp name)"
  "asks permitted (GetJobState (watched_clientset cs) c nsp name)"
  "asks permitted (ApplyWorkload (watched_clientset cs) c wl sv ig)"
  "asks permitted (ScaleWorkload (watched_clientset cs) c nsp name n)"
  "asks permitted (WorkloadReady (watched_clientset cs) c nsp name)"
  unfolding client_defs[abs_def] Let_def watched_clientset_simps
  by (intro asks_intros; simp add: NamespaceName_def)+

section \<open>The loop over the client\<close>

definition on_kube :: "'o Clientset \<Rightarrow> 'o Outside \<Rightarrow> ('o \<times> api_call list) Outside" where
  "on_kube cs ox = watching (kube_cluster (watched_clientset cs)) ox"

lemma call_asks:
  assumes "asks P f"
  shows "grew_by P w (snd (call (watching C ox) c (\<lambda>_. on_out f) w))"
proof (rule call_rel[where P = "grew_by P"])
  fix tn :: turn and w :: "('b \<times> 'a list) world"
  obtain l where "snd (snd (f (w_out w))) = snd (w_out w) @ l" "\<forall>y \<in> set l. P y"
    using assms unfolding asks_def by blast
  then show "grew_by P w (snd (on_out f w))"
    by (auto simp: grew_by_def on_out_def cluster_log_def split: prod.splits)
qed (auto simp: grew_by_def intro: grew_by_trans)

lemma call_grew: "(\<And>tn w. cluster_log (snd (f tn w)) = cluster_log w) \<Longrightarrow> grew_by P w (snd (call (watching C ox) c f w))"
  by (rule call_rel[where P = "grew_by P"]) (auto simp: grew_by_def intro: grew_by_trans)

lemma RS_Get_grew: "grew_by P w (snd (RS_Get (watching C ox) c i w))"
  by (rule RS_Get_rel[where P = "grew_by P"]) (auto intro: call_grew grew_by_trans)

lemma select_grew: "grew_by P w (snd (select_timer (watching C ox) iv c w))"
proof -
  obtain tn w1 where "pass_turn (watching C ox) w = (tn, w1)" by fastforce
  then show ?thesis using watching_turn[of C ox w] by (auto simp: select_timer_def grew_by_def)
qed

interpretation api: world_order "deployer (on_kube cs ox) os" "grew_by permitted" for cs :: "'o Clientset" and ox :: "'o Outside" and os
  by unfold_locales
    (simp_all add: on_kube_def neighbours kube_cluster_def snd_case_fst call_grew call_asks asks_seen client_permitted
      policies_permitted RS_Get_grew select_grew grew_by_trans)

text \<open>C18: Whatever the loop does, over any API server and next to any other callers, it never writes over
  an app's namespace, role binding, quota or limits, and it deletes nothing but build Jobs and
  namespaces that carry an app's name; so no run can delete the control plane's own namespace, the
  build namespace or any single object of a live app.\<close>

theorem platform_permitted:
  assumes "Run (deployer (on_kube cs ox) os) c fired w = Some w'"
  shows "\<exists>calls. cluster_log w' = cluster_log w @ calls \<and> list_all permitted calls"
proof -
  have "grew_by permitted w w'" using api.Run_up[OF grew_by_refl, of w cs ox os c fired] assms by simp
  then show ?thesis by (simp add: grew_by_def list_all_iff)
qed

text \<open>An API server that refuses everything.\<close>

definition refusing :: "(nat, 'o, 'l) Api" where
  "refusing = \<lparr>api_Create = (\<lambda>c ns obj n. (Inl Forbidden, n)), api_Get = (\<lambda>c ns name n. (Inl Forbidden, n)),
     api_Update = (\<lambda>c ns live n. (Inl Forbidden, n)), api_Delete = (\<lambda>c ns name policy n. (Inl Forbidden, n))\<rparr>"

definition refusing_server :: "nat Clientset" where
  "refusing_server =
     \<lparr>cs_Namespaces = refusing, cs_RoleBindings = refusing, cs_Quotas = refusing, cs_LimitRanges = refusing,
      cs_Policies = refusing, cs_Secrets = refusing, cs_Jobs = refusing, cs_Workloads = refusing,
      cs_Services = refusing, cs_Ingresses = refusing, cs_ListNamespaces = (\<lambda>c sel n. (Inl Forbidden, n)),
      cs_ListPods = (\<lambda>c ns sel n. (Inl Forbidden, n)), cs_Log = (\<lambda>c ns pod k ts tail prev n. (Inl Forbidden, n))\<rparr>"

lemma platform_permitted_witness:
  "\<exists>w' calls. Run (deployer (on_kube refusing_server demo_outside) demo_options) background [TickerFired, ReaperFired]
       (demo_at demo_live_db 0 0 []) = Some w' \<and> cluster_log w' = calls \<and> list_all permitted calls"
proof -
  let ?R = "deployer (on_kube refusing_server demo_outside) demo_options"
  have "opts ?R = demo_options" by (simp add: deployer_def)
  then obtain w' where run: "Run ?R background [TickerFired, ReaperFired] (demo_at demo_live_db 0 0 []) = Some w'"
    using time.Run_returns[of "on_kube refusing_server demo_outside" demo_options background
        "[TickerFired, ReaperFired]" "demo_at demo_live_db 0 0 []"]
    unfolding time.ticking_def by (auto simp: demo_options_def)
  moreover have "cluster_log (demo_at demo_live_db 0 0 []) = ([] :: api_call list)"
    by (simp add: demo_at_def cluster_log_def)
  ultimately show ?thesis using platform_permitted[OF run] by simp
qed

end
