(* ===== verification/Kube_Server.thy ===== *)
theory Kube_Server
  imports Kube_Client Reconcile_Store
begin

text \<open>
  What the client achieves on an API server, from what the server documents of a call it accepts:
  objects of a kind are kept by namespace and name; a create that succeeds found nothing there and
  stored what it was given; a get that succeeds returns what is kept; an update that succeeds
  replaced what was kept by what it was given. Nothing is said of when a call succeeds: a stale
  resource version, an immutable selector, an exhausted quota, a missing permission, an ended
  context may each refuse any call, and the answer of a write that landed may be lost.
  A view reads the part of a kind's objects that outlives the server's own writes: status,
  generation and resource version are not in it, so controllers may change those at any time.
  Nobody else is taken to change the viewed part while the calls run. \<open>map_server\<close> is a server
  that keeps these laws and refuses an update made from a stale read.
\<close>

section \<open>The documented behaviour of one kind\<close>

type_synonym 'k objects = "string \<times> string \<Rightarrow> 'k option"

text \<open>An error leaves the objects alone, or hides a write that landed.\<close>

definition creates :: "('w, 'o, 'l) Api \<Rightarrow> ('w \<Rightarrow> 'k objects) \<Rightarrow> ('o \<Rightarrow> string) \<Rightarrow> ('l \<Rightarrow> 'k) \<Rightarrow> ('k \<Rightarrow> 'o) \<Rightarrow> bool" where
  "creates api view name kept made \<longleftrightarrow> (\<forall>c ns obj w. case api_Create api c ns obj w of
     (Inr l, w') \<Rightarrow> view w (ns, name obj) = None \<and> made (kept l) = obj \<and> view w' = (view w)((ns, name obj) \<mapsto> kept l)
   | (Inl e, w') \<Rightarrow> view w' = view w \<or>
       e = ApiOther \<and> view w (ns, name obj) = None \<and> (\<exists>x. made x = obj \<and> view w' = (view w)((ns, name obj) \<mapsto> x)))"

definition reads :: "('w, 'o, 'l) Api \<Rightarrow> ('w \<Rightarrow> 'k objects) \<Rightarrow> ('l \<Rightarrow> 'k) \<Rightarrow> bool" where
  "reads api view kept \<longleftrightarrow> (\<forall>c ns n w. case api_Get api c ns n w of (r, w') \<Rightarrow> view w' = view w \<and>
     (\<forall>l. r = Inr l \<longrightarrow> view w (ns, n) = Some (kept l)) \<and> (r = Inl ApiNotFound \<longrightarrow> view w (ns, n) = None))"

definition updates :: "('w, 'o, 'l) Api \<Rightarrow> ('w \<Rightarrow> 'k objects) \<Rightarrow> ('l \<Rightarrow> string) \<Rightarrow> ('l \<Rightarrow> 'k) \<Rightarrow> bool" where
  "updates api view live_name kept \<longleftrightarrow> (\<forall>c ns l w. case api_Update api c ns l w of (r, w') \<Rightarrow>
     view w (ns, live_name l) \<noteq> None \<and> view w' = (view w)((ns, live_name l) \<mapsto> kept l) \<or>
     (\<exists>e. r = Inl e) \<and> view w' = view w)"

definition serves ::
  "('w, 'o, 'l) Api \<Rightarrow> ('w \<Rightarrow> 'k objects) \<Rightarrow> ('o \<Rightarrow> string) \<Rightarrow> ('l \<Rightarrow> string) \<Rightarrow> ('l \<Rightarrow> 'k) \<Rightarrow> ('k \<Rightarrow> 'o) \<Rightarrow> bool" where
  "serves api view name live_name kept made \<longleftrightarrow>
     creates api view name kept made \<and> reads api view kept \<and> updates api view live_name kept"

text \<open>Every object is kept under its own namespace and name.\<close>

definition keyed :: "('k \<Rightarrow> string \<times> string) \<Rightarrow> 'k objects \<Rightarrow> bool" where
  "keyed key objs \<longleftrightarrow> (\<forall>k x. objs k = Some x \<longrightarrow> key x = k)"

lemma keyed_at: "keyed key objs \<Longrightarrow> objs k = Some x \<Longrightarrow> key x = k"
  unfolding keyed_def by blast

section \<open>What a write leaves\<close>

text \<open>The object of one key is written, as fits what was there, and no other object; and what a
  call that may fail leaves: that, or, with an error, what there was.\<close>

definition wrote :: "('k option \<Rightarrow> 'k \<Rightarrow> bool) \<Rightarrow> string \<times> string \<Rightarrow> 'k objects \<Rightarrow> 'k objects \<Rightarrow> bool" where
  "wrote fits key old new \<longleftrightarrow> (\<exists>x. fits (old key) x \<and> new = old(key \<mapsto> x))"

definition settles ::
  "('k option \<Rightarrow> 'k \<Rightarrow> bool) \<Rightarrow> string \<times> string \<Rightarrow> 'k objects \<Rightarrow> kube_error + unit \<Rightarrow> 'k objects \<Rightarrow> bool" where
  "settles fits key old r new \<longleftrightarrow> wrote fits key old new \<or> (\<exists>e. r = Inl e) \<and> new = old"

lemma settles_cases:
  assumes "settles fits key old r new"
  shows "r = Inr () \<Longrightarrow> wrote fits key old new" "new = old \<or> wrote fits key old new"
  using assms by (auto simp: settles_def)

lemma create_law:
  assumes "serves api view name live_name kept made" "api_Create api c ns obj w = (r, w')"
  shows "r = Inr l \<Longrightarrow> view w (ns, name obj) = None \<and> made (kept l) = obj \<and> view w' = (view w)((ns, name obj) \<mapsto> kept l)"
    "r = Inl e \<Longrightarrow> view w' = view w \<or>
      e = ApiOther \<and> view w (ns, name obj) = None \<and> (\<exists>x. made x = obj \<and> view w' = (view w)((ns, name obj) \<mapsto> x))"
  using assms unfolding serves_def creates_def by (fastforce split: prod.splits sum.splits)+

lemma get_law:
  assumes "serves api view name live_name kept made" "api_Get api c ns n w = (r, w')"
  shows "view w' = view w" "r = Inr l \<Longrightarrow> view w (ns, n) = Some (kept l)" "r = Inl ApiNotFound \<Longrightarrow> view w (ns, n) = None"
  using assms unfolding serves_def reads_def by (fastforce split: prod.splits)+

lemma update_law:
  assumes "serves api view name live_name kept made" "api_Update api c ns l w = (r, w')"
  shows "view w' = (view w)((ns, live_name l) \<mapsto> kept l) \<or> (\<exists>e. r = Inl e) \<and> view w' = view w"
  using assms unfolding serves_def updates_def by (fastforce split: prod.splits)

text \<open>A create on its own, and an update of what was read, written over in some way.\<close>

lemma create_settles:
  assumes "serves api view name live_name kept made" "api_Create api c ns obj w = (r, w')"
    and "\<And>x. made x = obj \<Longrightarrow> fits None x"
  shows "settles fits (ns, name obj) (view w) (map_sum KubeErr (\<lambda>_. ()) r) (view w')"
  using create_law[OF assms(1,2)] assms(3) by (cases r) (fastforce simp: settles_def wrote_def)+

lemma update_settles:
  assumes "serves api view name live_name kept made" "api_Update api c ns (over cur) w = (r, w')"
    and "view w (ns, n) = Some (kept cur)" "live_name (over cur) = n" "fits (Some (kept cur)) (kept (over cur))"
  shows "settles fits (ns, n) (view w) (map_sum KubeErr (\<lambda>_. ()) r) (view w')"
  using update_law[OF assms(1,2)] assms(3-) by (auto simp: settles_def wrote_def)

definition fetch_and_update :: "('w, 'o, 'l) Api \<Rightarrow> ctx \<Rightarrow> string \<Rightarrow> string \<Rightarrow> ('l \<Rightarrow> 'l) \<Rightarrow> ('w, unit) kube_call" where
  "fetch_and_update api c ns n over w =
     attempt (api_Get api c ns n w) wrapped (\<lambda>cur w. attempt (api_Update api c ns (over cur) w) wrapped (\<lambda>_ w. (Inr (), w)))"

lemma fetch_and_update_settles:
  assumes serve: "serves api view name live_name kept made" and run: "fetch_and_update api c ns n over w = (r, w')"
    and over: "\<And>cur. view w (ns, n) = Some (kept cur) \<Longrightarrow> live_name (over cur) = n \<and> fits (Some (kept cur)) (kept (over cur))"
  shows "settles fits (ns, n) (view w) r (view w')"
proof -
  obtain g w1 where g: "api_Get api c ns n w = (g, w1)" by fastforce
  note got = get_law[OF serve g]
  show ?thesis
  proof (cases g)
    case (Inl e)
    then show ?thesis using run g got(1) by (auto simp: fetch_and_update_def settles_def wrapped_def)
  next
    case (Inr cur)
    obtain u w2 where u: "api_Update api c ns (over cur) w1 = (u, w2)" by fastforce
    have "settles fits (ns, n) (view w1) (map_sum KubeErr (\<lambda>_. ()) u) (view w2)"
      by (rule update_settles[where over = over, OF serve u]) (use got Inr over in auto)
    then show ?thesis using run g u Inr got(1)
      by (cases u) (auto simp: fetch_and_update_def settles_def wrapped_def)
  qed
qed

text \<open>Create, and on a clash read and write over.\<close>

lemma create_or_update_settles:
  assumes serve: "serves api view name live_name kept made"
    and run: "attempt (api_Create api c ns obj w)
      (\<lambda>e w. if e = AlreadyExists then fetch_and_update api c ns (name obj) over w else wrapped e w) (\<lambda>_ w. (Inr (), w)) = (r, w')"
    and made: "\<And>x. made x = obj \<Longrightarrow> fits None x"
    and over: "\<And>cur. view w (ns, name obj) = Some (kept cur) \<Longrightarrow>
      live_name (over cur) = name obj \<and> fits (Some (kept cur)) (kept (over cur))"
  shows "settles fits (ns, name obj) (view w) r (view w')"
proof -
  obtain a w1 where a: "api_Create api c ns obj w = (a, w1)" by fastforce
  note first = create_settles[where fits = fits, OF serve a made]
  consider "a = Inl AlreadyExists" | e where "a = Inl e" "e \<noteq> AlreadyExists" | l where "a = Inr l" by (cases a) auto
  then show ?thesis
  proof cases
    case 1
    have same: "view w1 = view w" using create_law(2)[OF serve a 1] by simp
    have again: "fetch_and_update api c ns (name obj) over w1 = (r, w')" using run a 1 by simp
    have "settles fits (ns, name obj) (view w1) r (view w')"
      by (rule fetch_and_update_settles[OF serve again]) (use same over in auto)
    then show ?thesis by (simp add: same)
  qed (use run a first in \<open>auto simp: settles_def wrapped_def\<close>)
qed


section \<open>The fence comes back\<close>

definition policy_made :: "LivePolicy \<Rightarrow> NetworkPolicy" where
  "policy_made l = NetworkPolicy.truncate l"

definition policy_key :: "NetworkPolicy \<Rightarrow> string \<times> string" where
  "policy_key p = (NamespaceName (np_slug p), np_name p)"

abbreviation policy_server :: "('w, NetworkPolicy, LivePolicy) Api \<Rightarrow> ('w \<Rightarrow> NetworkPolicy objects) \<Rightarrow> bool" where
  "policy_server api view \<equiv> serves api view np_name np_name policy_made id"

lemma ApplyPolicy_settles:
  assumes server: "policy_server (cs_Policies cs) view" and key: "keyed policy_key (view w)"
    and run: "ApplyPolicy cs c p w = (r, w')"
  shows "settles (\<lambda>_ x. x = p) (policy_key p) (view w) r (view w')"
  unfolding policy_key_def
proof (rule create_or_update_settles[OF server])
  show "attempt (api_Create (cs_Policies cs) c (NamespaceName (np_slug p)) p w)
      (\<lambda>e w. if e = AlreadyExists then fetch_and_update (cs_Policies cs) c (NamespaceName (np_slug p)) (np_name p) (over_policy p) w
        else wrapped e w) (\<lambda>_ w. (Inr (), w)) = (r, w')"
    using run unfolding ApplyPolicy_def fetch_and_update_def Let_def by simp
  show "np_name (over_policy p cur) = np_name p \<and> policy_made (over_policy p cur) = p"
    if "view w (NamespaceName (np_slug p), np_name p) = Some (policy_made cur)" for cur
    using keyed_at[OF key that] by (simp add: policy_key_def policy_made_def over_policy_def NetworkPolicy.defs)
qed simp

lemma ApplyNetworkPolicies_write:
  assumes server: "policy_server (cs_Policies cs) view" and "keyed policy_key (view w)"
    and "ApplyNetworkPolicies cs c ps w = (Inr (), w')"
  shows "view w' = fold (\<lambda>p m. m(policy_key p \<mapsto> p)) ps (view w)"
  using assms(2,3)
proof (induction ps arbitrary: w)
  case (Cons p ps)
  obtain r w1 where 1: "ApplyPolicy cs c p w = (r, w1)" by fastforce
  then have r: "r = Inr ()" "ApplyNetworkPolicies cs c ps w1 = (Inr (), w')"
    using Cons.prems(2) by (auto simp: attempt_def split: sum.splits)
  have w1: "view w1 = (view w)(policy_key p \<mapsto> p)"
    using settles_cases(1)[OF ApplyPolicy_settles[OF server Cons.prems(1) 1] r(1)] by (auto simp: wrote_def)
  then have "keyed policy_key (view w1)" using Cons.prems(1) by (auto simp: keyed_def)
  from Cons.IH[OF this r(2)] show ?case by (simp add: w1)
qed simp

text \<open>When applying an app's fence succeeds, both policies are what the platform composes, whether
  they were missing, loosened or intact, and no other policy is touched.\<close>

theorem fence_comes_back:
  assumes "policy_server (cs_Policies cs) view" "keyed policy_key (view w)"
    and "ApplyNetworkPolicies cs c (policies inp) w = (Inr (), w')"
  shows "view w' = (view w)
      ((NamespaceName (dI_slug inp), ''default-deny'') \<mapsto> DefaultDenyPolicy (dI_slug inp),
       (NamespaceName (dI_slug inp), ''app-allow'') \<mapsto> AllowPolicy (dI_slug inp) (dI_blocked_cidrs inp) (dI_blocked_ports inp))"
  using ApplyNetworkPolicies_write[OF assms]
  by (simp add: policies_def policy_key_def DefaultDenyPolicy_def AllowPolicy_def)

section \<open>A workload takes hold\<close>

text \<open>A kind's calls touch no other kind.\<close>

definition leaves :: "('w, 'o, 'l) Api \<Rightarrow> ('w \<Rightarrow> 'v) \<Rightarrow> bool" where
  "leaves api view \<longleftrightarrow> (\<forall>c ns obj n l w. view (snd (api_Create api c ns obj w)) = view w \<and>
     view (snd (api_Get api c ns n w)) = view w \<and> view (snd (api_Update api c ns l w)) = view w)"

text \<open>The same of any function of the client.\<close>

definition spares :: "('w \<Rightarrow> 'v) \<Rightarrow> ('w \<Rightarrow> 'r \<times> 'w) \<Rightarrow> bool" where
  "spares view f \<longleftrightarrow> (\<forall>w. view (snd (f w)) = view w)"


named_theorems spares_intros

lemma spares_return [spares_intros]: "spares view (\<lambda>w. (r, w))" "spares view (wrapped e)"
  by (simp_all add: spares_def wrapped_def)

lemma spares_api [spares_intros]:
  assumes "leaves api view"
  shows "spares view (api_Create api c ns obj)" "spares view (api_Get api c ns n)" "spares view (api_Update api c ns l)"
  using assms by (simp_all add: leaves_def spares_def)

lemma spares_attempt [spares_intros]:
  assumes "spares view f" "\<And>e. spares view (bad e)" "\<And>a. spares view (good a)"
  shows "spares view (\<lambda>w. attempt (f w) bad good)"
  using assms by (simp add: spares_def attempt_def split: prod.split sum.split) (metis snd_conv)

lemma spares_if [spares_intros]: "spares view f \<Longrightarrow> spares view g \<Longrightarrow> spares view (\<lambda>w. if b then f w else g w)"
  by (simp add: spares_def)




text \<open>The lasting part of each kind: all that the platform composes, and of a Service also the
  address the server gave it.\<close>

definition workload_made :: "LiveWorkload \<Rightarrow> KubeWorkload" where
  "workload_made l = KubeWorkload.truncate l"

definition service_kept :: "LiveService \<Rightarrow> KubeService \<times> string" where
  "service_kept l = (KubeService.truncate l, sv_cluster_ip l)"

definition ingress_made :: "LiveIngress \<Rightarrow> KubeIngress" where
  "ingress_made l = KubeIngress.truncate l"

abbreviation workload_server :: "('w, KubeWorkload, LiveWorkload) Api \<Rightarrow> ('w \<Rightarrow> KubeWorkload objects) \<Rightarrow> bool" where
  "workload_server api view \<equiv> serves api view (\<lambda>d. m_name (wl_meta d)) (\<lambda>l. m_name (wl_meta l)) workload_made id"

abbreviation service_server :: "('w, KubeService, LiveService) Api \<Rightarrow> ('w \<Rightarrow> (KubeService \<times> string) objects) \<Rightarrow> bool" where
  "service_server api view \<equiv> serves api view (\<lambda>s. m_name (sv_meta s)) (\<lambda>l. m_name (sv_meta l)) service_kept fst"

abbreviation ingress_server :: "('w, KubeIngress, LiveIngress) Api \<Rightarrow> ('w \<Rightarrow> KubeIngress objects) \<Rightarrow> bool" where
  "ingress_server api view \<equiv> serves api view (\<lambda>i. m_name (ig_meta i)) (\<lambda>l. m_name (ig_meta l)) ingress_made id"








text \<open>The views of the three kinds, and that they are apart.\<close>

definition workload_servers ::
  "'w Clientset \<Rightarrow> ('w \<Rightarrow> KubeWorkload objects) \<Rightarrow> ('w \<Rightarrow> (KubeService \<times> string) objects) \<Rightarrow> ('w \<Rightarrow> KubeIngress objects) \<Rightarrow> bool" where
  "workload_servers cs wv sv iv \<longleftrightarrow>
     workload_server (cs_Workloads cs) wv \<and> service_server (cs_Services cs) sv \<and> ingress_server (cs_Ingresses cs) iv \<and>
     leaves (cs_Workloads cs) sv \<and> leaves (cs_Workloads cs) iv \<and> leaves (cs_Services cs) wv \<and>
     leaves (cs_Services cs) iv \<and> leaves (cs_Ingresses cs) wv \<and> leaves (cs_Ingresses cs) sv"


section \<open>A cluster that keeps what it is given\<close>

text \<open>One kind of a server: a version is bumped by every write, and an update that does not carry the
  version that is kept is refused.\<close>

definition map_server :: "('w \<Rightarrow> 'l objects) \<Rightarrow> ('l objects \<Rightarrow> 'w \<Rightarrow> 'w) \<Rightarrow> ('o \<Rightarrow> string) \<Rightarrow> ('l \<Rightarrow> string) \<Rightarrow>
    ('o \<Rightarrow> 'l) \<Rightarrow> ('l \<Rightarrow> string) \<Rightarrow> (string \<Rightarrow> 'l \<Rightarrow> 'l) \<Rightarrow> ('w, 'o, 'l) Api" where
  "map_server stored put name live_name born version set_version =
     \<lparr>api_Create = (\<lambda>c ns obj w. case stored w (ns, name obj) of
        None \<Rightarrow> (Inr (born obj), put ((stored w)((ns, name obj) \<mapsto> born obj)) w)
      | Some _ \<Rightarrow> (Inl AlreadyExists, w)),
      api_Get = (\<lambda>c ns n w. (case stored w (ns, n) of None \<Rightarrow> Inl ApiNotFound | Some l \<Rightarrow> Inr l, w)),
      api_Update = (\<lambda>c ns l w. case stored w (ns, live_name l) of
        None \<Rightarrow> (Inl ApiNotFound, w)
      | Some cur \<Rightarrow> if version cur \<noteq> version l then (Inl ApiOther, w)
          else let l' = set_version (version cur @ ''.'') l in
            (Inr l', put ((stored w)((ns, live_name l) \<mapsto> l')) w)),
      api_Delete = (\<lambda>c ns n policy w. case stored w (ns, n) of
        None \<Rightarrow> (Inl ApiNotFound, w) | Some _ \<Rightarrow> (Inr (), put ((stored w)((ns, n) := None)) w))\<rparr>"

lemma map_server_serves:
  assumes "\<And>m w. stored (put m w) = m" "\<And>obj. made (kept (born obj)) = obj" "\<And>v l. kept (set_version v l) = kept l"
  shows "serves (map_server stored put name live_name born version set_version)
    (\<lambda>w k. map_option kept (stored w k)) name live_name kept made"
  using assms unfolding serves_def creates_def reads_def updates_def map_server_def
  by (auto simp: fun_eq_iff Let_def split: option.splits)

lemma map_server_leaves:
  "(\<And>m w. other (put m w) = other w) \<Longrightarrow> leaves (map_server stored put name live_name born version set_version) other"
  by (auto simp: leaves_def map_server_def Let_def split: option.split)

record cluster_state =
  st_policies :: "LivePolicy objects"
  st_workloads :: "LiveWorkload objects"
  st_services :: "LiveService objects"
  st_ingresses :: "LiveIngress objects"

definition refused :: "('w, 'o, 'l) Api" where
  "refused = \<lparr>api_Create = (\<lambda>c ns obj w. (Inl Forbidden, w)), api_Get = (\<lambda>c ns name w. (Inl Forbidden, w)),
     api_Update = (\<lambda>c ns live w. (Inl Forbidden, w)), api_Delete = (\<lambda>c ns name policy w. (Inl Forbidden, w))\<rparr>"

definition keeping_cluster :: "cluster_state Clientset" where
  "keeping_cluster =
     \<lparr>cs_Namespaces = refused, cs_RoleBindings = refused, cs_Quotas = refused, cs_LimitRanges = refused,
      cs_Policies = map_server st_policies (\<lambda>m w. w\<lparr>st_policies := m\<rparr>) np_name np_name
        (\<lambda>p. NetworkPolicy.extend p \<lparr>np_version = ''1''\<rparr>) np_version (\<lambda>v l. l\<lparr>np_version := v\<rparr>),
      cs_Secrets = refused, cs_Jobs = refused,
      cs_Workloads = map_server st_workloads (\<lambda>m w. w\<lparr>st_workloads := m\<rparr>) (\<lambda>d. m_name (wl_meta d)) (\<lambda>l. m_name (wl_meta l))
        (\<lambda>d. KubeWorkload.extend d \<lparr>wl_version = ''1'', wl_generation = 1, wl_observed = 0, wl_count = 0, wl_updated = 0,
          wl_available = 0\<rparr>) wl_version (\<lambda>v l. l\<lparr>wl_version := v\<rparr>),
      cs_Services = map_server st_services (\<lambda>m w. w\<lparr>st_services := m\<rparr>) (\<lambda>s. m_name (sv_meta s)) (\<lambda>l. m_name (sv_meta l))
        (\<lambda>s. KubeService.extend s \<lparr>sv_version = ''1'', sv_cluster_ip = ''10.96.0.7''\<rparr>) sv_version (\<lambda>v l. l\<lparr>sv_version := v\<rparr>),
      cs_Ingresses = map_server st_ingresses (\<lambda>m w. w\<lparr>st_ingresses := m\<rparr>) (\<lambda>i. m_name (ig_meta i)) (\<lambda>l. m_name (ig_meta l))
        (\<lambda>i. KubeIngress.extend i \<lparr>ig_version = ''1''\<rparr>) ig_version (\<lambda>v l. l\<lparr>ig_version := v\<rparr>),
      cs_ListNamespaces = (\<lambda>c sel w. (Inl Forbidden, w)), cs_ListPods = (\<lambda>c ns sel w. (Inl Forbidden, w)),
      cs_Log = (\<lambda>c ns pod k ts tail prev w. (Inl Forbidden, w))\<rparr>"

definition kept_policies :: "cluster_state \<Rightarrow> NetworkPolicy objects" where
  "kept_policies w k = map_option policy_made (st_policies w k)"

definition kept_workloads :: "cluster_state \<Rightarrow> KubeWorkload objects" where
  "kept_workloads w k = map_option workload_made (st_workloads w k)"

definition kept_services :: "cluster_state \<Rightarrow> (KubeService \<times> string) objects" where
  "kept_services w k = map_option service_kept (st_services w k)"

definition kept_ingresses :: "cluster_state \<Rightarrow> KubeIngress objects" where
  "kept_ingresses w k = map_option ingress_made (st_ingresses w k)"

lemmas kept_defs = kept_policies_def[abs_def] kept_workloads_def[abs_def] kept_services_def[abs_def] kept_ingresses_def[abs_def]

definition empty_cluster :: cluster_state where
  "empty_cluster = \<lparr>st_policies = Map.empty, st_workloads = Map.empty, st_services = Map.empty, st_ingresses = Map.empty\<rparr>"

text \<open>A policy somebody loosened, and a service of an earlier deployment.\<close>

definition loosened :: cluster_state where
  "loosened = empty_cluster\<lparr>st_policies := [(''app-blog'', ''app-allow'') \<mapsto>
     \<lparr>np_name = ''app-allow'', np_slug = ''blog'', np_types = [], np_ingress = [], np_egress = [], np_version = ''7''\<rparr>]\<rparr>"



lemmas made_defs = policy_made_def workload_made_def service_kept_def ingress_made_def
  NetworkPolicy.defs KubeWorkload.defs KubeService.defs KubeIngress.defs

lemma keeping_servers:
  "policy_server (cs_Policies keeping_cluster) kept_policies"
  "workload_servers keeping_cluster kept_workloads kept_services kept_ingresses"
  unfolding workload_servers_def keeping_cluster_def Clientset.simps kept_defs
  by (intro conjI map_server_serves map_server_leaves; simp add: made_defs)+

definition blog :: DeployInput where
  "blog = blog_input\<lparr>dI_slug := ''blog''\<rparr>"


lemma fence_comes_back_witness:
  "\<exists>w'. ApplyNetworkPolicies keeping_cluster background (policies blog) loosened = (Inr (), w') \<and>
    kept_policies w' (''app-blog'', ''app-allow'') = Some (AllowPolicy ''blog'' [''10.0.0.0/8''] [25])"
proof -
  have key: "keyed policy_key (kept_policies loosened)"
    by (simp add: keyed_def policy_key_def kept_defs made_defs loosened_def empty_cluster_def NamespaceName_def)
  obtain w' where w': "ApplyNetworkPolicies keeping_cluster background (policies blog) loosened = (Inr (), w')"
    by (simp add: policies_def ApplyPolicy_def keeping_cluster_def map_server_def loosened_def empty_cluster_def
        NamespaceName_def DefaultDenyPolicy_def AllowPolicy_def over_policy_def blog_def Let_def)
  from fence_comes_back[OF keeping_servers(1) key this] show ?thesis
    using w' by (auto simp: blog_def blog_input_def NamespaceName_def)
qed



end
