(* ===== verification/People_Schema.thy ===== *)
theory People_Schema
  imports Store_Uploads
begin

text \<open>
  The tables of people beside \<open>accounts\<close>: API tokens, sessions, single use links, invites, and the
  clients and codes of the authorization server (\<^verbatim>\<open>migrations/00001\<close>, \<^verbatim>\<open>00002\<close>, \<^verbatim>\<open>00003\<close>, \<^verbatim>\<open>00007\<close>, \<^verbatim>\<open>00008\<close>),
  with the statements of \<^verbatim>\<open>sqlcgen/identity.sql.go\<close>, \<^verbatim>\<open>invites.sql.go\<close>, \<^verbatim>\<open>oauth.sql.go\<close> and the token
  statements of \<^verbatim>\<open>accounts.sql.go\<close>. They live in the same file as the tables of \<open>Store_Schema\<close>,
  which are the field \<open>core\<close>. Of the statements that return the written row only the row the
  caller reads is kept.
\<close>

section \<open>Rows\<close>

record api_token =
  t_id :: ident
  t_account_id :: ident
  t_name :: string
  t_token_hash :: string
  t_token_prefix :: string
  t_last_used_at :: "stamp option"
  t_expires_at :: "stamp option"
  t_revoked_at :: "stamp option"
  t_created_at :: stamp
  t_updated_at :: stamp
  t_oauth_client_id :: "ident option"

record session =
  ss_id :: ident
  ss_account_id :: ident
  ss_token_hash :: string
  ss_expires_at :: stamp
  ss_last_used_at :: "stamp option"
  ss_revoked_at :: "stamp option"
  ss_created_at :: stamp
  ss_updated_at :: stamp

record email_token =
  k_id :: ident
  k_account_id :: ident
  k_purpose :: string
  k_token_hash :: string
  k_expires_at :: stamp
  k_consumed_at :: "stamp option"
  k_created_at :: stamp

record invite =
  i_id :: ident
  i_code_hash :: string
  i_note :: "string option"
  i_created_by :: "ident option"
  i_expires_at :: stamp
  i_consumed_at :: "stamp option"
  i_consumed_by :: "ident option"
  i_revoked_at :: "stamp option"
  i_created_at :: stamp
  i_email :: "string option"

record oauth_client =
  oc_id :: ident
  oc_name :: string
  oc_redirect_uris :: "string list"
  oc_created_at :: stamp
  oc_approved_at :: "stamp option"

record oauth_code =
  o_code_hash :: string
  o_client_id :: ident
  o_account_id :: ident
  o_redirect_uri :: string
  o_code_challenge :: string
  o_resource :: string
  o_token_id :: "ident option"
  o_expires_at :: stamp
  o_consumed_at :: "stamp option"
  o_created_at :: stamp

record people =
  core :: db
  api_tokens :: "api_token list"
  sessions :: "session list"
  email_tokens :: "email_token list"
  invites :: "invite list"
  oauth_clients :: "oauth_client list"
  oauth_codes :: "oauth_code list"

definition no_people :: people where
  "no_people = \<lparr>core = empty_db, api_tokens = [], sessions = [], email_tokens = [], invites = [],
     oauth_clients = [], oauth_codes = []\<rparr>"

abbreviation known_account :: "people \<Rightarrow> ident \<Rightarrow> bool" where
  "known_account p i \<equiv> account_exists (core p) i"

definition client_exists :: "people \<Rightarrow> ident \<Rightarrow> bool" where
  "client_exists p i \<longleftrightarrow> list_ex (\<lambda>c. oc_id c = i) (oauth_clients p)"

definition token_exists :: "people \<Rightarrow> ident \<Rightarrow> bool" where
  "token_exists p i \<longleftrightarrow> list_ex (\<lambda>t. t_id t = i) (api_tokens p)"

text \<open>The writes of \<open>Store_Schema\<close> on the tables in \<open>core\<close>.\<close>

definition on_core :: "(db \<Rightarrow> nat \<times> db) \<Rightarrow> people \<Rightarrow> nat \<times> people" where
  "on_core f p = (case f (core p) of (n, s) \<Rightarrow> (n, p\<lparr>core := s\<rparr>))"

definition on_core_or :: "(db \<Rightarrow> sql_error + 'a \<times> db) \<Rightarrow> people \<Rightarrow> sql_error + 'a \<times> people" where
  "on_core_or f p = map_sum id (\<lambda>(a, s). (a, p\<lparr>core := s\<rparr>)) (f (core p))"

section \<open>API tokens\<close>

definition token_live :: "api_token \<Rightarrow> bool" where
  "token_live t \<longleftrightarrow> t_revoked_at t = None"

text \<open>UNIQUE(id), UNIQUE(token\_hash), and over the rows that are not revoked
  \<open>api_tokens_live_name\<close> and \<open>api_tokens_live_client\<close>.\<close>

definition token_clash :: "api_token \<Rightarrow> api_token \<Rightarrow> bool" where
  "token_clash t u \<longleftrightarrow> t_id u = t_id t \<or> t_token_hash u = t_token_hash t \<or>
     token_live t \<and> token_live u \<and> t_account_id u = t_account_id t \<and>
       (t_name u = t_name t \<or> t_oauth_client_id t \<noteq> None \<and> t_oauth_client_id u = t_oauth_client_id t)"

definition insert_token :: "people \<Rightarrow> api_token \<Rightarrow> sql_error + api_token \<times> people" where
  "insert_token p t =
     (if list_ex (token_clash t) (api_tokens p) then Inl UniqueViolation
      else if \<not> known_account p (t_account_id t) \<or> \<not> fk_opt (client_exists p) (t_oauth_client_id t)
      then Inl ForeignKeyViolation
      else Inr (t, p\<lparr>api_tokens := api_tokens p @ [t]\<rparr>))"

definition q_CreateAPIToken ::
  "people \<Rightarrow> ident \<Rightarrow> ident \<Rightarrow> string \<Rightarrow> string \<Rightarrow> string \<Rightarrow> stamp option \<Rightarrow> stamp \<Rightarrow> sql_error + api_token \<times> people" where
  "q_CreateAPIToken p i acc name hash prefix expires now =
     insert_token p \<lparr>t_id = i, t_account_id = acc, t_name = name, t_token_hash = hash, t_token_prefix = prefix,
       t_last_used_at = None, t_expires_at = expires, t_revoked_at = None, t_created_at = now,
       t_updated_at = now, t_oauth_client_id = None\<rparr>"

definition q_CreateClientAPIToken ::
  "people \<Rightarrow> ident \<Rightarrow> ident \<Rightarrow> string \<Rightarrow> string \<Rightarrow> string \<Rightarrow> ident option \<Rightarrow> stamp \<Rightarrow> sql_error + api_token \<times> people" where
  "q_CreateClientAPIToken p i acc name hash prefix client now =
     insert_token p \<lparr>t_id = i, t_account_id = acc, t_name = name, t_token_hash = hash, t_token_prefix = prefix,
       t_last_used_at = None, t_expires_at = None, t_revoked_at = None, t_created_at = now,
       t_updated_at = now, t_oauth_client_id = client\<rparr>"

definition token_usable :: "stamp \<Rightarrow> api_token \<Rightarrow> bool" where
  "token_usable now t \<longleftrightarrow> token_live t \<and> (case t_expires_at t of None \<Rightarrow> True | Some e \<Rightarrow> now < e)"

definition q_ResolveToken :: "people \<Rightarrow> string \<Rightarrow> stamp \<Rightarrow> (account \<times> api_token) option" where
  "q_ResolveToken p hash now =
     Option.bind (sel_one (\<lambda>t. t_token_hash t = hash \<and> token_usable now t) (api_tokens p)) (\<lambda>t.
     map_option (\<lambda>a. (a, t)) (q_GetAccount (core p) (t_account_id t)))"

definition upd_tokens :: "(api_token \<Rightarrow> bool) \<Rightarrow> (api_token \<Rightarrow> api_token) \<Rightarrow> people \<Rightarrow> nat \<times> people" where
  "upd_tokens P f p = (count_where P (api_tokens p), p\<lparr>api_tokens := upd_where P f (api_tokens p)\<rparr>)"

definition q_TouchTokenLastUsed :: "people \<Rightarrow> ident \<Rightarrow> stamp \<Rightarrow> nat \<times> people" where
  "q_TouchTokenLastUsed p i now =
     upd_tokens (\<lambda>t. t_id t = i) (\<lambda>t. t\<lparr>t_last_used_at := Some now, t_updated_at := now\<rparr>) p"

definition revoke_token :: "stamp \<Rightarrow> api_token \<Rightarrow> api_token" where
  "revoke_token now t = t\<lparr>t_revoked_at := Some now, t_updated_at := now\<rparr>"

definition q_RevokeAPIToken :: "people \<Rightarrow> ident \<Rightarrow> stamp \<Rightarrow> nat \<times> people" where
  "q_RevokeAPIToken p i now = upd_tokens (\<lambda>t. t_id t = i \<and> token_live t) (revoke_token now) p"

definition q_RevokeTokensNamed :: "people \<Rightarrow> ident \<Rightarrow> string \<Rightarrow> stamp \<Rightarrow> nat \<times> people" where
  "q_RevokeTokensNamed p acc name now =
     upd_tokens (\<lambda>t. t_account_id t = acc \<and> t_name t = name \<and> token_live t) (revoke_token now) p"

definition q_RevokeLiveClientTokens :: "people \<Rightarrow> ident \<Rightarrow> ident option \<Rightarrow> stamp \<Rightarrow> nat \<times> people" where
  "q_RevokeLiveClientTokens p acc client now =
     upd_tokens (\<lambda>t. t_account_id t = acc \<and> client \<noteq> None \<and> t_oauth_client_id t = client \<and> token_live t)
       (revoke_token now) p"

definition q_ListLiveAPITokens :: "people \<Rightarrow> ident \<Rightarrow> stamp \<Rightarrow> api_token list" where
  "q_ListLiveAPITokens p acc now =
     rev (sort_key t_created_at (rev (filter (\<lambda>t. t_account_id t = acc \<and> token_usable now t) (api_tokens p))))"

definition q_GetAPIToken :: "people \<Rightarrow> ident \<Rightarrow> api_token option" where
  "q_GetAPIToken p i = sel_one (\<lambda>t. t_id t = i) (api_tokens p)"

section \<open>Sessions\<close>

definition q_CreateSession ::
  "people \<Rightarrow> ident \<Rightarrow> ident \<Rightarrow> string \<Rightarrow> stamp \<Rightarrow> stamp \<Rightarrow> sql_error + session \<times> people" where
  "q_CreateSession p i acc hash expires now =
     (let s = \<lparr>ss_id = i, ss_account_id = acc, ss_token_hash = hash, ss_expires_at = expires, ss_last_used_at = None,
               ss_revoked_at = None, ss_created_at = now, ss_updated_at = now\<rparr>
      in if list_ex (\<lambda>x. ss_id x = i \<or> ss_token_hash x = hash) (sessions p) then Inl UniqueViolation
         else if \<not> known_account p acc then Inl ForeignKeyViolation
         else Inr (s, p\<lparr>sessions := sessions p @ [s]\<rparr>))"

definition session_live :: "stamp \<Rightarrow> session \<Rightarrow> bool" where
  "session_live now s \<longleftrightarrow> ss_revoked_at s = None \<and> now < ss_expires_at s"

definition q_ResolveSession :: "people \<Rightarrow> string \<Rightarrow> stamp \<Rightarrow> (account \<times> session) option" where
  "q_ResolveSession p hash now =
     sel_one (\<lambda>(a, s). acc_id a = ss_account_id s \<and> acc_disabled_at a = None)
       [(a, s). s \<leftarrow> filter (\<lambda>s. ss_token_hash s = hash \<and> session_live now s) (sessions p), a \<leftarrow> accounts (core p)]"

definition upd_sessions :: "(session \<Rightarrow> bool) \<Rightarrow> (session \<Rightarrow> session) \<Rightarrow> people \<Rightarrow> nat \<times> people" where
  "upd_sessions P f p = (count_where P (sessions p), p\<lparr>sessions := upd_where P f (sessions p)\<rparr>)"

definition q_TouchSession :: "people \<Rightarrow> ident \<Rightarrow> stamp \<Rightarrow> stamp \<Rightarrow> nat \<times> people" where
  "q_TouchSession p i expires now =
     upd_sessions (\<lambda>s. ss_id s = i) (\<lambda>s. s\<lparr>ss_last_used_at := Some now, ss_expires_at := expires, ss_updated_at := now\<rparr>) p"

definition revoke_session :: "stamp \<Rightarrow> session \<Rightarrow> session" where
  "revoke_session now s = s\<lparr>ss_revoked_at := Some now, ss_updated_at := now\<rparr>"

definition q_RevokeSession :: "people \<Rightarrow> ident \<Rightarrow> stamp \<Rightarrow> nat \<times> people" where
  "q_RevokeSession p i now = upd_sessions (\<lambda>s. ss_id s = i \<and> ss_revoked_at s = None) (revoke_session now) p"

definition q_RevokeAccountSessions :: "people \<Rightarrow> ident \<Rightarrow> stamp \<Rightarrow> nat \<times> people" where
  "q_RevokeAccountSessions p acc now =
     upd_sessions (\<lambda>s. ss_account_id s = acc \<and> ss_revoked_at s = None) (revoke_session now) p"

section \<open>Single use links\<close>

definition link_open :: "email_token \<Rightarrow> bool" where
  "link_open k \<longleftrightarrow> k_consumed_at k = None"

definition q_CreateEmailToken ::
  "people \<Rightarrow> ident \<Rightarrow> ident \<Rightarrow> string \<Rightarrow> string \<Rightarrow> stamp \<Rightarrow> stamp \<Rightarrow> sql_error + email_token \<times> people" where
  "q_CreateEmailToken p i acc purpose hash expires now =
     (let k = \<lparr>k_id = i, k_account_id = acc, k_purpose = purpose, k_token_hash = hash, k_expires_at = expires,
               k_consumed_at = None, k_created_at = now\<rparr>
      in if purpose \<notin> {''verify_email'', ''password_reset''} then Inl CheckViolation
         else if list_ex (\<lambda>x. k_id x = i \<or> k_token_hash x = hash \<or>
              link_open x \<and> k_account_id x = acc \<and> k_purpose x = purpose) (email_tokens p) then Inl UniqueViolation
         else if \<not> known_account p acc then Inl ForeignKeyViolation
         else Inr (k, p\<lparr>email_tokens := email_tokens p @ [k]\<rparr>))"

definition consume_link :: "stamp \<Rightarrow> email_token \<Rightarrow> email_token" where
  "consume_link now k = k\<lparr>k_consumed_at := Some now\<rparr>"

definition upd_links :: "(email_token \<Rightarrow> bool) \<Rightarrow> stamp \<Rightarrow> people \<Rightarrow> nat \<times> people" where
  "upd_links P now p =
     (count_where P (email_tokens p), p\<lparr>email_tokens := upd_where P (consume_link now) (email_tokens p)\<rparr>)"

definition q_ConsumeLiveEmailTokens :: "people \<Rightarrow> ident \<Rightarrow> string \<Rightarrow> stamp \<Rightarrow> nat \<times> people" where
  "q_ConsumeLiveEmailTokens p acc purpose now =
     upd_links (\<lambda>k. k_account_id k = acc \<and> k_purpose k = purpose \<and> link_open k) now p"

definition q_RevokeAccountEmailTokens :: "people \<Rightarrow> ident \<Rightarrow> stamp \<Rightarrow> nat \<times> people" where
  "q_RevokeAccountEmailTokens p acc now = upd_links (\<lambda>k. k_account_id k = acc \<and> link_open k) now p"

definition spendable_link :: "string \<Rightarrow> string \<Rightarrow> stamp \<Rightarrow> email_token \<Rightarrow> bool" where
  "spendable_link hash purpose now k \<longleftrightarrow>
     k_token_hash k = hash \<and> k_purpose k = purpose \<and> link_open k \<and> now < k_expires_at k"

definition q_ConsumeEmailToken :: "people \<Rightarrow> string \<Rightarrow> string \<Rightarrow> stamp \<Rightarrow> (email_token \<times> people) option" where
  "q_ConsumeEmailToken p hash purpose now =
     map_option (\<lambda>k. (consume_link now k, snd (upd_links (spendable_link hash purpose now) now p)))
       (sel_one (spendable_link hash purpose now) (email_tokens p))"

section \<open>Invites\<close>

definition q_AccountExistsByEmail :: "people \<Rightarrow> string \<Rightarrow> bool" where
  "q_AccountExistsByEmail p email \<longleftrightarrow> list_ex (\<lambda>a. acc_email a = Some email) (accounts (core p))"

definition q_AnyAccountHasEmail :: "people \<Rightarrow> bool" where
  "q_AnyAccountHasEmail p \<longleftrightarrow> list_ex (\<lambda>a. acc_email a \<noteq> None) (accounts (core p))"

definition invite_live :: "stamp \<Rightarrow> invite \<Rightarrow> bool" where
  "invite_live now i \<longleftrightarrow> i_consumed_at i = None \<and> i_revoked_at i = None \<and> now < i_expires_at i"

definition q_AnyLiveBootstrapInvite :: "people \<Rightarrow> stamp \<Rightarrow> bool" where
  "q_AnyLiveBootstrapInvite p now \<longleftrightarrow> list_ex (\<lambda>i. i_created_by i = None \<and> invite_live now i) (invites p)"

definition q_CreateInvite ::
  "people \<Rightarrow> ident \<Rightarrow> string \<Rightarrow> string option \<Rightarrow> string option \<Rightarrow> ident option \<Rightarrow> stamp \<Rightarrow> stamp \<Rightarrow> sql_error + invite \<times> people" where
  "q_CreateInvite p i hash note email by' expires now =
     (let v = \<lparr>i_id = i, i_code_hash = hash, i_note = note, i_created_by = by', i_expires_at = expires,
               i_consumed_at = None, i_consumed_by = None, i_revoked_at = None, i_created_at = now, i_email = email\<rparr>
      in if list_ex (\<lambda>x. i_id x = i \<or> i_code_hash x = hash) (invites p) then Inl UniqueViolation
         else if \<not> fk_opt (known_account p) by' then Inl ForeignKeyViolation
         else Inr (v, p\<lparr>invites := invites p @ [v]\<rparr>))"

definition q_LiveInviteByCodeHash :: "people \<Rightarrow> string \<Rightarrow> string \<Rightarrow> stamp \<Rightarrow> invite option" where
  "q_LiveInviteByCodeHash p hash candidate now =
     sel_one (\<lambda>i. i_code_hash i = hash \<and> (case i_email i of None \<Rightarrow> True | Some e \<Rightarrow> e = candidate) \<and> invite_live now i)
       (invites p)"

definition upd_invites :: "(invite \<Rightarrow> bool) \<Rightarrow> (invite \<Rightarrow> invite) \<Rightarrow> people \<Rightarrow> nat \<times> people" where
  "upd_invites P f p = (count_where P (invites p), p\<lparr>invites := upd_where P f (invites p)\<rparr>)"

definition q_RevokeInvite :: "people \<Rightarrow> ident \<Rightarrow> stamp \<Rightarrow> nat \<times> people" where
  "q_RevokeInvite p i now = upd_invites (\<lambda>v. i_id v = i \<and> invite_live now v) (\<lambda>v. v\<lparr>i_revoked_at := Some now\<rparr>) p"

text \<open>\<open>consumed_by\<close> is checked when the transaction commits.\<close>

definition q_SpendInvite :: "people \<Rightarrow> ident \<Rightarrow> ident \<Rightarrow> stamp \<Rightarrow> nat \<times> people" where
  "q_SpendInvite p i by' now =
     upd_invites (\<lambda>v. i_id v = i \<and> invite_live now v) (\<lambda>v. v\<lparr>i_consumed_at := Some now, i_consumed_by := Some by'\<rparr>) p"

text \<open>The list joins the names of who minted an invite and who spent it.\<close>

record invite_row =
  ir_invite :: invite
  ir_issuer_name :: "string option"
  ir_spender_email :: "string option"

definition joined :: "people \<Rightarrow> (account \<Rightarrow> string option) \<Rightarrow> ident option \<Rightarrow> string option" where
  "joined p field i = Option.bind (Option.bind i (q_GetAccount (core p))) field"

definition q_ListInvites :: "people \<Rightarrow> invite_row list" where
  "q_ListInvites p =
     map (\<lambda>i. \<lparr>ir_invite = i, ir_issuer_name = joined p acc_display_name (i_created_by i),
               ir_spender_email = joined p acc_email (i_consumed_by i)\<rparr>)
       (rev (sort_key i_created_at (rev (invites p))))"

section \<open>The authorization server\<close>

text \<open>The redirect addresses are stored as a JSON array and read back; here they are the array.\<close>

definition q_CreateOAuthClient ::
  "people \<Rightarrow> ident \<Rightarrow> string \<Rightarrow> string list \<Rightarrow> stamp \<Rightarrow> sql_error + oauth_client \<times> people" where
  "q_CreateOAuthClient p i name uris now =
     (let c = \<lparr>oc_id = i, oc_name = name, oc_redirect_uris = uris, oc_created_at = now, oc_approved_at = None\<rparr>
      in if client_exists p i then Inl UniqueViolation else Inr (c, p\<lparr>oauth_clients := oauth_clients p @ [c]\<rparr>))"

definition q_GetOAuthClient :: "people \<Rightarrow> ident \<Rightarrow> oauth_client option" where
  "q_GetOAuthClient p i = sel_one (\<lambda>c. oc_id c = i) (oauth_clients p)"

definition q_ApproveOAuthClient :: "people \<Rightarrow> ident \<Rightarrow> stamp \<Rightarrow> nat \<times> people" where
  "q_ApproveOAuthClient p i now =
     (let P = (\<lambda>c. oc_id c = i \<and> oc_approved_at c = None)
      in (count_where P (oauth_clients p),
          p\<lparr>oauth_clients := upd_where P (\<lambda>c. c\<lparr>oc_approved_at := Some now\<rparr>) (oauth_clients p)\<rparr>))"

text \<open>A deleted client takes its codes with it; a token granted to it would keep it.\<close>

definition q_DeleteUnapprovedOAuthClients :: "people \<Rightarrow> stamp \<Rightarrow> sql_error + nat \<times> people" where
  "q_DeleteUnapprovedOAuthClients p cutoff =
     (let doomed = (\<lambda>c. oc_approved_at c = None \<and> oc_created_at c < cutoff);
          gone = map oc_id (filter doomed (oauth_clients p))
      in if list_ex (\<lambda>t. case t_oauth_client_id t of None \<Rightarrow> False | Some c \<Rightarrow> List.member gone c) (api_tokens p)
         then Inl ForeignKeyViolation
         else Inr (length gone, p\<lparr>oauth_clients := del_where doomed (oauth_clients p),
           oauth_codes := del_where (\<lambda>o'. List.member gone (o_client_id o')) (oauth_codes p)\<rparr>))"

definition q_CreateOAuthCode :: "people \<Rightarrow> oauth_code \<Rightarrow> sql_error + people" where
  "q_CreateOAuthCode p c =
     (if list_ex (\<lambda>x. o_code_hash x = o_code_hash c) (oauth_codes p) then Inl UniqueViolation
      else if \<not> client_exists p (o_client_id c) \<or> \<not> known_account p (o_account_id c) then Inl ForeignKeyViolation
      else Inr (p\<lparr>oauth_codes := oauth_codes p @ [c]\<rparr>))"

definition q_GetOAuthCode :: "people \<Rightarrow> string \<Rightarrow> oauth_code option" where
  "q_GetOAuthCode p hash = sel_one (\<lambda>c. o_code_hash c = hash) (oauth_codes p)"

definition spendable_code :: "string \<Rightarrow> stamp \<Rightarrow> oauth_code \<Rightarrow> bool" where
  "spendable_code hash now c \<longleftrightarrow> o_code_hash c = hash \<and> o_consumed_at c = None \<and> now < o_expires_at c"

definition q_ConsumeOAuthCode :: "people \<Rightarrow> string \<Rightarrow> stamp \<Rightarrow> (oauth_code \<times> people) option" where
  "q_ConsumeOAuthCode p hash now =
     map_option (\<lambda>c. (c\<lparr>o_consumed_at := Some now\<rparr>,
         p\<lparr>oauth_codes := upd_where (spendable_code hash now) (\<lambda>c. c\<lparr>o_consumed_at := Some now\<rparr>) (oauth_codes p)\<rparr>))
       (sel_one (spendable_code hash now) (oauth_codes p))"

definition q_SetOAuthCodeToken :: "people \<Rightarrow> string \<Rightarrow> ident \<Rightarrow> sql_error + nat \<times> people" where
  "q_SetOAuthCodeToken p hash tok =
     (let P = (\<lambda>c. o_code_hash c = hash) in
      if list_ex P (oauth_codes p) \<and> \<not> token_exists p tok then Inl ForeignKeyViolation
      else Inr (count_where P (oauth_codes p),
        p\<lparr>oauth_codes := upd_where P (\<lambda>c. c\<lparr>o_token_id := Some tok\<rparr>) (oauth_codes p)\<rparr>))"

end
