(* ===== verification/People_Store.thy ===== *)
theory People_Store
  imports People_Schema
begin

text \<open>
  \<^verbatim>\<open>internal/store/identity.go\<close>, \<^verbatim>\<open>invites.go\<close>, \<^verbatim>\<open>oauth.go\<close> and the token operations of \<^verbatim>\<open>accounts.go\<close>.
  A call is a function from the tables to an error or its result and the next tables; an error
  inside a transaction rolls it back. Identifiers, hashes and the stamps of deadlines are drawn or
  computed by the caller.
\<close>

section \<open>People\<close>

record NewIdentityAccount =
  na_email :: string
  na_password_hash :: string
  na_display_name :: string

definition CreateIdentityAccount ::
  "people \<Rightarrow> NewIdentityAccount \<Rightarrow> ident \<Rightarrow> stamp \<Rightarrow> store_error + account \<times> people" where
  "CreateIdentityAccount p n i now =
     (case on_core_or (\<lambda>s. q_CreateIdentityAccount s i (Some (na_email n)) (Some (na_password_hash n))
         (Some (na_display_name n)) now) p of
        Inl e \<Rightarrow> Inl (if isUniqueViolation e then ErrEmailTaken else Fault e)
      | Inr x \<Rightarrow> Inr x)"

definition GetAccountByEmail :: "people \<Rightarrow> string \<Rightarrow> store_error + account" where
  "GetAccountByEmail p email = row_or ErrNotFound (q_GetAccountByEmail (core p) (Some email))"

definition ListAccounts :: "people \<Rightarrow> account list" where
  "ListAccounts p = q_ListAccounts (core p)"

text \<open>\<open>if n == 0 { return ErrNotFound }\<close>.\<close>

definition found :: "nat \<times> people \<Rightarrow> store_error + people" where
  "found r = (case r of (n, p) \<Rightarrow> if n = 0 then Inl ErrNotFound else Inr p)"

definition MarkEmailVerified :: "people \<Rightarrow> ident \<Rightarrow> stamp \<Rightarrow> store_error + people" where
  "MarkEmailVerified p i now = found (on_core (\<lambda>s. q_MarkEmailVerified s i now) p)"

definition MarkAccountConnected :: "people \<Rightarrow> ident \<Rightarrow> stamp \<Rightarrow> bool \<times> people" where
  "MarkAccountConnected p i now = (case on_core (\<lambda>s. q_MarkAccountConnected s i now) p of (n, p1) \<Rightarrow> (0 < n, p1))"

definition SetPassword :: "people \<Rightarrow> ident \<Rightarrow> string \<Rightarrow> stamp \<Rightarrow> store_error + people" where
  "SetPassword p i hash now =
     next_step (found (on_core (\<lambda>s. q_SetPasswordHash s i (Some hash) now) p)) (\<lambda>p1.
     let p2 = snd (q_RevokeAccountSessions p1 i now) in
     Inr (snd (q_RevokeAccountEmailTokens p2 i now)))"

definition SetAccountDisabled :: "people \<Rightarrow> ident \<Rightarrow> bool \<Rightarrow> stamp \<Rightarrow> store_error + people" where
  "SetAccountDisabled p i disabled now =
     next_step (found (on_core (\<lambda>s. q_SetAccountDisabled s i (if disabled then Some now else None) now) p)) (\<lambda>p1.
     if \<not> disabled then Inr p1
     else let p2 = snd (q_RevokeAccountSessions p1 i now) in
       Inr (snd (q_RevokeAccountEmailTokens p2 i now)))"

section \<open>Sessions and links\<close>

definition CreateSession ::
  "people \<Rightarrow> ident \<Rightarrow> string \<Rightarrow> stamp \<Rightarrow> ident \<Rightarrow> stamp \<Rightarrow> store_error + session \<times> people" where
  "CreateSession p acc hash expires i now = faulted (q_CreateSession p i acc hash expires now)"

definition ResolveSession :: "people \<Rightarrow> string \<Rightarrow> stamp \<Rightarrow> store_error + account \<times> session" where
  "ResolveSession p hash now = row_or ErrSessionInvalid (q_ResolveSession p hash now)"

definition TouchSession :: "people \<Rightarrow> ident \<Rightarrow> stamp \<Rightarrow> stamp \<Rightarrow> people" where
  "TouchSession p i expires now = snd (q_TouchSession p i expires now)"

definition RevokeSession :: "people \<Rightarrow> ident \<Rightarrow> stamp \<Rightarrow> store_error + people" where
  "RevokeSession p i now = found (q_RevokeSession p i now)"

definition CreateEmailToken ::
  "people \<Rightarrow> ident \<Rightarrow> string \<Rightarrow> string \<Rightarrow> stamp \<Rightarrow> ident \<Rightarrow> stamp \<Rightarrow> store_error + email_token \<times> people" where
  "CreateEmailToken p acc purpose hash expires i now =
     (let p1 = snd (q_ConsumeLiveEmailTokens p acc purpose now) in
      faulted (q_CreateEmailToken p1 i acc purpose hash expires now))"

definition ConsumeEmailToken :: "people \<Rightarrow> string \<Rightarrow> string \<Rightarrow> stamp \<Rightarrow> store_error + email_token \<times> people" where
  "ConsumeEmailToken p hash purpose now = row_or ErrLinkInvalid (q_ConsumeEmailToken p hash purpose now)"

section \<open>API tokens\<close>

record NewToken =
  nt_account :: ident
  nt_name :: string
  nt_hash :: string
  nt_prefix :: string
  nt_expires :: string

definition CreateAPIToken :: "people \<Rightarrow> NewToken \<Rightarrow> ident \<Rightarrow> stamp \<Rightarrow> store_error + api_token \<times> people" where
  "CreateAPIToken p t i now =
     faulted (q_CreateAPIToken p i (nt_account t) (nt_name t) (nt_hash t) (nt_prefix t) (optional (nt_expires t)) now)"

definition ResolveToken :: "people \<Rightarrow> string \<Rightarrow> stamp \<Rightarrow> store_error + account \<times> api_token" where
  "ResolveToken p hash now = row_or ErrTokenInvalid (q_ResolveToken p hash now)"

definition TouchToken :: "people \<Rightarrow> ident \<Rightarrow> stamp \<Rightarrow> people" where
  "TouchToken p i now = snd (q_TouchTokenLastUsed p i now)"

definition RevokeAPIToken :: "people \<Rightarrow> ident \<Rightarrow> stamp \<Rightarrow> store_error + people" where
  "RevokeAPIToken p i now = found (q_RevokeAPIToken p i now)"

definition ListLiveAPITokens :: "people \<Rightarrow> ident \<Rightarrow> stamp \<Rightarrow> api_token list" where
  "ListLiveAPITokens p acc now = q_ListLiveAPITokens p acc now"

definition GetAPIToken :: "people \<Rightarrow> ident \<Rightarrow> store_error + api_token" where
  "GetAPIToken p i = row_or ErrNotFound (q_GetAPIToken p i)"

section \<open>Invites\<close>

record NewInvite =
  ni_hash :: string
  ni_note :: string
  ni_email :: string
  ni_created_by :: string
  ni_expires :: stamp

definition CreateInvite :: "people \<Rightarrow> NewInvite \<Rightarrow> ident \<Rightarrow> stamp \<Rightarrow> store_error + invite \<times> people" where
  "CreateInvite p n i now =
     (if ni_email n \<noteq> [] \<and> q_AccountExistsByEmail p (ni_email n) then Inl ErrAddressRegistered
      else faulted (q_CreateInvite p i (ni_hash n) (optional (ni_note n)) (optional (ni_email n))
        (optional (ni_created_by n)) (ni_expires n) now))"

definition ListInvites :: "people \<Rightarrow> invite_row list" where
  "ListInvites p = q_ListInvites p"

definition LiveInvite :: "people \<Rightarrow> string \<Rightarrow> string \<Rightarrow> stamp \<Rightarrow> store_error + invite" where
  "LiveInvite p hash candidate now = row_or ErrInviteInvalid (q_LiveInviteByCodeHash p hash candidate now)"

definition RevokeInvite :: "people \<Rightarrow> ident \<Rightarrow> stamp \<Rightarrow> store_error + people" where
  "RevokeInvite p i now = found (q_RevokeInvite p i now)"

definition spend_audit :: "ident \<Rightarrow> ident \<Rightarrow> ident \<Rightarrow> stamp \<Rightarrow> audit_log" where
  "spend_audit invite acc i now =
     \<lparr>l_id = i, l_account_id = Some acc, l_action = ''register'', l_target_type = Some ''invite'',
      l_target_id = Some invite, l_outcome = ''allowed'', l_reason = None, l_occurred_at = now, l_client_address = None\<rparr>"

text \<open>The reference of the spent invite to its account is deferred to the commit.\<close>

definition committed_refs :: "people \<Rightarrow> store_error + people" where
  "committed_refs p =
     (if list_all (\<lambda>v. fk_opt (known_account p) (i_consumed_by v)) (invites p) then Inr p
      else Inl (Fault ForeignKeyViolation))"

definition SpendInviteAndCreateAccount ::
  "people \<Rightarrow> ident \<Rightarrow> ident \<Rightarrow> NewIdentityAccount \<Rightarrow> ident \<Rightarrow> stamp \<Rightarrow> store_error + account \<times> people" where
  "SpendInviteAndCreateAccount p invite acc n audit now =
     (case q_SpendInvite p invite acc now of (spent, p1) \<Rightarrow>
      if spent = 0 then Inl ErrInviteInvalid
      else next_step (CreateIdentityAccount p1 n acc now) (\<lambda>(a, p2).
        next_step (faulted (q_InsertAuditLog (core p2) (spend_audit invite acc audit now))) (\<lambda>s.
        next_step (committed_refs (p2\<lparr>core := s\<rparr>)) (\<lambda>p3. Inr (a, p3)))))"

definition AnyAccountHasEmail :: "people \<Rightarrow> bool" where
  "AnyAccountHasEmail p = q_AnyAccountHasEmail p"

definition AnyLiveBootstrapInvite :: "people \<Rightarrow> stamp \<Rightarrow> bool" where
  "AnyLiveBootstrapInvite p now = q_AnyLiveBootstrapInvite p now"

section \<open>The authorization server\<close>

definition CreateOAuthClient :: "people \<Rightarrow> string \<Rightarrow> string list \<Rightarrow> ident \<Rightarrow> stamp \<Rightarrow> store_error + oauth_client \<times> people" where
  "CreateOAuthClient p name uris i now = faulted (q_CreateOAuthClient p i name uris now)"

definition OAuthClient :: "people \<Rightarrow> ident \<Rightarrow> store_error + oauth_client" where
  "OAuthClient p i = row_or ErrNotFound (q_GetOAuthClient p i)"

definition ApproveOAuthClient :: "people \<Rightarrow> ident \<Rightarrow> stamp \<Rightarrow> people" where
  "ApproveOAuthClient p i now = snd (q_ApproveOAuthClient p i now)"

definition SweepUnapprovedOAuthClients :: "people \<Rightarrow> stamp \<Rightarrow> store_error + nat \<times> people" where
  "SweepUnapprovedOAuthClients p cutoff = faulted (q_DeleteUnapprovedOAuthClients p cutoff)"

record NewOAuthCode =
  nc_hash :: string
  nc_client :: ident
  nc_account :: ident
  nc_redirect :: string
  nc_challenge :: string
  nc_resource :: string
  nc_expires :: stamp

definition code_row :: "NewOAuthCode \<Rightarrow> stamp \<Rightarrow> oauth_code" where
  "code_row c now =
     \<lparr>o_code_hash = nc_hash c, o_client_id = nc_client c, o_account_id = nc_account c, o_redirect_uri = nc_redirect c,
      o_code_challenge = nc_challenge c, o_resource = nc_resource c, o_token_id = None, o_expires_at = nc_expires c,
      o_consumed_at = None, o_created_at = now\<rparr>"

definition CreateOAuthCode :: "people \<Rightarrow> NewOAuthCode \<Rightarrow> stamp \<Rightarrow> store_error + people" where
  "CreateOAuthCode p c now = faulted (q_CreateOAuthCode p (code_row c now))"

definition ApproveOAuthClientAndCreateCode :: "people \<Rightarrow> NewOAuthCode \<Rightarrow> stamp \<Rightarrow> store_error + people" where
  "ApproveOAuthClientAndCreateCode p c now =
     (let p1 = snd (q_ApproveOAuthClient p (nc_client c) now) in faulted (q_CreateOAuthCode p1 (code_row c now)))"

definition OAuthCode :: "people \<Rightarrow> string \<Rightarrow> store_error + oauth_code" where
  "OAuthCode p hash = row_or ErrNotFound (q_GetOAuthCode p hash)"

record ClientGrant =
  g_code_hash :: string
  g_account :: ident
  g_client :: ident
  g_name :: string
  g_token_hash :: string
  g_prefix :: string

definition GrantClientToken :: "people \<Rightarrow> ClientGrant \<Rightarrow> ident \<Rightarrow> stamp \<Rightarrow> store_error + api_token \<times> people" where
  "GrantClientToken p g i now =
     (case q_ConsumeOAuthCode p (g_code_hash g) now of
        None \<Rightarrow> Inl ErrTokenInvalid
      | Some (c, p1) \<Rightarrow>
          let p2 = snd (q_RevokeLiveClientTokens p1 (g_account g) (Some (g_client g)) now) in
          next_step (faulted (q_CreateClientAPIToken p2 i (g_account g) (g_name g) (g_token_hash g) (g_prefix g)
            (Some (g_client g)) now)) (\<lambda>(t, p3).
          next_step (faulted (q_SetOAuthCodeToken p3 (g_code_hash g) (t_id t))) (\<lambda>(_, p4). Inr (t, p4))))"

end
