(* ===== verification/People_Machine.thy ===== *)
theory People_Machine
  imports People_Store Store_Tokens
begin

text \<open>
  The tables of people as a state machine: \<open>people_step\<close> is one committed call on them or on the
  tables they share a file with, and \<open>people_ok\<close> what every sequence of them keeps. Rows are never
  lost, and what ended, by a revocation or by being spent, stays ended (\<open>people_next\<close>).
\<close>

section \<open>Unique rows\<close>

definition unique_on :: "('r \<Rightarrow> bool) \<Rightarrow> ('r \<Rightarrow> 'k) \<Rightarrow> 'r list \<Rightarrow> bool" where
  "unique_on P key t \<longleftrightarrow> distinct (map key (filter P t))"

lemma unique_on_Nil [simp]: "unique_on P key []"
  by (simp add: unique_on_def)

lemma unique_on_snoc [simp]:
  "unique_on P key (t @ [r]) \<longleftrightarrow> unique_on P key t \<and> (P r \<longrightarrow> (\<forall>x \<in> set t. P x \<longrightarrow> key x \<noteq> key r))"
  by (auto simp: unique_on_def image_iff)

lemma unique_on_upd:
  assumes "\<And>x. Q x \<Longrightarrow> P (f x) \<Longrightarrow> P x \<and> key (f x) = key x" "unique_on P key t"
  shows "unique_on P key (upd_where Q f t)"
proof -
  have "unique_on P key (upd_where Q f t) \<and> key ` {x \<in> set (upd_where Q f t). P x} \<subseteq> key ` {x \<in> set t. P x}"
    using assms(2)
  proof (induction t)
    case (Cons x t)
    have prems: "unique_on P key t" "P x \<Longrightarrow> key x \<notin> key ` {x \<in> set t. P x}"
      using Cons.prems by (cases "P x"; simp add: unique_on_def)+
    then have "unique_on P key (upd_where Q f t)" "key ` {x \<in> set (upd_where Q f t). P x} \<subseteq> key ` {x \<in> set t. P x}"
      using Cons.IH by blast+
    then show ?case using assms(1)[of x] prems
      by (cases "Q x"; cases "P (f x)"; cases "P x") (auto simp: unique_on_def image_iff subset_iff)
  qed simp
  then show ?thesis ..
qed

lemma unique_on_del: "unique_on P key t \<Longrightarrow> unique_on P key (del_where Q t)"
  unfolding unique_on_def del_where_def by (induction t) auto

lemma unique_on_eq:
  assumes "unique_on P key t" "x \<in> set t" "y \<in> set t" "P x" "P y" "key x = key y"
  shows "x = y"
  using assms keyed_eq[of key "filter P t" x y] by (simp add: unique_on_def)

section \<open>Rows that live on\<close>

definition live_on :: "('r \<Rightarrow> 'r \<Rightarrow> bool) \<Rightarrow> 'r list \<Rightarrow> 'r list \<Rightarrow> bool" where
  "live_on R xs ys \<longleftrightarrow> (\<forall>x \<in> set xs. \<exists>y \<in> set ys. R x y)"

lemma live_on_refl: "(\<And>x. R x x) \<Longrightarrow> live_on R xs xs"
  by (auto simp: live_on_def)

lemma live_on_trans: "transp R \<Longrightarrow> live_on R xs ys \<Longrightarrow> live_on R ys zs \<Longrightarrow> live_on R xs zs"
  unfolding live_on_def by (meson transpD)

lemma live_on_snoc: "(\<And>x. R x x) \<Longrightarrow> live_on R xs (xs @ ys)"
  by (auto simp: live_on_def)

lemma live_on_upd: "(\<And>x. R x x) \<Longrightarrow> (\<And>x. P x \<Longrightarrow> R x (f x)) \<Longrightarrow> live_on R xs (upd_where P f xs)"
  unfolding live_on_def set_upd_where by blast

text \<open>What no call changes of a row, and that what ended stays ended.\<close>

definition ended :: "'a option \<Rightarrow> 'a option \<Rightarrow> bool" where
  "ended a b \<longleftrightarrow> (case a of None \<Rightarrow> True | Some t \<Rightarrow> b = Some t)"

lemma ended_simps [simp]: "ended a a" "ended None b" "ended (Some t) b \<longleftrightarrow> b = Some t"
  "ended a None \<longleftrightarrow> a = None"
  by (auto simp: ended_def split: option.splits)

lemma ended_trans: "ended a b \<Longrightarrow> ended b c \<Longrightarrow> ended a c"
  by (auto simp: ended_def split: option.splits)

definition token_next :: "api_token \<Rightarrow> api_token \<Rightarrow> bool" where
  "token_next t u \<longleftrightarrow> t_id u = t_id t \<and> t_account_id u = t_account_id t \<and> t_name u = t_name t \<and>
     t_token_hash u = t_token_hash t \<and> t_oauth_client_id u = t_oauth_client_id t \<and> t_expires_at u = t_expires_at t \<and>
     ended (t_revoked_at t) (t_revoked_at u)"

definition session_next :: "session \<Rightarrow> session \<Rightarrow> bool" where
  "session_next s u \<longleftrightarrow> ss_id u = ss_id s \<and> ss_account_id u = ss_account_id s \<and> ss_token_hash u = ss_token_hash s \<and>
     ended (ss_revoked_at s) (ss_revoked_at u)"

definition link_next :: "email_token \<Rightarrow> email_token \<Rightarrow> bool" where
  "link_next k l \<longleftrightarrow> k_id l = k_id k \<and> k_account_id l = k_account_id k \<and> k_purpose l = k_purpose k \<and>
     k_token_hash l = k_token_hash k \<and> k_expires_at l = k_expires_at k \<and> ended (k_consumed_at k) (k_consumed_at l)"

definition invite_next :: "invite \<Rightarrow> invite \<Rightarrow> bool" where
  "invite_next i j \<longleftrightarrow> i_id j = i_id i \<and> i_code_hash j = i_code_hash i \<and> i_email j = i_email i \<and>
     i_expires_at j = i_expires_at i \<and> ended (i_consumed_at i) (i_consumed_at j) \<and>
     ended (i_revoked_at i) (i_revoked_at j) \<and> ended (i_consumed_by i) (i_consumed_by j)"

definition code_next :: "oauth_code \<Rightarrow> oauth_code \<Rightarrow> bool" where
  "code_next c d \<longleftrightarrow> o_code_hash d = o_code_hash c \<and> o_client_id d = o_client_id c \<and> o_account_id d = o_account_id c \<and>
     o_redirect_uri d = o_redirect_uri c \<and> o_code_challenge d = o_code_challenge c \<and> o_resource d = o_resource c \<and>
     o_expires_at d = o_expires_at c \<and> ended (o_consumed_at c) (o_consumed_at d)"

lemmas row_nexts = token_next_def session_next_def link_next_def invite_next_def code_next_def

definition approved_client :: "people \<Rightarrow> ident \<Rightarrow> bool" where
  "approved_client p i \<longleftrightarrow> list_ex (\<lambda>c. oc_id c = i \<and> oc_approved_at c \<noteq> None) (oauth_clients p)"

definition people_next :: "people \<Rightarrow> people \<Rightarrow> bool" where
  "people_next p q \<longleftrightarrow> live_on token_next (api_tokens p) (api_tokens q) \<and> live_on session_next (sessions p) (sessions q) \<and>
     live_on link_next (email_tokens p) (email_tokens q) \<and> live_on invite_next (invites p) (invites q) \<and>
     live_on code_next (oauth_codes p) (oauth_codes q) \<and>
     (\<forall>i. approved_client p i \<longrightarrow> approved_client q i) \<and> (\<forall>i. known_account p i \<longrightarrow> known_account q i)"

lemma person_row_refl [simp]: "token_next t t" "session_next s s" "link_next k k" "invite_next i i" "code_next c c"
  by (simp_all add: row_nexts)

lemma person_row_trans: "transp token_next" "transp session_next" "transp link_next" "transp invite_next" "transp code_next"
  by (rule transpI; simp add: row_nexts; blast intro: ended_trans)+

lemma people_next_refl: "people_next p p"
  by (simp add: people_next_def live_on_refl)

lemmas rows_live_on = person_row_trans[THEN live_on_trans]

lemma people_next_trans:
  assumes "people_next p q" "people_next q r"
  shows "people_next p r"
  unfolding people_next_def
proof (intro conjI)
  note facts = assms[unfolded people_next_def]
  show "live_on token_next (api_tokens p) (api_tokens r)" by (rule rows_live_on(1)[of _ "api_tokens q"]) (use facts in simp_all)
  show "live_on session_next (sessions p) (sessions r)" by (rule rows_live_on(2)[of _ "sessions q"]) (use facts in simp_all)
  show "live_on link_next (email_tokens p) (email_tokens r)" by (rule rows_live_on(3)[of _ "email_tokens q"]) (use facts in simp_all)
  show "live_on invite_next (invites p) (invites r)" by (rule rows_live_on(4)[of _ "invites q"]) (use facts in simp_all)
  show "live_on code_next (oauth_codes p) (oauth_codes r)" by (rule rows_live_on(5)[of _ "oauth_codes q"]) (use facts in simp_all)
qed (use assms[unfolded people_next_def] in blast)+

section \<open>The shared tables\<close>

text \<open>No call loses an account.\<close>

lemma known_ids: "account_exists s i \<longleftrightarrow> i \<in> set (map acc_id (accounts s))"
  by (auto simp: account_exists_def list_ex_iff)

lemma upd_accounts_ids: "(\<And>a. acc_id (f a) = acc_id a) \<Longrightarrow> map acc_id (accounts (snd (upd_accounts P f s))) = map acc_id (accounts s)"
  by (simp add: upd_accounts_def map_upd_where)

lemma person_write_keeps:
  assumes "person_write s s'" "account_exists s i"
  shows "account_exists s' i"
  using assms
proof (induction rule: person_write.induct)
  case (registered s i email hash display now acc s')
  then show ?case by (auto simp: q_CreateIdentityAccount_def Let_def account_exists_def split: if_splits)
qed (auto simp: q_MarkEmailVerified_def q_MarkAccountConnected_def q_SetPasswordHash_def q_SetAccountDisabled_def
    upd_accounts_def known_ids map_upd_where simp del: set_map)

lemma deploy_accounts:
  assumes "CreateDeployment s inp evt dep evt' now = Inr (d, old, s')" "store_ok s"
  shows "accounts s' = accounts s"
proof -
  obtain s1 where s1: "supersede s (in_app inp) evt now = Inr (old, s1)"
    "s' = s1\<lparr>deployments := deployments s1 @ [d], events := events s1 @ [birth_event evt' dep now]\<rparr>"
    using birth_effect[OF assms] by blast
  have "accounts s1 = accounts s"
  proof (rule supersede_Inr[OF s1(1)])
    show "Valid (d_state x)" if "x \<in> set (deployments s)" for x
      using store_ok_row(2)[OF assms(2) that] by (simp add: d_check_def)
    show "distinct (map d_id (deployments s))" by (rule store_okD(1)[OF assms(2)])
  qed simp_all
  then show ?thesis using s1(2) by simp
qed

lemma work_accounts:
  assumes "work_step s s'" "store_ok s"
  shows "accounts s' = accounts s \<or> (\<exists>name i now acc. CreateAccount s name i now = Inr (acc, s')) \<or> person_write s s'"
  using assms
proof (induction rule: work_step.induct)
  case (app s acc name limit draws now a s')
  then obtain j sl where "q_CreateApp s j acc name sl now = Inr (a, s')"
    using slug_loop_Inr by (fastforce simp: CreateApp_def split: if_splits)
  then show ?case using q_CreateApp_Inr by fastforce
next
  case (set_config s app es now s')
  then show ?case using SetConfigBatch_frame by fastforce
next
  case (unset_config s app keys s')
  then show ?case using UnsetConfigBatch_frame by fastforce
next
  case (upload s u lim i now u' s')
  then show ?case by (auto simp: CreateUpload_def q_CreateUpload_def Let_def split: if_splits)
next
  case (redeem s h now u' s')
  then show ?case using redeem_frame by fastforce
next
  case (deploy s inp evt dep evt' now d old s')
  then show ?case using deploy_accounts by blast
next
  case (transition s i to' reason detail evt now d s')
  show ?case by (rule Transition_Inr[OF transition.hyps]) simp
next
  case (healthy s i config evt rel now d r s')
  show ?case by (rule MarkHealthy_Inr[OF healthy.hyps]) simp
qed (auto simp: SoftDeleteApp_def q_SoftDeleteApp_def SetUploadFetchToken_def q_SetUploadFetchToken_def DeleteUpload_def
    q_DeleteUpload_def RecordBuildResult_def q_RecordBuildResult_def ClaimNext_def q_ClaimNextDeployment_def
    ReleaseBuildingClaim_def q_ReleaseBuildingClaim_def RecordAudit_def q_InsertAuditLog_def ClearOldAuditAddresses_def
    q_ClearOldAuditAddresses_def next_step_Inr Let_def split: if_splits option.splits)

lemma work_keeps_accounts: "work_step s s' \<Longrightarrow> store_ok s \<Longrightarrow> account_exists s i \<Longrightarrow> account_exists s' i"
  using work_accounts[of s s']
  by (auto simp: account_exists_def CreateAccount_def q_CreateAccount_def Let_def split: if_splits
      dest: person_write_keeps[unfolded account_exists_def])

lemma sweep_accounts: "sweep_step s s' \<Longrightarrow> accounts s' = accounts s"
  by (auto simp: sweep_step.simps Sweep_def q_DeleteEventsOfSweptDeployments_def q_DeleteSweptDeployments_def
      q_DeleteAgedEvents_def q_DeleteStaleUploads_def Let_def next_step_Inr split: if_splits)

section \<open>The invariant\<close>

text \<open>Addresses are unique, and once anybody has one exactly one account is the administrator's.\<close>

definition accounts_ok :: "db \<Rightarrow> bool" where
  "accounts_ok s \<longleftrightarrow> unique_on (\<lambda>_. True) acc_id (accounts s) \<and>
     unique_on (\<lambda>a. acc_email a \<noteq> None) acc_email (accounts s) \<and>
     (\<forall>a \<in> set (accounts s). acc_is_admin a \<longrightarrow> acc_email a \<noteq> None) \<and>
     count_where acc_is_admin (accounts s) = (if list_ex (\<lambda>a. acc_email a \<noteq> None) (accounts s) then 1 else 0)"

definition tokens_ok :: "people \<Rightarrow> bool" where
  "tokens_ok p \<longleftrightarrow> unique_on (\<lambda>_. True) t_id (api_tokens p) \<and> unique_on (\<lambda>_. True) t_token_hash (api_tokens p) \<and>
     unique_on token_live (\<lambda>t. (t_account_id t, t_name t)) (api_tokens p) \<and>
     unique_on (\<lambda>t. token_live t \<and> t_oauth_client_id t \<noteq> None) (\<lambda>t. (t_account_id t, t_oauth_client_id t)) (api_tokens p) \<and>
     (\<forall>t \<in> set (api_tokens p). known_account p (t_account_id t) \<and> fk_opt (approved_client p) (t_oauth_client_id t))"

definition sessions_ok :: "people \<Rightarrow> bool" where
  "sessions_ok p \<longleftrightarrow> unique_on (\<lambda>_. True) ss_id (sessions p) \<and> unique_on (\<lambda>_. True) ss_token_hash (sessions p) \<and>
     (\<forall>s \<in> set (sessions p). known_account p (ss_account_id s))"

definition links_ok :: "people \<Rightarrow> bool" where
  "links_ok p \<longleftrightarrow> unique_on (\<lambda>_. True) k_token_hash (email_tokens p) \<and>
     unique_on link_open (\<lambda>k. (k_account_id k, k_purpose k)) (email_tokens p) \<and>
     (\<forall>k \<in> set (email_tokens p). known_account p (k_account_id k))"

text \<open>An invite that is spent names the account it made, and no two made the same one.\<close>

definition invites_ok :: "people \<Rightarrow> bool" where
  "invites_ok p \<longleftrightarrow> unique_on (\<lambda>_. True) i_id (invites p) \<and> unique_on (\<lambda>_. True) i_code_hash (invites p) \<and>
     unique_on (\<lambda>i. i_consumed_by i \<noteq> None) i_consumed_by (invites p) \<and>
     (\<forall>i \<in> set (invites p). (i_consumed_at i = None \<longleftrightarrow> i_consumed_by i = None) \<and> fk_opt (known_account p) (i_consumed_by i))"

definition codes_ok :: "people \<Rightarrow> bool" where
  "codes_ok p \<longleftrightarrow> unique_on (\<lambda>_. True) o_code_hash (oauth_codes p) \<and>
     (\<forall>c \<in> set (oauth_codes p). approved_client p (o_client_id c) \<and> (o_token_id c \<noteq> None \<longrightarrow> o_consumed_at c \<noteq> None))"

definition clients_ok :: "people \<Rightarrow> bool" where
  "clients_ok p \<longleftrightarrow> unique_on (\<lambda>_. True) oc_id (oauth_clients p)"

definition people_ok :: "people \<Rightarrow> bool" where
  "people_ok p \<longleftrightarrow> store_ok (core p) \<and> accounts_ok (core p) \<and> tokens_ok p \<and> sessions_ok p \<and> links_ok p \<and>
     invites_ok p \<and> codes_ok p \<and> clients_ok p"

lemmas people_oks = people_ok_def tokens_ok_def sessions_ok_def links_ok_def invites_ok_def codes_ok_def clients_ok_def

lemma no_people_ok: "people_ok no_people"
  by (simp add: people_oks accounts_ok_def no_people_def store_ok_empty) (simp add: empty_db_def)

section \<open>What a call keeps\<close>

definition keeps :: "people \<Rightarrow> people \<Rightarrow> bool" where
  "keeps p q \<longleftrightarrow> (people_ok p \<longrightarrow> people_ok q \<and> people_next p q)"

lemma keeps_refl [simp]: "keeps p p"
  by (simp add: keeps_def people_next_refl)

lemma keeps_trans: "keeps p q \<Longrightarrow> keeps q r \<Longrightarrow> keeps p r"
  unfolding keeps_def using people_next_trans by blast

lemma approved_same [simp]:
  "approved_client (p\<lparr>core := s\<rparr>) = approved_client p" "approved_client (p\<lparr>api_tokens := ts\<rparr>) = approved_client p"
  "approved_client (p\<lparr>sessions := ss\<rparr>) = approved_client p" "approved_client (p\<lparr>email_tokens := ks\<rparr>) = approved_client p"
  "approved_client (p\<lparr>invites := is\<rparr>) = approved_client p" "approved_client (p\<lparr>oauth_codes := cs\<rparr>) = approved_client p"
  by (simp_all add: approved_client_def fun_eq_iff)

lemma fk_mono: "fk_opt P i \<Longrightarrow> (\<And>x. P x \<Longrightarrow> Q x) \<Longrightarrow> fk_opt Q i"
  by (cases i) auto

lemma keeps_core:
  assumes "store_ok (core p) \<Longrightarrow> accounts_ok (core p) \<Longrightarrow>
      store_ok s \<and> accounts_ok s \<and> (\<forall>i. known_account p i \<longrightarrow> account_exists s i)"
  shows "keeps p (p\<lparr>core := s\<rparr>)"
  unfolding keeps_def
proof
  assume ok: "people_ok p"
  then have s: "store_ok s" "accounts_ok s" "\<And>i. known_account p i \<Longrightarrow> account_exists s i"
    using assms by (auto simp: people_ok_def)
  have "fk_opt (account_exists s) i" if "fk_opt (known_account p) i" for i using fk_mono[OF that] s(3) by blast
  then show "people_ok (p\<lparr>core := s\<rparr>) \<and> people_next p (p\<lparr>core := s\<rparr>)"
    using ok s by (simp add: people_oks people_next_def live_on_refl)
qed

lemma keeps_tokens:
  assumes "\<And>t. P t \<Longrightarrow> token_next t (f t)"
  shows "keeps p (snd (upd_tokens P f p))"
  unfolding keeps_def
proof
  assume ok: "people_ok p"
  have live: "token_live (f t) \<Longrightarrow> token_live t" if "P t" for t
    using assms[OF that] by (auto simp: token_next_def token_live_def)
  have "unique_on (\<lambda>_. True) t_id (upd_where P f (api_tokens p))" "unique_on (\<lambda>_. True) t_token_hash (upd_where P f (api_tokens p))"
    "unique_on token_live (\<lambda>t. (t_account_id t, t_name t)) (upd_where P f (api_tokens p))"
    "unique_on (\<lambda>t. token_live t \<and> t_oauth_client_id t \<noteq> None) (\<lambda>t. (t_account_id t, t_oauth_client_id t)) (upd_where P f (api_tokens p))"
    using ok live assms by (auto simp: people_oks token_next_def intro!: unique_on_upd)
  moreover have "known_account p (t_account_id t) \<and> fk_opt (approved_client p) (t_oauth_client_id t)"
    if "t \<in> set (upd_where P f (api_tokens p))" for t
    using that ok assms by (auto simp: people_oks set_upd_where token_next_def)
  moreover have "live_on token_next (api_tokens p) (upd_where P f (api_tokens p))"
    using assms by (auto intro: live_on_upd)
  ultimately show "people_ok (snd (upd_tokens P f p)) \<and> people_next p (snd (upd_tokens P f p))"
    using ok by (simp add: people_oks upd_tokens_def people_next_def live_on_refl)
qed

lemma keeps_insert_token:
  assumes "insert_token p t = Inr (t', q)" "fk_opt (approved_client p) (t_oauth_client_id t)"
  shows "keeps p q"
  unfolding keeps_def
proof
  assume ok: "people_ok p"
  have q: "q = p\<lparr>api_tokens := api_tokens p @ [t]\<rparr>" and free: "\<forall>u \<in> set (api_tokens p). \<not> token_clash t u"
    and acc: "known_account p (t_account_id t)"
    using assms(1) by (auto simp: insert_token_def list_ex_iff split: if_splits)
  then show "people_ok q \<and> people_next p q"
    using ok assms(2) by (auto simp: people_oks people_next_def live_on_refl live_on_snoc token_clash_def)
qed

lemma keeps_sessions:
  assumes "\<And>s. P s \<Longrightarrow> session_next s (f s)"
  shows "keeps p (snd (upd_sessions P f p))"
  unfolding keeps_def
proof
  assume ok: "people_ok p"
  have "unique_on (\<lambda>_. True) ss_id (upd_where P f (sessions p))" "unique_on (\<lambda>_. True) ss_token_hash (upd_where P f (sessions p))"
    using ok assms by (auto simp: people_oks session_next_def intro!: unique_on_upd)
  moreover have "known_account p (ss_account_id s)" if "s \<in> set (upd_where P f (sessions p))" for s
    using that ok assms by (auto simp: people_oks set_upd_where session_next_def)
  moreover have "live_on session_next (sessions p) (upd_where P f (sessions p))" using assms by (auto intro: live_on_upd)
  ultimately show "people_ok (snd (upd_sessions P f p)) \<and> people_next p (snd (upd_sessions P f p))"
    using ok by (simp add: people_oks upd_sessions_def people_next_def live_on_refl)
qed

lemma keeps_insert_session:
  assumes "q_CreateSession p i acc hash expires now = Inr (s, q)"
  shows "keeps p q"
proof -
  have "q = p\<lparr>sessions := sessions p @ [s]\<rparr>" "\<forall>x \<in> set (sessions p). ss_id x \<noteq> ss_id s \<and> ss_token_hash x \<noteq> ss_token_hash s"
    "known_account p (ss_account_id s)"
    using assms by (auto simp: q_CreateSession_def Let_def list_ex_iff split: if_splits)
  then show ?thesis by (auto simp: keeps_def people_oks people_next_def live_on_refl live_on_snoc)
qed

lemma keeps_links:
  assumes "\<And>k. P k \<Longrightarrow> link_open k"
  shows "keeps p (snd (upd_links P now p))"
  unfolding keeps_def
proof
  assume ok: "people_ok p"
  let ?f = "consume_link now"
  have "unique_on (\<lambda>_. True) k_token_hash (upd_where P ?f (email_tokens p))"
    "unique_on link_open (\<lambda>k. (k_account_id k, k_purpose k)) (upd_where P ?f (email_tokens p))"
    using ok by (auto simp: people_oks consume_link_def link_open_def intro!: unique_on_upd)
  moreover have "known_account p (k_account_id k)" if "k \<in> set (upd_where P ?f (email_tokens p))" for k
    using that ok by (auto simp: people_oks set_upd_where consume_link_def)
  moreover have "live_on link_next (email_tokens p) (upd_where P ?f (email_tokens p))"
    using assms by (auto simp: link_next_def consume_link_def link_open_def intro!: live_on_upd)
  ultimately show "people_ok (snd (upd_links P now p)) \<and> people_next p (snd (upd_links P now p))"
    using ok by (simp add: people_oks upd_links_def people_next_def live_on_refl)
qed

lemma keeps_insert_link:
  assumes "q_CreateEmailToken p i acc purpose hash expires now = Inr (k, q)"
  shows "keeps p q"
proof -
  have "q = p\<lparr>email_tokens := email_tokens p @ [k]\<rparr>" "known_account p (k_account_id k)"
    "\<forall>x \<in> set (email_tokens p). k_token_hash x \<noteq> k_token_hash k \<and>
       (link_open x \<longrightarrow> (k_account_id x, k_purpose x) \<noteq> (k_account_id k, k_purpose k))"
    using assms by (auto simp: q_CreateEmailToken_def Let_def list_ex_iff split: if_splits)
  then show ?thesis by (auto simp: keeps_def people_oks people_next_def live_on_refl live_on_snoc)
qed

lemma keeps_invites:
  assumes "\<And>i. P i \<Longrightarrow> invite_next i (f i) \<and> i_consumed_at (f i) = i_consumed_at i \<and> i_consumed_by (f i) = i_consumed_by i"
  shows "keeps p (snd (upd_invites P f p))"
  unfolding keeps_def
proof
  assume ok: "people_ok p"
  have "unique_on (\<lambda>_. True) i_id (upd_where P f (invites p))" "unique_on (\<lambda>_. True) i_code_hash (upd_where P f (invites p))"
    "unique_on (\<lambda>i. i_consumed_by i \<noteq> None) i_consumed_by (upd_where P f (invites p))"
    using ok assms by (auto simp: people_oks invite_next_def intro!: unique_on_upd)
  moreover have "(i_consumed_at i = None \<longleftrightarrow> i_consumed_by i = None) \<and> fk_opt (known_account p) (i_consumed_by i)"
    if "i \<in> set (upd_where P f (invites p))" for i
    using that ok assms by (auto simp: people_oks set_upd_where)
  moreover have "live_on invite_next (invites p) (upd_where P f (invites p))" using assms by (auto intro: live_on_upd)
  ultimately show "people_ok (snd (upd_invites P f p)) \<and> people_next p (snd (upd_invites P f p))"
    using ok by (simp add: people_oks upd_invites_def people_next_def live_on_refl)
qed

lemma keeps_insert_invite:
  assumes "q_CreateInvite p i hash note email by' expires now = Inr (v, q)"
  shows "keeps p q"
proof -
  have "q = p\<lparr>invites := invites p @ [v]\<rparr>" "i_consumed_at v = None" "i_consumed_by v = None"
    "\<forall>x \<in> set (invites p). i_id x \<noteq> i_id v \<and> i_code_hash x \<noteq> i_code_hash v"
    using assms by (auto simp: q_CreateInvite_def Let_def list_ex_iff split: if_splits)
  then show ?thesis by (auto simp: keeps_def people_oks people_next_def live_on_refl live_on_snoc)
qed

lemma keeps_clients:
  assumes "q = p\<lparr>oauth_clients := cs\<rparr>" "clients_ok p \<Longrightarrow> clients_ok q" "\<And>i. approved_client p i \<Longrightarrow> approved_client q i"
  shows "keeps p q"
  unfolding keeps_def
proof
  assume ok: "people_ok p"
  have "fk_opt (approved_client q) i" if "fk_opt (approved_client p) i" for i
    using fk_mono[OF that] assms(3) by blast
  then show "people_ok q \<and> people_next p q"
    using ok assms by (auto simp: people_oks people_next_def live_on_refl)
qed

lemma keeps_insert_client:
  assumes "q_CreateOAuthClient p i name uris now = Inr (c, q)"
  shows "keeps p q"
proof (rule keeps_clients)
  show "q = p\<lparr>oauth_clients := oauth_clients p @ [c]\<rparr>"
    using assms by (auto simp: q_CreateOAuthClient_def Let_def split: if_splits)
qed (use assms in \<open>auto simp: q_CreateOAuthClient_def Let_def clients_ok_def client_exists_def list_ex_iff approved_client_def
      split: if_splits\<close>)

lemma keeps_approve: "keeps p (snd (q_ApproveOAuthClient p i now))"
  by (rule keeps_clients) (auto simp: q_ApproveOAuthClient_def Let_def clients_ok_def approved_client_def list_ex_iff
      set_upd_where intro!: unique_on_upd)

lemma approved_stays:
  assumes "clients_ok p" "approved_client p i" "c \<in> set (oauth_clients p)" "oc_id c = i"
  shows "oc_approved_at c \<noteq> None"
proof -
  obtain d where "d \<in> set (oauth_clients p)" "oc_id d = i" "oc_approved_at d \<noteq> None"
    using assms(2) by (auto simp: approved_client_def list_ex_iff)
  then show ?thesis using unique_on_eq[OF assms(1)[unfolded clients_ok_def], of c d] assms(3,4) by simp
qed

text \<open>The sweep of clients never fails and never takes a code.\<close>

lemma sweep_clients_spares:
  assumes "people_ok p"
  shows "q_DeleteUnapprovedOAuthClients p cutoff =
    (let doomed = (\<lambda>c. oc_approved_at c = None \<and> oc_created_at c < cutoff) in
     Inr (length (filter doomed (oauth_clients p)), p\<lparr>oauth_clients := del_where doomed (oauth_clients p)\<rparr>))"
proof -
  let ?gone = "map oc_id (filter (\<lambda>c. oc_approved_at c = None \<and> oc_created_at c < cutoff) (oauth_clients p))"
  have gone: "\<not> List.member ?gone i" if "approved_client p i" for i
    using approved_stays[OF _ that] assms unfolding people_ok_def by fastforce
  have "\<not> list_ex (\<lambda>t. case t_oauth_client_id t of None \<Rightarrow> False | Some c \<Rightarrow> List.member ?gone c) (api_tokens p)"
    using assms gone by (fastforce simp: people_oks list_ex_iff split: option.splits)
  moreover have "del_where (\<lambda>c. List.member ?gone (o_client_id c)) (oauth_codes p) = oauth_codes p"
    using assms gone by (auto simp: people_oks del_where_def filter_id_conv)
  ultimately show ?thesis by (simp add: q_DeleteUnapprovedOAuthClients_def Let_def)
qed

lemma keeps_sweep_clients:
  assumes "q_DeleteUnapprovedOAuthClients p cutoff = Inr (n, q)"
  shows "keeps p q"
proof (cases "people_ok p")
  case True
  show ?thesis
    by (rule keeps_clients) (use assms sweep_clients_spares[OF True] in \<open>auto simp: Let_def clients_ok_def approved_client_def
      list_ex_iff set_del_where intro: unique_on_del\<close>)
qed (simp add: keeps_def)

lemma keeps_insert_code:
  assumes "q_CreateOAuthCode p c = Inr q" "approved_client p (o_client_id c)" "o_token_id c = None"
  shows "keeps p q"
proof -
  have "q = p\<lparr>oauth_codes := oauth_codes p @ [c]\<rparr>" "\<forall>x \<in> set (oauth_codes p). o_code_hash x \<noteq> o_code_hash c"
    using assms by (auto simp: q_CreateOAuthCode_def list_ex_iff split: if_splits)
  then show ?thesis using assms(2,3) by (auto simp: keeps_def people_oks people_next_def live_on_refl live_on_snoc)
qed

lemma keeps_codes:
  assumes "\<And>c. c \<in> set (oauth_codes p) \<Longrightarrow> P c \<Longrightarrow> code_next c (f c) \<and> (o_token_id (f c) \<noteq> None \<longrightarrow> o_consumed_at (f c) \<noteq> None)"
    and "\<And>c. o_code_hash (f c) = o_code_hash c"
  shows "keeps p (p\<lparr>oauth_codes := upd_where P f (oauth_codes p)\<rparr>)"
  unfolding keeps_def
proof
  assume ok: "people_ok p"
  have "unique_on (\<lambda>_. True) o_code_hash (upd_where P f (oauth_codes p))"
    using ok assms(2) by (auto simp: people_oks intro!: unique_on_upd)
  moreover have "approved_client p (o_client_id c) \<and> (o_token_id c \<noteq> None \<longrightarrow> o_consumed_at c \<noteq> None)"
    if "c \<in> set (upd_where P f (oauth_codes p))" for c
    using that ok assms(1) by (auto simp: people_oks set_upd_where code_next_def)
  moreover have "live_on code_next (oauth_codes p) (upd_where P f (oauth_codes p))"
    unfolding live_on_def set_upd_where using assms(1) person_row_refl(5) by blast
  ultimately show "people_ok (p\<lparr>oauth_codes := upd_where P f (oauth_codes p)\<rparr>) \<and>
      people_next p (p\<lparr>oauth_codes := upd_where P f (oauth_codes p)\<rparr>)"
    using ok by (simp add: people_oks people_next_def live_on_refl)
qed

section \<open>Accounts\<close>

lemma list_ex_upd_where: "(\<And>r. Q (f r) = Q r) \<Longrightarrow> list_ex Q (upd_where P f t) = list_ex Q t"
  by (induction t) auto

lemma accounts_ok_upd:
  assumes "\<And>a. acc_id (f a) = acc_id a \<and> acc_email (f a) = acc_email a \<and> acc_is_admin (f a) = acc_is_admin a"
    and "accounts_ok s"
  shows "accounts_ok (snd (upd_accounts P f s))"
proof -
  have "unique_on (\<lambda>_. True) acc_id (upd_where P f (accounts s))"
    "unique_on (\<lambda>a. acc_email a \<noteq> None) acc_email (upd_where P f (accounts s))"
    using assms by (auto simp: accounts_ok_def intro!: unique_on_upd)
  moreover have "count_where acc_is_admin (upd_where P f (accounts s)) = count_where acc_is_admin (accounts s)"
    using assms(1) by (intro count_where_upd_where) simp
  moreover have "list_ex (\<lambda>a. acc_email a \<noteq> None) (upd_where P f (accounts s)) = list_ex (\<lambda>a. acc_email a \<noteq> None) (accounts s)"
    using assms(1) by (intro list_ex_upd_where) simp
  moreover have "acc_is_admin a \<Longrightarrow> acc_email a \<noteq> None" if "a \<in> set (upd_where P f (accounts s))" for a
    using that assms by (auto simp: accounts_ok_def set_upd_where)
  ultimately show ?thesis using assms(2) by (simp add: accounts_ok_def upd_accounts_def)
qed

lemma accounts_ok_new:
  assumes "accounts_ok s" "accounts s' = accounts s @ [a]" "\<forall>b \<in> set (accounts s). acc_id b \<noteq> acc_id a"
    and "acc_email a \<noteq> None \<Longrightarrow> \<forall>b \<in> set (accounts s). acc_email b \<noteq> acc_email a"
    and "acc_is_admin a \<longleftrightarrow> acc_email a \<noteq> None \<and> \<not> list_ex (\<lambda>b. acc_email b \<noteq> None) (accounts s)"
  shows "accounts_ok s'"
  using assms by (auto simp: accounts_ok_def split: if_splits)

lemma person_write_ok:
  assumes "person_write s s'" "accounts_ok s"
  shows "accounts_ok s'"
  using assms
proof (induction rule: person_write.induct)
  case (registered s i email hash display now acc s')
  show ?case
    by (rule accounts_ok_new[of s _ acc])
      (use registered in \<open>auto simp: q_CreateIdentityAccount_def Let_def list_ex_iff split: if_splits\<close>)
next
  case (verified s i now n s')
  then show ?case by (auto simp: q_MarkEmailVerified_def dest!: arg_cong[of _ _ snd] intro!: accounts_ok_upd)
next
  case (connected s i now n s')
  then show ?case by (auto simp: q_MarkAccountConnected_def dest!: arg_cong[of _ _ snd] intro!: accounts_ok_upd)
next
  case (password s i hash now n s')
  then show ?case by (auto simp: q_SetPasswordHash_def dest!: arg_cong[of _ _ snd] intro!: accounts_ok_upd)
next
  case (locked s i at now n s')
  then show ?case by (auto simp: q_SetAccountDisabled_def dest!: arg_cong[of _ _ snd] intro!: accounts_ok_upd)
qed

lemma work_accounts_ok:
  assumes "work_step s s'" "store_ok s" "accounts_ok s"
  shows "accounts_ok s'"
  using work_accounts[OF assms(1,2)]
proof (elim disjE exE)
  assume "accounts s' = accounts s"
  then show ?thesis using assms(3) by (simp add: accounts_ok_def)
next
  fix name i now acc assume "CreateAccount s name i now = Inr (acc, s')"
  then have "accounts s' = accounts s @ [acc]" "\<forall>b \<in> set (accounts s). acc_id b \<noteq> acc_id acc" "acc_email acc = None"
    "\<not> acc_is_admin acc"
    by (auto simp: CreateAccount_def q_CreateAccount_def Let_def list_ex_iff split: if_splits)
  then show ?thesis by (intro accounts_ok_new[OF assms(3), of _ acc]) simp_all
next
  assume "person_write s s'"
  then show ?thesis using person_write_ok assms(3) by blast
qed

lemma keeps_work:
  assumes "work_step (core p) s"
  shows "keeps p (p\<lparr>core := s\<rparr>)"
proof (rule keeps_core)
  assume ok: "store_ok (core p)" "accounts_ok (core p)"
  show "store_ok s \<and> accounts_ok s \<and> (\<forall>i. known_account p i \<longrightarrow> account_exists s i)"
    using work_ok[OF assms ok(1)] work_accounts_ok[OF assms ok] work_keeps_accounts[OF assms ok(1)] by simp
qed

lemma keeps_sweep: "sweep_step (core p) s \<Longrightarrow> keeps p (p\<lparr>core := s\<rparr>)"
  using sweep_ok sweep_accounts[of "core p" s] by (intro keeps_core) (simp add: accounts_ok_def account_exists_def)

lemma keeps_person: "person_write (core p) s \<Longrightarrow> keeps p (p\<lparr>core := s\<rparr>)"
  by (rule keeps_work[OF work_step.person])

end
