(* ===== verification/People_Steps.thy ===== *)
theory People_Steps
  imports People_Machine
begin

text \<open>
  The committed calls of \<open>People_Store\<close> as one step relation, and what every one of them keeps:
  the invariant \<open>people_ok\<close> and the growth \<open>people_next\<close>. A call that fails commits nothing.
\<close>

section \<open>Calls made of several statements\<close>

lemma found_Inr: "found r = Inr q \<longleftrightarrow> fst r \<noteq> 0 \<and> q = snd r"
  by (auto simp: found_def split: prod.splits if_splits)

lemma snd_on_core: "snd (on_core f p) = p\<lparr>core := snd (f (core p))\<rparr>"
  by (simp add: on_core_def split: prod.splits)

lemma on_core_or_Inr: "on_core_or f p = Inr (a, q) \<longleftrightarrow> (\<exists>s. f (core p) = Inr (a, s) \<and> q = p\<lparr>core := s\<rparr>)"
  by (cases "f (core p)") (auto simp: on_core_or_def split: prod.splits)

lemma keeps_on_core: "(\<And>n s. f (core p) = (n, s) \<Longrightarrow> person_write (core p) s) \<Longrightarrow> keeps p (snd (on_core f p))"
  unfolding snd_on_core by (rule keeps_person) (metis prod.collapse)

lemma create_account_Inr:
  assumes "CreateIdentityAccount p n i now = Inr (a, q)"
  shows "\<exists>s. q_CreateIdentityAccount (core p) i (Some (na_email n)) (Some (na_password_hash n))
      (Some (na_display_name n)) now = Inr (a, s) \<and> q = p\<lparr>core := s\<rparr>"
  using assms by (auto simp: CreateIdentityAccount_def on_core_or_Inr split: sum.splits if_splits)

lemma keeps_create_account: "CreateIdentityAccount p n i now = Inr (a, q) \<Longrightarrow> keeps p q"
  using create_account_Inr by (blast intro: keeps_person person_write.registered)

lemma keeps_verify: "MarkEmailVerified p i now = Inr q \<Longrightarrow> keeps p q"
  unfolding MarkEmailVerified_def found_Inr by (auto intro: keeps_on_core person_write.verified)

lemma keeps_connect: "MarkAccountConnected p i now = (b, q) \<Longrightarrow> keeps p q"
  using keeps_on_core[of "\<lambda>s. q_MarkAccountConnected s i now" p] person_write.connected
  by (fastforce simp: MarkAccountConnected_def split: prod.splits)

lemma keeps_revoke_sessions: "keeps p (snd (q_RevokeAccountSessions p i now))"
  unfolding q_RevokeAccountSessions_def by (rule keeps_sessions) (auto simp: revoke_session_def session_next_def)

lemma keeps_revoke_links: "keeps p (snd (q_RevokeAccountEmailTokens p i now))"
  unfolding q_RevokeAccountEmailTokens_def by (rule keeps_links) simp

lemma keeps_cut_off:
  "keeps p (snd (on_core f p)) \<Longrightarrow>
   keeps p (snd (q_RevokeAccountEmailTokens (snd (q_RevokeAccountSessions (snd (on_core f p)) i now)) i now))"
  using keeps_trans keeps_revoke_sessions keeps_revoke_links by blast

lemma keeps_password: "SetPassword p i hash now = Inr q \<Longrightarrow> keeps p q"
  unfolding SetPassword_def by (auto simp: found_Inr next_step_Inr Let_def intro!: keeps_cut_off keeps_on_core person_write.password)

lemma keeps_lock: "SetAccountDisabled p i disabled now = Inr q \<Longrightarrow> keeps p q"
  unfolding SetAccountDisabled_def
  by (auto simp: found_Inr next_step_Inr Let_def split: if_splits intro!: keeps_cut_off keeps_on_core person_write.locked)

lemma keeps_link: "CreateEmailToken p acc purpose hash expires i now = Inr (k, q) \<Longrightarrow> keeps p q"
  unfolding CreateEmailToken_def Let_def q_ConsumeLiveEmailTokens_def
  by (rule keeps_trans[OF keeps_links keeps_insert_link]) auto

lemma keeps_follow: "ConsumeEmailToken p hash purpose now = Inr (k, q) \<Longrightarrow> keeps p q"
  unfolding ConsumeEmailToken_def q_ConsumeEmailToken_def by (auto intro!: keeps_links simp: spendable_link_def)

lemma keeps_revoke_tokens: "(\<And>t. P t \<Longrightarrow> token_live t) \<Longrightarrow> keeps p (snd (upd_tokens P (revoke_token now) p))"
  by (rule keeps_tokens) (auto simp: revoke_token_def token_next_def token_live_def)

lemma keeps_mint: "CreateAPIToken p t i now = Inr (u, q) \<Longrightarrow> keeps p q"
  unfolding CreateAPIToken_def q_CreateAPIToken_def by (auto intro: keeps_insert_token)

lemma keeps_invite: "CreateInvite p n i now = Inr (v, q) \<Longrightarrow> keeps p q"
  unfolding CreateInvite_def by (auto split: if_splits intro: keeps_insert_invite)

lemma keeps_revoke_invite: "RevokeInvite p i now = Inr q \<Longrightarrow> keeps p q"
  unfolding RevokeInvite_def q_RevokeInvite_def found_Inr
  by (auto intro!: keeps_invites simp: invite_next_def invite_live_def)

lemma keeps_approve_and_code:
  assumes "ApproveOAuthClientAndCreateCode p c now = Inr q"
  shows "keeps p q"
proof -
  let ?p1 = "snd (q_ApproveOAuthClient p (nc_client c) now)"
  have code: "q_CreateOAuthCode ?p1 (code_row c now) = Inr q"
    using assms by (simp add: ApproveOAuthClientAndCreateCode_def)
  then have "client_exists ?p1 (nc_client c)"
    by (auto simp: q_CreateOAuthCode_def code_row_def split: if_splits)
  then have "approved_client ?p1 (nc_client c)"
    by (auto simp: q_ApproveOAuthClient_def Let_def client_exists_def approved_client_def list_ex_iff set_upd_where)
  then have "keeps ?p1 q" by (intro keeps_insert_code[OF code]) (simp_all add: code_row_def)
  then show ?thesis by (rule keeps_trans[OF keeps_approve])
qed

section \<open>Spending an invite\<close>

lemma unique_on_one:
  assumes "unique_on (\<lambda>_. True) nam t" "unique_on P key t" "\<And>x. Q x \<Longrightarrow> nam x = n \<and> key (f x) = k"
    and "\<And>x. x \<in> set t \<Longrightarrow> P x \<Longrightarrow> key x \<noteq> k"
  shows "unique_on P key (upd_where Q f t)"
  using assms(1,2,4)
proof (induction t)
  case (Cons x t)
  have rest: "unique_on (\<lambda>_. True) nam t" "unique_on P key t" "nam x \<notin> nam ` set t"
    "P x \<Longrightarrow> key x \<notin> key ` {y \<in> set t. P y}" "\<And>y. y \<in> set t \<Longrightarrow> P y \<Longrightarrow> key y \<noteq> k"
    using Cons.prems by (cases "P x"; auto simp: unique_on_def)+
  show ?case
  proof (cases "Q x")
    case True
    then have "\<not> Q y" if "y \<in> set t" for y using assms(3)[of x] assms(3)[of y] rest(3) that by (metis imageI)
    then have "upd_where Q f t = t" by (simp add: upd_where_def map_idI)
    moreover have "k \<notin> key ` {y \<in> set t. P y}" using rest(5) by blast
    ultimately show ?thesis using True rest(2) assms(3)[OF True] by (auto simp: unique_on_def)
  next
    case False
    have "unique_on P key (upd_where Q f t)" using Cons.IH rest(1,2,5) by blast
    moreover have "key x \<notin> key ` {y \<in> set (upd_where Q f t). P y}" if "P x"
      using rest(4)[OF that] assms(3) Cons.prems(3)[of x] that by (auto simp: set_upd_where)
    ultimately show ?thesis using False by (auto simp: unique_on_def)
  qed
qed simp

lemma keeps_spent:
  assumes "known_account p acc" "\<And>v. v \<in> set (invites p) \<Longrightarrow> i_consumed_by v \<noteq> Some acc"
  shows "keeps p (snd (q_SpendInvite p i acc now))"
  unfolding keeps_def
proof
  assume ok: "people_ok p"
  let ?P = "\<lambda>v. i_id v = i \<and> invite_live now v"
  let ?f = "\<lambda>v. v\<lparr>i_consumed_at := Some now, i_consumed_by := Some acc\<rparr>"
  have "unique_on (\<lambda>_. True) i_id (upd_where ?P ?f (invites p))" "unique_on (\<lambda>_. True) i_code_hash (upd_where ?P ?f (invites p))"
    using ok by (auto simp: people_oks intro!: unique_on_upd)
  moreover have "unique_on (\<lambda>v. i_consumed_by v \<noteq> None) i_consumed_by (upd_where ?P ?f (invites p))"
    by (rule unique_on_one[where nam = i_id and n = i and k = "Some acc"]) (use ok assms(2) in \<open>simp_all add: people_oks\<close>)
  moreover have "(i_consumed_at v = None \<longleftrightarrow> i_consumed_by v = None) \<and> fk_opt (known_account p) (i_consumed_by v)"
    if "v \<in> set (upd_where ?P ?f (invites p))" for v
    using that ok assms(1) by (auto simp: people_oks set_upd_where)
  moreover have "live_on invite_next (invites p) (upd_where ?P ?f (invites p))"
  proof -
    have "invite_next v (?f v)" if "?P v" "v \<in> set (invites p)" for v
      using that ok by (auto simp: invite_next_def invite_live_def people_oks)
    then show ?thesis unfolding live_on_def set_upd_where using person_row_refl(4) by blast
  qed
  ultimately show "people_ok (snd (q_SpendInvite p i acc now)) \<and> people_next p (snd (q_SpendInvite p i acc now))"
    using ok by (simp add: people_oks q_SpendInvite_def upd_invites_def people_next_def live_on_refl)
qed

text \<open>What a spend that commits wrote.\<close>

lemma spend_Inr:
  assumes "SpendInviteAndCreateAccount p invite acc n audit now = Inr (a, q)"
  obtains s1 s2 where
    "q_CreateIdentityAccount (core p) acc (Some (na_email n)) (Some (na_password_hash n)) (Some (na_display_name n)) now = Inr (a, s1)"
    "q_InsertAuditLog s1 (spend_audit invite acc audit now) = Inr s2"
    "\<exists>v \<in> set (invites p). i_id v = invite \<and> invite_live now v"
    "q = snd (q_SpendInvite (p\<lparr>core := s2\<rparr>) invite acc now)"
proof -
  let ?p1 = "snd (q_SpendInvite p invite acc now)"
  have p1: "?p1 = p\<lparr>invites := invites ?p1\<rparr>" "core ?p1 = core p"
    by (simp_all add: q_SpendInvite_def upd_invites_def)
  obtain p2 s where c: "CreateIdentityAccount ?p1 n acc now = Inr (a, p2)"
    "q_InsertAuditLog (core p2) (spend_audit invite acc audit now) = Inr s" "q = p2\<lparr>core := s\<rparr>"
    and spent: "fst (q_SpendInvite p invite acc now) \<noteq> 0"
    using assms by (auto simp: SpendInviteAndCreateAccount_def next_step_Inr committed_refs_def split: prod.splits if_splits)
  obtain s1 where s1: "q_CreateIdentityAccount (core p) acc (Some (na_email n)) (Some (na_password_hash n))
      (Some (na_display_name n)) now = Inr (a, s1)" "p2 = ?p1\<lparr>core := s1\<rparr>"
    using create_account_Inr[OF c(1)] p1(2) by auto
  show thesis
  proof (rule that[OF s1(1)])
    show "q_InsertAuditLog s1 (spend_audit invite acc audit now) = Inr s" using c(2) s1(2) by simp
    show "\<exists>v \<in> set (invites p). i_id v = invite \<and> invite_live now v"
      using spent by (auto simp: q_SpendInvite_def upd_invites_def count_where_def filter_empty_conv)
    show "q = snd (q_SpendInvite (p\<lparr>core := s\<rparr>) invite acc now)"
      using c(3) s1(2) by (simp add: q_SpendInvite_def upd_invites_def)
  qed
qed

lemma new_account_fresh: "q_CreateIdentityAccount s i email hash display now = Inr (a, s') \<Longrightarrow>
    \<not> account_exists s i \<and> account_exists s' i \<and> acc_id a = i"
  by (auto simp: q_CreateIdentityAccount_def Let_def account_exists_def list_ex_iff split: if_splits)

lemma audit_accounts: "q_InsertAuditLog s l = Inr s' \<Longrightarrow> accounts s' = accounts s"
  by (auto simp: q_InsertAuditLog_def split: if_splits)

lemma keeps_audit:
  assumes "q_InsertAuditLog (core p) l = Inr s"
  shows "keeps p (p\<lparr>core := s\<rparr>)"
proof (rule keeps_core)
  assume ok: "store_ok (core p)" "accounts_ok (core p)"
  have same: "deployments s = deployments (core p)" "events s = events (core p)" "releases s = releases (core p)"
    "apps s = apps (core p)" "uploads s = uploads (core p)" "accounts s = accounts (core p)"
    using assms by (auto simp: q_InsertAuditLog_def split: if_splits)
  have "effect (core p) s" by (rule quiet_same) (simp_all add: same upload_exists_def)
  then show "store_ok s \<and> accounts_ok s \<and> (\<forall>i. known_account p i \<longrightarrow> account_exists s i)"
    using effect_ok ok same(6) by (simp add: accounts_ok_def account_exists_def)
qed

lemma keeps_spend:
  assumes "SpendInviteAndCreateAccount p invite acc n audit now = Inr (a, q)"
  shows "keeps p q"
  unfolding keeps_def
proof
  assume ok: "people_ok p"
  obtain s1 s2 where st: "q_CreateIdentityAccount (core p) acc (Some (na_email n)) (Some (na_password_hash n))
      (Some (na_display_name n)) now = Inr (a, s1)" "q_InsertAuditLog s1 (spend_audit invite acc audit now) = Inr s2"
    "q = snd (q_SpendInvite (p\<lparr>core := s2\<rparr>) invite acc now)"
    using spend_Inr[OF assms] by metis
  have "keeps p (p\<lparr>core := s1\<rparr>)" by (rule keeps_person[OF person_write.registered[OF st(1)]])
  moreover have "keeps (p\<lparr>core := s1\<rparr>) (p\<lparr>core := s2\<rparr>)" using keeps_audit[of "p\<lparr>core := s1\<rparr>" _ s2] st(2) by simp
  moreover have "keeps (p\<lparr>core := s2\<rparr>) q"
    unfolding st(3)
  proof (rule keeps_spent)
    show "known_account (p\<lparr>core := s2\<rparr>) acc"
      using new_account_fresh[OF st(1)] audit_accounts[OF st(2)] by (simp add: account_exists_def)
    show "i_consumed_by v \<noteq> Some acc" if "v \<in> set (invites (p\<lparr>core := s2\<rparr>))" for v
      using that ok new_account_fresh[OF st(1)] by (auto simp: people_oks)
  qed
  ultimately show "people_ok q \<and> people_next p q" using ok keeps_trans unfolding keeps_def by blast
qed

section \<open>Granting a token\<close>

text \<open>The writes of a grant that commits, in order.\<close>

lemma grant_Inr:
  assumes "GrantClientToken p g i now = Inr (t, q)"
  obtains c p3 where "c \<in> set (oauth_codes p)" "spendable_code (g_code_hash g) now c"
    "insert_token (snd (q_RevokeLiveClientTokens (p\<lparr>oauth_codes :=
        upd_where (spendable_code (g_code_hash g) now) (\<lambda>c. c\<lparr>o_consumed_at := Some now\<rparr>) (oauth_codes p)\<rparr>)
        (g_account g) (Some (g_client g)) now)) t = Inr (t, p3)"
    "t = \<lparr>t_id = i, t_account_id = g_account g, t_name = g_name g, t_token_hash = g_token_hash g,
       t_token_prefix = g_prefix g, t_last_used_at = None, t_expires_at = None, t_revoked_at = None,
       t_created_at = now, t_updated_at = now, t_oauth_client_id = Some (g_client g)\<rparr>"
    "q = p3\<lparr>oauth_codes := upd_where (\<lambda>c. o_code_hash c = g_code_hash g) (\<lambda>c. c\<lparr>o_token_id := Some i\<rparr>) (oauth_codes p3)\<rparr>"
proof -
  obtain c p1 p3 where c: "sel_one (spendable_code (g_code_hash g) now) (oauth_codes p) = Some c"
    "p1 = p\<lparr>oauth_codes := upd_where (spendable_code (g_code_hash g) now) (\<lambda>c. c\<lparr>o_consumed_at := Some now\<rparr>) (oauth_codes p)\<rparr>"
    and st: "q_CreateClientAPIToken (snd (q_RevokeLiveClientTokens p1 (g_account g) (Some (g_client g)) now)) i (g_account g)
      (g_name g) (g_token_hash g) (g_prefix g) (Some (g_client g)) now = Inr (t, p3)"
    "\<exists>m. q_SetOAuthCodeToken p3 (g_code_hash g) (t_id t) = Inr (m, q)"
    using assms by (auto simp: GrantClientToken_def q_ConsumeOAuthCode_def next_step_Inr Let_def split: option.splits)
  have t: "t = \<lparr>t_id = i, t_account_id = g_account g, t_name = g_name g, t_token_hash = g_token_hash g,
       t_token_prefix = g_prefix g, t_last_used_at = None, t_expires_at = None, t_revoked_at = None,
       t_created_at = now, t_updated_at = now, t_oauth_client_id = Some (g_client g)\<rparr>"
    using st(1) by (auto simp: q_CreateClientAPIToken_def insert_token_def split: if_splits)
  show thesis
  proof (rule that[OF _ _ _ t])
    show "c \<in> set (oauth_codes p)" "spendable_code (g_code_hash g) now c" using c(1) by blast+
    show "insert_token (snd (q_RevokeLiveClientTokens (p\<lparr>oauth_codes :=
        upd_where (spendable_code (g_code_hash g) now) (\<lambda>c. c\<lparr>o_consumed_at := Some now\<rparr>) (oauth_codes p)\<rparr>)
        (g_account g) (Some (g_client g)) now)) t = Inr (t, p3)"
      using st(1) unfolding q_CreateClientAPIToken_def t c(2) .
    show "q = p3\<lparr>oauth_codes := upd_where (\<lambda>c. o_code_hash c = g_code_hash g) (\<lambda>c. c\<lparr>o_token_id := Some i\<rparr>) (oauth_codes p3)\<rparr>"
      using st(2) by (auto simp: q_SetOAuthCodeToken_def Let_def t split: if_splits)
  qed
qed

lemma consumed_codes:
  assumes "people_ok p" "c \<in> set (oauth_codes p)" "spendable_code h now c"
    "d \<in> set (upd_where (spendable_code h now) (\<lambda>c. c\<lparr>o_consumed_at := Some now\<rparr>) (oauth_codes p))" "o_code_hash d = h"
  shows "o_consumed_at d = Some now"
proof -
  have same: "e = c" if "e \<in> set (oauth_codes p)" "o_code_hash e = h" for e
    using unique_on_eq[of "\<lambda>_. True" o_code_hash "oauth_codes p" e c] assms(1-3) that
    by (simp add: people_oks spendable_code_def)
  show ?thesis using assms(3-5) same by (auto simp: set_upd_where)
qed

lemma keeps_grant:
  assumes "GrantClientToken p g i now = Inr (t, q)"
    "\<And>c. c \<in> set (oauth_codes p) \<Longrightarrow> o_code_hash c = g_code_hash g \<Longrightarrow> o_client_id c = g_client g"
  shows "keeps p q"
  unfolding keeps_def
proof
  assume ok: "people_ok p"
  define p1 where "p1 = p\<lparr>oauth_codes :=
      upd_where (spendable_code (g_code_hash g) now) (\<lambda>c. c\<lparr>o_consumed_at := Some now\<rparr>) (oauth_codes p)\<rparr>"
  define p2 where "p2 = snd (q_RevokeLiveClientTokens p1 (g_account g) (Some (g_client g)) now)"
  obtain c p3 where c: "c \<in> set (oauth_codes p)" "spendable_code (g_code_hash g) now c"
    and ins: "insert_token p2 t = Inr (t, p3)" "t_oauth_client_id t = Some (g_client g)"
    and q: "q = p3\<lparr>oauth_codes := upd_where (\<lambda>c. o_code_hash c = g_code_hash g) (\<lambda>c. c\<lparr>o_token_id := Some i\<rparr>) (oauth_codes p3)\<rparr>"
    using grant_Inr[OF assms(1)] unfolding p2_def p1_def by (metis api_token.select_convs(11))
  have "keeps p p1"
    unfolding p1_def by (rule keeps_codes) (auto simp: spendable_code_def code_next_def)
  moreover have "keeps p1 p2"
    unfolding p2_def q_RevokeLiveClientTokens_def by (rule keeps_revoke_tokens) simp
  moreover have "keeps p2 p3"
  proof (rule keeps_insert_token[OF ins(1)])
    have "approved_client p (g_client g)"
      using ok c assms(2)[OF c(1)] by (auto simp: people_oks spendable_code_def)
    then show "fk_opt (approved_client p2) (t_oauth_client_id t)"
      by (simp add: ins(2) p2_def p1_def q_RevokeLiveClientTokens_def upd_tokens_def)
  qed
  moreover have "keeps p3 q"
    unfolding q
  proof (rule keeps_codes)
    have codes: "oauth_codes p3 = oauth_codes p1"
      using ins(1) by (auto simp: insert_token_def p2_def q_RevokeLiveClientTokens_def upd_tokens_def split: if_splits)
    show "code_next d (d\<lparr>o_token_id := Some i\<rparr>) \<and> (o_token_id (d\<lparr>o_token_id := Some i\<rparr>) \<noteq> None \<longrightarrow>
        o_consumed_at (d\<lparr>o_token_id := Some i\<rparr>) \<noteq> None)"
      if "d \<in> set (oauth_codes p3)" "o_code_hash d = g_code_hash g" for d
      using consumed_codes[OF ok c _ that(2)] that(1) codes by (simp add: p1_def code_next_def)
  qed simp
  ultimately show "people_ok q \<and> people_next p q" using ok keeps_trans unfolding keeps_def by blast
qed

end
