(* ===== verification/People_Properties.thy ===== *)
theory People_Properties
  imports People_Steps
begin

text \<open>
  The life of the tables of people: \<open>people_step\<close> is one committed call, on them or on the tables
  they share a file with, and the properties hold after any sequence of calls.
\<close>

section \<open>One committed call\<close>

text \<open>A grant names the client its code was issued to, as \<^verbatim>\<open>internal/identity/oauthgrant.go\<close> checks
  before it calls the store. \<^verbatim>\<open>CreateOAuthCode\<close> alone is called by nothing.\<close>

inductive people_step :: "people \<Rightarrow> people \<Rightarrow> bool" where
  worked: "work_step (core p) s \<Longrightarrow> people_step p (p\<lparr>core := s\<rparr>)"
| swept_core: "sweep_step (core p) s \<Longrightarrow> people_step p (p\<lparr>core := s\<rparr>)"
| register: "CreateIdentityAccount p n i now = Inr (a, q) \<Longrightarrow> people_step p q"
| verify: "MarkEmailVerified p i now = Inr q \<Longrightarrow> people_step p q"
| connect: "MarkAccountConnected p i now = (b, q) \<Longrightarrow> people_step p q"
| set_password: "SetPassword p i hash now = Inr q \<Longrightarrow> people_step p q"
| disable: "SetAccountDisabled p i disabled now = Inr q \<Longrightarrow> people_step p q"
| sign_in: "CreateSession p acc hash expires i now = Inr (s, q) \<Longrightarrow> people_step p q"
| touch_session: "people_step p (TouchSession p i expires now)"
| sign_out: "RevokeSession p i now = Inr q \<Longrightarrow> people_step p q"
| link: "CreateEmailToken p acc purpose hash expires i now = Inr (k, q) \<Longrightarrow> people_step p q"
| follow: "ConsumeEmailToken p hash purpose now = Inr (k, q) \<Longrightarrow> people_step p q"
| mint: "CreateAPIToken p t i now = Inr (u, q) \<Longrightarrow> people_step p q"
| touch_token: "people_step p (TouchToken p i now)"
| revoke: "RevokeAPIToken p i now = Inr q \<Longrightarrow> people_step p q"
| revoke_named: "q_RevokeTokensNamed p acc name now = (m, q) \<Longrightarrow> people_step p q"
| invite: "CreateInvite p v i now = Inr (w, q) \<Longrightarrow> people_step p q"
| revoke_invite: "RevokeInvite p i now = Inr q \<Longrightarrow> people_step p q"
| spend: "SpendInviteAndCreateAccount p i acc n audit now = Inr (a, q) \<Longrightarrow> people_step p q"
| client: "CreateOAuthClient p name uris i now = Inr (c, q) \<Longrightarrow> people_step p q"
| approve: "people_step p (ApproveOAuthClient p i now)"
| approve_code: "ApproveOAuthClientAndCreateCode p nc now = Inr q \<Longrightarrow> people_step p q"
| sweep_clients: "SweepUnapprovedOAuthClients p cutoff = Inr (m, q) \<Longrightarrow> people_step p q"
| grant: "\<lbrakk>GrantClientToken p g i now = Inr (t, q);
      \<And>c. c \<in> set (oauth_codes p) \<Longrightarrow> o_code_hash c = g_code_hash g \<Longrightarrow> o_client_id c = g_client g\<rbrakk> \<Longrightarrow> people_step p q"

lemma people_step_keeps: "people_step p q \<Longrightarrow> keeps p q"
proof (induction rule: people_step.induct)
  case (sign_in p acc hash expires i now s q)
  then show ?case by (auto simp: CreateSession_def intro: keeps_insert_session)
next
  case (touch_session p i expires now)
  then show ?case by (auto simp: TouchSession_def q_TouchSession_def session_next_def intro: keeps_sessions)
next
  case (sign_out p i now q)
  then show ?case
    by (auto simp: RevokeSession_def q_RevokeSession_def found_Inr session_next_def revoke_session_def intro: keeps_sessions)
next
  case (touch_token p i now)
  then show ?case by (auto simp: TouchToken_def q_TouchTokenLastUsed_def token_next_def intro: keeps_tokens)
next
  case (revoke p i now q)
  then show ?case by (auto simp: RevokeAPIToken_def q_RevokeAPIToken_def found_Inr intro: keeps_revoke_tokens)
next
  case (revoke_named p acc name now m q)
  then have "q = snd (q_RevokeTokensNamed p acc name now)" by simp
  then show ?case by (auto simp: q_RevokeTokensNamed_def intro: keeps_revoke_tokens)
next
  case (client p name uris i now c q)
  then show ?case by (auto simp: CreateOAuthClient_def intro: keeps_insert_client)
next
  case (sweep_clients p cutoff m q)
  then show ?case by (auto simp: SweepUnapprovedOAuthClients_def intro: keeps_sweep_clients)
next
  case (grant p g i now t q)
  then show ?case by (blast intro: keeps_grant)
next
  case (approve p i now)
  then show ?case by (simp add: ApproveOAuthClient_def keeps_approve)
qed (erule keeps_work keeps_sweep keeps_create_account keeps_verify keeps_connect keeps_password keeps_lock keeps_link
    keeps_follow keeps_mint keeps_invite keeps_revoke_invite keeps_spend keeps_approve_and_code)+

lemma people_steps_keep: "people_step\<^sup>*\<^sup>* p q \<Longrightarrow> keeps p q"
  by (induction rule: rtranclp_induct) (auto intro: keeps_trans people_step_keeps)

lemma people_steps_ok: "people_step\<^sup>*\<^sup>* p q \<Longrightarrow> people_ok p \<Longrightarrow> people_ok q \<and> people_next p q"
  using people_steps_keep[of p q] by (simp add: keeps_def)

lemma people_reachable_ok: "people_step\<^sup>*\<^sup>* no_people p \<Longrightarrow> people_ok p"
  using people_steps_ok no_people_ok by blast

section \<open>A walk through the tables\<close>

text \<open>Somebody registers with an invite, signs in, and grants a client a token: the tables the
  properties are applied to.\<close>

definition invited :: people where
  "invited = no_people\<lparr>invites := [\<lparr>i_id = ''inv'', i_code_hash = ''h'', i_note = None, i_created_by = None,
     i_expires_at = ''3'', i_consumed_at = None, i_consumed_by = None, i_revoked_at = None, i_created_at = ''1'',
     i_email = None\<rparr>]\<rparr>"

definition ada :: NewIdentityAccount where
  "ada = \<lparr>na_email = ''a@b'', na_password_hash = ''pw'', na_display_name = ''Ada''\<rparr>"

definition joined_up :: people where
  "joined_up = (case SpendInviteAndCreateAccount invited ''inv'' ''acc'' ada ''log'' ''2'' of Inr (a, q) \<Rightarrow> q | _ \<Rightarrow> no_people)"

definition signed_in :: people where
  "signed_in = (case CreateSession joined_up ''acc'' ''sess'' ''3'' ''s1'' ''2'' of Inr (s, q) \<Rightarrow> q | _ \<Rightarrow> no_people)"

definition registered_client :: people where
  "registered_client = (case CreateOAuthClient signed_in ''app'' [''https://x''] ''c1'' ''2'' of Inr (c, q) \<Rightarrow> q | _ \<Rightarrow> no_people)"

definition coded :: people where
  "coded = (case ApproveOAuthClientAndCreateCode registered_client \<lparr>nc_hash = ''code'', nc_client = ''c1'', nc_account = ''acc'',
     nc_redirect = ''https://x'', nc_challenge = ''ch'', nc_resource = '''', nc_expires = ''3''\<rparr> ''2'' of Inr q \<Rightarrow> q | _ \<Rightarrow> no_people)"

definition the_grant :: ClientGrant where
  "the_grant = \<lparr>g_code_hash = ''code'', g_account = ''acc'', g_client = ''c1'', g_name = ''app'', g_token_hash = ''th'',
     g_prefix = ''p''\<rparr>"

definition granted :: people where
  "granted = (case GrantClientToken coded the_grant ''t1'' ''2'' of Inr (t, q) \<Rightarrow> q | _ \<Rightarrow> no_people)"

lemma invited_step: "people_step no_people invited"
proof (rule people_step.invite)
  show "CreateInvite no_people \<lparr>ni_hash = ''h'', ni_note = [], ni_email = [], ni_created_by = [], ni_expires = ''3''\<rparr> ''inv'' ''1'' =
      Inr (hd (invites invited), invited)"
    by code_simp
qed

lemma joined_step: "people_step invited joined_up"
proof (rule people_step.spend)
  show "SpendInviteAndCreateAccount invited ''inv'' ''acc'' ada ''log'' ''2'' = Inr (hd (accounts (core joined_up)), joined_up)"
    by code_simp
qed

lemma signed_step: "people_step joined_up signed_in"
proof (rule people_step.sign_in)
  show "CreateSession joined_up ''acc'' ''sess'' ''3'' ''s1'' ''2'' = Inr (hd (sessions signed_in), signed_in)"
    by code_simp
qed

lemma client_step: "people_step signed_in registered_client"
proof (rule people_step.client)
  show "CreateOAuthClient signed_in ''app'' [''https://x''] ''c1'' ''2'' = Inr (hd (oauth_clients registered_client), registered_client)"
    by code_simp
qed

lemma coded_step: "people_step registered_client coded"
proof (rule people_step.approve_code)
  show "ApproveOAuthClientAndCreateCode registered_client \<lparr>nc_hash = ''code'', nc_client = ''c1'', nc_account = ''acc'',
     nc_redirect = ''https://x'', nc_challenge = ''ch'', nc_resource = '''', nc_expires = ''3''\<rparr> ''2'' = Inr coded"
    by code_simp
qed

lemma granted_eq: "GrantClientToken coded the_grant ''t1'' ''2'' = Inr (hd (api_tokens granted), granted)"
  by code_simp

lemma coded_client: "\<forall>c \<in> set (oauth_codes coded). o_client_id c = ''c1''"
  by code_simp

lemma granted_step: "people_step coded granted"
  by (rule people_step.grant[OF granted_eq]) (use coded_client in \<open>simp add: the_grant_def\<close>)

lemmas walk = invited_step joined_step signed_step client_step coded_step granted_step

lemma walk_reaches:
  "people_step\<^sup>*\<^sup>* no_people joined_up" "people_step\<^sup>*\<^sup>* no_people signed_in" "people_step\<^sup>*\<^sup>* no_people coded"
  "people_step\<^sup>*\<^sup>* no_people granted"
  using walk by (meson r_into_rtranclp rtranclp.rtrancl_into_rtrancl)+

section \<open>Properties\<close>

text \<open>C20: After any sequence of calls a token's secret names one row, an account holds at most one
  live token under a name and at most one live token per client, and a token granted to a client
  is granted to an approved one; an account has at most one open link per purpose; a spent invite
  names the one account it made; a code that issued a token is spent.\<close>

theorem people_invariant:
  assumes "people_step\<^sup>*\<^sup>* no_people p"
  shows "distinct (map t_token_hash (api_tokens p)) \<and>
    distinct (map (\<lambda>t. (t_account_id t, t_name t)) (filter token_live (api_tokens p))) \<and>
    distinct (map (\<lambda>t. (t_account_id t, t_oauth_client_id t))
      (filter (\<lambda>t. token_live t \<and> t_oauth_client_id t \<noteq> None) (api_tokens p))) \<and>
    (\<forall>t \<in> set (api_tokens p). known_account p (t_account_id t) \<and> fk_opt (approved_client p) (t_oauth_client_id t)) \<and>
    distinct (map (\<lambda>k. (k_account_id k, k_purpose k)) (filter link_open (email_tokens p))) \<and>
    distinct (map i_consumed_by (filter (\<lambda>v. i_consumed_by v \<noteq> None) (invites p))) \<and>
    (\<forall>v \<in> set (invites p). (i_consumed_at v = None \<longleftrightarrow> i_consumed_by v = None) \<and> fk_opt (known_account p) (i_consumed_by v)) \<and>
    (\<forall>c \<in> set (oauth_codes p). o_token_id c \<noteq> None \<longrightarrow> o_consumed_at c \<noteq> None)"
  using people_reachable_ok[OF assms] by (simp add: people_oks unique_on_def)

theorem people_invariant_witness:
  "distinct (map t_token_hash (api_tokens granted)) \<and> length (filter token_live (api_tokens granted)) = 1"
proof
  show "distinct (map t_token_hash (api_tokens granted))" using people_invariant[OF walk_reaches(4)] by blast
  show "length (filter token_live (api_tokens granted)) = 1" by code_simp
qed

text \<open>Once any account has an address exactly one account is the administrator's, it has an
  address, and no two accounts share one.\<close>

theorem one_administrator:
  assumes "people_step\<^sup>*\<^sup>* no_people p"
  shows "length (filter acc_is_admin (accounts (core p))) = (if AnyAccountHasEmail p then 1 else 0) \<and>
    (\<forall>a \<in> set (accounts (core p)). acc_is_admin a \<longrightarrow> acc_email a \<noteq> None) \<and>
    distinct (map acc_email (filter (\<lambda>a. acc_email a \<noteq> None) (accounts (core p))))"
  using people_reachable_ok[OF assms]
  by (simp add: people_ok_def accounts_ok_def unique_on_def count_where_def AnyAccountHasEmail_def q_AnyAccountHasEmail_def)

theorem one_administrator_witness:
  "length (filter acc_is_admin (accounts (core joined_up))) = 1"
proof -
  have "AnyAccountHasEmail joined_up" by code_simp
  then show ?thesis using one_administrator[OF walk_reaches(1)] by simp
qed

text \<open>A row that still carries the key of an older one is what became of it.\<close>

lemma outlived:
  assumes "live_on R xs ys" "unique_on (\<lambda>_. True) key ys" "x \<in> set xs" "y \<in> set ys" "key y = key x"
    and "\<forall>x y. R x y \<longrightarrow> key y = key x"
  shows "R x y"
proof -
  obtain z where z: "z \<in> set ys" "R x z" using assms(1,3) by (auto simp: live_on_def)
  then show ?thesis using unique_on_eq[OF assms(2) z(1) assms(4)] assms(5,6) by simp
qed

lemma nexts_keep:
  "\<forall>t u. token_next t u \<longrightarrow> t_token_hash u = t_token_hash t" "\<forall>s u. session_next s u \<longrightarrow> ss_token_hash u = ss_token_hash s"
  "\<forall>k l. link_next k l \<longrightarrow> k_token_hash l = k_token_hash k" "\<forall>v w. invite_next v w \<longrightarrow> i_id w = i_id v"
  "\<forall>c d. code_next c d \<longrightarrow> o_code_hash d = o_code_hash c"
  by (simp_all add: row_nexts)

text \<open>What ended stays ended, row by row.\<close>

lemma dead_rows:
  assumes "people_ok p" "people_step\<^sup>*\<^sup>* p q"
  shows "\<lbrakk>t \<in> set (api_tokens p); t_revoked_at t \<noteq> None; u \<in> set (api_tokens q); t_token_hash u = t_token_hash t\<rbrakk> \<Longrightarrow> \<not> token_live u"
    and "\<lbrakk>s \<in> set (sessions p); ss_revoked_at s \<noteq> None; s' \<in> set (sessions q); ss_token_hash s' = ss_token_hash s\<rbrakk> \<Longrightarrow> ss_revoked_at s' \<noteq> None"
    and "\<lbrakk>k \<in> set (email_tokens p); k_consumed_at k \<noteq> None; l \<in> set (email_tokens q); k_token_hash l = k_token_hash k\<rbrakk> \<Longrightarrow> \<not> link_open l"
    and "\<lbrakk>v \<in> set (invites p); i_consumed_at v \<noteq> None \<or> i_revoked_at v \<noteq> None; w \<in> set (invites q); i_id w = i_id v\<rbrakk> \<Longrightarrow> \<not> invite_live now w"
    and "\<lbrakk>c \<in> set (oauth_codes p); o_consumed_at c \<noteq> None; d \<in> set (oauth_codes q); o_code_hash d = o_code_hash c\<rbrakk> \<Longrightarrow> o_consumed_at d \<noteq> None"
proof -
  have q: "people_ok q" "people_next p q" using people_steps_ok[OF assms(2,1)] by auto
  have grown: "live_on token_next (api_tokens p) (api_tokens q)" "live_on session_next (sessions p) (sessions q)"
    "live_on link_next (email_tokens p) (email_tokens q)" "live_on invite_next (invites p) (invites q)"
    "live_on code_next (oauth_codes p) (oauth_codes q)"
    using q(2) by (simp_all add: people_next_def)
  have keys: "unique_on (\<lambda>_. True) t_token_hash (api_tokens q)" "unique_on (\<lambda>_. True) ss_token_hash (sessions q)"
    "unique_on (\<lambda>_. True) k_token_hash (email_tokens q)" "unique_on (\<lambda>_. True) i_id (invites q)"
    "unique_on (\<lambda>_. True) o_code_hash (oauth_codes q)"
    using q(1) by (simp_all add: people_oks)
  show "\<lbrakk>t \<in> set (api_tokens p); t_revoked_at t \<noteq> None; u \<in> set (api_tokens q); t_token_hash u = t_token_hash t\<rbrakk> \<Longrightarrow> \<not> token_live u"
    using outlived[OF grown(1) keys(1) _ _ _ nexts_keep(1), of t u]
    by (auto simp: token_next_def token_live_def)
  show "\<lbrakk>s \<in> set (sessions p); ss_revoked_at s \<noteq> None; s' \<in> set (sessions q); ss_token_hash s' = ss_token_hash s\<rbrakk> \<Longrightarrow> ss_revoked_at s' \<noteq> None"
    using outlived[OF grown(2) keys(2) _ _ _ nexts_keep(2), of s s'] by (auto simp: session_next_def)
  show "\<lbrakk>k \<in> set (email_tokens p); k_consumed_at k \<noteq> None; l \<in> set (email_tokens q); k_token_hash l = k_token_hash k\<rbrakk> \<Longrightarrow> \<not> link_open l"
    using outlived[OF grown(3) keys(3) _ _ _ nexts_keep(3), of k l]
    by (auto simp: link_next_def link_open_def)
  show "\<lbrakk>v \<in> set (invites p); i_consumed_at v \<noteq> None \<or> i_revoked_at v \<noteq> None; w \<in> set (invites q); i_id w = i_id v\<rbrakk> \<Longrightarrow> \<not> invite_live now w"
    using outlived[OF grown(4) keys(4) _ _ _ nexts_keep(4), of v w] by (auto simp: invite_next_def invite_live_def)
  show "\<lbrakk>c \<in> set (oauth_codes p); o_consumed_at c \<noteq> None; d \<in> set (oauth_codes q); o_code_hash d = o_code_hash c\<rbrakk> \<Longrightarrow> o_consumed_at d \<noteq> None"
    using outlived[OF grown(5) keys(5) _ _ _ nexts_keep(5), of c d] by (auto simp: code_next_def)
qed

text \<open>C17: What ended stays ended. After any further calls a revoked token or session authenticates
  nobody, and a link, an invite or a code that was spent (or an invite that was revoked) is refused.\<close>

theorem no_second_life:
  assumes "people_step\<^sup>*\<^sup>* no_people p" "people_step\<^sup>*\<^sup>* p q"
  shows "(\<forall>t \<in> set (api_tokens p). t_revoked_at t \<noteq> None \<longrightarrow> ResolveToken q (t_token_hash t) now = Inl ErrTokenInvalid) \<and>
    (\<forall>s \<in> set (sessions p). ss_revoked_at s \<noteq> None \<longrightarrow> ResolveSession q (ss_token_hash s) now = Inl ErrSessionInvalid) \<and>
    (\<forall>k \<in> set (email_tokens p). k_consumed_at k \<noteq> None \<longrightarrow>
      ConsumeEmailToken q (k_token_hash k) purpose now = Inl ErrLinkInvalid) \<and>
    (\<forall>v \<in> set (invites p). i_consumed_at v \<noteq> None \<or> i_revoked_at v \<noteq> None \<longrightarrow>
      SpendInviteAndCreateAccount q (i_id v) acc n audit now = Inl ErrInviteInvalid) \<and>
    (\<forall>c \<in> set (oauth_codes p). o_consumed_at c \<noteq> None \<longrightarrow> o_code_hash c = g_code_hash g \<longrightarrow>
      GrantClientToken q g i now = Inl ErrTokenInvalid)"
proof (intro conjI ballI impI)
  note dead = dead_rows[OF people_reachable_ok[OF assms(1)] assms(2)]
  fix t assume t: "t \<in> set (api_tokens p)" "t_revoked_at t \<noteq> None"
  have "sel_one (\<lambda>u. t_token_hash u = t_token_hash t \<and> token_usable now u) (api_tokens q) = None"
    using dead(1)[OF t] by (auto simp: sel_one_None token_usable_def)
  then show "ResolveToken q (t_token_hash t) now = Inl ErrTokenInvalid" by (simp add: ResolveToken_def q_ResolveToken_def)
next
  note dead = dead_rows[OF people_reachable_ok[OF assms(1)] assms(2)]
  fix s assume s: "s \<in> set (sessions p)" "ss_revoked_at s \<noteq> None"
  have "filter (\<lambda>u. ss_token_hash u = ss_token_hash s \<and> session_live now u) (sessions q) = []"
    using dead(2)[OF s] by (auto simp: filter_empty_conv session_live_def)
  then show "ResolveSession q (ss_token_hash s) now = Inl ErrSessionInvalid" by (simp add: ResolveSession_def q_ResolveSession_def)
next
  note dead = dead_rows[OF people_reachable_ok[OF assms(1)] assms(2)]
  fix k assume k: "k \<in> set (email_tokens p)" "k_consumed_at k \<noteq> None"
  have "sel_one (spendable_link (k_token_hash k) purpose now) (email_tokens q) = None"
    using dead(3)[OF k] by (auto simp: sel_one_None spendable_link_def)
  then show "ConsumeEmailToken q (k_token_hash k) purpose now = Inl ErrLinkInvalid"
    by (simp add: ConsumeEmailToken_def q_ConsumeEmailToken_def)
next
  note dead = dead_rows[OF people_reachable_ok[OF assms(1)] assms(2)]
  fix v assume v: "v \<in> set (invites p)" "i_consumed_at v \<noteq> None \<or> i_revoked_at v \<noteq> None"
  have "fst (q_SpendInvite q (i_id v) acc now) = 0"
    using dead(4)[OF v] by (auto simp: q_SpendInvite_def upd_invites_def count_where_zero)
  then show "SpendInviteAndCreateAccount q (i_id v) acc n audit now = Inl ErrInviteInvalid"
    by (cases "q_SpendInvite q (i_id v) acc now") (simp add: SpendInviteAndCreateAccount_def)
next
  note dead = dead_rows[OF people_reachable_ok[OF assms(1)] assms(2)]
  fix c assume c: "c \<in> set (oauth_codes p)" "o_consumed_at c \<noteq> None" "o_code_hash c = g_code_hash g"
  have "sel_one (spendable_code (g_code_hash g) now) (oauth_codes q) = None"
    using dead(5)[OF c(1,2)] c(3) by (auto simp: sel_one_None spendable_code_def)
  then show "GrantClientToken q g i now = Inl ErrTokenInvalid" by (simp add: GrantClientToken_def q_ConsumeOAuthCode_def)
qed

theorem no_second_life_witness:
  "SpendInviteAndCreateAccount granted ''inv'' ''other'' ada ''log2'' ''2'' = Inl ErrInviteInvalid \<and>
   GrantClientToken granted the_grant ''t2'' ''2'' = Inl ErrTokenInvalid"
proof -
  have r: "people_step\<^sup>*\<^sup>* granted granted" by simp
  have "\<exists>v \<in> set (invites granted). i_consumed_at v \<noteq> None \<and> i_id v = ''inv''"
    "\<exists>c \<in> set (oauth_codes granted). o_consumed_at c \<noteq> None \<and> o_code_hash c = g_code_hash the_grant"
    by code_simp+
  then show ?thesis using no_second_life[OF walk_reaches(4) r] by metis
qed

section \<open>Cutting an account off\<close>

text \<open>What a changed password and a suspension both do: no session of the account resolves, none of
  its links can be followed, and what other people hold is untouched.\<close>

definition cut_off :: "people \<Rightarrow> ident \<Rightarrow> people \<Rightarrow> bool" where
  "cut_off p i q \<longleftrightarrow> (\<forall>hash now a s. ResolveSession q hash now = Inr (a, s) \<longrightarrow> acc_id a \<noteq> i) \<and>
     (\<forall>hash purpose now k r. ConsumeEmailToken q hash purpose now = Inr (k, r) \<longrightarrow> k_account_id k \<noteq> i) \<and>
     filter (\<lambda>s. ss_account_id s \<noteq> i) (sessions q) = filter (\<lambda>s. ss_account_id s \<noteq> i) (sessions p) \<and>
     filter (\<lambda>k. k_account_id k \<noteq> i) (email_tokens q) = filter (\<lambda>k. k_account_id k \<noteq> i) (email_tokens p)"

lemma filter_upd_apart:
  "(\<And>x. P x \<Longrightarrow> \<not> Q x \<and> \<not> Q (f x)) \<Longrightarrow> filter Q (upd_where P f t) = filter Q t"
  by (induction t) auto

lemma upd_where_cases:
  "x \<in> set (upd_where P f t) \<Longrightarrow> (x \<in> set t \<Longrightarrow> \<not> P x \<Longrightarrow> R) \<Longrightarrow> (\<And>y. y \<in> set t \<Longrightarrow> P y \<Longrightarrow> x = f y \<Longrightarrow> R) \<Longrightarrow> R"
  unfolding set_upd_where by blast

lemma revoke_all_cuts_off:
  assumes "sessions p1 = sessions p" "email_tokens p1 = email_tokens p"
  shows "cut_off p i (snd (q_RevokeAccountEmailTokens (snd (q_RevokeAccountSessions p1 i now)) i now))"
proof -
  let ?q = "snd (q_RevokeAccountEmailTokens (snd (q_RevokeAccountSessions p1 i now)) i now)"
  have q: "sessions ?q = upd_where (\<lambda>s. ss_account_id s = i \<and> ss_revoked_at s = None) (revoke_session now) (sessions p)"
    "email_tokens ?q = upd_where (\<lambda>k. k_account_id k = i \<and> link_open k) (consume_link now) (email_tokens p)"
    using assms by (simp_all add: q_RevokeAccountEmailTokens_def q_RevokeAccountSessions_def upd_links_def upd_sessions_def)
  have dead: "ss_account_id s \<noteq> i" if "s \<in> set (sessions ?q)" "session_live t s" for s t
    using that unfolding q(1)
    by (elim upd_where_cases) (simp_all add: revoke_session_def session_live_def)
  have spent: "k_account_id k \<noteq> i" if "k \<in> set (email_tokens ?q)" "link_open k" for k
    using that unfolding q(2) by (elim upd_where_cases) (simp_all add: consume_link_def link_open_def)
  show ?thesis
    unfolding cut_off_def
  proof (intro conjI allI impI)
    show "acc_id a \<noteq> i" if "ResolveSession ?q hash t = Inr (a, s)" for hash t a s
      using that dead[of s t] unfolding ResolveSession_def q_ResolveSession_def row_or_Inr by (force dest: sel_one_Some)
    show "k_account_id k \<noteq> i" if k: "ConsumeEmailToken ?q hash purpose t = Inr (k, r)" for hash purpose t k r
    proof -
      obtain l where l: "sel_one (spendable_link hash purpose t) (email_tokens ?q) = Some l" "k = consume_link t l"
        using k by (auto simp: ConsumeEmailToken_def q_ConsumeEmailToken_def)
      have "l \<in> set (email_tokens ?q)" "link_open l" "k_account_id k = k_account_id l"
        using sel_one_Some[OF l(1)] l(2) by (auto simp: spendable_link_def consume_link_def)
      then show ?thesis using spent by simp
    qed
  qed (auto simp: q revoke_session_def consume_link_def intro!: filter_upd_apart)
qed

text \<open>Setting a password or suspending an account finds the account or reports that there is none,
  writes exactly that, and cuts the account off: none of its sessions resolves and none of its links
  can be followed, while nobody else's session or link changes.\<close>

theorem lockout_cuts_off:
  "(if known_account p i then
      (\<exists>q. SetPassword p i hash now = Inr q \<and> cut_off p i q \<and>
        core q = snd (q_SetPasswordHash (core p) i (Some hash) now)) \<and>
      (\<exists>q. SetAccountDisabled p i True now = Inr q \<and> cut_off p i q \<and>
        core q = snd (q_SetAccountDisabled (core p) i (Some now) now))
    else SetPassword p i hash now = Inl ErrNotFound \<and> SetAccountDisabled p i disabled now = Inl ErrNotFound)"
proof -
  let ?pw = "on_core (\<lambda>s. q_SetPasswordHash s i (Some hash) now) p"
  let ?ban = "\<lambda>b. on_core (\<lambda>s. q_SetAccountDisabled s i (if b then Some now else None) now) p"
  have hit: "fst ?pw = 0 \<longleftrightarrow> \<not> known_account p i" "fst (?ban b) = 0 \<longleftrightarrow> \<not> known_account p i" for b
    by (auto simp: on_core_def q_SetPasswordHash_def q_SetAccountDisabled_def upd_accounts_def count_where_zero
        account_exists_def list_ex_iff)
  have core: "core (snd (q_RevokeAccountEmailTokens (snd (q_RevokeAccountSessions r i now)) i now)) = core r" for r
    by (simp add: q_RevokeAccountEmailTokens_def q_RevokeAccountSessions_def upd_links_def upd_sessions_def)
  have found: "found r = (if fst r = 0 then Inl ErrNotFound else Inr (snd r))" for r
    by (simp add: found_def split: prod.splits)
  show ?thesis
    using hit(1) hit(2)[of True] hit(2)[of disabled] revoke_all_cuts_off[of "snd ?pw" p i now]
      revoke_all_cuts_off[of "snd (?ban True)" p i now]
    by (simp add: SetPassword_def SetAccountDisabled_def found Let_def core snd_on_core)
qed

theorem lockout_cuts_off_witness:
  "(\<exists>a s. ResolveSession signed_in ''sess'' ''2'' = Inr (a, s) \<and> acc_id a = ''acc'') \<and>
   (\<exists>q. SetAccountDisabled signed_in ''acc'' True ''2'' = Inr q \<and> ResolveSession q ''sess'' ''2'' = Inl ErrSessionInvalid)"
proof
  show "\<exists>a s. ResolveSession signed_in ''sess'' ''2'' = Inr (a, s) \<and> acc_id a = ''acc''"
  proof (intro exI conjI)
    show "ResolveSession signed_in ''sess'' ''2'' = Inr (hd (accounts (core signed_in)), hd (sessions signed_in))" by code_simp
    show "acc_id (hd (accounts (core signed_in))) = ''acc''" by code_simp
  qed
  have known: "known_account signed_in ''acc''" by code_simp
  obtain q where q: "SetAccountDisabled signed_in ''acc'' True ''2'' = Inr q"
    using lockout_cuts_off[of signed_in "''acc''"] known by (auto split: if_splits)
  have "(case SetAccountDisabled signed_in ''acc'' True ''2'' of Inr q \<Rightarrow> ResolveSession q ''sess'' ''2'' = Inl ErrSessionInvalid | _ \<Rightarrow> False)"
    by code_simp
  then show "\<exists>q. SetAccountDisabled signed_in ''acc'' True ''2'' = Inr q \<and> ResolveSession q ''sess'' ''2'' = Inl ErrSessionInvalid"
    using q by simp
qed

section \<open>Spending an invite, granting a token\<close>

definition spendable_invite :: "people \<Rightarrow> ident \<Rightarrow> stamp \<Rightarrow> bool" where
  "spendable_invite p i now \<longleftrightarrow> (\<exists>v \<in> set (invites p). i_id v = i \<and> invite_live now v)"

definition taken :: "people \<Rightarrow> ident \<Rightarrow> string \<Rightarrow> bool" where
  "taken p acc email \<longleftrightarrow>
     (\<exists>b \<in> set (accounts (core p)). acc_id b = acc \<or> acc_name b = acc \<or> acc_email b = Some email)"

definition spend_row :: "ident \<Rightarrow> ident \<Rightarrow> stamp \<Rightarrow> invite \<Rightarrow> invite" where
  "spend_row i acc now v = (if i_id v = i then v\<lparr>i_consumed_at := Some now, i_consumed_by := Some acc\<rparr> else v)"

lemma spend_rows:
  assumes "people_ok p" "spendable_invite p i now"
  shows "q_SpendInvite p i acc now = (fst (q_SpendInvite p i acc now), p\<lparr>invites := map (spend_row i acc now) (invites p)\<rparr>)"
proof -
  obtain v where v: "v \<in> set (invites p)" "i_id v = i" "invite_live now v"
    using assms(2) by (auto simp: spendable_invite_def)
  have "w = v" if "w \<in> set (invites p)" "i_id w = i" for w
    using unique_on_eq[of "\<lambda>_. True" i_id "invites p" w v] assms(1) v that by (simp add: people_oks)
  then have "upd_where (\<lambda>v. i_id v = i \<and> invite_live now v) (\<lambda>v. v\<lparr>i_consumed_at := Some now, i_consumed_by := Some acc\<rparr>) (invites p) =
      map (spend_row i acc now) (invites p)"
    unfolding upd_where_def spend_row_def using v(3) by (intro map_cong refl) auto
  then show ?thesis by (simp add: q_SpendInvite_def upd_invites_def)
qed

lemma spend_hits: "fst (q_SpendInvite p i acc now) = 0 \<longleftrightarrow> \<not> spendable_invite p i now"
  by (auto simp: q_SpendInvite_def upd_invites_def count_where_zero spendable_invite_def)

definition person_row :: "people \<Rightarrow> ident \<Rightarrow> NewIdentityAccount \<Rightarrow> stamp \<Rightarrow> account" where
  "person_row p acc n now =
     \<lparr>acc_id = acc, acc_name = acc, acc_disabled_at = None, acc_created_at = now, acc_updated_at = now,
      acc_email = Some (na_email n), acc_password_hash = Some (na_password_hash n), acc_email_verified_at = None,
      acc_is_admin = (\<not> AnyAccountHasEmail p), acc_display_name = Some (na_display_name n), acc_connected_at = None\<rparr>"

lemma create_account_outcome:
  "CreateIdentityAccount p n acc now =
    (if taken p acc (na_email n) then Inl ErrEmailTaken
     else Inr (person_row p acc n now, p\<lparr>core := (core p)\<lparr>accounts := accounts (core p) @ [person_row p acc n now]\<rparr>\<rparr>))"
  by (auto simp: CreateIdentityAccount_def on_core_or_def q_CreateIdentityAccount_def Let_def taken_def list_ex_iff
      person_row_def AnyAccountHasEmail_def q_AnyAccountHasEmail_def)

lemma committed_refs_spent:
  assumes "people_ok p" "\<forall>i. known_account p i \<longrightarrow> account_exists s i" "account_exists s acc"
  shows "committed_refs (p\<lparr>invites := map (spend_row i acc now) (invites p), core := s\<rparr>) =
    Inr (p\<lparr>invites := map (spend_row i acc now) (invites p), core := s\<rparr>)"
proof -
  have "fk_opt (account_exists s) (i_consumed_by (spend_row i acc now v))" if "v \<in> set (invites p)" for v
    using assms fk_mono[of "known_account p" "i_consumed_by v" "account_exists s"] that
    by (auto simp: people_oks spend_row_def)
  then show ?thesis by (simp add: committed_refs_def list_all_iff)
qed

text \<open>C29: Registering with an invite refuses a dead invite, then a taken name or address, whatever the rest;
  otherwise it spends exactly that invite, adds the account and one audit row, and the account is
  the administrator's exactly when nobody had an address before.\<close>

theorem spend_invite_outcome:
  assumes "people_step\<^sup>*\<^sup>* no_people p" "\<forall>l \<in> set (audits (core p)). l_id l \<noteq> audit"
  shows "SpendInviteAndCreateAccount p invite acc n audit now =
    (if \<not> spendable_invite p invite now then Inl ErrInviteInvalid
     else if taken p acc (na_email n) then Inl ErrEmailTaken
     else Inr (person_row p acc n now,
       p\<lparr>core := (core p)\<lparr>accounts := accounts (core p) @ [person_row p acc n now],
                         audits := audits (core p) @ [spend_audit invite acc audit now]\<rparr>,
         invites := map (spend_row invite acc now) (invites p)\<rparr>))"
proof (cases "spendable_invite p invite now")
  case True
  have ok: "people_ok p" by (rule people_reachable_ok[OF assms(1)])
  let ?p1 = "p\<lparr>invites := map (spend_row invite acc now) (invites p)\<rparr>"
  let ?s1 = "(core p)\<lparr>accounts := accounts (core p) @ [person_row p acc n now]\<rparr>"
  let ?s2 = "?s1\<lparr>audits := audits (core p) @ [spend_audit invite acc audit now]\<rparr>"
  have spent: "q_SpendInvite p invite acc now = (fst (q_SpendInvite p invite acc now), ?p1)" "fst (q_SpendInvite p invite acc now) \<noteq> 0"
    using spend_rows[OF ok True] spend_hits True by auto
  have acc: "account_exists ?s2 acc" "\<forall>i. known_account p i \<longrightarrow> account_exists ?s2 i"
    by (auto simp: account_exists_def person_row_def)
  have audit: "q_InsertAuditLog ?s1 (spend_audit invite acc audit now) = Inr ?s2"
    using assms(2) acc(1) by (auto simp: q_InsertAuditLog_def spend_audit_def list_ex_iff account_exists_def)
  have create: "CreateIdentityAccount ?p1 n acc now =
      (if taken p acc (na_email n) then Inl ErrEmailTaken else Inr (person_row p acc n now, ?p1\<lparr>core := ?s1\<rparr>))"
    by (simp add: create_account_outcome taken_def person_row_def AnyAccountHasEmail_def q_AnyAccountHasEmail_def)
  have calc: "SpendInviteAndCreateAccount p invite acc n audit now =
      (if taken p acc (na_email n) then Inl ErrEmailTaken
       else next_step (committed_refs (?p1\<lparr>core := ?s2\<rparr>)) (\<lambda>p3. Inr (person_row p acc n now, p3)))"
    by (subst SpendInviteAndCreateAccount_def, subst spent(1)) (use spent(2) audit in \<open>simp add: create\<close>)
  show ?thesis
    unfolding calc committed_refs_spent[OF ok acc(2,1), of invite now] using True by simp
next
  case False
  then show ?thesis using spend_hits[of p invite acc now]
    by (cases "q_SpendInvite p invite acc now") (simp add: SpendInviteAndCreateAccount_def)
qed

theorem spend_invite_outcome_witness:
  "SpendInviteAndCreateAccount joined_up ''inv'' ''acc2'' ada ''log2'' ''2'' = Inl ErrInviteInvalid \<and>
   (\<exists>a q. SpendInviteAndCreateAccount invited ''inv'' ''acc'' ada ''log'' ''2'' = Inr (a, q) \<and> acc_is_admin a)"
proof
  have "\<forall>l \<in> set (audits (core joined_up)). l_id l \<noteq> ''log2''" "\<forall>v \<in> set (invites joined_up). i_consumed_at v \<noteq> None"
    by code_simp+
  then show "SpendInviteAndCreateAccount joined_up ''inv'' ''acc2'' ada ''log2'' ''2'' = Inl ErrInviteInvalid"
    using spend_invite_outcome[OF walk_reaches(1)] by (simp add: spendable_invite_def invite_live_def)
  have "\<forall>l \<in> set (audits (core invited)). l_id l \<noteq> ''log''" "\<not> AnyAccountHasEmail invited" by code_simp+
  moreover have "spendable_invite invited ''inv'' ''2''" "\<not> taken invited ''acc'' (na_email ada)"
    unfolding spendable_invite_def taken_def by code_simp+
  ultimately show "\<exists>a q. SpendInviteAndCreateAccount invited ''inv'' ''acc'' ada ''log'' ''2'' = Inr (a, q) \<and> acc_is_admin a"
    using spend_invite_outcome[OF r_into_rtranclp[of people_step, OF invited_step]] by (simp add: person_row_def)
qed

lemma code_found:
  assumes "distinct (map o_code_hash (oauth_codes p))" "c \<in> set (oauth_codes p)"
  shows "OAuthCode p (o_code_hash c) = Inr c"
  using sel_one_unique[OF assms] by (simp add: OAuthCode_def q_GetOAuthCode_def)

text \<open>The code a grant spends is the one its hash names.\<close>

lemma spendable_found:
  assumes "people_ok p"
  shows "(\<exists>c \<in> set (oauth_codes p). spendable_code h now c) \<longleftrightarrow>
    (\<exists>c. OAuthCode p h = Inr c \<and> o_consumed_at c = None \<and> now < o_expires_at c)"
proof
  assume "\<exists>c \<in> set (oauth_codes p). spendable_code h now c"
  then show "\<exists>c. OAuthCode p h = Inr c \<and> o_consumed_at c = None \<and> now < o_expires_at c"
    using code_found[of p] assms by (auto simp: people_oks unique_on_def spendable_code_def)
next
  assume "\<exists>c. OAuthCode p h = Inr c \<and> o_consumed_at c = None \<and> now < o_expires_at c"
  then show "\<exists>c \<in> set (oauth_codes p). spendable_code h now c"
    by (auto simp: OAuthCode_def q_GetOAuthCode_def spendable_code_def dest!: sel_one_Some)
qed

lemma next_step_fails: "next_step r h = Inl e \<longleftrightarrow> r = Inl e \<or> (\<exists>x. r = Inr x \<and> h x = Inl e)"
  by (cases r) auto

lemma faulted_fails: "faulted r = Inl e \<longleftrightarrow> (\<exists>f. r = Inl f \<and> e = Fault f)"
  by (cases r) auto

text \<open>A grant refused for its code is refused before anything else is asked.\<close>

lemma grant_refused:
  "GrantClientToken p g i now = Inl ErrTokenInvalid \<longleftrightarrow> \<not> (\<exists>c \<in> set (oauth_codes p). spendable_code (g_code_hash g) now c)"
proof (cases "sel_one (spendable_code (g_code_hash g) now) (oauth_codes p)")
  case None
  then have "GrantClientToken p g i now = Inl ErrTokenInvalid" by (simp add: GrantClientToken_def q_ConsumeOAuthCode_def)
  then show ?thesis using None by (auto simp: sel_one_None)
next
  case (Some c)
  then have "GrantClientToken p g i now \<noteq> Inl ErrTokenInvalid"
    by (auto simp: GrantClientToken_def q_ConsumeOAuthCode_def Let_def next_step_fails faulted_fails split: prod.splits)
  then show ?thesis using sel_one_Some[OF Some] by blast
qed

lemma granted_rows:
  assumes "people_ok p" "GrantClientToken p g i now = Inr (t, q)"
  shows "\<exists>c. OAuthCode p (g_code_hash g) = Inr c \<and> o_consumed_at c = None \<and> now < o_expires_at c \<and>
      OAuthCode q (g_code_hash g) = Inr (c\<lparr>o_consumed_at := Some now, o_token_id := Some (t_id t)\<rparr>)"
    and "api_tokens q = upd_where (\<lambda>u. t_account_id u = g_account g \<and> t_oauth_client_id u = Some (g_client g) \<and> token_live u)
      (revoke_token now) (api_tokens p) @ [t]"
    and "token_live t" "t_account_id t = g_account g" "t_oauth_client_id t = Some (g_client g)"
proof -
  define f where "f = (\<lambda>c :: oauth_code. c\<lparr>o_consumed_at := Some now\<rparr>)"
  define k where "k = (\<lambda>c :: oauth_code. c\<lparr>o_token_id := Some i\<rparr>)"
  let ?codes = "upd_where (spendable_code (g_code_hash g) now) f (oauth_codes p)"
  obtain c p3 where c: "c \<in> set (oauth_codes p)" "spendable_code (g_code_hash g) now c"
    and ins: "insert_token (snd (q_RevokeLiveClientTokens (p\<lparr>oauth_codes := ?codes\<rparr>) (g_account g) (Some (g_client g)) now)) t = Inr (t, p3)"
    and t: "t_id t = i" "t_account_id t = g_account g" "t_revoked_at t = None" "t_oauth_client_id t = Some (g_client g)"
    and q: "q = p3\<lparr>oauth_codes := upd_where (\<lambda>c. o_code_hash c = g_code_hash g) k (oauth_codes p3)\<rparr>"
    by (rule grant_Inr[OF assms(2)]) (auto simp: f_def k_def)
  have p3: "oauth_codes p3 = ?codes" "api_tokens p3 = upd_where (\<lambda>u. t_account_id u = g_account g \<and>
      t_oauth_client_id u = Some (g_client g) \<and> token_live u) (revoke_token now) (api_tokens p) @ [t]"
    using ins by (auto simp: insert_token_def q_RevokeLiveClientTokens_def upd_tokens_def split: if_splits)
  have keys: "distinct (map o_code_hash (oauth_codes p))" using assms(1) by (simp add: people_oks unique_on_def)
  have "f c \<in> set ?codes" "o_code_hash (f c) = g_code_hash g"
    using c by (auto simp: set_upd_where f_def spendable_code_def)
  then have "k (f c) \<in> set (oauth_codes q)" by (auto simp: q p3(1) set_upd_where)
  moreover have "distinct (map o_code_hash (oauth_codes q))"
    using keys by (simp add: q p3(1) map_upd_where k_def f_def)
  ultimately have "OAuthCode q (o_code_hash (k (f c))) = Inr (k (f c))" by (rule code_found[rotated])
  then show "\<exists>c. OAuthCode p (g_code_hash g) = Inr c \<and> o_consumed_at c = None \<and> now < o_expires_at c \<and>
      OAuthCode q (g_code_hash g) = Inr (c\<lparr>o_consumed_at := Some now, o_token_id := Some (t_id t)\<rparr>)"
    using code_found[OF keys c(1)] c(2) t(1) by (auto simp: k_def f_def spendable_code_def)
  show "api_tokens q = upd_where (\<lambda>u. t_account_id u = g_account g \<and> t_oauth_client_id u = Some (g_client g) \<and> token_live u)
      (revoke_token now) (api_tokens p) @ [t]"
    by (simp add: q p3(2))
  show "token_live t" "t_account_id t = g_account g" "t_oauth_client_id t = Some (g_client g)" using t by (simp_all add: token_live_def)
qed

text \<open>C28: A grant needs a code that is neither spent nor past its deadline. When it commits, the token it
  returns is the only live one of its account and client, the code is spent and names it, and
  no other account's token changed.\<close>

theorem grant_outcome:
  assumes "people_step\<^sup>*\<^sup>* no_people p"
  shows "(case GrantClientToken p g i now of
      Inr (t, q) \<Rightarrow> filter (\<lambda>u. token_live u \<and> t_account_id u = g_account g \<and> t_oauth_client_id u = Some (g_client g)) (api_tokens q) = [t] \<and>
        (\<exists>c. OAuthCode p (g_code_hash g) = Inr c \<and> o_consumed_at c = None \<and> now < o_expires_at c \<and>
          OAuthCode q (g_code_hash g) = Inr (c\<lparr>o_consumed_at := Some now, o_token_id := Some (t_id t)\<rparr>)) \<and>
        filter (\<lambda>u. t_account_id u \<noteq> g_account g) (api_tokens q) = filter (\<lambda>u. t_account_id u \<noteq> g_account g) (api_tokens p)
    | Inl e \<Rightarrow> e = ErrTokenInvalid \<longleftrightarrow> \<not> (\<exists>c. OAuthCode p (g_code_hash g) = Inr c \<and> o_consumed_at c = None \<and> now < o_expires_at c))"
proof (cases "GrantClientToken p g i now")
  case (Inl e)
  then show ?thesis
    using grant_refused[of p g i now] spendable_found[OF people_reachable_ok[OF assms]] by simp
next
  case (Inr r)
  obtain t q where r: "r = (t, q)" by (cases r)
  note rows = granted_rows[OF people_reachable_ok[OF assms] Inr[unfolded r]]
  have "filter (\<lambda>u. token_live u \<and> t_account_id u = g_account g \<and> t_oauth_client_id u = Some (g_client g))
      (upd_where (\<lambda>u. t_account_id u = g_account g \<and> t_oauth_client_id u = Some (g_client g) \<and> token_live u)
        (revoke_token now) (api_tokens p)) = []"
    by (auto simp: filter_empty_conv set_upd_where revoke_token_def token_live_def)
  moreover have "filter (\<lambda>u. t_account_id u \<noteq> g_account g) (upd_where (\<lambda>u. t_account_id u = g_account g \<and>
      t_oauth_client_id u = Some (g_client g) \<and> token_live u) (revoke_token now) (api_tokens p)) =
      filter (\<lambda>u. t_account_id u \<noteq> g_account g) (api_tokens p)"
    by (rule filter_upd_apart) (simp add: revoke_token_def)
  ultimately show ?thesis using rows by (simp add: Inr r)
qed

theorem grant_outcome_witness:
  "\<exists>t q. GrantClientToken coded the_grant ''t1'' ''2'' = Inr (t, q) \<and>
     filter (\<lambda>u. token_live u \<and> t_account_id u = ''acc'' \<and> t_oauth_client_id u = Some ''c1'') (api_tokens q) = [t]"
  using grant_outcome[OF walk_reaches(3), where g = the_grant and i = "''t1''" and now = "''2''"]
  unfolding granted_eq by (simp add: the_grant_def)

end
