(* ===== verification/Identity_Rules.thy ===== *)
theory Identity_Rules
  imports Go_Encoding
begin

text \<open>
  The rules of \<^verbatim>\<open>internal/identity\<close> that touch nothing: \<^verbatim>\<open>credential.go\<close>, \<^verbatim>\<open>identity.go\<close>, \<^verbatim>\<open>messages.go\<close>, and the
  pure parts of \<^verbatim>\<open>oauth.go\<close>, \<^verbatim>\<open>invites.go\<close> and \<^verbatim>\<open>tokens.go\<close>. SHA-256, argon2id, the decoding of
  UTF-8 and the Unicode case table, the parsers of \<^verbatim>\<open>net/mail\<close>, \<^verbatim>\<open>net/url\<close> and \<^verbatim>\<open>time\<close> are the fields
  of \<open>Libs\<close>; text is taken to be well formed UTF-8, and a stored hash to ask argon2id for at least one
  pass, without which the library panics. The last section shows that a stored password hash carries what it is checked against.
\<close>

section \<open>Libraries\<close>

record URL =
  u_abs :: bool
  u_scheme :: string
  u_host :: string
  u_hostname :: string
  u_path :: string
  u_rawquery :: string
  u_fragment :: string

record Libs =
  lib_sha256 :: "string \<Rightarrow> string"
  lib_argon2 :: "string \<Rightarrow> string \<Rightarrow> nat \<Rightarrow> nat \<Rightarrow> nat \<Rightarrow> nat \<Rightarrow> string"
  lib_runes :: "string \<Rightarrow> runes"
  lib_text :: "runes \<Rightarrow> string"
  lib_lower :: "nat \<Rightarrow> nat"
  lib_ParseAddress :: "string \<Rightarrow> string option"
  lib_ParseURL :: "string \<Rightarrow> URL option"
  lib_ParseTime :: "stamp \<Rightarrow> int option"

section \<open>Refusals\<close>

datatype Code =
    CodeEmailInvalid | CodePasswordTooShort | CodeNoteTooLong | CodeCredentialsInvalid | CodeEmailUnverified
  | CodeLinkInvalid | CodeInviteInvalid | CodeAddressRegistered | CodeAdminRequired | CodeTokenNameTaken
  | CodeInvalidExpiry | CodeNotFound | CodeRateLimited | CodeMailUnavailable | CodeInternal

datatype id_error =
    Fail Code string
  | IdEmailTaken | IdNotFound | IdLinkInvalid | IdSessionInvalid | IdTokenNameTaken | IdAddressRegistered
  | IdInviteInvalid | IdClientMetadataInvalid | IdRedirectURIInvalid | IdGrantInvalid
  | IdFault

definition CodeOf :: "id_error \<Rightarrow> Code \<times> bool" where
  "CodeOf e = (case e of Fail c _ \<Rightarrow> (c, True) | _ \<Rightarrow> (CodeInternal, False))"

section \<open>Lifetimes\<close>

definition nanosecond_day :: int where
  "nanosecond_day = 24 * 60 * 60 * 1000000000"

definition SessionLifetime :: int where "SessionLifetime = 30 * nanosecond_day"
definition LinkLifetime :: int where "LinkLifetime = nanosecond_day"
definition InviteLifetime :: int where "InviteLifetime = 7 * nanosecond_day"
definition CodeLifetime :: int where "CodeLifetime = 60 * 1000000000"
definition ClientRetention :: int where "ClientRetention = 7 * nanosecond_day"
definition MinTokenDays :: int where "MinTokenDays = 1"
definition MaxTokenDays :: int where "MaxTokenDays = 365"

text \<open>\<open>None\<close> is the zero time, which means no expiry.\<close>

definition TokenExpiry :: "int \<Rightarrow> int \<Rightarrow> id_error + int option" where
  "TokenExpiry now days =
     (if days = 0 then Inr None
      else if days < MinTokenDays \<or> days > MaxTokenDays then
        Inl (Fail CodeInvalidExpiry (''a token lifetime must be between '' @ Itoa MinTokenDays @ '' and '' @
          Itoa MaxTokenDays @ '' days''))
      else Inr (Some (now + days * nanosecond_day)))"

section \<open>Addresses, passwords, names\<close>

definition MinPasswordLen :: nat where "MinPasswordLen = 12"
definition MaxPasswordLen :: nat where "MaxPasswordLen = 1024"
definition MaxEmailLen :: nat where "MaxEmailLen = 254"

definition NormalizeEmail :: "Libs \<Rightarrow> string \<Rightarrow> string" where
  "NormalizeEmail lib raw = lib_text lib (map (lib_lower lib) (TrimSpace (lib_runes lib raw)))"

definition CheckEmail :: "Libs \<Rightarrow> string \<Rightarrow> id_error + string" where
  "CheckEmail lib raw =
     (let normalized = NormalizeEmail lib raw;
          bad = Inl (Fail CodeEmailInvalid ''that is not a usable email address'')
      in if normalized = [] \<or> length normalized > MaxEmailLen then bad
         else case lib_ParseAddress lib normalized of
            None \<Rightarrow> bad
          | Some a \<Rightarrow> if a \<noteq> normalized then bad else Inr normalized)"

definition CheckPassword :: "string \<Rightarrow> id_error option" where
  "CheckPassword raw =
     (if length raw < MinPasswordLen \<or> length raw > MaxPasswordLen
      then Some (Fail CodePasswordTooShort (''a password must be at least '' @ Itoa (int MinPasswordLen) @ '' characters''))
      else None)"

definition DisplayNameFor :: "Libs \<Rightarrow> string \<Rightarrow> string \<Rightarrow> string" where
  "DisplayNameFor lib given email =
     (let trimmed = lib_text lib (TrimSpace (lib_runes lib given))
      in if trimmed \<noteq> [] then trimmed else takeWhile (\<lambda>c. c \<noteq> CHR ''@'') email)"

definition NoteLimit :: nat where "NoteLimit = 200"

definition CheckNote :: "Libs \<Rightarrow> string \<Rightarrow> id_error + string" where
  "CheckNote lib raw =
     (let note = TrimSpace (lib_runes lib raw)
      in if length note > NoteLimit
         then Inl (Fail CodeNoteTooLong (''a note can be at most '' @ Itoa (int NoteLimit) @ '' characters''))
         else Inr (lib_text lib note))"

section \<open>Secrets\<close>

definition hex_digit :: "nat \<Rightarrow> char" where
  "hex_digit n = ''0123456789abcdef'' ! n"

definition hex :: "string \<Rightarrow> string" where
  "hex s = concat (map (\<lambda>c. [hex_digit (of_char c div 16), hex_digit (of_char c mod 16)]) s)"

definition url_char :: "char \<Rightarrow> char" where
  "url_char c = (if c = CHR ''+'' then CHR ''-'' else if c = CHR ''/'' then CHR ''_'' else c)"

text \<open>\<open>base64.RawStdEncoding\<close> and \<open>base64.RawURLEncoding\<close>: no padding.\<close>

definition raw_std :: "string \<Rightarrow> string" where
  "raw_std s = filter (\<lambda>c. c \<noteq> CHR ''='') (base64 s)"

definition raw_url :: "string \<Rightarrow> string" where
  "raw_url s = map url_char (raw_std s)"

definition HashSecret :: "Libs \<Rightarrow> string \<Rightarrow> string" where
  "HashSecret lib raw = hex (lib_sha256 lib raw)"

definition tokenBytes :: nat where "tokenBytes = 32"
definition APITokenPrefix :: string where "APITokenPrefix = ''dpl_''"

definition TokenPrefix :: "string \<Rightarrow> string" where
  "TokenPrefix raw = (if length raw < 8 then raw else take 8 raw)"

definition S256Challenge :: "Libs \<Rightarrow> string \<Rightarrow> string" where
  "S256Challenge lib verifier = raw_url (lib_sha256 lib verifier)"

definition VerifyPKCE :: "Libs \<Rightarrow> string \<Rightarrow> string \<Rightarrow> bool" where
  "VerifyPKCE lib challenge verifier =
     (if challenge = [] \<or> verifier = [] then False else challenge = S256Challenge lib verifier)"

section \<open>Redirect addresses and client names\<close>

definition isLoopbackHost :: "string \<Rightarrow> bool" where
  "isLoopbackHost host \<longleftrightarrow> List.member [''localhost'', ''127.0.0.1'', ''::1''] host"

definition CheckRedirectURI :: "Libs \<Rightarrow> string \<Rightarrow> bool" where
  "CheckRedirectURI lib raw =
     (case lib_ParseURL lib raw of
        None \<Rightarrow> False
      | Some u \<Rightarrow>
          if \<not> u_abs u \<or> u_fragment u \<noteq> [] \<or> List.member raw (CHR ''#'') then False
          else if u_scheme u = ''https'' then u_host u \<noteq> []
          else if u_scheme u = ''http'' then isLoopbackHost (u_hostname u)
          else False)"

definition loopbackMatch :: "Libs \<Rightarrow> string \<Rightarrow> string \<Rightarrow> bool" where
  "loopbackMatch lib registered requested =
     (case lib_ParseURL lib registered of
        None \<Rightarrow> False
      | Some reg \<Rightarrow>
          if u_scheme reg \<noteq> ''http'' \<or> \<not> isLoopbackHost (u_hostname reg) then False
          else case lib_ParseURL lib requested of
              None \<Rightarrow> False
            | Some req \<Rightarrow> u_scheme req = u_scheme reg \<and> u_hostname req = u_hostname reg \<and> u_path req = u_path reg \<and>
                u_rawquery req = u_rawquery reg \<and> u_fragment req = [] \<and> u_fragment reg = [])"

fun MatchRedirectURI :: "Libs \<Rightarrow> string list \<Rightarrow> string \<Rightarrow> string option" where
  "MatchRedirectURI lib [] requested = None"
| "MatchRedirectURI lib (candidate # rest) requested =
     (if candidate = requested \<or> loopbackMatch lib candidate requested then Some requested
      else MatchRedirectURI lib rest requested)"

definition AllLoopback :: "Libs \<Rightarrow> string list \<Rightarrow> bool" where
  "AllLoopback lib registered \<longleftrightarrow> registered \<noteq> [] \<and>
     list_all (\<lambda>raw. case lib_ParseURL lib raw of None \<Rightarrow> False
       | Some u \<Rightarrow> u_scheme u = ''http'' \<and> isLoopbackHost (u_hostname u)) registered"

definition MaxRedirectURIs :: nat where "MaxRedirectURIs = 10"
definition MaxClientNameLen :: nat where "MaxClientNameLen = 64"

text \<open>\<open>unicode.IsControl\<close> and \<open>strings.Fields\<close>.\<close>

definition IsControl :: "nat \<Rightarrow> bool" where
  "IsControl r \<longleftrightarrow> r < 32 \<or> (127 \<le> r \<and> r < 160)"

fun Fields :: "runes \<Rightarrow> runes list" where
  "Fields [] = []"
| "Fields (r # s) =
     (if IsSpace r then Fields s
      else case s of
          [] \<Rightarrow> [[r]]
        | q # t \<Rightarrow> if IsSpace q then [r] # Fields s
            else (case Fields s of [] \<Rightarrow> [[r]] | f # fs \<Rightarrow> (r # f) # fs))"

fun clean_runes :: "runes \<Rightarrow> runes" where
  "clean_runes [] = []"
| "clean_runes (r # s) =
     (if r = 9 \<or> r = 10 \<or> r = 13 then 32 # clean_runes s
      else if IsControl r then clean_runes s
      else r # clean_runes s)"

definition CleanClientName :: "Libs \<Rightarrow> string \<Rightarrow> string" where
  "CleanClientName lib name =
     (let cleaned = Join 32 (Fields (clean_runes (lib_runes lib name)))
      in lib_text lib (if length cleaned > MaxClientNameLen then TrimSpace (take MaxClientNameLen cleaned) else cleaned))"

section \<open>Links and messages\<close>

definition PurposeVerify :: string where "PurposeVerify = ''verify_email''"
definition PurposeReset :: string where "PurposeReset = ''password_reset''"

text \<open>\<open>url.QueryEscape\<close>.\<close>

definition unreserved :: "char \<Rightarrow> bool" where
  "unreserved c \<longleftrightarrow> is_digit c \<or> (CHR ''A'' \<le> c \<and> c \<le> CHR ''Z'') \<or> (CHR ''a'' \<le> c \<and> c \<le> CHR ''z'') \<or>
     List.member ''-_.~'' c"

definition escape_char :: "char \<Rightarrow> string" where
  "escape_char c = (if unreserved c then [c] else if c = CHR '' '' then ''+''
     else [CHR ''%'', ''0123456789ABCDEF'' ! (of_char c div 16), ''0123456789ABCDEF'' ! (of_char c mod 16)])"

definition QueryEscape :: "string \<Rightarrow> string" where
  "QueryEscape s = concat (map escape_char s)"

definition linkURL :: "string \<Rightarrow> string \<Rightarrow> string \<Rightarrow> string" where
  "linkURL baseURL purpose rawToken =
     baseURL @ (if purpose = PurposeReset then ''/reset'' else ''/verify'') @ ''?token='' @ QueryEscape rawToken"

definition inviteURL :: "string \<Rightarrow> string \<Rightarrow> string" where
  "inviteURL baseURL rawCode = baseURL @ ''/register?invite='' @ QueryEscape rawCode"

definition text_lines :: "string list \<Rightarrow> string" where
  "text_lines ls = concat (map (\<lambda>l. l @ [CHR 0x0A]) ls)"

definition verifySubject :: string where "verifySubject = ''Confirm your Deployer address''"
definition alreadyRegisteredSubject :: string where
  "alreadyRegisteredSubject = ''Someone tried to register your Deployer address''"
definition resetSubject :: string where "resetSubject = ''Reset your Deployer password''"
definition inviteSubject :: string where "inviteSubject = ''You have been invited to Deployer''"

definition inviteBody :: "string \<Rightarrow> string \<Rightarrow> int \<Rightarrow> string" where
  "inviteBody inviter link days = text_lines
     [inviter @ '' has invited you to Deployer.'', '''', ''Create your account here:'', '''', link, '''',
      ''The link works once, expires in '' @ Itoa days @ '' days, and only works for the address this'',
      ''message was sent to. If you were not expecting this, you can ignore it: nothing'',
      ''happens until the link is used.'']"

definition verifyBody :: "string \<Rightarrow> string" where
  "verifyBody link = text_lines
     [''Welcome to Deployer.'', '''', ''Confirm this address to finish setting up your account:'', '''', link, '''',
      ''The link works once and expires in 24 hours. If you did not register, you can'',
      ''ignore this message: nothing happens until the link is used.'']"

definition alreadyRegisteredBody :: "string \<Rightarrow> string" where
  "alreadyRegisteredBody baseURL = text_lines
     [''Someone tried to register a Deployer account with this address.'', '''',
      ''You already have one, so nothing was created and nothing changed. Sign in at'',
      baseURL @ '' instead, or reset your password if you have forgotten it.'', '''',
      ''If that was not you, you can ignore this message.'']"

definition resetBody :: "string \<Rightarrow> string" where
  "resetBody link = text_lines
     [''Someone asked to reset the password on your Deployer account.'', '''', ''Set a new one here:'', '''', link, '''',
      ''The link works once and expires in 24 hours. If that was not you, ignore this'',
      ''message and your password stays as it is.'']"

section \<open>The state of an invite\<close>

datatype InviteState = InviteLive | InviteSpent | InviteRevoked | InviteExpired

definition expired :: "Libs \<Rightarrow> stamp \<Rightarrow> int \<Rightarrow> bool" where
  "expired lib stamp now = (case lib_ParseTime lib stamp of None \<Rightarrow> True | Some t \<Rightarrow> \<not> t > now)"

record InviteRow =
  iv_id :: ident
  iv_note :: string
  iv_email :: string
  iv_issuer :: string
  iv_spender :: string
  iv_expires :: stamp
  iv_consumed :: string
  iv_revoked :: string
  iv_created :: stamp

definition InviteStateOf :: "Libs \<Rightarrow> InviteRow \<Rightarrow> int \<Rightarrow> InviteState" where
  "InviteStateOf lib r now =
     (if iv_consumed r \<noteq> [] then InviteSpent
      else if iv_revoked r \<noteq> [] then InviteRevoked
      else if expired lib (iv_expires r) now then InviteExpired
      else InviteLive)"

section \<open>Password hashes\<close>

definition argonTime :: nat where "argonTime = 2"
definition argonMemory :: nat where "argonMemory = 19456"
definition argonThreads :: nat where "argonThreads = 1"
definition argonKeyLen :: nat where "argonKeyLen = 32"
definition argonSaltLen :: nat where "argonSaltLen = 16"
definition argonVersion :: nat where "argonVersion = 19"

definition HashWith :: "Libs \<Rightarrow> nat \<Rightarrow> nat \<Rightarrow> string \<Rightarrow> string \<Rightarrow> string" where
  "HashWith lib memory time salt password =
     ''$argon2id$v='' @ decimal argonVersion @ ''$m='' @ decimal memory @ '',t='' @ decimal time @ '',p='' @
     decimal argonThreads @ ''$'' @ raw_std salt @ ''$'' @
     raw_std (lib_argon2 lib password salt time memory argonThreads argonKeyLen)"

text \<open>Decoding without padding: line breaks are skipped, and bits left over at the end are ignored.\<close>

definition base64_value :: "char \<Rightarrow> nat option" where
  "base64_value c = List.find (\<lambda>n. base64_char n = c) [0..<64]"

fun bytes_of :: "nat list \<Rightarrow> string option" where
  "bytes_of [] = Some []"
| "bytes_of [a] = None"
| "bytes_of [a, b] = Some [char_of (a * 4 + b div 16)]"
| "bytes_of [a, b, c] = Some [char_of (a * 4 + b div 16), char_of (b mod 16 * 16 + c div 4)]"
| "bytes_of (a # b # c # d # s) =
     map_option (\<lambda>t. char_of (a * 4 + b div 16) # char_of (b mod 16 * 16 + c div 4) # char_of (c mod 4 * 64 + d) # t)
       (bytes_of s)"

definition decode_std :: "string \<Rightarrow> string option" where
  "decode_std s =
     (let vs = map base64_value (filter (\<lambda>c. c \<noteq> CHR 0x0A \<and> c \<noteq> CHR 0x0D) s)
      in if list_all (\<lambda>v. v \<noteq> None) vs then bytes_of (map the vs) else None)"

text \<open>The \<open>%d\<close> verb of \<open>Sscanf\<close> into an unsigned number of some bits: ASCII blanks of one line, then digits.\<close>

definition digits_nat :: "string \<Rightarrow> nat" where
  "digits_nat ds = foldl (\<lambda>n c. 10 * n + (of_char c - 48)) 0 ds"

definition scan_blank :: "char \<Rightarrow> bool" where
  "scan_blank c \<longleftrightarrow> c = CHR '' '' \<or> c = CHR 0x09 \<or> c = CHR 0x0B \<or> c = CHR 0x0C \<or> c = CHR 0x0D"

definition scan_uint :: "nat \<Rightarrow> string \<Rightarrow> (nat \<times> string) option" where
  "scan_uint bits s =
     (let t = dropWhile scan_blank s; ds = takeWhile is_digit t
      in if ds = [] \<or> 2 ^ bits \<le> digits_nat ds then None else Some (digits_nat ds, dropWhile is_digit t))"

definition scan_text :: "string \<Rightarrow> string \<Rightarrow> string option" where
  "scan_text p s = (if take (length p) s = p then Some (drop (length p) s) else None)"

text \<open>\<open>Sscanf(s, "m=%d,t=%d,p=%d", \<dots>)\<close> with the widths of the three targets.\<close>

definition scan_params :: "string \<Rightarrow> (nat \<times> nat \<times> nat) option" where
  "scan_params s =
     Option.bind (scan_text ''m='' s) (\<lambda>s. Option.bind (scan_uint 32 s) (\<lambda>(m, s).
     Option.bind (scan_text '',t='' s) (\<lambda>s. Option.bind (scan_uint 32 s) (\<lambda>(t, s).
     Option.bind (scan_text '',p='' s) (\<lambda>s. map_option (\<lambda>(p, s). (m, t, p)) (scan_uint 8 s))))))"

definition parseArgon :: "string \<Rightarrow> (string \<times> string \<times> nat \<times> nat \<times> nat) option" where
  "parseArgon encoded =
     (let parts = Split (CHR ''$'') encoded
      in if length parts \<noteq> 6 \<or> parts ! 1 \<noteq> ''argon2id'' then None
         else Option.bind (scan_params (parts ! 3)) (\<lambda>(m, t, p).
              Option.bind (decode_std (parts ! 4)) (\<lambda>salt.
              map_option (\<lambda>key. (salt, key, t, m, p)) (decode_std (parts ! 5)))))"

text \<open>\<open>burn\<close> spends time and answers nothing, so a missing or unreadable hash is false.\<close>

definition Verify :: "Libs \<Rightarrow> string \<Rightarrow> string \<Rightarrow> bool" where
  "Verify lib password encoded =
     (if encoded = [] then False
      else case parseArgon encoded of
          None \<Rightarrow> False
        | Some (salt, want, t, m, p) \<Rightarrow> lib_argon2 lib password salt t m p (length want) = want)"

section \<open>Base64 and back\<close>

lemma base64_value_char: "n < 64 \<Longrightarrow> base64_value (base64_char n) = Some n"
proof -
  have "list_all (\<lambda>n. base64_value (base64_char n) = Some n) [0..<64]" by code_simp
  then show "n < 64 \<Longrightarrow> base64_value (base64_char n) = Some n" by (simp add: list_all_iff)
qed

lemma base64_char_plain:
  assumes "n < 64"
  shows "base64_char n \<notin> {CHR ''='', CHR ''$'', CHR 0x0A, CHR 0x0D}"
proof -
  have "list_all (\<lambda>n. \<not> List.member [CHR ''='', CHR ''$'', CHR 0x0A, CHR 0x0D] (base64_char n)) [0..<64]" by code_simp
  then show ?thesis using assms by (auto simp: list_all_iff)
qed

text \<open>The sextets of one, two and three bytes, by the bytes' own parts.\<close>

lemma base64_digits:
  fixes h x y z :: nat
  assumes "x < 64" "y < 64" "z < 64"
  shows "(((h * 64 + x) * 64 + y) * 64 + z) mod 64 = z" "(((h * 64 + x) * 64 + y) * 64 + z) div 64 mod 64 = y"
    "(((h * 64 + x) * 64 + y) * 64 + z) div 4096 mod 64 = x" "(((h * 64 + x) * 64 + y) * 64 + z) div 262144 = h"
proof -
  let ?n = "((h * 64 + x) * 64 + y) * 64 + z"
  have d: "?n div 64 = (h * 64 + x) * 64 + y" using assms by simp
  have dd: "?n div 4096 = h * 64 + x" using assms(2) d div_mult2_eq[of ?n 64 64] by simp
  have "?n div 262144 = h" using assms(1) dd div_mult2_eq[of ?n 4096 64] by simp
  then show "?n div 262144 = h" .
  show "?n mod 64 = z" "?n div 64 mod 64 = y" "?n div 4096 mod 64 = x"
    unfolding d dd using assms by (simp_all only: mod_mult_self3 mod_less)
qed

lemma three_bytes:
  fixes a b c :: nat
  assumes "a < 256" "b < 256" "c < 256"
  shows "((a * 256 + b) * 256 + c) mod 64 = c mod 64" "((a * 256 + b) * 256 + c) div 64 mod 64 = b mod 16 * 4 + c div 64"
    "((a * 256 + b) * 256 + c) div 4096 mod 64 = a mod 4 * 16 + b div 16" "((a * 256 + b) * 256 + c) div 262144 = a div 4"
proof -
  have split: "(((a1 * 4 + a0) * 256 + (b1 * 16 + b0)) * 256 + (c1 * 64 + c0) :: nat) =
      ((a1 * 64 + (a0 * 16 + b1)) * 64 + (b0 * 4 + c1)) * 64 + c0" for a1 a0 b1 b0 c1 c0
    by (simp add: algebra_simps)
  have n: "(a * 256 + b) * 256 + c = ((a div 4 * 64 + (a mod 4 * 16 + b div 16)) * 64 + (b mod 16 * 4 + c div 64)) * 64 + c mod 64"
    using split[of "a div 4" "a mod 4" "b div 16" "b mod 16" "c div 64" "c mod 64"] by simp
  have small: "a mod 4 * 16 + b div 16 < 64" "b mod 16 * 4 + c div 64 < 64" "c mod 64 < 64"
  proof -
    have "a mod 4 < 4" "b div 16 < 16" "b mod 16 < 16" "c div 64 < 4" using assms by (simp_all add: less_mult_imp_div_less)
    then show "a mod 4 * 16 + b div 16 < 64" "b mod 16 * 4 + c div 64 < 64" "c mod 64 < 64" by simp_all
  qed
  show "((a * 256 + b) * 256 + c) mod 64 = c mod 64" "((a * 256 + b) * 256 + c) div 64 mod 64 = b mod 16 * 4 + c div 64"
    "((a * 256 + b) * 256 + c) div 4096 mod 64 = a mod 4 * 16 + b div 16" "((a * 256 + b) * 256 + c) div 262144 = a div 4"
    unfolding n using base64_digits[OF small, of "a div 4"] by blast+
qed

text \<open>The digits \<open>raw_std\<close> writes.\<close>

fun sextets :: "string \<Rightarrow> nat list" where
  "sextets [] = []"
| "sextets [a] = [of_char a div 4, of_char a mod 4 * 16]"
| "sextets [a, b] = [of_char a div 4, of_char a mod 4 * 16 + of_char b div 16, of_char b mod 16 * 4]"
| "sextets (a # b # c # s) = (of_char a div 4) # (of_char a mod 4 * 16 + of_char b div 16) #
     (of_char b mod 16 * 4 + of_char c div 64) # (of_char c mod 64) # sextets s"

lemma part_small: "of_char (a :: char) div 4 < (64 :: nat)" "of_char a div 16 < (16 :: nat)" "of_char a div 64 < (4 :: nat)"
  using nat_of_char_less_256[of a] by (simp_all add: less_mult_imp_div_less)

lemma parts_small:
  "of_char (a :: char) mod 4 * 16 + of_char (b :: char) div 16 < (64 :: nat)" "of_char b mod 16 * 4 + of_char c div 64 < (64 :: nat)"
  "of_char a mod 4 * 16 < (64 :: nat)" "of_char b mod 16 * 4 < (64 :: nat)"
proof -
  have "of_char a mod 4 < (4 :: nat)" "of_char b mod 16 < (16 :: nat)" by simp_all
  then show "of_char a mod 4 * 16 + of_char b div 16 < (64 :: nat)" "of_char b mod 16 * 4 + of_char c div 64 < (64 :: nat)"
    "of_char a mod 4 * 16 < (64 :: nat)" "of_char b mod 16 * 4 < (64 :: nat)"
    using part_small(2)[of b] part_small(3)[of c] by linarith+
qed

lemma sextets_small: "\<forall>n \<in> set (sextets s). n < 64"
  by (induction s rule: sextets.induct) (simp_all add: part_small parts_small)

lemma base64_sextets:
  "base64 (a # b # c # s) = base64_char (of_char a div 4) # base64_char (of_char a mod 4 * 16 + of_char b div 16) #
     base64_char (of_char b mod 16 * 4 + of_char c div 64) # base64_char (of_char c mod 64) # base64 s"
  "base64 [a, b] = [base64_char (of_char a div 4), base64_char (of_char a mod 4 * 16 + of_char b div 16),
     base64_char (of_char b mod 16 * 4), CHR ''='']"
  "base64 [a] = [base64_char (of_char a div 4), base64_char (of_char a mod 4 * 16), CHR ''='', CHR ''='']"
proof -
  note bytes = nat_of_char_less_256
  show "base64 (a # b # c # s) = base64_char (of_char a div 4) # base64_char (of_char a mod 4 * 16 + of_char b div 16) #
     base64_char (of_char b mod 16 * 4 + of_char c div 64) # base64_char (of_char c mod 64) # base64 s"
    using three_bytes[OF bytes[of a] bytes[of b] bytes[of c]] by (simp add: Let_def)
  have two: "x div 4096 = x * 64 div 262144" "x div 64 mod 64 = x * 64 div 4096 mod 64" "x mod 64 = x * 64 div 64 mod 64" for x :: nat
    using div_mult2_eq[of "x * 64" 64 4096] div_mult2_eq[of "x * 64" 64 64] by simp_all
  show "base64 [a, b] = [base64_char (of_char a div 4), base64_char (of_char a mod 4 * 16 + of_char b div 16),
     base64_char (of_char b mod 16 * 4), CHR ''='']"
    using three_bytes[OF bytes[of a] bytes[of b], of 0] two[of "(of_char a * 256 + of_char b) * 4"]
    by (simp add: Let_def mult.commute)
  show "base64 [a] = [base64_char (of_char a div 4), base64_char (of_char a mod 4 * 16), CHR ''='', CHR ''='']"
    using three_bytes[OF bytes[of a], of 0 0] two(1,2)[of "of_char a * 1024"]
      div_mult2_eq[of "of_char a * 1024" 64 64] by (simp add: Let_def mult.commute)
qed

lemma raw_std_sextets: "raw_std s = map base64_char (sextets s)"
proof -
  have plain: "base64_char n \<noteq> CHR ''=''" if "n < 64" for n using base64_char_plain[OF that] by simp
  show ?thesis
    unfolding raw_std_def
    by (induction s rule: sextets.induct)
      (simp_all only: base64_sextets sextets.simps, simp_all add: plain part_small parts_small)
qed

lemma bytes_of_sextets: "bytes_of (sextets s) = Some s"
proof (induction s rule: sextets.induct)
  case (2 a)
  show ?case by simp
next
  case (3 a b)
  show ?case using part_small(2)[of b] by simp
next
  case (4 a b c s)
  show ?case using part_small(2)[of b] part_small(3)[of c] "4.IH" by simp
qed simp

lemma decode_raw_std: "decode_std (raw_std s) = Some s"
proof -
  have keep: "filter (\<lambda>c. c \<noteq> CHR 0x0A \<and> c \<noteq> CHR 0x0D) (map base64_char (sextets s)) = map base64_char (sextets s)"
    using sextets_small[of s] base64_char_plain by (force simp: filter_id_conv)
  have "map base64_value (map base64_char (sextets s)) = map Some (sextets s)"
    using sextets_small[of s] base64_value_char by simp
  then show ?thesis
    unfolding decode_std_def raw_std_sextets keep Let_def by (simp only:) (simp add: bytes_of_sextets list_all_iff comp_def)
qed

section \<open>A stored hash and back\<close>

lemma digits_nat_snoc: "digits_nat (ds @ [c]) = 10 * digits_nat ds + (of_char c - 48)"
  by (simp add: digits_nat_def)

lemma digits_nat_decimal: "digits_nat (decimal n) = n"
proof (induction n rule: decimal.induct)
  case (1 n)
  have digit: "of_char (digit k) - 48 = k" if "k < 10" for k :: nat
    using that by (simp add: digit_def of_char_of take_bit_nat_eq_self)
  show ?case
  proof (cases "n < 10")
    case True
    then show ?thesis by (subst decimal.simps) (simp add: digits_nat_def digit)
  next
    case False
    then show ?thesis using 1 by (subst decimal.simps) (simp add: digits_nat_snoc digit)
  qed
qed

lemma decimal_start: "\<exists>c s. decimal n = c # s \<and> is_digit c"
  using decimal_digits[of n] decimal_not_Nil(1)[of n] by (cases "decimal n") auto

lemma scan_decimal:
  assumes "n < 2 ^ bits" "s = [] \<or> \<not> is_digit (hd s)"
  shows "scan_uint bits (decimal n @ s) = Some (n, s)"
proof -
  obtain c t where c: "decimal n = c # t" "is_digit c" using decimal_start by blast
  have "\<not> scan_blank c" using c(2) by (auto simp: scan_blank_def is_digit_def less_eq_char_def)
  then have start: "dropWhile scan_blank (decimal n @ s) = decimal n @ s" using c(1) by simp
  have all: "\<And>x. x \<in> set (decimal n) \<Longrightarrow> is_digit x" using decimal_digits[of n] by (simp add: list_all_iff)
  have "takeWhile is_digit s = []" "dropWhile is_digit s = s" using assms(2) by (cases s; simp)+
  then have "takeWhile is_digit (decimal n @ s) = decimal n" "dropWhile is_digit (decimal n @ s) = s"
    using all by (simp_all add: takeWhile_append2 dropWhile_append2)
  then show ?thesis using assms(1) start by (simp add: scan_uint_def Let_def digits_nat_decimal)
qed

lemma scan_text_append: "scan_text p (p @ s) = Some s"
  by (simp add: scan_text_def)

lemma scan_params_text:
  assumes "m < 2 ^ 32" "t < 2 ^ 32" "p < 2 ^ 8"
  shows "scan_params (''m='' @ decimal m @ '',t='' @ decimal t @ '',p='' @ decimal p) = Some (m, t, p)"
proof -
  have comma: "\<not> is_digit (CHR '','')" by code_simp
  have "scan_uint 8 (decimal p) = Some (p, [])" using scan_decimal[OF assms(3), of "[]"] by simp
  then show ?thesis
    unfolding scan_params_def scan_text_append
    using scan_decimal[OF assms(1), of "'',t='' @ decimal t @ '',p='' @ decimal p"]
      scan_decimal[OF assms(2), of "'',p='' @ decimal p"] scan_text_append[of "'',t=''"] scan_text_append[of "'',p=''"] comma
    by simp
qed

lemma raw_std_plain: "CHR ''$'' \<notin> set (raw_std s)"
  using sextets_small[of s] base64_char_plain by (force simp: raw_std_sextets)

lemma parse_hash:
  assumes "m < 2 ^ 32" "t < 2 ^ 32"
  shows "parseArgon (HashWith lib m t salt pw) = Some (salt, lib_argon2 lib pw salt t m 1 32, t, m, 1)"
proof -
  let ?params = "''m='' @ decimal m @ '',t='' @ decimal t @ '',p='' @ decimal 1"
  let ?parts = "[[], ''argon2id'', ''v=19'', ?params, raw_std salt, raw_std (lib_argon2 lib pw salt t m 1 32)]"
  have plain: "CHR ''$'' \<notin> set (decimal n)" for n
    using decimal_digits[of n] by (auto simp: list_all_iff is_digit_def less_eq_char_def)
  have version: "decimal argonVersion = ''19''" by code_simp
  have "HashWith lib m t salt pw = Join (CHR ''$'') ?parts"
    by (simp add: HashWith_def version argonThreads_def argonKeyLen_def)
  then have "Split (CHR ''$'') (HashWith lib m t salt pw) = ?parts"
    using Split_Join[of ?parts "CHR ''$''"] plain raw_std_plain by simp
  then show ?thesis
    using scan_params_text[OF assms, of 1] by (simp add: parseArgon_def Let_def decode_raw_std numeral_eq_Suc)
qed

lemma verify_stored:
  assumes "m < 2 ^ 32" "t < 2 ^ 32" "length (lib_argon2 lib pw salt t m 1 32) = 32"
  shows "Verify lib pw' (HashWith lib m t salt pw) \<longleftrightarrow> lib_argon2 lib pw' salt t m 1 32 = lib_argon2 lib pw salt t m 1 32"
  using parse_hash[OF assms(1,2), of lib salt pw] assms(3) by (auto simp: Verify_def HashWith_def)

text \<open>C32: A password verifies against the stored text of a password exactly when argon2id gives the two the
  same digest under the stored salt and parameters: the text carries all of them, so a hash made
  under older parameters still verifies, and the password it was made from always does.\<close>

theorem stored_hash_verifies:
  assumes "m < 2 ^ 32" "t < 2 ^ 32" "length (lib_argon2 lib pw salt t m 1 32) = 32"
  shows "Verify lib pw' (HashWith lib m t salt pw) \<longleftrightarrow> lib_argon2 lib pw' salt t m 1 32 = lib_argon2 lib pw salt t m 1 32"
  by (rule verify_stored[OF assms])

text \<open>Libraries to try the rules with.\<close>

definition plain_argon :: "string \<Rightarrow> string \<Rightarrow> nat \<Rightarrow> nat \<Rightarrow> nat \<Rightarrow> nat \<Rightarrow> string" where
  "plain_argon pw salt t m p n = take n (pw @ salt @ replicate n (CHR 0x00))"

definition plain_runes :: "string \<Rightarrow> runes" where
  "plain_runes s = map of_char s"

definition plain_text :: "runes \<Rightarrow> string" where
  "plain_text rs = map char_of rs"

definition plain_sha :: "string \<Rightarrow> string" where
  "plain_sha s = take 4 s"

definition plain_lower :: "nat \<Rightarrow> nat" where
  "plain_lower r = (if 65 \<le> r \<and> r \<le> 90 then r + 32 else r)"

definition plain_url :: "string \<Rightarrow> URL option" where
  "plain_url s = (if take 8 s = ''https://'' then Some \<lparr>u_abs = True, u_scheme = ''https'', u_host = drop 8 s, u_hostname = drop 8 s,
     u_path = [], u_rawquery = [], u_fragment = []\<rparr> else None)"

definition plain_time :: "stamp \<Rightarrow> int option" where
  "plain_time s = (if s = ''3'' then Some 1000 else None)"

definition plain_libs :: Libs where
  "plain_libs = \<lparr>lib_sha256 = plain_sha, lib_argon2 = plain_argon, lib_runes = plain_runes, lib_text = plain_text,
     lib_lower = plain_lower, lib_ParseAddress = Some, lib_ParseURL = plain_url, lib_ParseTime = plain_time\<rparr>"

lemma plain_hash_verifies: "Verify plain_libs pw (HashWith plain_libs 19456 2 salt pw)"
  using verify_stored[of 19456 2 plain_libs pw salt pw] by (simp add: plain_libs_def plain_argon_def)

theorem stored_hash_verifies_witness:
  "Verify plain_libs ''secret'' (HashWith plain_libs 19456 2 ''salt'' ''secret'') \<and>
   \<not> Verify plain_libs ''wrong'' (HashWith plain_libs 19456 2 ''salt'' ''secret'')"
proof -
  have len: "length (lib_argon2 plain_libs pw ''salt'' 2 19456 1 32) = 32" for pw by (simp add: plain_libs_def plain_argon_def)
  have "lib_argon2 plain_libs ''wrong'' ''salt'' 2 19456 1 32 \<noteq> lib_argon2 plain_libs ''secret'' ''salt'' 2 19456 1 32"
    by code_simp
  then show ?thesis
    using stored_hash_verifies[of 19456 2 plain_libs "''secret''" "''salt''", OF _ _ len] by simp
qed

section \<open>The shape of a secret\<close>

definition is_hex :: "char \<Rightarrow> bool" where
  "is_hex c \<longleftrightarrow> List.member ''0123456789abcdef'' c"

definition hex_text :: "string \<Rightarrow> bool" where
  "hex_text s \<longleftrightarrow> list_all is_hex s"

lemma base64_char_unreserved:
  assumes "n < 64"
  shows "unreserved (url_char (base64_char n))"
proof -
  have "list_all (\<lambda>n. unreserved (url_char (base64_char n))) [0..<64]" by code_simp
  then show ?thesis using assms by (simp add: list_all_iff)
qed

lemma hex_digit_text:
  assumes "n < 16"
  shows "is_hex (hex_digit n)"
proof -
  have "list_all (\<lambda>n. is_hex (hex_digit n)) [0..<16]" by code_simp
  then show ?thesis using assms by (simp add: list_all_iff)
qed

lemma length_sextets: "3 * length (sextets s) = 4 * length s + (if length s mod 3 = 0 then 0 else if length s mod 3 = 1 then 2 else 1)"
proof (induction s rule: sextets.induct)
  case (4 a b c s)
  have l: "length (a # b # c # s) = length s + 3" by simp
  have "length (sextets (a # b # c # s)) = length (sextets s) + 4" by simp
  then show ?case unfolding l mod_add_self2 using "4.IH" by simp
qed simp_all

lemma length_hex [simp]: "length (hex s) = 2 * length s"
  by (induction s) (simp_all add: hex_def)

text \<open>A drawn secret is 43 characters that a URL and a header carry untouched, so the link that is mailed
  ends in the secret itself; what is stored of it is 64 hexadecimal digits and, of a token, at most
  its first eight characters.\<close>

theorem secret_shape:
  assumes "length b = tokenBytes" "\<forall>s. length (lib_sha256 lib s) = 32"
  shows "length (raw_url b) = 43 \<and> list_all unreserved (raw_url b) \<and> QueryEscape (raw_url b) = raw_url b \<and>
    (\<exists>path. linkURL base purpose (raw_url b) = base @ path @ ''?token='' @ raw_url b) \<and>
    length (HashSecret lib (raw_url b)) = 64 \<and> hex_text (HashSecret lib (raw_url b)) \<and>
    length (TokenPrefix (APITokenPrefix @ raw_url b)) = 8"
proof -
  have url: "raw_url b = map (url_char \<circ> base64_char) (sextets b)" by (simp add: raw_url_def raw_std_sextets)
  have plain: "list_all unreserved (raw_url b)"
    using sextets_small[of b] base64_char_unreserved by (auto simp: url list_all_iff)
  have "concat (map escape_char s) = s" if "list_all unreserved s" for s
    using that by (induction s) (simp_all add: escape_char_def)
  then have esc: "QueryEscape (raw_url b) = raw_url b" using plain by (simp add: QueryEscape_def)
  have len: "length (raw_url b) = 43" using length_sextets[of b] assms(1) by (simp add: url tokenBytes_def)
  have "hex_text (hex s)" for s
    unfolding hex_text_def hex_def using part_small(2)
    by (induction s) (simp_all add: hex_digit_text)
  then show ?thesis
    using plain esc len assms(2) by (auto simp: linkURL_def HashSecret_def TokenPrefix_def APITokenPrefix_def)
qed

theorem secret_shape_witness:
  "QueryEscape (raw_url (replicate 32 (CHR 0xFF))) = raw_url (replicate 32 (CHR 0xFF)) \<and> length (raw_url (replicate 32 (CHR 0xFF))) = 43"
  using secret_shape[of "replicate 32 (CHR 0xFF)" "plain_libs\<lparr>lib_sha256 := \<lambda>s. replicate 32 (CHR 0x00)\<rparr>"]
  by (simp add: tokenBytes_def)

section \<open>Where a code is sent\<close>

lemma matched:
  "MatchRedirectURI lib registered requested = Some u \<Longrightarrow>
     u = requested \<and> (\<exists>candidate \<in> set registered. candidate = requested \<or> loopbackMatch lib candidate requested)"
  by (induction registered) (auto split: if_splits)

text \<open>C33: The address a client asks for is used only as it was asked for, and only when it is an https
  address the client registered letter by letter, or plain http to this machine: whatever was
  registered and whatever is asked for, a code is never sent in the clear to another host.\<close>

theorem redirect_stays_home:
  assumes "list_all (CheckRedirectURI lib) registered" "MatchRedirectURI lib registered requested = Some u"
  shows "u = requested \<and> (\<exists>v. lib_ParseURL lib u = Some v \<and> u_fragment v = [] \<and>
    (u \<in> set registered \<and> u_scheme v = ''https'' \<and> u_host v \<noteq> [] \<or> u_scheme v = ''http'' \<and> isLoopbackHost (u_hostname v)))"
proof -
  obtain c where u: "u = requested" and c: "c \<in> set registered" "c = requested \<or> loopbackMatch lib c requested"
    using matched[OF assms(2)] by blast
  have "CheckRedirectURI lib c" using assms(1) c(1) by (simp add: list_all_iff)
  then show ?thesis using u c
    by (auto simp: CheckRedirectURI_def loopbackMatch_def split: option.splits if_splits)
qed

theorem redirect_stays_home_witness:
  "MatchRedirectURI plain_libs [''https://x''] ''https://x'' = Some ''https://x'' \<and> ''https://x'' \<in> set [''https://x'']"
proof -
  have ok: "list_all (CheckRedirectURI plain_libs) [''https://x'']"
    by (simp add: CheckRedirectURI_def plain_libs_def plain_url_def)
  have hit: "MatchRedirectURI plain_libs [''https://x''] ''https://x'' = Some ''https://x''" by simp
  from redirect_stays_home[OF ok hit] show ?thesis using hit by auto
qed

end
