(* ===== verification/Limiter.thy ===== *)
theory Limiter
  imports Complex_Main "HOL-Library.Word"
begin

text \<open>
  \<^verbatim>\<open>internal/identity/limiter.go\<close>: a token bucket per client and a doubling lockout per key. Times
  and durations are nanoseconds; the difference of two times saturates at 64 bits as
  \<open>time.Time.Sub\<close> does, the doubling shift is the signed 64 bit one and wraps. An allowance is a
  rational, where the code has a float64 and rounds. The mutex makes each call one step.
\<close>

section \<open>Durations\<close>

definition Second :: int where
  "Second = 1000000000"

definition idleEviction :: int where
  "idleEviction = 3600 * Second"

text \<open>\<open>t.Sub(u)\<close>.\<close>

definition Sub :: "int \<Rightarrow> int \<Rightarrow> int" where
  "Sub t u = max (- (2 ^ 63)) (min (2 ^ 63 - 1) (t - u))"

text \<open>\<open>d << k\<close> on int64.\<close>

definition shift_left :: "int \<Rightarrow> nat \<Rightarrow> int" where
  "shift_left d k = sint (push_bit k (word_of_int d :: 64 word))"

text \<open>The zero \<open>time.Time\<close>, year one, from the Unix epoch.\<close>

definition zero_time :: int where
  "zero_time = - 62135596800 * Second"

section \<open>The limiter\<close>

record Settings =
  BucketCapacity :: rat
  BucketRefill :: int
  FailuresBeforeLockout :: int
  LockoutBase :: int
  LockoutCeiling :: int

definition SignInSettings :: Settings where
  "SignInSettings = \<lparr>BucketCapacity = 10, BucketRefill = 6 * Second, FailuresBeforeLockout = 5,
     LockoutBase = 30 * Second, LockoutCeiling = 15 * 60 * Second\<rparr>"

definition DeployPathSettings :: Settings where
  "DeployPathSettings = \<lparr>BucketCapacity = 30, BucketRefill = 2 * Second, FailuresBeforeLockout = 5,
     LockoutBase = 30 * Second, LockoutCeiling = 15 * 60 * Second\<rparr>"

definition ConnectorSettings :: Settings where
  "ConnectorSettings = \<lparr>BucketCapacity = 20, BucketRefill = 3 * Second, FailuresBeforeLockout = 5,
     LockoutBase = 30 * Second, LockoutCeiling = 15 * 60 * Second\<rparr>"

record bucket =
  tokens :: rat
  bucket_seen :: int

record attempts =
  failures :: int
  locked_until :: int
  attempts_seen :: int

record Limiter =
  buckets :: "string \<Rightarrow> bucket option"
  failed :: "string \<Rightarrow> attempts option"
  swept :: int

definition NewLimiter :: Limiter where
  "NewLimiter = \<lparr>buckets = Map.empty, failed = Map.empty, swept = zero_time\<rparr>"

definition kept_if :: "('v \<Rightarrow> bool) \<Rightarrow> ('k \<Rightarrow> 'v option) \<Rightarrow> 'k \<Rightarrow> 'v option" where
  "kept_if P m k = (case m k of None \<Rightarrow> None | Some v \<Rightarrow> if P v then Some v else None)"

definition sweep :: "int \<Rightarrow> Limiter \<Rightarrow> Limiter" where
  "sweep now l =
     (if Sub now (swept l) < idleEviction then l
      else l\<lparr>swept := now,
        buckets := kept_if (\<lambda>b. \<not> Sub now (bucket_seen b) > idleEviction) (buckets l),
        failed := kept_if (\<lambda>a. \<not> (Sub now (attempts_seen a) > idleEviction \<and> \<not> now < locked_until a)) (failed l)\<rparr>)"

definition refilled :: "Settings \<Rightarrow> int \<Rightarrow> bucket \<Rightarrow> rat" where
  "refilled s now b =
     min (BucketCapacity s) (tokens b + rat_of_int (Sub now (bucket_seen b)) / rat_of_int (BucketRefill s))"

definition Allow :: "Settings \<Rightarrow> int \<Rightarrow> string \<Rightarrow> Limiter \<Rightarrow> bool \<times> Limiter" where
  "Allow s now client l =
     (if client = [] then (True, l)
      else let l1 = sweep now l;
             t = (case buckets l1 client of None \<Rightarrow> BucketCapacity s | Some b \<Rightarrow> refilled s now b)
        in if t < 1 then (False, l1\<lparr>buckets := (buckets l1)(client \<mapsto> \<lparr>tokens = t, bucket_seen = now\<rparr>)\<rparr>)
           else (True, l1\<lparr>buckets := (buckets l1)(client \<mapsto> \<lparr>tokens = t - 1, bucket_seen = now\<rparr>)\<rparr>))"

definition LockedOut :: "int \<Rightarrow> string \<Rightarrow> Limiter \<Rightarrow> int option" where
  "LockedOut now key l =
     (case failed l key of
        None \<Rightarrow> None
      | Some a \<Rightarrow> if now < locked_until a then Some (Sub (locked_until a) now) else None)"

definition lockout_delay :: "Settings \<Rightarrow> int \<Rightarrow> int" where
  "lockout_delay s n =
     (let delay = shift_left (LockoutBase s) (nat (n - FailuresBeforeLockout s))
      in if delay > LockoutCeiling s \<or> delay \<le> 0 then LockoutCeiling s else delay)"

definition Failed :: "Settings \<Rightarrow> int \<Rightarrow> string \<Rightarrow> Limiter \<Rightarrow> Limiter" where
  "Failed s now key l =
     (let l1 = sweep now l;
          a0 = (case failed l1 key of None \<Rightarrow> \<lparr>failures = 0, locked_until = zero_time, attempts_seen = zero_time\<rparr> | Some a \<Rightarrow> a);
          a = a0\<lparr>failures := failures a0 + 1, attempts_seen := now\<rparr>
      in l1\<lparr>failed := (failed l1)(key \<mapsto>
           (if failures a < FailuresBeforeLockout s then a
            else a\<lparr>locked_until := now + lockout_delay s (failures a)\<rparr>))\<rparr>)"

definition Succeeded :: "string \<Rightarrow> Limiter \<Rightarrow> Limiter" where
  "Succeeded key l = l\<lparr>failed := (failed l)(key := None)\<rparr>"

section \<open>The doubling\<close>

text \<open>The three settings the platform runs on.\<close>

definition platform_settings :: "Settings set" where
  "platform_settings = {SignInSettings, DeployPathSettings, ConnectorSettings}"

lemma platform_numbers:
  assumes "s \<in> platform_settings"
  shows "FailuresBeforeLockout s = 5" "LockoutBase s = 30 * Second" "LockoutCeiling s = 900 * Second"
    "0 < BucketRefill s" "1 \<le> BucketCapacity s" "BucketCapacity s * rat_of_int (BucketRefill s) \<le> rat_of_int idleEviction"
  using assms by (auto simp: platform_settings_def SignInSettings_def DeployPathSettings_def ConnectorSettings_def
      idleEviction_def Second_def)

lemma shift_left_eq: "shift_left d k = (d * 2 ^ k + 2 ^ 63) mod 2 ^ 64 - 2 ^ 63"
proof -
  have "push_bit k (word_of_int d :: 64 word) = word_of_int (push_bit k d)"
    by (simp add: of_int_push_bit)
  then have "shift_left d k = signed_take_bit 63 (push_bit k d)"
    by (simp add: shift_left_def signed_of_int)
  then show ?thesis by (simp add: signed_take_bit_eq_take_bit_shift take_bit_eq_mod push_bit_eq_mult)
qed

text \<open>From the thirtieth doubling on the shifted value is a multiple of a number beyond the ceiling.\<close>

lemma shift_large:
  assumes "30 \<le> k"
  shows "shift_left (30 * Second) k \<le> 0 \<or> 900 * Second < shift_left (30 * Second) k"
proof -
  have "(2::int) ^ 40 dvd 30 * Second * 2 ^ k"
  proof -
    have "(2::int) ^ 40 = 2 ^ 10 * 2 ^ 30" "(2::int) ^ 10 dvd 30 * Second" by (simp_all add: Second_def)
    then show ?thesis using le_imp_power_dvd[OF assms, of "2::int"] mult_dvd_mono by metis
  qed
  then have "(2::int) ^ 40 dvd (30 * Second * 2 ^ k + 2 ^ 63) mod 2 ^ 64"
    by (intro dvd_mod dvd_add) (simp_all add: le_imp_power_dvd)
  then have "(2::int) ^ 40 dvd shift_left (30 * Second) k"
    unfolding shift_left_eq by (intro dvd_diff) (simp_all add: le_imp_power_dvd)
  then show ?thesis using zdvd_imp_le[of "2 ^ 40"] by (force simp: Second_def)
qed

lemma shift_small:
  assumes "k < 30"
  shows "(let delay = shift_left (30 * Second) k in if 900 * Second < delay \<or> delay \<le> 0 then 900 * Second else delay) =
    min (900 * Second) (30 * Second * 2 ^ k)"
proof -
  have "k \<in> set [0..<30]" using assms by simp
  then show ?thesis
    by (simp add: shift_left_eq Let_def Second_def upt_rec) (elim disjE; simp)
qed

lemma doubling:
  assumes "s \<in> platform_settings" "5 \<le> n"
  shows "lockout_delay s n = min (900 * Second) (30 * Second * 2 ^ nat (n - 5))"
proof (cases "nat (n - 5) < 30")
  case True
  then show ?thesis
    using shift_small[OF True] platform_numbers(1-3)[OF assms(1)] by (simp add: lockout_delay_def cong: if_cong)
next
  case False
  then have "30 \<le> nat (n - 5)" by simp
  moreover have "(2::int) ^ 30 \<le> 2 ^ nat (n - 5)" using False by (intro power_increasing) auto
  then have "min (900 * Second) (30 * Second * 2 ^ nat (n - 5)) = 900 * Second" by (simp add: Second_def)
  ultimately show ?thesis
    using shift_large[of "nat (n - 5)"] platform_numbers[OF assms(1)] by (auto simp: lockout_delay_def Let_def)
qed

section \<open>What a bucket holds\<close>

definition level :: "Settings \<Rightarrow> int \<Rightarrow> string \<Rightarrow> Limiter \<Rightarrow> rat" where
  "level s now client l = (case buckets l client of None \<Rightarrow> BucketCapacity s | Some b \<Rightarrow> refilled s now b)"

definition sane :: "Settings \<Rightarrow> int \<Rightarrow> Limiter \<Rightarrow> bool" where
  "sane s now l \<longleftrightarrow> (\<forall>c b. buckets l c = Some b \<longrightarrow> 0 \<le> tokens b \<and> tokens b \<le> BucketCapacity s \<and> bucket_seen b \<le> now)"

lemma Sub_simps [simp]: "Sub t t = 0" "0 \<le> Sub t u \<longleftrightarrow> u \<le> t" "idleEviction < Sub t u \<longleftrightarrow> idleEviction < t - u"
  "Sub t u < idleEviction \<longleftrightarrow> t - u < idleEviction"
  by (auto simp: Sub_def idleEviction_def Second_def)

lemma Sub_later: "now \<le> t \<Longrightarrow> Sub t u \<le> Sub now u + (t - now)"
  by (auto simp: Sub_def)

lemma kept_if_Some: "kept_if P m k = Some v \<longleftrightarrow> m k = Some v \<and> P v"
  by (auto simp: kept_if_def split: option.splits)

lemma sane_later: "sane s now l \<Longrightarrow> now \<le> t \<Longrightarrow> sane s t l"
  unfolding sane_def by fastforce

lemma sane_sweep: "sane s now l \<Longrightarrow> sane s now (sweep now l)"
  by (auto simp: sane_def sweep_def kept_if_Some)

lemma sane_new: "sane s now NewLimiter"
  by (simp add: sane_def NewLimiter_def)

lemma level_cap: "level s now c l \<le> BucketCapacity s \<or> buckets l c = None"
  by (auto simp: level_def refilled_def split: option.splits)

text \<open>An entry that is swept had refilled, so the sweep cannot be seen.\<close>

lemma idle_is_full:
  assumes "s \<in> platform_settings" "0 \<le> tokens b" "idleEviction < Sub now (bucket_seen b)"
  shows "refilled s now b = BucketCapacity s"
proof -
  note nums = platform_numbers[OF assms(1)]
  have "BucketCapacity s * rat_of_int (BucketRefill s) \<le> rat_of_int (Sub now (bucket_seen b))"
    using nums(6) assms(3) by (meson less_eq_rat_def of_int_less_iff order_trans less_imp_le)
  then have "BucketCapacity s \<le> rat_of_int (Sub now (bucket_seen b)) / rat_of_int (BucketRefill s)"
    using nums(4) by (simp add: pos_le_divide_eq)
  then show ?thesis using assms(2) by (simp add: refilled_def)
qed

lemma level_sweep:
  assumes "s \<in> platform_settings" "sane s now l"
  shows "level s now c (sweep now l) = level s now c l"
  using assms(2) idle_is_full[OF assms(1)]
  by (auto simp: level_def sweep_def kept_if_def sane_def split: option.splits)

lemma level_nonneg:
  assumes "s \<in> platform_settings" "sane s now l"
  shows "0 \<le> level s now c l"
  using assms platform_numbers[OF assms(1)]
  by (auto simp: level_def refilled_def sane_def split: option.splits)

lemma level_later:
  assumes "s \<in> platform_settings" "now \<le> t"
  shows "level s t c l \<le> level s now c l + rat_of_int (t - now) / rat_of_int (BucketRefill s)"
proof (cases "buckets l c")
  case None
  then show ?thesis using assms platform_numbers[OF assms(1)] by (simp add: level_def)
next
  case (Some b)
  let ?r = "rat_of_int (BucketRefill s)"
  have r: "0 < ?r" using platform_numbers(4)[OF assms(1)] by simp
  have "rat_of_int (Sub t (bucket_seen b)) \<le> rat_of_int (Sub now (bucket_seen b)) + rat_of_int (t - now)"
    using Sub_later[OF assms(2), of "bucket_seen b"] by (metis of_int_add of_int_le_iff)
  then have "rat_of_int (Sub t (bucket_seen b)) / ?r \<le> rat_of_int (Sub now (bucket_seen b)) / ?r + rat_of_int (t - now) / ?r"
    using r by (simp add: divide_right_mono flip: add_divide_distrib)
  moreover have "0 \<le> rat_of_int (t - now) / ?r" using r assms(2) by simp
  ultimately show ?thesis using Some by (simp add: level_def refilled_def min_def)
qed

lemma Allow_level:
  assumes "s \<in> platform_settings" "sane s now l" "Allow s now c l = (ok, l')" "c \<noteq> []"
  shows "ok \<longleftrightarrow> 1 \<le> level s now c l" "level s now c l' = level s now c l - (if ok then 1 else 0)" "sane s now l'"
    and "d \<noteq> c \<Longrightarrow> level s now d l' = level s now d l"
proof -
  define t where "t = level s now c l"
  have t: "0 \<le> t" "t \<le> BucketCapacity s" using level_nonneg[OF assms(1,2)] level_cap[of s now c l]
    by (auto simp: t_def level_def split: option.splits)
  have "level s now c (sweep now l) = t" by (simp add: t_def level_sweep[OF assms(1,2)])
  then have l': "ok = (1 \<le> t)" "l' = (sweep now l)\<lparr>buckets := (buckets (sweep now l))(c \<mapsto>
      \<lparr>tokens = (if 1 \<le> t then t - 1 else t), bucket_seen = now\<rparr>)\<rparr>"
    using assms(3,4) by (auto simp: Allow_def Let_def level_def split: if_splits)
  show "ok \<longleftrightarrow> 1 \<le> level s now c l" using l'(1) by (simp add: t_def)
  show "level s now c l' = level s now c l - (if ok then 1 else 0)"
  proof -
    have "level s now c l' = (if ok then t - 1 else t)"
      using t by (simp add: l' level_def refilled_def)
    then show ?thesis by (simp add: t_def)
  qed
  show "sane s now l'"
    using sane_sweep[OF assms(2)] t by (auto simp: l'(2) sane_def)
  show "d \<noteq> c \<Longrightarrow> level s now d l' = level s now d l"
    using level_sweep[OF assms(1,2), of d] by (simp add: l'(2) level_def)
qed

section \<open>A sequence of calls\<close>

datatype op = OpAllow string | OpLockedOut string | OpFailed string | OpSucceeded string

fun step :: "Settings \<Rightarrow> int \<Rightarrow> op \<Rightarrow> Limiter \<Rightarrow> Limiter" where
  "step s now (OpAllow c) l = snd (Allow s now c l)"
| "step s now (OpLockedOut k) l = l"
| "step s now (OpFailed k) l = Failed s now k l"
| "step s now (OpSucceeded k) l = Succeeded k l"

fun after :: "Settings \<Rightarrow> (int \<times> op) list \<Rightarrow> Limiter \<Rightarrow> Limiter" where
  "after s [] l = l"
| "after s ((now, x) # xs) l = after s xs (step s now x l)"

text \<open>How many calls of one client a sequence lets through.\<close>

fun let_through :: "Settings \<Rightarrow> string \<Rightarrow> (int \<times> op) list \<Rightarrow> Limiter \<Rightarrow> nat" where
  "let_through s c [] l = 0"
| "let_through s c ((now, x) # xs) l =
     (if x = OpAllow c \<and> fst (Allow s now c l) then 1 else 0) + let_through s c xs (step s now x l)"

lemma step_level:
  assumes "s \<in> platform_settings" "sane s now l" "c \<noteq> []"
  shows "level s now c (step s now x l) = level s now c l - (if x = OpAllow c \<and> fst (Allow s now c l) then 1 else 0)"
    and "sane s now (step s now x l)"
proof -
  have "level s now c (step s now x l) = level s now c l - (if x = OpAllow c \<and> fst (Allow s now c l) then 1 else 0) \<and>
      sane s now (step s now x l)"
  proof (cases x)
    case (OpAllow d)
    obtain ok l' where a: "Allow s now d l = (ok, l')" by (cases "Allow s now d l")
    show ?thesis
    proof (cases "d = []")
      case True
      then show ?thesis using OpAllow assms(2,3) by (simp add: Allow_def)
    next
      case False
      note al = Allow_level[OF assms(1,2) a False]
      show ?thesis using al(2,3) al(4)[of c] a OpAllow by (cases "d = c") auto
    qed
  next
    case (OpFailed k)
    then show ?thesis using level_sweep[OF assms(1,2), of c] sane_sweep[OF assms(2)]
      by (simp add: Failed_def Let_def level_def sane_def)
  qed (use assms(2) in \<open>simp_all add: Succeeded_def level_def sane_def\<close>)
  then show "level s now c (step s now x l) = level s now c l - (if x = OpAllow c \<and> fst (Allow s now c l) then 1 else 0)"
    "sane s now (step s now x l)" by blast+
qed

lemma after_sane:
  assumes "s \<in> platform_settings" "sane s t l" "sorted (t # map fst xs)"
  shows "sane s (last (t # map fst xs)) (after s xs l)"
  using assms(2,3)
proof (induction xs arbitrary: t l)
  case (Cons x xs)
  obtain now o' where x: "x = (now, o')" by (cases x)
  have "sane s now (step s now o' l)"
    using step_level(2)[OF assms(1) sane_later[OF Cons.prems(1)], of now "''c''" o'] Cons.prems(2) x by simp
  then show ?case using Cons.IH[of now] Cons.prems(2) x by simp
qed simp

lemma let_through_bound:
  assumes "s \<in> platform_settings" "c \<noteq> []" "sane s t l" "sorted (t # map fst xs)"
  shows "rat_of_nat (let_through s c xs l) \<le>
    level s t c l + rat_of_int (last (t # map fst xs) - t) / rat_of_int (BucketRefill s)"
  using assms(3,4)
proof (induction xs arbitrary: t l)
  case Nil
  then show ?case using level_nonneg[OF assms(1)] by simp
next
  case (Cons x xs)
  obtain now o' where x: "x = (now, o')" by (cases x)
  let ?l = "step s now o' l" and ?e = "last (now # map fst xs)" and ?r = "rat_of_int (BucketRefill s)"
  have times: "t \<le> now" "sorted (now # map fst xs)" using Cons.prems(2) x by auto
  have now: "sane s now l" by (rule sane_later[OF Cons.prems(1) times(1)])
  have "rat_of_nat (let_through s c xs ?l) \<le> level s now c ?l + rat_of_int (?e - now) / ?r"
    by (rule Cons.IH[OF step_level(2)[OF assms(1) now assms(2)] times(2)])
  then have "rat_of_nat (let_through s c (x # xs) l) \<le> level s now c l + rat_of_int (?e - now) / ?r"
    using step_level(1)[OF assms(1) now assms(2), of o'] x by (auto split: if_splits)
  also have "\<dots> \<le> level s t c l + rat_of_int (now - t) / ?r + rat_of_int (?e - now) / ?r"
    using level_later[OF assms(1) times(1), of c l] by simp
  also have "\<dots> = level s t c l + rat_of_int (?e - t) / ?r"
    by (simp add: add_divide_distrib[symmetric])
  finally show ?case using x by simp
qed

text \<open>C30: In every sequence of calls, however they interleave with those of others and with the eviction of
  idle entries, one client is let through at most its capacity plus what the bucket refills in
  the time, on each of the three limiters the platform runs.\<close>

theorem rate_bound:
  assumes "s \<in> platform_settings" "c \<noteq> []" "sorted (map fst (before @ (t, x) # xs))"
  shows "rat_of_nat (let_through s c ((t, x) # xs) (after s before NewLimiter)) \<le>
    BucketCapacity s + rat_of_int (last (t # map fst xs) - t) / rat_of_int (BucketRefill s)"
proof -
  let ?l = "after s before NewLimiter"
  define t0 where "t0 = hd (map fst before @ [t])"
  have times: "sorted (map fst before)" "\<And>u. u \<in> set (map fst before) \<Longrightarrow> u \<le> t"
    using assms(3) by (auto simp: sorted_append)
  then have "sorted (t0 # map fst before)" by (cases before) (simp_all add: t0_def)
  moreover have "last (t0 # map fst before) \<in> insert t (set (map fst before))"
    using last_in_set[of "map fst before"] by (cases "before = []") (auto simp: t0_def simp del: set_map)
  then have "last (t0 # map fst before) \<le> t" using times(2) by blast
  ultimately have sane: "sane s t ?l"
    using after_sane[OF assms(1) sane_new] sane_later by blast
  have "rat_of_nat (let_through s c ((t, x) # xs) ?l) \<le>
      level s t c ?l + rat_of_int (last (t # map fst ((t, x) # xs)) - t) / rat_of_int (BucketRefill s)"
    by (rule let_through_bound[OF assms(1,2) sane]) (use assms(3) in \<open>auto simp: sorted_append\<close>)
  moreover have "level s t c ?l \<le> BucketCapacity s" by (auto simp: level_def refilled_def split: option.splits)
  ultimately show ?thesis by simp
qed

theorem rate_bound_witness:
  "let_through SignInSettings ''a'' (replicate 12 (0, OpAllow ''a'')) NewLimiter = 10 \<and>
   rat_of_nat (let_through SignInSettings ''a'' (replicate 12 (0, OpAllow ''a'')) NewLimiter) \<le> 10"
proof
  show "let_through SignInSettings ''a'' (replicate 12 (0, OpAllow ''a'')) NewLimiter = 10" by code_simp
  have "SignInSettings \<in> platform_settings" by (simp add: platform_settings_def)
  from rate_bound[OF this, of "''a''" "[]" 0 "OpAllow ''a''" "replicate 11 (0, OpAllow ''a'')"]
  show "rat_of_nat (let_through SignInSettings ''a'' (replicate 12 (0, OpAllow ''a'')) NewLimiter) \<le> 10"
    by (simp add: SignInSettings_def numeral_eq_Suc)
qed

section \<open>The lockout\<close>

text \<open>The times at which a key failed.\<close>

definition failed_at :: "string \<Rightarrow> (int \<times> op) list \<Rightarrow> int list" where
  "failed_at k xs = map fst (filter (\<lambda>(t, x). x = OpFailed k) xs)"

text \<open>No more than an hour between two failures.\<close>

definition steady :: "int list \<Rightarrow> bool" where
  "steady ts \<longleftrightarrow> (\<forall>i < length ts - 1. ts ! (i + 1) - ts ! i \<le> idleEviction)"

definition penalty :: "Settings \<Rightarrow> nat \<Rightarrow> int" where
  "penalty s n = (if n < 5 then 0 else min (LockoutCeiling s) (LockoutBase s * 2 ^ (n - 5)))"

lemma steady_snoc: "steady (ts @ [t]) \<longleftrightarrow> steady ts \<and> (ts \<noteq> [] \<longrightarrow> t - last ts \<le> idleEviction)"
proof (cases ts rule: rev_cases)
  case (snoc us u)
  have "(\<forall>i < Suc (length us). (us @ [u, t]) ! (i + 1) - (us @ [u, t]) ! i \<le> idleEviction) \<longleftrightarrow>
      (\<forall>i < length us. (us @ [u]) ! (i + 1) - (us @ [u]) ! i \<le> idleEviction) \<and> t - u \<le> idleEviction"
    by (simp add: less_Suc_eq_le le_less all_conj_distrib nth_append)
  then show ?thesis using snoc by (simp add: steady_def)
qed (simp add: steady_def)

lemma steady_append: "steady (us @ t # vs) \<Longrightarrow> steady (us @ [t])"
  unfolding steady_def by (auto simp: nth_append split: if_splits)

text \<open>What the limiter remembers of a key: its run of failures, or nothing once the run is idle for
  an hour and no longer locked.\<close>

definition run_of :: "Settings \<Rightarrow> int list \<Rightarrow> attempts" where
  "run_of s ts = \<lparr>failures = int (length ts),
     locked_until = (if length ts < 5 then zero_time else last ts + penalty s (length ts)), attempts_seen = last ts\<rparr>"

definition remembers :: "Settings \<Rightarrow> string \<Rightarrow> int list \<Rightarrow> int \<Rightarrow> Limiter \<Rightarrow> bool" where
  "remembers s k ts now l \<longleftrightarrow>
     (if ts = [] then failed l k = None
      else failed l k = Some (run_of s ts) \<or>
        failed l k = None \<and> idleEviction < now - last ts \<and> (length ts < 5 \<or> last ts + penalty s (length ts) \<le> now))"

lemma remembers_later: "remembers s k ts now l \<Longrightarrow> now \<le> t \<Longrightarrow> remembers s k ts t l"
  by (auto simp: remembers_def split: if_splits)

lemma remembers_sweep: "remembers s k ts now l \<Longrightarrow> remembers s k ts now (sweep now l)"
  by (auto simp: remembers_def sweep_def kept_if_def run_of_def split: if_splits)

lemma remembers_failed:
  assumes "s \<in> platform_settings" "remembers s k ts now l" "steady (ts @ [now])"
  shows "remembers s k (ts @ [now]) now (Failed s now k l)"
proof -
  have r: "remembers s k ts now (sweep now l)" by (rule remembers_sweep[OF assms(2)])
  note nums = platform_numbers[OF assms(1)]
  have delay: "lockout_delay s (int (Suc n)) = penalty s (Suc n)" if "5 \<le> Suc n" for n
    using doubling[OF assms(1), of "int (Suc n)"] that nums by (simp add: penalty_def nat_diff_distrib)
  show ?thesis
  proof (cases "ts = []")
    case True
    then show ?thesis using r nums by (simp add: remembers_def Failed_def Let_def run_of_def)
  next
    case False
    then have "failed (sweep now l) k = Some (run_of s ts)"
      using r assms(3) by (auto simp: remembers_def steady_snoc split: if_splits)
    then show ?thesis
      using nums delay[of "length ts"] by (auto simp: remembers_def Failed_def Let_def run_of_def add.commute)
  qed
qed

lemma remembers_step:
  assumes "s \<in> platform_settings" "remembers s k ts now l" "x \<noteq> OpSucceeded k" "x = OpFailed k \<longrightarrow> steady (ts @ [now])"
  shows "remembers s k (if x = OpFailed k then ts @ [now] else ts) now (step s now x l)"
proof (cases x)
  case (OpAllow c)
  have "failed (step s now x l) = failed l \<or> failed (step s now x l) = failed (sweep now l)"
    by (simp add: OpAllow Allow_def Let_def)
  then show ?thesis using assms(2) remembers_sweep[OF assms(2)] OpAllow by (auto simp: remembers_def)
next
  case (OpFailed j)
  show ?thesis
  proof (cases "j = k")
    case True
    then show ?thesis using remembers_failed[OF assms(1,2)] assms(4) OpFailed by simp
  next
    case False
    then show ?thesis using remembers_sweep[OF assms(2)] OpFailed by (simp add: remembers_def Failed_def Let_def)
  qed
qed (use assms in \<open>auto simp: remembers_def Succeeded_def\<close>)

lemma after_remembers:
  assumes "s \<in> platform_settings" "remembers s k ts t l" "sorted (t # map fst xs)" "\<forall>(u, x) \<in> set xs. x \<noteq> OpSucceeded k"
    and "steady (ts @ failed_at k xs)"
  shows "remembers s k (ts @ failed_at k xs) (last (t # map fst xs)) (after s xs l)"
  using assms(2-5)
proof (induction xs arbitrary: ts t l)
  case (Cons y xs)
  obtain now x where y: "y = (now, x)" by (cases y)
  let ?ts = "if x = OpFailed k then ts @ [now] else ts"
  have ts: "?ts @ failed_at k xs = ts @ failed_at k (y # xs)" by (simp add: failed_at_def y)
  have "steady (ts @ [now])" if "x = OpFailed k"
    using Cons.prems(4) that steady_append by (simp add: failed_at_def y)
  then have "remembers s k ?ts now (step s now x l)"
    using remembers_step[OF assms(1) remembers_later[OF Cons.prems(1)], of now x] Cons.prems(2,3) y by auto
  from Cons.IH[OF this] show ?case using Cons.prems(2-4) y ts by simp
qed (simp add: failed_at_def)

text \<open>C31: After failures of a key at most an hour apart with no success between them, whatever other
  keys and clients do and whatever is evicted, the key is locked exactly from its fifth failure
  on, for half a minute that doubles with each further one up to a quarter of an hour; the 64 bit
  shift that computes the doubling never locks for less.\<close>

theorem lockout_window:
  assumes "s \<in> platform_settings" "sorted (zero_time # map fst xs @ [now])"
    and "\<forall>(u, x) \<in> set xs. x \<noteq> OpSucceeded k" "steady (failed_at k xs)"
  shows "LockedOut now k (after s xs NewLimiter) =
    (let n = length (failed_at k xs); until = last (failed_at k xs) + min (900 * Second) (30 * Second * 2 ^ (n - 5))
     in if 5 \<le> n \<and> now < until then Some (until - now) else None)"
proof -
  let ?ts = "failed_at k xs" and ?l = "after s xs NewLimiter"
  note nums = platform_numbers[OF assms(1)]
  have "remembers s k ([] @ ?ts) (last (zero_time # map fst xs)) ?l"
    by (rule after_remembers[OF assms(1)]) (use assms(2-4) in \<open>auto simp: remembers_def NewLimiter_def sorted_append\<close>)
  moreover have "last (zero_time # map fst xs) \<le> now" "zero_time \<le> now"
    using assms(2) last_in_set[of "map fst xs"] by (auto simp: sorted_append simp del: set_map)
  ultimately have r: "remembers s k ?ts now ?l" "zero_time \<le> now" using remembers_later by force+
  have last: "last ?ts \<le> now" if "?ts \<noteq> []"
  proof -
    have "last ?ts \<in> set (map fst xs)" using last_in_set[OF that] by (auto simp: failed_at_def)
    then show ?thesis using assms(2) by (auto simp: sorted_append simp del: set_map)
  qed
  have pen: "penalty s n = min (900 * Second) (30 * Second * 2 ^ (n - 5))" if "5 \<le> n" for n
    using that nums by (simp add: penalty_def)
  have sub: "Sub (last ?ts + penalty s n) now = last ?ts + penalty s n - now"
    if "?ts \<noteq> []" "5 \<le> n" "now < last ?ts + penalty s n" for n
    using last[OF that(1)] that(3) pen[OF that(2)] by (simp add: Sub_def Second_def)
  show ?thesis
  proof (cases "failed ?l k")
    case None
    then show ?thesis using r(1) pen by (auto simp: LockedOut_def remembers_def Let_def split: if_splits)
  next
    case (Some a)
    then have "?ts \<noteq> []" "a = run_of s ?ts" using r(1) by (auto simp: remembers_def split: if_splits)
    then show ?thesis using Some r(2) sub[of "length ?ts"] pen[of "length ?ts"]
      by (auto simp: LockedOut_def run_of_def Let_def)
  qed
qed

theorem lockout_window_witness:
  "LockedOut (10 * Second) ''k'' (after SignInSettings (replicate 6 (0, OpFailed ''k'')) NewLimiter) = Some (50 * Second)"
proof -
  have six: "failed_at ''k'' (replicate 6 (0, OpFailed ''k'')) = replicate 6 0" by (simp add: failed_at_def)
  have "LockedOut (10 * Second) ''k'' (after SignInSettings (replicate 6 (0, OpFailed ''k'')) NewLimiter) =
    (let n = length (failed_at ''k'' (replicate 6 (0, OpFailed ''k'')));
         until = last (failed_at ''k'' (replicate 6 (0, OpFailed ''k''))) + min (900 * Second) (30 * Second * 2 ^ (n - 5))
     in if 5 \<le> n \<and> 10 * Second < until then Some (until - 10 * Second) else None)"
    by (rule lockout_window)
      (simp_all add: platform_settings_def six steady_def zero_time_def Second_def idleEviction_def sorted_append)
  then show ?thesis by (simp add: six Second_def Let_def)
qed

end
