(* ===== verification/Identity_Service.thy ===== *)
theory Identity_Service
  imports Identity_Rules Limiter
begin

text \<open>
  The use cases of \<^verbatim>\<open>internal/identity\<close> (\<^verbatim>\<open>service.go\<close>, \<^verbatim>\<open>session.go\<close>, \<^verbatim>\<open>tokens.go\<close>, \<^verbatim>\<open>invites.go\<close>,
  \<^verbatim>\<open>oauthgrant.go\<close>) over the interfaces the package declares: its \<open>Store\<close>, a mailer that may be
  absent, the clock, the source of random bytes, and the limiter it owns. Each is a record of
  functions on a world of any type; a use case threads the world through its calls in the order
  the code makes them. Log lines are left out.
\<close>

section \<open>Interfaces\<close>

record Account =
  ac_id :: ident
  ac_email :: string
  ac_display_name :: string
  ac_password_hash :: string
  ac_verified :: bool
  ac_disabled :: bool
  ac_is_admin :: bool
  ac_connected :: bool
  ac_created_at :: stamp

record NewAccount =
  nw_email :: string
  nw_password_hash :: string
  nw_display_name :: string

record TokenView =
  tv_id :: ident
  tv_account :: ident
  tv_name :: string
  tv_prefix :: string
  tv_created :: stamp
  tv_last_used :: string
  tv_expires :: string

record IdInvite =
  nv_code_hash :: string
  nv_note :: string
  nv_email :: string
  nv_created_by :: string
  nv_expires_at :: int

record IdClient =
  cl_id :: ident
  cl_name :: string
  cl_redirects :: "string list"
  cl_approved :: bool

record IdNewCode =
  nk_code_hash :: string
  nk_client :: ident
  nk_account :: ident
  nk_redirect :: string
  nk_challenge :: string
  nk_resource :: string
  nk_expires_at :: int

record IdCode =
  cd_client :: ident
  cd_account :: ident
  cd_redirect :: string
  cd_challenge :: string
  cd_resource :: string
  cd_token :: string
  cd_expires_at :: int
  cd_consumed :: bool

record IdGrant =
  gr_code_hash :: string
  gr_account :: ident
  gr_client :: ident
  gr_name :: string
  gr_token_hash :: string
  gr_prefix :: string

type_synonym ('w, 'a) id_call = "'w \<Rightarrow> (id_error + 'a) \<times> 'w"

record 'w IdStore =
  st_AccountByEmail :: "string \<Rightarrow> ('w, Account) id_call"
  st_AccountByID :: "ident \<Rightarrow> ('w, Account) id_call"
  st_ListAccounts :: "('w, Account list) id_call"
  st_MarkVerified :: "ident \<Rightarrow> ('w, unit) id_call"
  st_MarkConnected :: "ident \<Rightarrow> ('w, unit) id_call"
  st_SetPassword :: "ident \<Rightarrow> string \<Rightarrow> ('w, unit) id_call"
  st_SetDisabled :: "ident \<Rightarrow> bool \<Rightarrow> ('w, unit) id_call"
  st_CreateSession :: "ident \<Rightarrow> string \<Rightarrow> int \<Rightarrow> ('w, ident) id_call"
  st_RevokeSession :: "ident \<Rightarrow> ('w, unit) id_call"
  st_CreateLink :: "ident \<Rightarrow> string \<Rightarrow> string \<Rightarrow> int \<Rightarrow> ('w, unit) id_call"
  st_ConsumeLink :: "string \<Rightarrow> string \<Rightarrow> ('w, ident) id_call"
  st_CreateInvite :: "IdInvite \<Rightarrow> ('w, ident) id_call"
  st_ListInvites :: "('w, InviteRow list) id_call"
  st_RevokeInvite :: "ident \<Rightarrow> ('w, unit) id_call"
  st_LiveInvite :: "string \<Rightarrow> string \<Rightarrow> ('w, ident) id_call"
  st_SpendInvite :: "ident \<Rightarrow> NewAccount \<Rightarrow> ('w, Account) id_call"
  st_AnyAccountHasEmail :: "('w, bool) id_call"
  st_AnyLiveBootstrapInvite :: "('w, bool) id_call"
  st_MintToken :: "ident \<Rightarrow> string \<Rightarrow> string \<Rightarrow> string \<Rightarrow> int option \<Rightarrow> ('w, TokenView) id_call"
  st_GrantClientToken :: "IdGrant \<Rightarrow> ('w, TokenView) id_call"
  st_ListTokens :: "ident \<Rightarrow> ('w, TokenView list) id_call"
  st_TokenByID :: "ident \<Rightarrow> ('w, TokenView) id_call"
  st_RevokeToken :: "ident \<Rightarrow> ('w, unit) id_call"
  st_RegisterOAuthClient :: "string \<Rightarrow> string list \<Rightarrow> ('w, IdClient) id_call"
  st_OAuthClient :: "ident \<Rightarrow> ('w, IdClient) id_call"
  st_ApproveClientAndCreateCode :: "IdNewCode \<Rightarrow> ('w, unit) id_call"
  st_SweepOAuthClients :: "int \<Rightarrow> ('w, int) id_call"
  st_OAuthCode :: "string \<Rightarrow> ('w, IdCode) id_call"

text \<open>\<open>sv_random n\<close> is \<open>rand.Read\<close> of \<open>n\<close> bytes, \<open>sv_date\<close> the date of a time as \<open>time.DateOnly\<close> writes it
  and \<open>sv_rfc3339\<close> its UTC text; \<open>sv_mailer\<close> says whether a message went.\<close>

record 'w IdService =
  sv_store :: "'w IdStore"
  sv_mailer :: "(string \<Rightarrow> string \<Rightarrow> string \<Rightarrow> 'w \<Rightarrow> bool \<times> 'w) option"
  sv_now :: "'w \<Rightarrow> int \<times> 'w"
  sv_random :: "nat \<Rightarrow> 'w \<Rightarrow> string option \<times> 'w"
  sv_limits :: "'w \<Rightarrow> Limiter"
  sv_set_limits :: "Limiter \<Rightarrow> 'w \<Rightarrow> 'w"
  sv_settings :: Settings
  sv_libs :: Libs
  sv_memory :: nat
  sv_time :: nat
  sv_baseURL :: string
  sv_date :: "int \<Rightarrow> string"
  sv_rfc3339 :: "int \<Rightarrow> string"

text \<open>\<open>if err != nil { return err }\<close>.\<close>

definition and_then :: "(id_error + 'a) \<times> 'w \<Rightarrow> ('a \<Rightarrow> 'w \<Rightarrow> (id_error + 'b) \<times> 'w) \<Rightarrow> (id_error + 'b) \<times> 'w" where
  "and_then r k = attempt r (\<lambda>e w. (Inl e, w)) k"

definition checked :: "id_error + 'a \<Rightarrow> 'w \<Rightarrow> (id_error + 'a) \<times> 'w" where
  "checked r w = (r, w)"

section \<open>Parts the use cases share\<close>

definition clocked :: "'w IdService \<Rightarrow> (int \<Rightarrow> Limiter \<Rightarrow> Limiter) \<Rightarrow> 'w \<Rightarrow> 'w" where
  "clocked sv f w = (case sv_now sv w of (now, w1) \<Rightarrow> sv_set_limits sv (f now (sv_limits sv w1)) w1)"

definition LockedOut_call :: "'w IdService \<Rightarrow> string \<Rightarrow> 'w \<Rightarrow> bool \<times> 'w" where
  "LockedOut_call sv key w = (case sv_now sv w of (now, w1) \<Rightarrow> (LockedOut now key (sv_limits sv w1) \<noteq> None, w1))"

definition Failed_call :: "'w IdService \<Rightarrow> string \<Rightarrow> 'w \<Rightarrow> 'w" where
  "Failed_call sv key w = clocked sv (\<lambda>now. Failed (sv_settings sv) now key) w"

definition Succeeded_call :: "'w IdService \<Rightarrow> string \<Rightarrow> 'w \<Rightarrow> 'w" where
  "Succeeded_call sv key w = sv_set_limits sv (Succeeded key (sv_limits sv w)) w"

definition NewSecret :: "'w IdService \<Rightarrow> ('w, string) id_call" where
  "NewSecret sv w = (case sv_random sv tokenBytes w of
     (None, w1) \<Rightarrow> (Inl IdFault, w1) | (Some b, w1) \<Rightarrow> (Inr (raw_url b), w1))"

definition NewAPIToken :: "'w IdService \<Rightarrow> ('w, string) id_call" where
  "NewAPIToken sv w = and_then (NewSecret sv w) (\<lambda>body w. (Inr (APITokenPrefix @ body), w))"

definition Hash :: "'w IdService \<Rightarrow> string \<Rightarrow> ('w, string) id_call" where
  "Hash sv password w = (case sv_random sv argonSaltLen w of
     (None, w1) \<Rightarrow> (Inl IdFault, w1)
   | (Some salt, w1) \<Rightarrow> (Inr (HashWith (sv_libs sv) (sv_memory sv) (sv_time sv) salt password), w1))"

definition send :: "'w IdService \<Rightarrow> string \<Rightarrow> string \<Rightarrow> string \<Rightarrow> 'w \<Rightarrow> 'w" where
  "send sv to' subject body w = (case sv_mailer sv of None \<Rightarrow> w | Some m \<Rightarrow> snd (m to' subject body w))"

definition sendNow :: "'w IdService \<Rightarrow> string \<Rightarrow> string \<Rightarrow> string \<Rightarrow> 'w \<Rightarrow> id_error option \<times> 'w" where
  "sendNow sv to' subject body w = (case sv_mailer sv of
     None \<Rightarrow> (Some (Fail CodeMailUnavailable ''this platform has no mail sender configured''), w)
   | Some m \<Rightarrow> (case m to' subject body w of (ok, w1) \<Rightarrow> (if ok then None else Some IdFault, w1)))"

definition issueLink :: "'w IdService \<Rightarrow> ident \<Rightarrow> string \<Rightarrow> ('w, string) id_call" where
  "issueLink sv acc purpose w =
     and_then (NewSecret sv w) (\<lambda>raw w.
     case sv_now sv w of (now, w) \<Rightarrow>
     and_then (st_CreateLink (sv_store sv) acc purpose (HashSecret (sv_libs sv) raw) (now + LinkLifetime) w) (\<lambda>_ w.
     (Inr (linkURL (sv_baseURL sv) purpose raw), w)))"

definition credentialsInvalid :: id_error where
  "credentialsInvalid = Fail CodeCredentialsInvalid ''that email address and password do not match an account''"

definition inviteRefusal :: string where
  "inviteRefusal = ''registration on this platform is by invitation, and that invitation is not usable''"

definition linkInvalid :: id_error where
  "linkInvalid = Fail CodeLinkInvalid ''that link is not usable''"

definition notFound :: id_error where
  "notFound = Fail CodeNotFound ''no such thing''"

section \<open>Registration\<close>

definition Register :: "'w IdService \<Rightarrow> string \<Rightarrow> string \<Rightarrow> string \<Rightarrow> string \<Rightarrow> ('w, unit) id_call" where
  "Register sv invite rawEmail password name w =
     attempt (st_LiveInvite (sv_store sv) (HashSecret (sv_libs sv) invite) (NormalizeEmail (sv_libs sv) rawEmail) w)
       (\<lambda>e w. (Inl (if e = IdInviteInvalid then Fail CodeInviteInvalid inviteRefusal else e), w)) (\<lambda>inviteID w.
     and_then (checked (CheckEmail (sv_libs sv) rawEmail) w) (\<lambda>email w.
     case CheckPassword password of Some e \<Rightarrow> (Inl e, w) | None \<Rightarrow>
     if Option.is_none (sv_mailer sv) then
       (Inl (Fail CodeMailUnavailable ''this platform has no mail sender configured, so it cannot register anyone''), w)
     else
     and_then (Hash sv password w) (\<lambda>hash w.
     attempt (st_SpendInvite (sv_store sv) inviteID
         \<lparr>nw_email = email, nw_password_hash = hash, nw_display_name = DisplayNameFor (sv_libs sv) name email\<rparr> w)
       (\<lambda>e w. if e = IdInviteInvalid then (Inl (Fail CodeInviteInvalid inviteRefusal), w)
         else if e = IdEmailTaken then
           (Inr (), send sv email alreadyRegisteredSubject (alreadyRegisteredBody (sv_baseURL sv)) w)
         else (Inl e, w)) (\<lambda>account w.
     and_then (issueLink sv (ac_id account) PurposeVerify w) (\<lambda>link w.
     (Inr (), send sv email verifySubject (verifyBody link) w))))))"

definition VerifyEmail :: "'w IdService \<Rightarrow> string \<Rightarrow> ('w, unit) id_call" where
  "VerifyEmail sv rawToken w =
     attempt (st_ConsumeLink (sv_store sv) (HashSecret (sv_libs sv) rawToken) PurposeVerify w)
       (\<lambda>e w. (Inl (if e = IdLinkInvalid then linkInvalid else e), w)) (\<lambda>acc w.
     attempt (st_MarkVerified (sv_store sv) acc w)
       (\<lambda>e w. (if e = IdNotFound then Inr () else Inl e, w)) (\<lambda>_ w. (Inr (), w)))"

definition Resend :: "'w IdService \<Rightarrow> string \<Rightarrow> ('w, unit) id_call" where
  "Resend sv rawEmail w =
     (if Option.is_none (sv_mailer sv) then (Inl (Fail CodeMailUnavailable ''this platform has no mail sender configured''), w)
      else and_then (checked (CheckEmail (sv_libs sv) rawEmail) w) (\<lambda>email w.
        attempt (st_AccountByEmail (sv_store sv) email w)
          (\<lambda>e w. (if e = IdNotFound then Inr () else Inl e, w)) (\<lambda>account w.
        if ac_verified account \<or> ac_disabled account then (Inr (), w)
        else and_then (issueLink sv (ac_id account) PurposeVerify w) (\<lambda>link w.
          (Inr (), send sv email verifySubject (verifyBody link) w)))))"

section \<open>Sessions\<close>

definition Login :: "'w IdService \<Rightarrow> string \<Rightarrow> string \<Rightarrow> ('w, string \<times> Account) id_call" where
  "Login sv rawEmail password w =
     (let email = NormalizeEmail (sv_libs sv) rawEmail in
      case LockedOut_call sv email w of (locked, w) \<Rightarrow>
      if locked then (Inl (Fail CodeRateLimited ''too many failed sign ins, wait a moment''), w)
      else
      attempt (st_AccountByEmail (sv_store sv) email w)
        (\<lambda>e w. if e = IdNotFound then (Inl credentialsInvalid, Failed_call sv email w) else (Inl e, w)) (\<lambda>account w.
      if \<not> Verify (sv_libs sv) password (ac_password_hash account) \<or> ac_disabled account then
        (Inl credentialsInvalid, Failed_call sv email w)
      else if ac_email account = [] then (Inl credentialsInvalid, Failed_call sv email w)
      else if \<not> ac_verified account then
        (Inl (Fail CodeEmailUnverified ''confirm your email address before signing in''), w)
      else
      and_then (NewSecret sv w) (\<lambda>raw w.
      case sv_now sv w of (now, w) \<Rightarrow>
      and_then (st_CreateSession (sv_store sv) (ac_id account) (HashSecret (sv_libs sv) raw) (now + SessionLifetime) w) (\<lambda>_ w.
      (Inr (raw, account), Succeeded_call sv email w)))))"

definition Logout :: "'w IdService \<Rightarrow> ident \<Rightarrow> ('w, unit) id_call" where
  "Logout sv i w =
     attempt (st_RevokeSession (sv_store sv) i w)
       (\<lambda>e w. (if e = IdNotFound then Inr () else Inl e, w)) (\<lambda>_ w. (Inr (), w))"

definition Forgot :: "'w IdService \<Rightarrow> string \<Rightarrow> ('w, unit) id_call" where
  "Forgot sv rawEmail w =
     (if Option.is_none (sv_mailer sv) then (Inl (Fail CodeMailUnavailable ''this platform has no mail sender configured''), w)
      else let email = NormalizeEmail (sv_libs sv) rawEmail in
        attempt (st_AccountByEmail (sv_store sv) email w)
          (\<lambda>e w. (if e = IdNotFound then Inr () else Inl e, w)) (\<lambda>account w.
        if ac_disabled account \<or> ac_email account = [] then (Inr (), w)
        else and_then (issueLink sv (ac_id account) PurposeReset w) (\<lambda>link w.
          (Inr (), send sv email resetSubject (resetBody link) w))))"

definition Reset :: "'w IdService \<Rightarrow> string \<Rightarrow> string \<Rightarrow> ('w, unit) id_call" where
  "Reset sv rawToken password w =
     (case CheckPassword password of Some e \<Rightarrow> (Inl e, w) | None \<Rightarrow>
      and_then (Hash sv password w) (\<lambda>hash w.
      attempt (st_ConsumeLink (sv_store sv) (HashSecret (sv_libs sv) rawToken) PurposeReset w)
        (\<lambda>e w. (Inl (if e = IdLinkInvalid then linkInvalid else e), w)) (\<lambda>acc w.
      st_SetPassword (sv_store sv) acc hash w)))"

section \<open>Tokens\<close>

definition prepareMint :: "'w IdService \<Rightarrow> Account \<Rightarrow> ('w, string \<times> string \<times> string) id_call" where
  "prepareMint sv account w =
     (if ac_email account \<noteq> [] \<and> \<not> ac_verified account then
        (Inl (Fail CodeEmailUnverified ''confirm your email address before minting a token''), w)
      else and_then (NewAPIToken sv w) (\<lambda>raw w. (Inr (raw, HashSecret (sv_libs sv) raw, TokenPrefix raw), w)))"

definition MintToken :: "'w IdService \<Rightarrow> Account \<Rightarrow> string \<Rightarrow> int \<Rightarrow> ('w, string \<times> TokenView) id_call" where
  "MintToken sv account name days w =
     (if name = [] then (Inl (Fail CodeTokenNameTaken ''a token needs a name''), w)
      else case sv_now sv w of (now, w) \<Rightarrow>
      and_then (checked (TokenExpiry now days) w) (\<lambda>expires w.
      and_then (prepareMint sv account w) (\<lambda>(raw, hash, prefix) w.
      attempt (st_MintToken (sv_store sv) (ac_id account) name hash prefix expires w)
        (\<lambda>e w. (Inl (if e = IdTokenNameTaken then Fail CodeTokenNameTaken ''you already have a live token by that name'' else e), w))
        (\<lambda>view w. (Inr (raw, view), w)))))"

definition MarkConnected :: "'w IdService \<Rightarrow> ident \<Rightarrow> ('w, unit) id_call" where
  "MarkConnected sv i w = st_MarkConnected (sv_store sv) i w"

definition ListTokens :: "'w IdService \<Rightarrow> ident \<Rightarrow> ('w, TokenView list) id_call" where
  "ListTokens sv i w = st_ListTokens (sv_store sv) i w"

definition RevokeToken :: "'w IdService \<Rightarrow> ident \<Rightarrow> ident \<Rightarrow> ('w, unit) id_call" where
  "RevokeToken sv acc tok w =
     attempt (st_TokenByID (sv_store sv) tok w)
       (\<lambda>e w. (Inl (if e = IdNotFound then notFound else e), w)) (\<lambda>view w.
     if tv_account view \<noteq> acc then (Inl notFound, w)
     else attempt (st_RevokeToken (sv_store sv) tok w)
       (\<lambda>e w. (Inl (if e = IdNotFound then notFound else e), w)) (\<lambda>_ w. (Inr (), w)))"

definition RevokeTokenOf :: "'w IdService \<Rightarrow> ident \<Rightarrow> ident \<Rightarrow> ('w, unit) id_call" where
  "RevokeTokenOf sv acc tok w = RevokeToken sv acc tok w"

definition ListAccounts_call :: "'w IdService \<Rightarrow> ('w, Account list) id_call" where
  "ListAccounts_call sv w = st_ListAccounts (sv_store sv) w"

definition SetDisabled :: "'w IdService \<Rightarrow> ident \<Rightarrow> bool \<Rightarrow> ('w, unit) id_call" where
  "SetDisabled sv acc disabled w =
     attempt (st_SetDisabled (sv_store sv) acc disabled w)
       (\<lambda>e w. (Inl (if e = IdNotFound then notFound else e), w)) (\<lambda>_ w. (Inr (), w))"

definition AccountByID :: "'w IdService \<Rightarrow> ident \<Rightarrow> ('w, Account) id_call" where
  "AccountByID sv i w =
     attempt (st_AccountByID (sv_store sv) i w)
       (\<lambda>e w. (Inl (if e = IdNotFound then notFound else e), w)) (\<lambda>a w. (Inr a, w))"

section \<open>Invites\<close>

record IssuedInvite =
  is_id :: ident
  is_note :: string
  is_expires :: string
  is_link :: string
  is_email :: string
  is_sent :: bool

definition mintInvite :: "'w IdService \<Rightarrow> ident \<Rightarrow> string \<Rightarrow> string \<Rightarrow> ('w, IssuedInvite) id_call" where
  "mintInvite sv admin note email w =
     and_then (NewSecret sv w) (\<lambda>raw w.
     case sv_now sv w of (now, w) \<Rightarrow>
     and_then (st_CreateInvite (sv_store sv) \<lparr>nv_code_hash = HashSecret (sv_libs sv) raw, nv_note = note, nv_email = email,
         nv_created_by = admin, nv_expires_at = now + InviteLifetime\<rparr> w) (\<lambda>i w.
     (Inr \<lparr>is_id = i, is_note = note, is_expires = sv_rfc3339 sv (now + InviteLifetime),
           is_link = inviteURL (sv_baseURL sv) raw, is_email = email, is_sent = False\<rparr>, w)))"

definition thePlatform :: string where
  "thePlatform = ''the platform''"

definition inviterName :: "'w IdService \<Rightarrow> ident \<Rightarrow> 'w \<Rightarrow> string \<times> 'w" where
  "inviterName sv admin w =
     attempt (st_AccountByID (sv_store sv) admin w) (\<lambda>e w. (thePlatform, w))
       (\<lambda>a w. (if ac_display_name a = [] then thePlatform else ac_display_name a, w))"

definition IssueInvite :: "'w IdService \<Rightarrow> ident \<Rightarrow> string \<Rightarrow> string \<Rightarrow> ('w, IssuedInvite) id_call" where
  "IssueInvite sv admin rawNote rawEmail w =
     and_then (checked (CheckNote (sv_libs sv) rawNote) w) (\<lambda>note w.
     and_then
       (if TrimSpace (lib_runes (sv_libs sv) rawEmail) = [] then (Inr [], w)
        else and_then (checked (CheckEmail (sv_libs sv) rawEmail) w) (\<lambda>email w.
          if Option.is_none (sv_mailer sv)
          then (Inl (Fail CodeMailUnavailable ''this platform has no mail sender configured, so it cannot send an invite''), w)
          else (Inr email, w))) (\<lambda>email w.
     attempt (mintInvite sv admin note email w)
       (\<lambda>e w. (Inl (if e = IdAddressRegistered
          then Fail CodeAddressRegistered ''that address already has an account, so there is nobody to invite'' else e), w))
       (\<lambda>issued w.
     if email = [] then (Inr issued, w)
     else case inviterName sv admin w of (name, w) \<Rightarrow>
       (case sendNow sv email inviteSubject (inviteBody name (is_link issued) (InviteLifetime div nanosecond_day)) w of
          (e, w) \<Rightarrow> (Inr (issued\<lparr>is_sent := (e = None)\<rparr>), w)))))"

record InviteView =
  vw_id :: ident
  vw_note :: string
  vw_email :: string
  vw_issued_by :: string
  vw_spent_by :: string
  vw_expires :: stamp
  vw_created :: stamp
  vw_state :: InviteState

definition ListInvites_call :: "'w IdService \<Rightarrow> ('w, InviteView list) id_call" where
  "ListInvites_call sv w =
     and_then (st_ListInvites (sv_store sv) w) (\<lambda>rows w.
     case sv_now sv w of (now, w) \<Rightarrow>
     (Inr (map (\<lambda>r. \<lparr>vw_id = iv_id r, vw_note = iv_note r, vw_email = iv_email r,
        vw_issued_by = (if iv_issuer r = [] then thePlatform else iv_issuer r), vw_spent_by = iv_spender r,
        vw_expires = iv_expires r, vw_created = iv_created r, vw_state = InviteStateOf (sv_libs sv) r now\<rparr>) rows), w))"

definition RevokeInvite_call :: "'w IdService \<Rightarrow> ident \<Rightarrow> ('w, unit) id_call" where
  "RevokeInvite_call sv i w =
     attempt (st_RevokeInvite (sv_store sv) i w)
       (\<lambda>e w. (Inl (if e = IdNotFound then Fail CodeNotFound ''there is no live invite by that id'' else e), w))
       (\<lambda>_ w. (Inr (), w))"

definition BootstrapInvite :: "'w IdService \<Rightarrow> ('w, string option) id_call" where
  "BootstrapInvite sv w =
     and_then (st_AnyAccountHasEmail (sv_store sv) w) (\<lambda>registered w.
     if registered then (Inr None, w)
     else and_then (st_AnyLiveBootstrapInvite (sv_store sv) w) (\<lambda>outstanding w.
     if outstanding then (Inr None, w)
     else and_then (mintInvite sv [] [] [] w) (\<lambda>issued w. (Inr (Some (is_link issued)), w))))"

section \<open>The authorization server\<close>

definition RegisterClient :: "'w IdService \<Rightarrow> string \<Rightarrow> string list \<Rightarrow> ('w, IdClient) id_call" where
  "RegisterClient sv name uris w =
     (if length (lib_runes (sv_libs sv) name) > MaxClientNameLen then (Inl IdClientMetadataInvalid, w)
      else if uris = [] then (Inl IdClientMetadataInvalid, w)
      else if length uris > MaxRedirectURIs then (Inl IdRedirectURIInvalid, w)
      else if list_ex (\<lambda>u. \<not> CheckRedirectURI (sv_libs sv) u) uris then (Inl IdRedirectURIInvalid, w)
      else st_RegisterOAuthClient (sv_store sv) (CleanClientName (sv_libs sv) name) uris w)"

definition Client :: "'w IdService \<Rightarrow> ident \<Rightarrow> ('w, IdClient) id_call" where
  "Client sv i w = st_OAuthClient (sv_store sv) i w"

definition ApproveClient ::
  "'w IdService \<Rightarrow> ident \<Rightarrow> ident \<Rightarrow> string \<Rightarrow> string \<Rightarrow> string \<Rightarrow> ('w, string) id_call" where
  "ApproveClient sv client acc redirect challenge resource w =
     and_then (NewSecret sv w) (\<lambda>raw w.
     case sv_now sv w of (now, w) \<Rightarrow>
     and_then (st_ApproveClientAndCreateCode (sv_store sv) \<lparr>nk_code_hash = HashSecret (sv_libs sv) raw, nk_client = client,
         nk_account = acc, nk_redirect = redirect, nk_challenge = challenge, nk_resource = resource,
         nk_expires_at = now + CodeLifetime\<rparr> w) (\<lambda>_ w. (Inr raw, w)))"

definition SweepClients :: "'w IdService \<Rightarrow> ('w, int) id_call" where
  "SweepClients sv w = (case sv_now sv w of (now, w) \<Rightarrow> st_SweepOAuthClients (sv_store sv) (now - ClientRetention) w)"

record GrantRequest =
  rq_client :: ident
  rq_code :: string
  rq_redirect :: string
  rq_verifier :: string
  rq_resource :: string

definition grantNameAttempts :: nat where "grantNameAttempts = 50"

definition connectorTokenName :: "'w IdService \<Rightarrow> string \<Rightarrow> int \<Rightarrow> string" where
  "connectorTokenName sv clientName now =
     (let label = CleanClientName (sv_libs sv) clientName
      in (if label = [] then ''Connector'' else label) @ '' '' @ sv_date sv now)"

definition revokeReplayed :: "'w IdService \<Rightarrow> IdCode \<Rightarrow> 'w \<Rightarrow> 'w" where
  "revokeReplayed sv code w = (if cd_token code = [] then w else snd (st_RevokeToken (sv_store sv) (cd_token code) w))"

text \<open>The attempts still to come are the fuel of the loop, so \<open>fuel\<close> is never short.\<close>

fun grant_loop :: "'w IdService \<Rightarrow> IdGrant \<Rightarrow> string \<Rightarrow> string \<Rightarrow> nat \<Rightarrow> nat \<Rightarrow> ('w, string \<times> TokenView) id_call" where
  "grant_loop sv g base raw attempt' 0 w = (Inl IdFault, w)"
| "grant_loop sv g base raw attempt' (Suc left) w =
     attempt (st_GrantClientToken (sv_store sv)
         (g\<lparr>gr_name := (if attempt' > 0 then base @ '' ('' @ decimal (attempt' + 1) @ '')'' else base)\<rparr>) w)
       (\<lambda>e w. if e = IdTokenNameTaken then grant_loop sv g base raw (attempt' + 1) left w else (Inl e, w))
       (\<lambda>view w. (Inr (raw, view), w))"

definition grant_checks :: "'w IdService \<Rightarrow> GrantRequest \<Rightarrow> IdCode \<Rightarrow> int \<Rightarrow> bool" where
  "grant_checks sv req code now \<longleftrightarrow>
     cd_client code = rq_client req \<and> cd_redirect code = rq_redirect req \<and> now < cd_expires_at code \<and>
     (rq_resource req = [] \<or> rq_resource req = cd_resource code) \<and>
     VerifyPKCE (sv_libs sv) (cd_challenge code) (rq_verifier req)"

text \<open>The clock is read only once the client and the redirect agree; it has no other effect.\<close>

definition Grant :: "'w IdService \<Rightarrow> GrantRequest \<Rightarrow> ('w, string \<times> TokenView) id_call" where
  "Grant sv req w =
     (let codeHash = HashSecret (sv_libs sv) (rq_code req) in
      attempt (st_OAuthCode (sv_store sv) codeHash w)
        (\<lambda>e w. (Inl (if e = IdNotFound then IdGrantInvalid else e), w)) (\<lambda>code w.
      if cd_consumed code then
        (Inl IdGrantInvalid,
         if \<not> VerifyPKCE (sv_libs sv) (cd_challenge code) (rq_verifier req) then revokeReplayed sv code w else w)
      else case sv_now sv w of (now, w) \<Rightarrow>
      if \<not> grant_checks sv req code now then (Inl IdGrantInvalid, w)
      else
      and_then (st_AccountByID (sv_store sv) (cd_account code) w) (\<lambda>account w.
      and_then (st_OAuthClient (sv_store sv) (cd_client code) w) (\<lambda>client w.
      and_then (prepareMint sv account w) (\<lambda>(raw, hash, prefix) w.
      case sv_now sv w of (now, w) \<Rightarrow>
      grant_loop sv \<lparr>gr_code_hash = codeHash, gr_account = ac_id account, gr_client = cl_id client, gr_name = [],
          gr_token_hash = hash, gr_prefix = prefix\<rparr>
        (connectorTokenName sv (cl_name client) now) raw 0 grantNameAttempts w)))))"

end
