(* ===== verification/Identity_Laws.thy ===== *)
theory Identity_Laws
  imports Identity_Service
begin

text \<open>
  The contract the use cases of \<open>Identity_Service\<close> rely on, as a locale over their interfaces: every
  single call moves the world up a preorder, a code that was read back keeps its client, and a
  grant is only ever asked for with that client. Under it every use case moves the world up,
  however its calls are answered.
\<close>

section \<open>Requests to the identity service\<close>

datatype use_case =
    UcRegister string string string string
  | UcVerifyEmail string
  | UcResend string
  | UcLogin string string
  | UcLogout ident
  | UcForgot string
  | UcReset string string
  | UcMintToken Account string int
  | UcMarkConnected ident
  | UcListTokens ident
  | UcRevokeToken ident ident
  | UcListAccounts
  | UcSetDisabled ident bool
  | UcAccountByID ident
  | UcIssueInvite ident string string
  | UcListInvites
  | UcRevokeInvite ident
  | UcBootstrapInvite
  | UcRegisterClient string "string list"
  | UcClient ident
  | UcApproveClient ident ident string string string
  | UcSweepClients
  | UcGrant GrantRequest

text \<open>The world a use case leaves.\<close>

fun serve_identity :: "'w IdService \<Rightarrow> use_case \<Rightarrow> 'w \<Rightarrow> 'w" where
  "serve_identity sv (UcRegister invite email password name) w = snd (Register sv invite email password name w)"
| "serve_identity sv (UcVerifyEmail raw) w = snd (VerifyEmail sv raw w)"
| "serve_identity sv (UcResend email) w = snd (Resend sv email w)"
| "serve_identity sv (UcLogin email password) w = snd (Login sv email password w)"
| "serve_identity sv (UcLogout i) w = snd (Logout sv i w)"
| "serve_identity sv (UcForgot email) w = snd (Forgot sv email w)"
| "serve_identity sv (UcReset raw password) w = snd (Reset sv raw password w)"
| "serve_identity sv (UcMintToken acc name days) w = snd (MintToken sv acc name days w)"
| "serve_identity sv (UcMarkConnected i) w = snd (MarkConnected sv i w)"
| "serve_identity sv (UcListTokens i) w = snd (ListTokens sv i w)"
| "serve_identity sv (UcRevokeToken acc tok) w = snd (RevokeToken sv acc tok w)"
| "serve_identity sv UcListAccounts w = snd (ListAccounts_call sv w)"
| "serve_identity sv (UcSetDisabled i disabled) w = snd (SetDisabled sv i disabled w)"
| "serve_identity sv (UcAccountByID i) w = snd (AccountByID sv i w)"
| "serve_identity sv (UcIssueInvite admin note email) w = snd (IssueInvite sv admin note email w)"
| "serve_identity sv UcListInvites w = snd (ListInvites_call sv w)"
| "serve_identity sv (UcRevokeInvite i) w = snd (RevokeInvite_call sv i w)"
| "serve_identity sv UcBootstrapInvite w = snd (BootstrapInvite sv w)"
| "serve_identity sv (UcRegisterClient name uris) w = snd (RegisterClient sv name uris w)"
| "serve_identity sv (UcClient i) w = snd (Client sv i w)"
| "serve_identity sv (UcApproveClient client acc redirect challenge resource) w =
     snd (ApproveClient sv client acc redirect challenge resource w)"
| "serve_identity sv UcSweepClients w = snd (SweepClients sv w)"
| "serve_identity sv (UcGrant req) w = snd (Grant sv req w)"

section \<open>The contract\<close>

locale identity_calls =
  fixes sv :: "'w IdService" and le :: "'w \<Rightarrow> 'w \<Rightarrow> bool"
    and good :: "'w \<Rightarrow> bool" and issued :: "string \<Rightarrow> ident \<Rightarrow> 'w \<Rightarrow> bool"
  assumes le_refl: "le w w"
    and le_trans: "le u v \<Longrightarrow> le v w \<Longrightarrow> le u w"
    and good_on: "good v \<Longrightarrow> le v w \<Longrightarrow> good w"
    and issued_on: "issued h c v \<Longrightarrow> le v w \<Longrightarrow> issued h c w"
    and by_email_on: "le w (snd (st_AccountByEmail (sv_store sv) email w))"
    and by_id_on: "le w (snd (st_AccountByID (sv_store sv) i w))"
    and accounts_on: "le w (snd (st_ListAccounts (sv_store sv) w))"
    and verified_on: "le w (snd (st_MarkVerified (sv_store sv) i w))"
    and connected_on: "le w (snd (st_MarkConnected (sv_store sv) i w))"
    and password_on: "le w (snd (st_SetPassword (sv_store sv) i hash w))"
    and disabled_on: "le w (snd (st_SetDisabled (sv_store sv) i b w))"
    and session_on: "le w (snd (st_CreateSession (sv_store sv) i hash t w))"
    and sign_out_on: "le w (snd (st_RevokeSession (sv_store sv) i w))"
    and link_on: "le w (snd (st_CreateLink (sv_store sv) i purpose hash t w))"
    and consume_on: "le w (snd (st_ConsumeLink (sv_store sv) hash purpose w))"
    and invite_on: "le w (snd (st_CreateInvite (sv_store sv) nv w))"
    and invites_on: "le w (snd (st_ListInvites (sv_store sv) w))"
    and revoke_invite_on: "le w (snd (st_RevokeInvite (sv_store sv) i w))"
    and live_invite_on: "le w (snd (st_LiveInvite (sv_store sv) hash email w))"
    and spend_on: "le w (snd (st_SpendInvite (sv_store sv) i m w))"
    and any_email_on: "le w (snd (st_AnyAccountHasEmail (sv_store sv) w))"
    and any_invite_on: "le w (snd (st_AnyLiveBootstrapInvite (sv_store sv) w))"
    and mint_on: "le w (snd (st_MintToken (sv_store sv) i name hash shown ot w))"
    and tokens_on: "le w (snd (st_ListTokens (sv_store sv) i w))"
    and token_on: "le w (snd (st_TokenByID (sv_store sv) i w))"
    and revoke_on: "le w (snd (st_RevokeToken (sv_store sv) i w))"
    and register_client_on: "le w (snd (st_RegisterOAuthClient (sv_store sv) name uris w))"
    and client_on: "le w (snd (st_OAuthClient (sv_store sv) i w))"
    and approve_on: "le w (snd (st_ApproveClientAndCreateCode (sv_store sv) k w))"
    and sweep_on: "le w (snd (st_SweepOAuthClients (sv_store sv) t w))"
    and code_on: "le w (snd (st_OAuthCode (sv_store sv) hash w))"
    and grant_on: "issued (gr_code_hash g) (gr_client g) w \<Longrightarrow> le w (snd (st_GrantClientToken (sv_store sv) g w))"
    and code_issued: "good w \<Longrightarrow> st_OAuthCode (sv_store sv) hash w = (Inr code, w') \<Longrightarrow> issued hash (cd_client code) w'"
    and client_named: "st_OAuthClient (sv_store sv) i w = (Inr client, w') \<Longrightarrow> cl_id client = i"
    and clock_on: "le w (snd (sv_now sv w))"
    and random_on: "le w (snd (sv_random sv n w))"
    and mail_on: "sv_mailer sv = Some mail \<Longrightarrow> le w (snd (mail to' subject body w))"
    and limits_on: "le w (sv_set_limits sv l w)"
begin

lemmas calls = by_email_on by_id_on accounts_on verified_on connected_on password_on disabled_on session_on sign_out_on
  link_on consume_on invite_on invites_on revoke_invite_on live_invite_on spend_on any_email_on any_invite_on mint_on
  tokens_on token_on revoke_on register_client_on client_on approve_on sweep_on code_on clock_on random_on limits_on

lemmas on = calls[THEN le_trans[rotated]]

lemma attempt_on:
  assumes "le u (snd r)" "\<And>e w. le u w \<Longrightarrow> le u (snd (bad e w))" "\<And>a w. le u w \<Longrightarrow> le u (snd (ok a w))"
  shows "le u (snd (attempt r bad ok))"
  using assms by (cases r; cases "fst r") (auto simp: attempt_def)

lemma and_then_on:
  assumes "le u (snd r)" "\<And>a w. le u w \<Longrightarrow> le u (snd (k a w))"
  shows "le u (snd (and_then r k))"
  unfolding and_then_def using assms by (auto intro: attempt_on)

lemma case_on: "le u (snd r) \<Longrightarrow> (\<And>a w. le u w \<Longrightarrow> le u (snd (f a w))) \<Longrightarrow> le u (snd (case r of (a, w) \<Rightarrow> f a w))"
  by (cases r) simp

lemma done_on: "le u w \<Longrightarrow> le u (snd (a, w))"
  by simp

lemma if_on: "(b \<Longrightarrow> le u (snd x)) \<Longrightarrow> (\<not> b \<Longrightarrow> le u (snd y)) \<Longrightarrow> le u (snd (if b then x else y))"
  by simp

lemma option_on:
  "le u (snd x) \<Longrightarrow> (\<And>a. r = Some a \<Longrightarrow> le u (snd (f a))) \<Longrightarrow> le u (snd (case r of None \<Rightarrow> x | Some a \<Rightarrow> f a))"
  by (cases r) simp_all

lemma refused_on:
  "(\<And>e. r = Some e \<Longrightarrow> le u (snd (f e))) \<Longrightarrow> le u (snd x) \<Longrightarrow> le u (snd (case r of Some e \<Rightarrow> f e | None \<Rightarrow> x))"
  by (cases r) simp_all

lemma checked_on: "le u w \<Longrightarrow> le u (snd (checked r w))"
  by (simp add: checked_def)

lemma clocked_on: "le u w \<Longrightarrow> le u (clocked sv f w)"
  unfolding clocked_def using on(28)[of u w] by (cases "sv_now sv w") (simp add: on)

lemma failed_on: "le u w \<Longrightarrow> le u (Failed_call sv key w)"
  by (simp add: Failed_call_def clocked_on)

lemma succeeded_on: "le u w \<Longrightarrow> le u (Succeeded_call sv key w)"
  by (simp add: Succeeded_call_def on)

lemma locked_on: "le u w \<Longrightarrow> le u (snd (LockedOut_call sv key w))"
  unfolding LockedOut_call_def by (intro case_on on done_on)

lemma secret_on: "le u w \<Longrightarrow> le u (snd (NewSecret sv w))"
  unfolding NewSecret_def using on(29)[of u w tokenBytes]
  by (cases "sv_random sv tokenBytes w"; cases "fst (sv_random sv tokenBytes w)") auto

lemma hash_on: "le u w \<Longrightarrow> le u (snd (Hash sv password w))"
  unfolding Hash_def using on(29)[of u w argonSaltLen]
  by (cases "sv_random sv argonSaltLen w"; cases "fst (sv_random sv argonSaltLen w)") auto

lemma send_on: "le u w \<Longrightarrow> le u (send sv to' subject body w)"
  unfolding send_def using mail_on le_trans by (auto split: option.splits)

lemma send_now_on: "le u w \<Longrightarrow> le u (snd (sendNow sv to' subject body w))"
  unfolding sendNow_def using mail_on[THEN le_trans[rotated]] by (auto intro!: case_on split: option.splits)

lemma pair_on: "(\<And>a b. le u (snd (f a b w))) \<Longrightarrow> le u (snd ((case x of (a, b) \<Rightarrow> f a b) w))"
  by (cases x) simp

lemmas flow = pair_on attempt_on and_then_on case_on if_on option_on done_on checked_on failed_on succeeded_on secret_on hash_on
  send_on send_now_on locked_on on

lemma link_flow: "le u w \<Longrightarrow> le u (snd (issueLink sv acc purpose w))"
  unfolding issueLink_def by (intro flow)

lemma mint_flow: "le u w \<Longrightarrow> le u (snd (prepareMint sv account w))"
  unfolding prepareMint_def NewAPIToken_def by (intro flow)

lemma invite_flow: "le u w \<Longrightarrow> le u (snd (mintInvite sv admin note email w))"
  unfolding mintInvite_def by (intro flow)

lemma inviter_flow: "le u w \<Longrightarrow> le u (snd (inviterName sv admin w))"
  unfolding inviterName_def by (intro flow)

lemmas parts = link_flow mint_flow invite_flow inviter_flow

lemma register_flow: "le u w \<Longrightarrow> le u (snd (Register sv invite email password name w))"
  unfolding Register_def by (intro refused_on flow parts)

lemma sign_in_flow: "le u w \<Longrightarrow> le u (snd (Login sv email password w))"
  unfolding Login_def Let_def by (intro flow parts)

lemma grant_loop_flow:
  assumes "issued (gr_code_hash g) (gr_client g) u"
  shows "le u w \<Longrightarrow> le u (snd (grant_loop sv g base raw n left w))"
proof (induction left arbitrary: n w)
  case (Suc left)
  let ?g = "g\<lparr>gr_name := if n > 0 then base @ '' ('' @ decimal (n + 1) @ '')'' else base\<rparr>"
  have "issued (gr_code_hash ?g) (gr_client ?g) w" using issued_on[OF assms Suc.prems] by simp
  then have "le u (snd (st_GrantClientToken (sv_store sv) ?g w))" by (rule le_trans[OF Suc.prems grant_on])
  then show ?case unfolding grant_loop.simps by (intro attempt_on if_on done_on Suc.IH)
qed simp

lemma revoke_replayed_flow: "le u w \<Longrightarrow> le u (revokeReplayed sv code w)"
  by (simp add: revokeReplayed_def on)

text \<open>What a call answers, kept beside the world it leaves.\<close>

lemma attempt_known:
  assumes "le u (snd r)" "\<And>e w. le u w \<Longrightarrow> le u (snd (bad e w))"
    and "\<And>a w. r = (Inr a, w) \<Longrightarrow> le u w \<Longrightarrow> le u (snd (ok a w))"
  shows "le u (snd (attempt r bad ok))"
  using assms by (cases r; cases "fst r") (auto simp: attempt_def)

lemma and_then_known:
  assumes "le u (snd r)" "\<And>a w. r = (Inr a, w) \<Longrightarrow> le u w \<Longrightarrow> le u (snd (k a w))"
  shows "le u (snd (and_then r k))"
  unfolding and_then_def using assms by (auto intro: attempt_known)

lemma exchange_flow:
  assumes "issued h c v" "le v w"
  shows "le v (snd (and_then (st_OAuthClient (sv_store sv) c w) (\<lambda>client w. and_then (prepareMint sv account w)
    (\<lambda>(raw, hash, shown) w. case sv_now sv w of (now, w) \<Rightarrow> grant_loop sv \<lparr>gr_code_hash = h, gr_account = ac_id account,
      gr_client = cl_id client, gr_name = [], gr_token_hash = hash, gr_prefix = shown\<rparr>
      (connectorTokenName sv (cl_name client) now) raw 0 grantNameAttempts w))))"
proof (rule and_then_known[OF le_trans[OF assms(2) client_on]])
  fix client w1
  assume client: "st_OAuthClient (sv_store sv) c w = (Inr client, w1)" "le v w1"
  have "issued h (cl_id client) v" using assms(1) client_named[OF client(1)] by simp
  then show "le v (snd (and_then (prepareMint sv account w1) (\<lambda>(raw, hash, shown) w. case sv_now sv w of (now, w) \<Rightarrow>
      grant_loop sv \<lparr>gr_code_hash = h, gr_account = ac_id account, gr_client = cl_id client, gr_name = [],
        gr_token_hash = hash, gr_prefix = shown\<rparr> (connectorTokenName sv (cl_name client) now) raw 0 grantNameAttempts w)))"
    using client(2) by (auto intro!: and_then_on parts case_on on grant_loop_flow split: prod.splits)
qed

lemma grant_flow:
  assumes "good w"
  shows "le w (snd (Grant sv req w))"
  unfolding Grant_def Let_def
proof (rule attempt_known[OF code_on])
  let ?h = "HashSecret (sv_libs sv) (rq_code req)"
  fix code w1
  assume code: "st_OAuthCode (sv_store sv) ?h w = (Inr code, w1)" "le w w1"
  have issued: "issued ?h (cd_client code) v" if "le w1 v" for v by (rule issued_on[OF code_issued[OF assms code(1)] that])
  have late: "le w1 u" if "le w1 u" for u using that .
  have "le w1 (snd (if cd_consumed code then (Inl IdGrantInvalid,
         if \<not> VerifyPKCE (sv_libs sv) (cd_challenge code) (rq_verifier req) then revokeReplayed sv code w1 else w1)
      else case sv_now sv w1 of (now, w) \<Rightarrow>
      if \<not> grant_checks sv req code now then (Inl IdGrantInvalid, w)
      else
      and_then (st_AccountByID (sv_store sv) (cd_account code) w) (\<lambda>account w.
      and_then (st_OAuthClient (sv_store sv) (cd_client code) w) (\<lambda>client w.
      and_then (prepareMint sv account w) (\<lambda>(raw, hash, shown) w.
      case sv_now sv w of (now, w) \<Rightarrow>
      grant_loop sv \<lparr>gr_code_hash = ?h, gr_account = ac_id account, gr_client = cl_id client, gr_name = [],
          gr_token_hash = hash, gr_prefix = shown\<rparr>
        (connectorTokenName sv (cl_name client) now) raw 0 grantNameAttempts w)))))"
    by (intro if_on case_on and_then_on exchange_flow[OF issued] on) (simp_all add: revoke_replayed_flow le_refl)
  then show "le w (snd (if cd_consumed code then (Inl IdGrantInvalid,
         if \<not> VerifyPKCE (sv_libs sv) (cd_challenge code) (rq_verifier req) then revokeReplayed sv code w1 else w1)
      else case sv_now sv w1 of (now, w) \<Rightarrow>
      if \<not> grant_checks sv req code now then (Inl IdGrantInvalid, w)
      else
      and_then (st_AccountByID (sv_store sv) (cd_account code) w) (\<lambda>account w.
      and_then (st_OAuthClient (sv_store sv) (cd_client code) w) (\<lambda>client w.
      and_then (prepareMint sv account w) (\<lambda>(raw, hash, shown) w.
      case sv_now sv w of (now, w) \<Rightarrow>
      grant_loop sv \<lparr>gr_code_hash = ?h, gr_account = ac_id account, gr_client = cl_id client, gr_name = [],
          gr_token_hash = hash, gr_prefix = shown\<rparr>
        (connectorTokenName sv (cl_name client) now) raw 0 grantNameAttempts w)))))"
    by (rule le_trans[OF code(2)])
qed (simp_all add: le_refl)

lemma mail_flow:
  "le u w \<Longrightarrow> le u (snd (VerifyEmail sv raw w))" "le u w \<Longrightarrow> le u (snd (Resend sv email w))"
  "le u w \<Longrightarrow> le u (snd (Forgot sv email w))" "le u w \<Longrightarrow> le u (snd (Reset sv raw password w))"
  unfolding VerifyEmail_def Resend_def Forgot_def Reset_def Let_def by (intro refused_on flow parts; assumption?)+

lemma account_flow:
  "le u w \<Longrightarrow> le u (snd (Logout sv i w))" "le u w \<Longrightarrow> le u (snd (MintToken sv acc name days w))"
  "le u w \<Longrightarrow> le u (snd (MarkConnected sv i w))" "le u w \<Longrightarrow> le u (snd (ListTokens sv i w))"
  "le u w \<Longrightarrow> le u (snd (RevokeToken sv i tok w))" "le u w \<Longrightarrow> le u (snd (ListAccounts_call sv w))"
  "le u w \<Longrightarrow> le u (snd (SetDisabled sv i b w))" "le u w \<Longrightarrow> le u (snd (AccountByID sv i w))"
  unfolding Logout_def MintToken_def MarkConnected_def ListTokens_def RevokeToken_def ListAccounts_call_def SetDisabled_def
    AccountByID_def by (intro flow parts; assumption?)+

lemma admission_flow:
  "le u w \<Longrightarrow> le u (snd (IssueInvite sv admin note email w))" "le u w \<Longrightarrow> le u (snd (ListInvites_call sv w))"
  "le u w \<Longrightarrow> le u (snd (RevokeInvite_call sv i w))" "le u w \<Longrightarrow> le u (snd (BootstrapInvite sv w))"
  "le u w \<Longrightarrow> le u (snd (RegisterClient sv name uris w))" "le u w \<Longrightarrow> le u (snd (Client sv i w))"
  "le u w \<Longrightarrow> le u (snd (ApproveClient sv c acc redirect challenge resource w))" "le u w \<Longrightarrow> le u (snd (SweepClients sv w))"
  unfolding IssueInvite_def ListInvites_call_def RevokeInvite_call_def BootstrapInvite_def RegisterClient_def Client_def
    ApproveClient_def SweepClients_def by (intro flow parts; assumption?)+

text \<open>Every use case moves the world up.\<close>

lemma serve_flow: "good w \<Longrightarrow> le w (serve_identity sv uc w)"
  by (cases uc) (simp_all add: register_flow sign_in_flow mail_flow account_flow admission_flow grant_flow le_refl)

end

end
