(* ===== verification/People_Calls.thy ===== *)
theory People_Calls
  imports People_Properties Requests
begin

text \<open>
  What other callers of the store may commit to the tables of people, as a datatype with the tables
  each call leaves behind, and the proof that each is a sequence of steps of \<open>People_Properties\<close>.
  A refused call leaves the tables as they are.
\<close>

section \<open>Calls\<close>

datatype people_call =
    PcRequest request
  | PcClaim string
  | PcUnclaim ident
  | PcTransition ident State string string ident
  | PcBuild ident BuildResult
  | PcHealthy ident config ident ident
  | PcFetchToken ident string
  | PcSweep stamp stamp
  | PcRegister NewIdentityAccount ident
  | PcVerify ident
  | PcConnect ident
  | PcPassword ident string
  | PcLock ident bool
  | PcSession ident string stamp ident
  | PcTouchSession ident stamp
  | PcSignOut ident
  | PcLink ident string string stamp ident
  | PcFollow string string
  | PcMint NewToken ident
  | PcTouchToken ident
  | PcRevoke ident
  | PcRevokeNamed ident string
  | PcInvite NewInvite ident
  | PcRevokeInvite ident
  | PcSpend ident ident NewIdentityAccount ident
  | PcClient string "string list" ident
  | PcApprove ident
  | PcApproveCode NewOAuthCode
  | PcSweepClients stamp
  | PcGrant ClientGrant ident

definition kept_or :: "'p \<Rightarrow> store_error + 'p \<Rightarrow> 'p" where
  "kept_or p r = (case r of Inl e \<Rightarrow> p | Inr q \<Rightarrow> q)"

definition on_tables :: "people \<Rightarrow> store_error + db \<Rightarrow> people" where
  "on_tables p r = p\<lparr>core := kept_or (core p) r\<rparr>"

definition its_client :: "people \<Rightarrow> ClientGrant \<Rightarrow> bool" where
  "its_client p g \<longleftrightarrow> list_all (\<lambda>c. o_code_hash c = g_code_hash g \<longrightarrow> o_client_id c = g_client g) (oauth_codes p)"

fun commit :: "stamp \<Rightarrow> people_call \<Rightarrow> people \<Rightarrow> people" where
  "commit now (PcRequest r) p = p\<lparr>core := serve now r (core p)\<rparr>"
| "commit now (PcClaim by') p = on_tables p (map_sum id snd (ClaimNext (core p) by' now))"
| "commit now (PcUnclaim i) p = p\<lparr>core := snd (ReleaseBuildingClaim (core p) i now)\<rparr>"
| "commit now (PcTransition i to' reason detail evt) p =
     on_tables p (map_sum id snd (Transition (core p) i to' reason detail evt now))"
| "commit now (PcBuild i r) p = on_tables p (RecordBuildResult (core p) i r now)"
| "commit now (PcHealthy i config evt rel) p =
     on_tables p (map_sum id (snd \<circ> snd) (MarkHealthy (core p) i config evt rel now))"
| "commit now (PcFetchToken i h) p = on_tables p (SetUploadFetchToken (core p) i h now)"
| "commit now (PcSweep cutoff upload_cutoff) p = on_tables p (map_sum id snd (Sweep (core p) cutoff upload_cutoff now))"
| "commit now (PcRegister n i) p = kept_or p (map_sum id snd (CreateIdentityAccount p n i now))"
| "commit now (PcVerify i) p = kept_or p (MarkEmailVerified p i now)"
| "commit now (PcConnect i) p = snd (MarkAccountConnected p i now)"
| "commit now (PcPassword i hash) p = kept_or p (SetPassword p i hash now)"
| "commit now (PcLock i disabled) p = kept_or p (SetAccountDisabled p i disabled now)"
| "commit now (PcSession acc hash expires i) p = kept_or p (map_sum id snd (CreateSession p acc hash expires i now))"
| "commit now (PcTouchSession i expires) p = TouchSession p i expires now"
| "commit now (PcSignOut i) p = kept_or p (RevokeSession p i now)"
| "commit now (PcLink acc purpose hash expires i) p =
     kept_or p (map_sum id snd (CreateEmailToken p acc purpose hash expires i now))"
| "commit now (PcFollow hash purpose) p = kept_or p (map_sum id snd (ConsumeEmailToken p hash purpose now))"
| "commit now (PcMint t i) p = kept_or p (map_sum id snd (CreateAPIToken p t i now))"
| "commit now (PcTouchToken i) p = TouchToken p i now"
| "commit now (PcRevoke i) p = kept_or p (RevokeAPIToken p i now)"
| "commit now (PcRevokeNamed acc name) p = snd (q_RevokeTokensNamed p acc name now)"
| "commit now (PcInvite n i) p = kept_or p (map_sum id snd (CreateInvite p n i now))"
| "commit now (PcRevokeInvite i) p = kept_or p (RevokeInvite p i now)"
| "commit now (PcSpend i acc n audit) p = kept_or p (map_sum id snd (SpendInviteAndCreateAccount p i acc n audit now))"
| "commit now (PcClient name uris i) p = kept_or p (map_sum id snd (CreateOAuthClient p name uris i now))"
| "commit now (PcApprove i) p = ApproveOAuthClient p i now"
| "commit now (PcApproveCode c) p = kept_or p (ApproveOAuthClientAndCreateCode p c now)"
| "commit now (PcSweepClients cutoff) p = kept_or p (map_sum id snd (SweepUnapprovedOAuthClients p cutoff))"
| "commit now (PcGrant g i) p = (if its_client p g then kept_or p (map_sum id snd (GrantClientToken p g i now)) else p)"

section \<open>They are steps\<close>

lemmas people_step_once = r_into_rtranclp[of people_step]

lemma worked_steps: "work_step\<^sup>*\<^sup>* (core p) s \<Longrightarrow> people_step\<^sup>*\<^sup>* p (p\<lparr>core := s\<rparr>)"
proof (induction rule: rtranclp_induct)
  case (step s t)
  have "people_step (p\<lparr>core := s\<rparr>) (p\<lparr>core := s\<rparr>\<lparr>core := t\<rparr>)" by (rule people_step.worked) (simp add: step.hyps)
  then show ?case using step.IH by (simp add: rtranclp.rtrancl_into_rtrancl)
qed simp

lemma kept_or_steps: "(\<And>q. r = Inr q \<Longrightarrow> people_step p q) \<Longrightarrow> people_step\<^sup>*\<^sup>* p (kept_or p r)"
  by (cases r) (auto simp: kept_or_def)

lemma on_tables_steps: "(\<And>s. r = Inr s \<Longrightarrow> work_step (core p) s) \<Longrightarrow> people_step\<^sup>*\<^sup>* p (on_tables p r)"
  by (cases r) (auto simp: kept_or_def on_tables_def intro: people_step.worked)

lemma map_snd_Inr: "map_sum id snd r = Inr q \<Longrightarrow> \<exists>a. r = Inr (a, q)"
  by (cases r) auto

lemma commit_steps: "people_step\<^sup>*\<^sup>* p (commit now c p)"
proof (cases c)
  case (PcHealthy i config evt rel)
  have "work_step (core p) s" if "map_sum id (snd \<circ> snd) (MarkHealthy (core p) i config evt rel now) = Inr s" for s
    using that by (cases "MarkHealthy (core p) i config evt rel now") (auto intro: work_step.healthy)
  then show ?thesis using PcHealthy by (auto intro: on_tables_steps)
next
  case (PcSweep cutoff upload_cutoff)
  show ?thesis
    using PcSweep by (cases "Sweep (core p) cutoff upload_cutoff now")
      (auto simp: on_tables_def kept_or_def intro!: people_step_once people_step.swept_core sweep_step.sweep)
next
  case (PcGrant g i)
  then show ?thesis
    by (auto simp: its_client_def list_all_iff intro!: kept_or_steps people_step.grant dest!: map_snd_Inr)
next
  case (PcUnclaim i)
  have "work_step (core p) (snd (ReleaseBuildingClaim (core p) i now))" by (rule work_step.unclaim[OF surjective_pairing])
  then show ?thesis using PcUnclaim by (simp add: people_step_once people_step.worked)
next
  case (PcConnect i)
  show ?thesis using people_step.connect[OF surjective_pairing] PcConnect by (simp add: people_step_once)
next
  case (PcRevokeNamed acc name)
  show ?thesis using people_step.revoke_named[OF surjective_pairing] PcRevokeNamed by (simp add: people_step_once)
qed (auto simp: worked_steps[OF serve_steps] intro!: kept_or_steps on_tables_steps dest!: map_snd_Inr
    intro: people_step.intros work_step.intros r_into_rtranclp)

lemma commits_steps: "people_step\<^sup>*\<^sup>* p (fold (commit now) cs p)"
  by (induction cs arbitrary: p) (auto intro: rtranclp_trans[OF commit_steps])

end
