(* ===== verification/Identity_Store.thy ===== *)
theory Identity_Store
  imports Identity_Laws People_Calls
begin

text \<open>
  The use cases of \<^verbatim>\<open>internal/identity\<close> over the store: \<^verbatim>\<open>internal/store/identityadapter.go\<close> call by
  call on the tables of people, and a world around them. The world is the tables, the clock, the
  limiter, the messages handed to the mail sender and an outside of any type; before each call,
  each reading of the clock and each message the outside says what happened since the last one:
  how long it took, what other callers committed, which sign ins they tried, and whether this call
  is refused, or runs, or runs and loses its answer.
\<close>

section \<open>The adapter\<close>

definition mapNotFound :: "store_error \<Rightarrow> id_error" where
  "mapNotFound e = (if e = ErrNotFound then IdNotFound else IdFault)"

definition fault_of :: "store_error \<Rightarrow> id_error" where
  "fault_of e = IdFault"

definition violates_unique :: "store_error \<Rightarrow> bool" where
  "violates_unique e = (case e of Fault f \<Rightarrow> isUniqueViolation f | _ \<Rightarrow> False)"

text \<open>A transaction of the store and its error as the caller sees it; a read of the store.\<close>

definition reply :: "(store_error \<Rightarrow> 'e) \<Rightarrow> people \<Rightarrow> store_error + 'a \<times> people \<Rightarrow> ('e + 'a) \<times> people" where
  "reply f p r = (case r of Inl e \<Rightarrow> (Inl (f e), p) | Inr (a, q) \<Rightarrow> (Inr a, q))"

definition reply_done :: "(store_error \<Rightarrow> 'e) \<Rightarrow> people \<Rightarrow> store_error + people \<Rightarrow> ('e + unit) \<times> people" where
  "reply_done f p r = reply f p (map_sum id (Pair ()) r)"

definition read_back :: "(store_error \<Rightarrow> 'e) \<Rightarrow> ('a \<Rightarrow> 'b) \<Rightarrow> people \<Rightarrow> store_error + 'a \<Rightarrow> ('e + 'b) \<times> people" where
  "read_back f g p r = (map_sum f g r, p)"

definition toIdentityAccount :: "account \<Rightarrow> Account" where
  "toIdentityAccount a =
     \<lparr>ac_id = acc_id a, ac_email = deref (acc_email a), ac_display_name = deref (acc_display_name a),
      ac_password_hash = deref (acc_password_hash a), ac_verified = (acc_email_verified_at a \<noteq> None),
      ac_disabled = (acc_disabled_at a \<noteq> None), ac_is_admin = acc_is_admin a,
      ac_connected = (acc_connected_at a \<noteq> None), ac_created_at = acc_created_at a\<rparr>"

definition toTokenView :: "api_token \<Rightarrow> TokenView" where
  "toTokenView t =
     \<lparr>tv_id = t_id t, tv_account = t_account_id t, tv_name = t_name t, tv_prefix = t_token_prefix t,
      tv_created = t_created_at t, tv_last_used = deref (t_last_used_at t), tv_expires = deref (t_expires_at t)\<rparr>"

definition toIdentityClient :: "oauth_client \<Rightarrow> IdClient" where
  "toIdentityClient c =
     \<lparr>cl_id = oc_id c, cl_name = oc_name c, cl_redirects = oc_redirect_uris c, cl_approved = (deref (oc_approved_at c) \<noteq> [])\<rparr>"

definition toInviteRow :: "invite_row \<Rightarrow> InviteRow" where
  "toInviteRow r = (let i = ir_invite r in
     \<lparr>iv_id = i_id i, iv_note = deref (i_note i), iv_email = deref (i_email i), iv_issuer = deref (ir_issuer_name r),
      iv_spender = deref (ir_spender_email r), iv_expires = i_expires_at i, iv_consumed = deref (i_consumed_at i),
      iv_revoked = deref (i_revoked_at i), iv_created = i_created_at i\<rparr>)"

definition IS_AccountByEmail :: "string \<Rightarrow> people \<Rightarrow> (id_error + Account) \<times> people" where
  "IS_AccountByEmail email p = read_back mapNotFound toIdentityAccount p (GetAccountByEmail p email)"

definition IS_AccountByID :: "ident \<Rightarrow> people \<Rightarrow> (id_error + Account) \<times> people" where
  "IS_AccountByID i p = read_back mapNotFound toIdentityAccount p (GetAccount (core p) i)"

definition IS_ListAccounts :: "people \<Rightarrow> (id_error + Account list) \<times> people" where
  "IS_ListAccounts p = (Inr (map toIdentityAccount (ListAccounts p)), p)"

definition IS_MarkVerified :: "ident \<Rightarrow> stamp \<Rightarrow> people \<Rightarrow> (id_error + unit) \<times> people" where
  "IS_MarkVerified i now p = reply_done mapNotFound p (MarkEmailVerified p i now)"

definition IS_MarkConnected :: "ident \<Rightarrow> stamp \<Rightarrow> people \<Rightarrow> (id_error + unit) \<times> people" where
  "IS_MarkConnected i now p = (Inr (), snd (MarkAccountConnected p i now))"

definition IS_SetPassword :: "ident \<Rightarrow> string \<Rightarrow> stamp \<Rightarrow> people \<Rightarrow> (id_error + unit) \<times> people" where
  "IS_SetPassword i hash now p = reply_done mapNotFound p (SetPassword p i hash now)"

definition IS_SetDisabled :: "ident \<Rightarrow> bool \<Rightarrow> stamp \<Rightarrow> people \<Rightarrow> (id_error + unit) \<times> people" where
  "IS_SetDisabled i disabled now p = reply_done mapNotFound p (SetAccountDisabled p i disabled now)"

definition IS_CreateSession :: "ident \<Rightarrow> string \<Rightarrow> stamp \<Rightarrow> ident \<Rightarrow> stamp \<Rightarrow> people \<Rightarrow> (id_error + ident) \<times> people" where
  "IS_CreateSession acc hash expires i now p =
     reply fault_of p (map_sum id (map_prod ss_id id) (CreateSession p acc hash expires i now))"

definition IS_RevokeSession :: "ident \<Rightarrow> stamp \<Rightarrow> people \<Rightarrow> (id_error + unit) \<times> people" where
  "IS_RevokeSession i now p = reply_done mapNotFound p (RevokeSession p i now)"

definition IS_CreateLink ::
  "ident \<Rightarrow> string \<Rightarrow> string \<Rightarrow> stamp \<Rightarrow> ident \<Rightarrow> stamp \<Rightarrow> people \<Rightarrow> (id_error + unit) \<times> people" where
  "IS_CreateLink acc purpose hash expires i now p =
     reply_done fault_of p (map_sum id snd (CreateEmailToken p acc purpose hash expires i now))"

definition IS_ConsumeLink :: "string \<Rightarrow> string \<Rightarrow> stamp \<Rightarrow> people \<Rightarrow> (id_error + ident) \<times> people" where
  "IS_ConsumeLink hash purpose now p =
     reply (\<lambda>e. if e = ErrLinkInvalid then IdLinkInvalid else IdFault) p
       (map_sum id (map_prod k_account_id id) (ConsumeEmailToken p hash purpose now))"

definition IS_CreateInvite :: "NewInvite \<Rightarrow> ident \<Rightarrow> stamp \<Rightarrow> people \<Rightarrow> (id_error + ident) \<times> people" where
  "IS_CreateInvite n i now p =
     reply (\<lambda>e. if e = ErrAddressRegistered then IdAddressRegistered else IdFault) p
       (map_sum id (map_prod i_id id) (CreateInvite p n i now))"

definition IS_ListInvites :: "people \<Rightarrow> (id_error + InviteRow list) \<times> people" where
  "IS_ListInvites p = (Inr (map toInviteRow (ListInvites p)), p)"

definition IS_RevokeInvite :: "ident \<Rightarrow> stamp \<Rightarrow> people \<Rightarrow> (id_error + unit) \<times> people" where
  "IS_RevokeInvite i now p = reply_done mapNotFound p (RevokeInvite p i now)"

definition IS_LiveInvite :: "string \<Rightarrow> string \<Rightarrow> stamp \<Rightarrow> people \<Rightarrow> (id_error + ident) \<times> people" where
  "IS_LiveInvite hash candidate now p =
     read_back (\<lambda>e. if e = ErrInviteInvalid then IdInviteInvalid else IdFault) i_id p (LiveInvite p hash candidate now)"

definition IS_SpendInvite ::
  "ident \<Rightarrow> NewAccount \<Rightarrow> ident \<Rightarrow> ident \<Rightarrow> stamp \<Rightarrow> people \<Rightarrow> (id_error + Account) \<times> people" where
  "IS_SpendInvite invite n acc audit now p =
     reply (\<lambda>e. if e = ErrInviteInvalid then IdInviteInvalid else if e = ErrEmailTaken then IdEmailTaken else IdFault) p
       (map_sum id (map_prod toIdentityAccount id) (SpendInviteAndCreateAccount p invite acc
          \<lparr>na_email = nw_email n, na_password_hash = nw_password_hash n, na_display_name = nw_display_name n\<rparr> audit now))"

definition IS_AnyAccountHasEmail :: "people \<Rightarrow> (id_error + bool) \<times> people" where
  "IS_AnyAccountHasEmail p = (Inr (AnyAccountHasEmail p), p)"

definition IS_AnyLiveBootstrapInvite :: "stamp \<Rightarrow> people \<Rightarrow> (id_error + bool) \<times> people" where
  "IS_AnyLiveBootstrapInvite now p = (Inr (AnyLiveBootstrapInvite p now), p)"

definition token_error :: "store_error \<Rightarrow> id_error" where
  "token_error e = (if violates_unique e then IdTokenNameTaken else IdFault)"

definition IS_MintToken ::
  "ident \<Rightarrow> string \<Rightarrow> string \<Rightarrow> string \<Rightarrow> stamp option \<Rightarrow> ident \<Rightarrow> stamp \<Rightarrow> people \<Rightarrow> (id_error + TokenView) \<times> people" where
  "IS_MintToken acc name hash shown expires i now p =
     reply token_error p (map_sum id (map_prod toTokenView id) (CreateAPIToken p
       \<lparr>nt_account = acc, nt_name = name, nt_hash = hash, nt_prefix = shown, nt_expires = deref expires\<rparr> i now))"

definition IS_ListTokens :: "ident \<Rightarrow> stamp \<Rightarrow> people \<Rightarrow> (id_error + TokenView list) \<times> people" where
  "IS_ListTokens acc now p = (Inr (map toTokenView (ListLiveAPITokens p acc now)), p)"

definition IS_TokenByID :: "ident \<Rightarrow> people \<Rightarrow> (id_error + TokenView) \<times> people" where
  "IS_TokenByID i p = read_back mapNotFound toTokenView p (GetAPIToken p i)"

definition IS_RevokeToken :: "ident \<Rightarrow> stamp \<Rightarrow> people \<Rightarrow> (id_error + unit) \<times> people" where
  "IS_RevokeToken i now p = reply_done mapNotFound p (RevokeAPIToken p i now)"

definition IS_RegisterOAuthClient ::
  "string \<Rightarrow> string list \<Rightarrow> ident \<Rightarrow> stamp \<Rightarrow> people \<Rightarrow> (id_error + IdClient) \<times> people" where
  "IS_RegisterOAuthClient name uris i now p =
     reply fault_of p (map_sum id (map_prod toIdentityClient id) (CreateOAuthClient p name uris i now))"

definition IS_OAuthClient :: "ident \<Rightarrow> people \<Rightarrow> (id_error + IdClient) \<times> people" where
  "IS_OAuthClient i p = read_back mapNotFound toIdentityClient p (OAuthClient p i)"

definition IS_ApproveClientAndCreateCode :: "NewOAuthCode \<Rightarrow> stamp \<Rightarrow> people \<Rightarrow> (id_error + unit) \<times> people" where
  "IS_ApproveClientAndCreateCode c now p = reply_done fault_of p (ApproveOAuthClientAndCreateCode p c now)"

definition IS_SweepOAuthClients :: "stamp \<Rightarrow> people \<Rightarrow> (id_error + int) \<times> people" where
  "IS_SweepOAuthClients cutoff p =
     reply fault_of p (map_sum id (map_prod int id) (SweepUnapprovedOAuthClients p cutoff))"

definition IS_OAuthCode :: "Libs \<Rightarrow> string \<Rightarrow> people \<Rightarrow> (id_error + IdCode) \<times> people" where
  "IS_OAuthCode lib hash p =
     (case OAuthCode p hash of
        Inl e \<Rightarrow> (Inl (mapNotFound e), p)
      | Inr c \<Rightarrow> (case lib_ParseTime lib (o_expires_at c) of
            None \<Rightarrow> (Inl IdFault, p)
          | Some t \<Rightarrow> (Inr \<lparr>cd_client = o_client_id c, cd_account = o_account_id c, cd_redirect = o_redirect_uri c,
              cd_challenge = o_code_challenge c, cd_resource = o_resource c, cd_token = deref (o_token_id c),
              cd_expires_at = t, cd_consumed = (deref (o_consumed_at c) \<noteq> [])\<rparr>, p)))"

definition grant_error :: "store_error \<Rightarrow> id_error" where
  "grant_error e = (if e = ErrTokenInvalid then IdGrantInvalid else token_error e)"

definition IS_GrantClientToken :: "IdGrant \<Rightarrow> ident \<Rightarrow> stamp \<Rightarrow> people \<Rightarrow> (id_error + TokenView) \<times> people" where
  "IS_GrantClientToken g i now p =
     reply grant_error p (map_sum id (map_prod toTokenView id) (GrantClientToken p
       \<lparr>g_code_hash = gr_code_hash g, g_account = gr_account g, g_client = gr_client g, g_name = gr_name g,
        g_token_hash = gr_token_hash g, g_prefix = gr_prefix g\<rparr> i now))"

section \<open>The world\<close>

record visit =
  vs_elapsed :: nat
  vs_others :: "people_call list"
  vs_tries :: "op list"
  vs_refused :: bool
  vs_lost :: bool
  vs_id :: ident
  vs_audit :: ident
  vs_bytes :: "nat \<Rightarrow> string option"
  vs_mailed :: bool

record 'o Backdrop =
  bd_next :: "'o \<Rightarrow> visit \<times> 'o"
  bd_stamp :: "int \<Rightarrow> stamp"
  bd_libs :: Libs
  bd_settings :: Settings
  bd_memory :: nat
  bd_time :: nat
  bd_baseURL :: string
  bd_date :: "int \<Rightarrow> string"
  bd_rfc3339 :: "int \<Rightarrow> string"
  bd_mail :: bool

record 'o site =
  si_people :: people
  si_now :: int
  si_limits :: Limiter
  si_outbox :: "(string \<times> string \<times> string) list"
  si_out :: 'o

definition arrive :: "'o Backdrop \<Rightarrow> 'o site \<Rightarrow> visit \<times> 'o site" where
  "arrive bd w =
     (case bd_next bd (si_out w) of (v, out) \<Rightarrow>
        let now = si_now w + int (vs_elapsed v)
        in (v, w\<lparr>si_now := now, si_out := out, si_people := fold (commit (bd_stamp bd now)) (vs_others v) (si_people w),
             si_limits := fold (step (bd_settings bd) now) (vs_tries v) (si_limits w)\<rparr>))"

text \<open>A call of the store by a client whose errors are of any type; \<open>fault\<close> is what it makes of a failure.\<close>

definition call_store ::
  "'e \<Rightarrow> 'o Backdrop \<Rightarrow> (visit \<Rightarrow> stamp \<Rightarrow> people \<Rightarrow> ('e + 'a) \<times> people) \<Rightarrow> 'o site \<Rightarrow> ('e + 'a) \<times> 'o site" where
  "call_store fault bd f w =
     (case arrive bd w of (v, w1) \<Rightarrow>
        if vs_refused v then (Inl fault, w1)
        else case f v (bd_stamp bd (si_now w1)) (si_people w1) of (r, q) \<Rightarrow>
          (if vs_lost v then Inl fault else r, w1\<lparr>si_people := q\<rparr>))"

abbreviation store_call ::
  "'o Backdrop \<Rightarrow> (visit \<Rightarrow> stamp \<Rightarrow> people \<Rightarrow> (id_error + 'a) \<times> people) \<Rightarrow> 'o site \<Rightarrow> (id_error + 'a) \<times> 'o site" where
  "store_call \<equiv> call_store IdFault"

definition identity_store :: "'o Backdrop \<Rightarrow> 'o site IdStore" where
  "identity_store bd = (let due = bd_stamp bd in
     \<lparr>st_AccountByEmail = (\<lambda>email. store_call bd (\<lambda>v now. IS_AccountByEmail email)),
      st_AccountByID = (\<lambda>i. store_call bd (\<lambda>v now. IS_AccountByID i)),
      st_ListAccounts = store_call bd (\<lambda>v now. IS_ListAccounts),
      st_MarkVerified = (\<lambda>i. store_call bd (\<lambda>v. IS_MarkVerified i)),
      st_MarkConnected = (\<lambda>i. store_call bd (\<lambda>v. IS_MarkConnected i)),
      st_SetPassword = (\<lambda>i hash. store_call bd (\<lambda>v. IS_SetPassword i hash)),
      st_SetDisabled = (\<lambda>i disabled. store_call bd (\<lambda>v. IS_SetDisabled i disabled)),
      st_CreateSession = (\<lambda>acc hash expires. store_call bd (\<lambda>v. IS_CreateSession acc hash (due expires) (vs_id v))),
      st_RevokeSession = (\<lambda>i. store_call bd (\<lambda>v. IS_RevokeSession i)),
      st_CreateLink = (\<lambda>acc purpose hash expires. store_call bd (\<lambda>v. IS_CreateLink acc purpose hash (due expires) (vs_id v))),
      st_ConsumeLink = (\<lambda>hash purpose. store_call bd (\<lambda>v. IS_ConsumeLink hash purpose)),
      st_CreateInvite = (\<lambda>n. store_call bd (\<lambda>v. IS_CreateInvite \<lparr>ni_hash = nv_code_hash n, ni_note = nv_note n,
        ni_email = nv_email n, ni_created_by = nv_created_by n, ni_expires = due (nv_expires_at n)\<rparr> (vs_id v))),
      st_ListInvites = store_call bd (\<lambda>v now. IS_ListInvites),
      st_RevokeInvite = (\<lambda>i. store_call bd (\<lambda>v. IS_RevokeInvite i)),
      st_LiveInvite = (\<lambda>hash candidate. store_call bd (\<lambda>v. IS_LiveInvite hash candidate)),
      st_SpendInvite = (\<lambda>i n. store_call bd (\<lambda>v. IS_SpendInvite i n (vs_id v) (vs_audit v))),
      st_AnyAccountHasEmail = store_call bd (\<lambda>v now. IS_AnyAccountHasEmail),
      st_AnyLiveBootstrapInvite = store_call bd (\<lambda>v. IS_AnyLiveBootstrapInvite),
      st_MintToken = (\<lambda>acc name hash shown expires. store_call bd (\<lambda>v.
        IS_MintToken acc name hash shown (map_option due expires) (vs_id v))),
      st_GrantClientToken = (\<lambda>g. store_call bd (\<lambda>v. IS_GrantClientToken g (vs_id v))),
      st_ListTokens = (\<lambda>acc. store_call bd (\<lambda>v. IS_ListTokens acc)),
      st_TokenByID = (\<lambda>i. store_call bd (\<lambda>v now. IS_TokenByID i)),
      st_RevokeToken = (\<lambda>i. store_call bd (\<lambda>v. IS_RevokeToken i)),
      st_RegisterOAuthClient = (\<lambda>name uris. store_call bd (\<lambda>v. IS_RegisterOAuthClient name uris (vs_id v))),
      st_OAuthClient = (\<lambda>i. store_call bd (\<lambda>v now. IS_OAuthClient i)),
      st_ApproveClientAndCreateCode = (\<lambda>c. store_call bd (\<lambda>v. IS_ApproveClientAndCreateCode
        \<lparr>nc_hash = nk_code_hash c, nc_client = nk_client c, nc_account = nk_account c, nc_redirect = nk_redirect c,
         nc_challenge = nk_challenge c, nc_resource = nk_resource c, nc_expires = due (nk_expires_at c)\<rparr>)),
      st_SweepOAuthClients = (\<lambda>cutoff. store_call bd (\<lambda>v now. IS_SweepOAuthClients (due cutoff))),
      st_OAuthCode = (\<lambda>hash. store_call bd (\<lambda>v now. IS_OAuthCode (bd_libs bd) hash))\<rparr>)"

text \<open>A message is written to the outbox when the sender takes it.\<close>

definition post :: "'o Backdrop \<Rightarrow> string \<Rightarrow> string \<Rightarrow> string \<Rightarrow> 'o site \<Rightarrow> bool \<times> 'o site" where
  "post bd to' subject body w =
     (case arrive bd w of (v, w1) \<Rightarrow>
        (vs_mailed v, if vs_mailed v then w1\<lparr>si_outbox := si_outbox w1 @ [(to', subject, body)]\<rparr> else w1))"

definition identity :: "'o Backdrop \<Rightarrow> 'o site IdService" where
  "identity bd =
     \<lparr>sv_store = identity_store bd, sv_mailer = (if bd_mail bd then Some (post bd) else None),
      sv_now = (\<lambda>w. case arrive bd w of (v, w1) \<Rightarrow> (si_now w1, w1)),
      sv_random = (\<lambda>n w. case arrive bd w of (v, w1) \<Rightarrow> (vs_bytes v n, w1)),
      sv_limits = si_limits, sv_set_limits = (\<lambda>l w. w\<lparr>si_limits := l\<rparr>),
      sv_settings = bd_settings bd, sv_libs = bd_libs bd, sv_memory = bd_memory bd, sv_time = bd_time bd,
      sv_baseURL = bd_baseURL bd, sv_date = bd_date bd, sv_rfc3339 = bd_rfc3339 bd\<rparr>"

section \<open>Every call is steps of the tables\<close>

definition onward :: "'o site \<Rightarrow> 'o site \<Rightarrow> bool" where
  "onward v w \<longleftrightarrow> people_step\<^sup>*\<^sup>* (si_people v) (si_people w) \<and> si_now v \<le> si_now w \<and>
     (\<exists>ms. si_outbox w = si_outbox v @ ms)"

lemma onward_refl: "onward w w"
  by (simp add: onward_def)

lemma onward_trans: "onward u v \<Longrightarrow> onward v w \<Longrightarrow> onward u w"
  by (auto simp: onward_def intro: rtranclp_trans)

lemma arrive_onward: "onward w (snd (arrive bd w))"
  by (auto simp: onward_def arrive_def Let_def commits_steps split: prod.splits)

lemma store_call_onward:
  assumes "\<And>v now q. people_step\<^sup>*\<^sup>* (si_people w) q \<Longrightarrow> people_step\<^sup>*\<^sup>* q (snd (f v now q))"
  shows "onward w (snd (call_store fault bd f w))"
proof -
  obtain v w1 where a: "arrive bd w = (v, w1)" by (cases "arrive bd w")
  have w1: "onward w w1" using arrive_onward[of w bd] a by simp
  show ?thesis
  proof (cases "vs_refused v")
    case False
    obtain r q where f: "f v (bd_stamp bd (si_now w1)) (si_people w1) = (r, q)"
      by (cases "f v (bd_stamp bd (si_now w1)) (si_people w1)")
    have "people_step\<^sup>*\<^sup>* (si_people w1) q"
      using assms[of "si_people w1" v "bd_stamp bd (si_now w1)"] w1 f by (simp add: onward_def)
    then show ?thesis using w1 a f False by (auto simp: call_store_def onward_def intro: rtranclp_trans)
  qed (simp add: call_store_def a w1)
qed

lemma reply_steps: "(\<And>a q. r = Inr (a, q) \<Longrightarrow> people_step p q) \<Longrightarrow> people_step\<^sup>*\<^sup>* p (snd (reply f p (map_sum id (map_prod g id) r)))"
  by (cases r) (auto simp: reply_def)

lemma reply_done_steps: "(\<And>q. r = Inr q \<Longrightarrow> people_step p q) \<Longrightarrow> people_step\<^sup>*\<^sup>* p (snd (reply_done f p r))"
  by (cases r) (auto simp: reply_done_def reply_def)

lemma reading_steps: "people_step\<^sup>*\<^sup>* p (snd (read_back f g p r))"
  by (simp add: read_back_def)

lemma identity_adapter_steps:
  "people_step\<^sup>*\<^sup>* p (snd (IS_MarkVerified i now p))" "people_step\<^sup>*\<^sup>* p (snd (IS_MarkConnected i now p))"
  "people_step\<^sup>*\<^sup>* p (snd (IS_SetPassword i hash now p))" "people_step\<^sup>*\<^sup>* p (snd (IS_SetDisabled i b now p))"
  "people_step\<^sup>*\<^sup>* p (snd (IS_CreateSession acc hash expires i now p))" "people_step\<^sup>*\<^sup>* p (snd (IS_RevokeSession i now p))"
  "people_step\<^sup>*\<^sup>* p (snd (IS_CreateLink acc purpose hash expires i now p))"
  "people_step\<^sup>*\<^sup>* p (snd (IS_ConsumeLink hash purpose now p))" "people_step\<^sup>*\<^sup>* p (snd (IS_CreateInvite n i now p))"
  "people_step\<^sup>*\<^sup>* p (snd (IS_RevokeInvite i now p))" "people_step\<^sup>*\<^sup>* p (snd (IS_SpendInvite i m acc audit now p))"
  "people_step\<^sup>*\<^sup>* p (snd (IS_MintToken acc name hash shown ot i now p))" "people_step\<^sup>*\<^sup>* p (snd (IS_RevokeToken i now p))"
  "people_step\<^sup>*\<^sup>* p (snd (IS_RegisterOAuthClient name uris i now p))"
  "people_step\<^sup>*\<^sup>* p (snd (IS_ApproveClientAndCreateCode c now p))" "people_step\<^sup>*\<^sup>* p (snd (IS_SweepOAuthClients cutoff p))"
  using people_step.connect[OF surjective_pairing]
  by (auto simp: IS_MarkVerified_def IS_MarkConnected_def IS_SetPassword_def IS_SetDisabled_def IS_CreateSession_def
      IS_RevokeSession_def IS_CreateLink_def IS_ConsumeLink_def IS_CreateInvite_def IS_RevokeInvite_def IS_SpendInvite_def
      IS_MintToken_def IS_RevokeToken_def IS_RegisterOAuthClient_def IS_ApproveClientAndCreateCode_def IS_SweepOAuthClients_def
      intro!: reply_steps reply_done_steps dest!: map_snd_Inr intro: people_step.intros)

lemma identity_adapter_reads:
  "snd (IS_AccountByEmail email p) = p" "snd (IS_AccountByID i p) = p" "snd (IS_ListAccounts p) = p"
  "snd (IS_ListInvites p) = p" "snd (IS_LiveInvite hash candidate now p) = p" "snd (IS_AnyAccountHasEmail p) = p"
  "snd (IS_AnyLiveBootstrapInvite now p) = p" "snd (IS_ListTokens i now p) = p" "snd (IS_TokenByID i p) = p"
  "snd (IS_OAuthClient i p) = p" "snd (IS_OAuthCode lib hash p) = p"
  by (simp_all add: IS_AccountByEmail_def IS_AccountByID_def IS_ListAccounts_def IS_ListInvites_def IS_LiveInvite_def
      IS_AnyAccountHasEmail_def IS_AnyLiveBootstrapInvite_def IS_ListTokens_def IS_TokenByID_def IS_OAuthClient_def
      IS_OAuthCode_def read_back_def split: sum.splits option.splits)

definition issued_code :: "string \<Rightarrow> ident \<Rightarrow> people \<Rightarrow> bool" where
  "issued_code h c p \<longleftrightarrow> people_ok p \<and> (\<exists>d \<in> set (oauth_codes p). o_code_hash d = h \<and> o_client_id d = c)"

lemma issued_code_kept: "issued_code h c p \<Longrightarrow> people_step\<^sup>*\<^sup>* p q \<Longrightarrow> issued_code h c q"
  using people_steps_ok[of p q] by (fastforce simp: issued_code_def people_next_def live_on_def code_next_def)

lemma grant_steps:
  assumes "issued_code (gr_code_hash g) (gr_client g) p"
  shows "people_step\<^sup>*\<^sup>* p (snd (IS_GrantClientToken g i now p))"
proof -
  have "inj_on o_code_hash (set (oauth_codes p))"
    using assms by (auto simp: issued_code_def people_oks unique_on_def distinct_map)
  then have "o_client_id d = gr_client g" if "d \<in> set (oauth_codes p)" "o_code_hash d = gr_code_hash g" for d
  proof -
    obtain e where e: "e \<in> set (oauth_codes p)" "o_code_hash e = gr_code_hash g" "o_client_id e = gr_client g"
      using assms by (auto simp: issued_code_def)
    then have "d = e" using \<open>inj_on _ _\<close> that by (simp add: inj_on_def)
    then show ?thesis using e by simp
  qed
  then show ?thesis unfolding IS_GrantClientToken_def by (auto intro!: reply_steps people_step.grant)
qed

lemma code_read: "IS_OAuthCode lib hash p = (Inr code, q) \<Longrightarrow> people_ok p \<Longrightarrow> issued_code hash (cd_client code) q"
  by (auto simp: IS_OAuthCode_def OAuthCode_def q_GetOAuthCode_def issued_code_def
      split: sum.splits option.splits dest!: sel_one_Some)

lemma client_read: "IS_OAuthClient i p = (Inr client, q) \<Longrightarrow> cl_id client = i"
  by (cases "sel_one (\<lambda>c. oc_id c = i) (oauth_clients p)")
    (auto simp: IS_OAuthClient_def read_back_def OAuthClient_def q_GetOAuthClient_def toIdentityClient_def
      dest: sel_one_Some)

lemma store_call_Inr:
  assumes "call_store fault bd f w = (Inr a, w')"
  obtains v p where "people_step\<^sup>*\<^sup>* (si_people w) p" "f v (bd_stamp bd (si_now w')) p = (Inr a, si_people w')"
proof -
  obtain v w1 where arr: "arrive bd w = (v, w1)" by (cases "arrive bd w")
  have "people_step\<^sup>*\<^sup>* (si_people w) (si_people w1)" using arrive_onward[of w bd] arr by (simp add: onward_def)
  moreover have "f v (bd_stamp bd (si_now w')) (si_people w1) = (Inr a, si_people w')"
    using assms arr by (auto simp: call_store_def split: if_splits prod.splits)
  ultimately show thesis by (rule that)
qed

lemmas store_fields = identity_store_def[unfolded Let_def] identity_def

lemma post_onward: "onward w (snd (post bd to' subject body w))"
  using arrive_onward[of w bd] by (auto simp: post_def onward_def split: prod.splits)

lemma site_good: "people_ok (si_people v) \<Longrightarrow> onward v w \<Longrightarrow> people_ok (si_people w)"
  using people_steps_ok by (auto simp: onward_def)

interpretation site: identity_calls "identity bd" onward "\<lambda>w. people_ok (si_people w)" "\<lambda>h c w. issued_code h c (si_people w)"
proof (unfold_locales, goal_cases)
  case (4 h c v w)
  then show ?case using issued_code_kept by (auto simp: onward_def)
next
  case (32 g w)
  then show ?case
    by (auto simp: store_fields intro!: store_call_onward grant_steps dest: issued_code_kept)
next
  case (33 w hash code w')
  then show ?case
    using people_steps_ok by (auto simp: store_fields elim!: store_call_Inr intro!: code_read)
next
  case (34 i client w w')
  then show ?case by (auto simp: store_fields elim!: store_call_Inr dest: client_read)
next
  case (35 w)
  then show ?case using arrive_onward[of w bd] by (auto simp: store_fields split: prod.splits)
next
  case (36 w n)
  then show ?case using arrive_onward[of w bd] by (auto simp: store_fields split: prod.splits)
next
  case (37 mail w to' subject body)
  then show ?case by (auto simp: store_fields post_onward split: if_splits)
next
  case (38 w l)
  then show ?case by (simp add: store_fields onward_def)
qed (auto simp: store_fields onward_refl identity_adapter_reads identity_adapter_steps intro!: store_call_onward
    intro: onward_trans site_good)

end
