(* ===== verification/People_Codes.thy ===== *)
theory People_Codes
  imports People_Properties
begin

text \<open>
  The codes of the authorization server after they were spent: no call writes over a spent code, and
  every spent code names a token the store holds, because the one call that spends a code mints
  the token and writes it down before it commits.
\<close>

definition paid_codes :: "people \<Rightarrow> bool" where
  "paid_codes p \<longleftrightarrow> (\<forall>c \<in> set (oauth_codes p). o_consumed_at c \<noteq> None \<longrightarrow> (\<exists>i. o_token_id c = Some i \<and> token_exists p i))"

section \<open>One call\<close>

lemma token_stays: "people_next p q \<Longrightarrow> token_exists p i \<Longrightarrow> token_exists q i"
  by (fastforce simp: people_next_def live_on_def token_next_def token_exists_def list_ex_iff)

lemma inserted_token:
  assumes "insert_token p t = Inr (u, q)"
  shows "oauth_codes q = oauth_codes p" "token_exists q (t_id t)"
  using assms by (auto simp: insert_token_def token_exists_def split: if_splits)

lemma on_core_codes: "oauth_codes (snd (on_core f p)) = oauth_codes p"
  by (simp add: on_core_def split: prod.split)

lemma on_core_or_codes: "on_core_or f p = Inr (a, q) \<Longrightarrow> oauth_codes q = oauth_codes p"
  by (cases "f (core p)") (auto simp: on_core_or_def)

text \<open>What a grant makes of the codes.\<close>

lemma granted_codes:
  assumes "GrantClientToken p g i now = Inr (t, q)" "people_ok p"
  shows "token_exists q i"
    and "c \<in> set (oauth_codes p) \<Longrightarrow> o_consumed_at c \<noteq> None \<Longrightarrow> c \<in> set (oauth_codes q)"
    and "d \<in> set (oauth_codes q) \<Longrightarrow> d \<in> set (oauth_codes p) \<or> o_token_id d = Some i"
proof -
  define f where "f = (\<lambda>c :: oauth_code. c\<lparr>o_consumed_at := Some now\<rparr>)"
  define k where "k = (\<lambda>c :: oauth_code. c\<lparr>o_token_id := Some i\<rparr>)"
  let ?codes = "upd_where (spendable_code (g_code_hash g) now) f (oauth_codes p)"
  obtain e p3 where e: "e \<in> set (oauth_codes p)" "spendable_code (g_code_hash g) now e"
    and ins: "insert_token (snd (q_RevokeLiveClientTokens (p\<lparr>oauth_codes := ?codes\<rparr>) (g_account g) (Some (g_client g)) now)) t = Inr (t, p3)"
    and t: "t_id t = i" and q: "q = p3\<lparr>oauth_codes := upd_where (\<lambda>c. o_code_hash c = g_code_hash g) k (oauth_codes p3)\<rparr>"
    by (rule grant_Inr[OF assms(1)]) (auto simp: f_def k_def)
  have p3: "oauth_codes p3 = ?codes" using inserted_token(1)[OF ins] by (simp add: q_RevokeLiveClientTokens_def upd_tokens_def)
  show "token_exists q i" using inserted_token(2)[OF ins] t by (simp add: q token_exists_def)
  show "c \<in> set (oauth_codes q)" if "c \<in> set (oauth_codes p)" "o_consumed_at c \<noteq> None"
  proof -
    have "o_code_hash c \<noteq> g_code_hash g"
      using unique_on_eq[of "\<lambda>_. True" o_code_hash "oauth_codes p" c e] assms(2) e that by (auto simp: people_oks spendable_code_def)
    then show ?thesis using that(1) by (auto simp: q p3 set_upd_where spendable_code_def)
  qed
  show "d \<in> set (oauth_codes p) \<or> o_token_id d = Some i" if "d \<in> set (oauth_codes q)"
    using that by (auto simp: q p3 set_upd_where k_def f_def spendable_code_def)
qed

text \<open>No other call touches the codes that are spent or spends one.\<close>

lemma other_codes:
  assumes "people_step p q" "people_ok p"
  shows "(\<forall>c \<in> set (oauth_codes p). o_consumed_at c \<noteq> None \<longrightarrow> c \<in> set (oauth_codes q)) \<and>
    (\<forall>d \<in> set (oauth_codes q). o_consumed_at d \<noteq> None \<longrightarrow> d \<in> set (oauth_codes p) \<or> (\<exists>i. o_token_id d = Some i \<and> token_exists q i))"
  using assms
proof (induction rule: people_step.induct)
  case (register p n i now a q)
  then show ?case using on_core_or_codes by (fastforce simp: CreateIdentityAccount_def split: sum.splits if_splits)
next
  case (connect p i now b q)
  then have "oauth_codes q = oauth_codes p"
    using on_core_codes[of "\<lambda>s. q_MarkAccountConnected s i now" p] by (auto simp: MarkAccountConnected_def split: prod.splits)
  then show ?case by simp
next
  case (spend p i acc n audit now a q)
  then show ?case by (rule_tac spend_Inr) (auto simp: q_SpendInvite_def upd_invites_def)
next
  case (approve_code p nc now q)
  then show ?case
    by (auto simp: ApproveOAuthClientAndCreateCode_def q_ApproveOAuthClient_def q_CreateOAuthCode_def code_row_def Let_def split: if_splits)
next
  case (sweep_clients p cutoff m q)
  then show ?case using sweep_clients_spares[OF sweep_clients.prems, of cutoff]
    by (auto simp: SweepUnapprovedOAuthClients_def Let_def)
next
  case (grant p g i now t q)
  then show ?case using granted_codes[OF grant.hyps(1) grant.prems] by blast
qed (auto simp: MarkEmailVerified_def MarkAccountConnected_def SetPassword_def SetAccountDisabled_def CreateSession_def
    q_CreateSession_def TouchSession_def q_TouchSession_def RevokeSession_def q_RevokeSession_def CreateEmailToken_def
    q_CreateEmailToken_def q_ConsumeLiveEmailTokens_def ConsumeEmailToken_def q_ConsumeEmailToken_def CreateAPIToken_def
    q_CreateAPIToken_def TouchToken_def q_TouchTokenLastUsed_def RevokeAPIToken_def q_RevokeAPIToken_def
    q_RevokeTokensNamed_def CreateInvite_def q_CreateInvite_def RevokeInvite_def q_RevokeInvite_def CreateOAuthClient_def
    q_CreateOAuthClient_def ApproveOAuthClient_def q_ApproveOAuthClient_def q_RevokeAccountSessions_def q_RevokeAccountEmailTokens_def
    found_Inr next_step_Inr on_core_codes upd_sessions_def upd_links_def upd_tokens_def upd_invites_def insert_token_def Let_def
    split: if_splits option.splits prod.splits)

section \<open>Any calls\<close>

lemma spent_code_kept:
  assumes "people_step\<^sup>*\<^sup>* p q" "people_ok p" "c \<in> set (oauth_codes p)" "o_consumed_at c \<noteq> None"
  shows "c \<in> set (oauth_codes q)"
  using assms(1,3)
proof (induction rule: rtranclp_induct)
  case (step q r)
  then show ?case using other_codes[OF step.hyps(2)] people_steps_ok[OF step.hyps(1) assms(2)] assms(4) by blast
qed

lemma paid_codes_step:
  assumes "people_step p q" "people_ok p" "paid_codes p"
  shows "paid_codes q"
proof -
  have "people_next p q" using people_steps_ok[OF r_into_rtranclp[of people_step, OF assms(1)] assms(2)] by blast
  then show ?thesis using other_codes[OF assms(1,2)] assms(3) token_stays unfolding paid_codes_def by meson
qed

lemma codes_are_paid: "people_step\<^sup>*\<^sup>* no_people p \<Longrightarrow> paid_codes p"
proof (induction rule: rtranclp_induct)
  case (step p q)
  then show ?case using paid_codes_step people_reachable_ok by blast
qed (simp add: paid_codes_def no_people_def)

end
