(* ===== verification/Identity_Runs.thy ===== *)
theory Identity_Runs
  imports Identity_Store People_Codes
begin

text \<open>
  How a run of a use case over the store is taken apart: what an answered call says of the tables it
  ran on, and which tables the program left alone. \<open>only_others\<close> says that all that happened to
  the tables between two points of a run is what the outside says other callers committed.
\<close>

section \<open>Taking a run apart\<close>

lemma attempt_eq:
  "attempt r bad ok = y \<longleftrightarrow> (\<exists>e v. r = (Inl e, v) \<and> bad e v = y) \<or> (\<exists>a v. r = (Inr a, v) \<and> ok a v = y)"
  by (cases r; cases "fst r") (auto simp: attempt_def)

lemma and_then_Inr: "and_then r k = (Inr x, w') \<longleftrightarrow> (\<exists>a v. r = (Inr a, v) \<and> k a v = (Inr x, w'))"
  by (auto simp: and_then_def attempt_eq)

lemma case_Inr: "(case r of (a, v) \<Rightarrow> f a v) = (Inr x, w') \<longleftrightarrow> (\<exists>a v. r = (a, v) \<and> f a v = (Inr x, w'))"
  by (cases r) auto

lemmas taken_apart = attempt_eq and_then_Inr case_Inr checked_def

text \<open>A call that was answered ran on some tables on the way.\<close>

lemma store_call_answered:
  assumes "store_call bd f w = (r, w')" "r \<noteq> Inl IdFault"
  obtains v p where "people_step\<^sup>*\<^sup>* (si_people w) p" "f v (bd_stamp bd (si_now w')) p = (r, si_people w')"
proof -
  obtain v w1 where arr: "arrive bd w = (v, w1)" by (cases "arrive bd w")
  have "people_step\<^sup>*\<^sup>* (si_people w) (si_people w1)" using arrive_onward[of w bd] arr by (simp add: onward_def)
  moreover have "f v (bd_stamp bd (si_now w')) (si_people w1) = (r, si_people w')"
    using assms arr by (auto simp: call_store_def split: if_splits prod.splits)
  ultimately show thesis by (rule that)
qed

lemma ran:
  assumes "onward u v" "onward v w"
  shows "people_step\<^sup>*\<^sup>* (si_people u) (si_people v)" "people_step\<^sup>*\<^sup>* (si_people v) (si_people w)"
    "si_now u \<le> si_now v" "si_now v \<le> si_now w"
  using assms by (simp_all add: onward_def)

lemma secret_drawn:
  assumes "NewSecret (identity bd) w = (Inr raw, w')"
  shows "onward w w'"
  using site.secret_on[OF onward_refl, of w bd] assms by simp

lemma clock_read:
  assumes "sv_now (identity bd) w = (now, w')"
  shows "onward w w'" "now = si_now w'"
  using assms site.clock_on[of w bd] by (auto simp: identity_def split: prod.splits)

lemma reply_Inr: "reply f p r = (Inr a, q) \<longleftrightarrow> r = Inr (a, q)"
  by (cases r) (auto simp: reply_def)

lemma reply_done_Inr: "reply_done f p r = (Inr (), q) \<longleftrightarrow> r = Inr q"
  by (cases r) (auto simp: reply_done_def reply_def)

lemma read_back_Inr: "read_back f g p r = (Inr b, q) \<longleftrightarrow> q = p \<and> (\<exists>a. r = Inr a \<and> b = g a)"
  by (cases r) (auto simp: read_back_def)

lemma map_prod_Inr: "map_sum id (map_prod g id) r = Inr (b, q) \<longleftrightarrow> (\<exists>a. r = Inr (a, q) \<and> b = g a)"
  by (cases r) auto

lemma map_Inl: "map_sum id g r = Inl e \<longleftrightarrow> r = Inl e"
  by (cases r) auto

lemmas answered = map_Inl reply_Inr reply_done_Inr read_back_Inr map_prod_Inr

text \<open>What each call of the service's store says when it succeeds.\<close>

lemma account_answered:
  assumes "st_AccountByEmail (sv_store (identity bd)) email w = (Inr account, w')"
  obtains a where "GetAccountByEmail (si_people w') email = Inr a" "account = toIdentityAccount a"
  using assms by (auto simp: store_fields IS_AccountByEmail_def answered elim!: store_call_answered)

lemma session_answered:
  assumes "st_CreateSession (sv_store (identity bd)) acc hash t w = (Inr j, w')"
  obtains p s i where "people_step\<^sup>*\<^sup>* (si_people w) p"
    "CreateSession p acc hash (bd_stamp bd t) i (bd_stamp bd (si_now w')) = Inr (s, si_people w')"
  using assms by (auto simp: store_fields IS_CreateSession_def answered elim!: store_call_answered)

section \<open>What the program wrote itself\<close>

definition seen :: "'o site \<Rightarrow> people \<times> int \<times> 'o" where
  "seen w = (si_people w, si_now w, si_out w)"

text \<open>The tables, the clock and the outside after the next visit, when the visitor does nothing.\<close>

definition pass :: "'o Backdrop \<Rightarrow> people \<times> int \<times> 'o \<Rightarrow> people \<times> int \<times> 'o" where
  "pass bd x = (case x of (p, t, out) \<Rightarrow> case bd_next bd out of (v, out') \<Rightarrow>
     let now = t + int (vs_elapsed v) in (fold (commit (bd_stamp bd now)) (vs_others v) p, now, out'))"

definition only_others :: "'o Backdrop \<Rightarrow> 'o site \<Rightarrow> 'o site \<Rightarrow> bool" where
  "only_others bd w w' \<longleftrightarrow> (\<exists>n. seen w' = (pass bd ^^ n) (seen w))"

lemma seen_simps [simp]: "seen (w\<lparr>si_limits := l\<rparr>) = seen w" "seen (w\<lparr>si_outbox := b\<rparr>) = seen w"
  "seen (w\<lparr>si_people := q\<rparr>) = (q, snd (seen w))"
  by (simp_all add: seen_def)

lemma seen_arrive: "seen (snd (arrive bd w)) = pass bd (seen w)"
  by (simp add: seen_def pass_def arrive_def Let_def split: prod.split)

lemma only_same: "seen w' = seen w \<Longrightarrow> only_others bd w w'"
  unfolding only_others_def by (rule exI[of _ 0]) simp

lemma only_refl [simp]: "only_others bd w w"
  by (rule only_same) simp

lemma only_trans: "only_others bd u v \<Longrightarrow> only_others bd v w \<Longrightarrow> only_others bd u w"
  unfolding only_others_def by (metis comp_apply funpow_add)

lemma only_seen: "only_others bd u v \<Longrightarrow> seen w = seen v \<Longrightarrow> only_others bd u w"
  by (simp add: only_others_def)

lemma only_arrive: "only_others bd w (snd (arrive bd w))"
  unfolding only_others_def by (rule exI[of _ 1]) (simp add: seen_arrive)

lemma pass_steps: "people_step\<^sup>*\<^sup>* (fst x) (fst (pass bd x))"
  by (auto simp: pass_def Let_def commits_steps split: prod.split)

lemma only_steps:
  assumes "only_others bd w w'"
  shows "people_step\<^sup>*\<^sup>* (si_people w) (si_people w')"
proof -
  have "people_step\<^sup>*\<^sup>* (fst x) (fst ((pass bd ^^ n) x))" for n x
    by (induction n) (auto intro: rtranclp_trans[OF _ pass_steps])
  then show ?thesis using assms unfolding only_others_def seen_def by (metis fst_conv)
qed

text \<open>A call: refused, or run on the tables it found.\<close>

lemma call_split:
  assumes "call_store fault bd f w = (r, w')"
  obtains v u where "arrive bd w = (v, u)" "vs_refused v" "r = Inl fault" "w' = u"
    | v u r' where "arrive bd w = (v, u)" "\<not> vs_refused v" "f v (bd_stamp bd (si_now u)) (si_people u) = (r', si_people w')"
      "w' = u\<lparr>si_people := si_people w'\<rparr>" "r = (if vs_lost v then Inl fault else r')"
  using assms by (auto simp: call_store_def split: prod.splits if_splits)

lemma call_reads:
  assumes "call_store fault bd f w = (r, w')" "\<And>v now p. snd (f v now p) = p"
  shows "only_others bd w w'"
  using assms(1)
proof (cases rule: call_split)
  case (1 v u)
  then show ?thesis using only_arrive[of bd w] by simp
next
  case (2 v u r')
  then have "si_people w' = si_people u" using assms(2) by (metis snd_conv)
  then have "seen w' = seen u" using 2(4) by (metis seen_simps(3) seen_def snd_conv fst_conv)
  then show ?thesis using only_arrive[of bd w] 2(1) by (simp add: only_others_def)
qed

lemma call_ran:
  assumes "call_store fault bd f w = (r, w')" "r \<noteq> Inl fault"
  shows "\<exists>u v. only_others bd w u \<and> snd (seen w') = snd (seen u) \<and> f v (bd_stamp bd (si_now u)) (si_people u) = (r, si_people w')"
  using assms(1)
proof (cases rule: call_split)
  case (2 v u r')
  have "snd (seen w') = snd (seen u)" using 2(4) by (metis seen_simps(3) snd_conv)
  then show ?thesis using only_arrive[of bd w] 2 assms(2) by (auto split: if_splits)
qed (use assms(2) in simp)

lemmas call_succeeded = call_ran[where r = "Inr x" for x, OF _ sum.distinct(2)]

lemma drawn_only:
  "NewSecret (identity bd) w = (r, w') \<Longrightarrow> only_others bd w w'" "Hash (identity bd) password w = (h, w') \<Longrightarrow> only_others bd w w'"
  "sv_now (identity bd) w = (t, w') \<Longrightarrow> only_others bd w w'"
  using only_arrive[of bd w]
  by (auto simp: NewSecret_def Hash_def identity_def split: prod.splits option.splits)

lemma post_only: "only_others bd w (snd (post bd to' subject body w))"
  using only_arrive[of bd w] by (auto simp: post_def intro: only_seen split: prod.splits)

lemma send_only: "only_others bd w (send (identity bd) to' subject body w)"
  using post_only by (auto simp: send_def identity_def split: option.splits)

lemma reads_only:
  "st_OAuthCode (sv_store (identity bd)) hash w = (r1, w') \<Longrightarrow> only_others bd w w'"
  "st_LiveInvite (sv_store (identity bd)) hash email w = (r2, w') \<Longrightarrow> only_others bd w w'"
  by (auto simp: store_fields identity_adapter_reads elim!: call_reads)

end
