(* ===== verification/Identity_Properties.thy ===== *)
theory Identity_Properties
  imports Identity_Runs
begin

text \<open>
  What the identity service promises over the store, whatever other callers do between its calls
  and however those fail: it only ever moves the tables along the steps of \<open>People_Properties\<close>;
  what a successful sign in, registration, password reset and exchange of a code rest on; and what
  a code presented a second time costs.
\<close>

section \<open>The service only takes steps of the store\<close>

text \<open>C11: Every sequence of requests to the identity service over the store, whatever other callers
  commit between its calls and whichever of those are refused or lose their answer, moves the
  tables of people along the store's own steps, so every guarantee about reachable tables holds
  of what the service leaves; in particular a grant is only asked for with the client its code
  was issued to.\<close>

theorem identity_refines_store:
  assumes "people_step\<^sup>*\<^sup>* no_people (si_people w)"
  shows "people_step\<^sup>*\<^sup>* (si_people w) (si_people (fold (serve_identity (identity bd)) requests w))"
proof -
  have "onward w (fold (serve_identity (identity bd)) requests w)" if "people_ok (si_people w)" for w
    using that
  proof (induction requests arbitrary: w)
    case (Cons r rs)
    have step: "onward w (serve_identity (identity bd) r w)" by (rule site.serve_flow[OF Cons.prems])
    then have "onward (serve_identity (identity bd) r w) (fold (serve_identity (identity bd)) (r # rs) w)"
      using Cons.IH[OF site_good[OF Cons.prems step]] by simp
    then show ?case using step onward_trans by blast
  qed (simp add: onward_refl)
  then show ?thesis using people_reachable_ok[OF assms] by (simp add: onward_def)
qed

section \<open>Signing in\<close>

text \<open>C13: A sign in succeeds only for an address that is not locked out, whose account at that moment was
  verified and not disabled and carried a hash the password verifies against; it leaves a session of
  that account under the hash of the cookie, good for thirty days from a moment of the run.\<close>

theorem sign_in_needs_credentials:
  assumes "Login (identity bd) rawEmail password w = (Inr (raw, account), w')"
  shows "\<not> fst (LockedOut_call (identity bd) (NormalizeEmail (bd_libs bd) rawEmail) w) \<and>
    (\<exists>p a. people_step\<^sup>*\<^sup>* (si_people w) p \<and> GetAccountByEmail p (NormalizeEmail (bd_libs bd) rawEmail) = Inr a \<and>
      account = toIdentityAccount a \<and> acc_disabled_at a = None \<and> acc_email_verified_at a \<noteq> None \<and>
      Verify (bd_libs bd) password (deref (acc_password_hash a)) \<and>
      (\<exists>q s i t now. people_step\<^sup>*\<^sup>* p q \<and> si_now w \<le> t \<and> t \<le> si_now w' \<and>
        CreateSession q (acc_id a) (HashSecret (bd_libs bd) raw) (bd_stamp bd (t + SessionLifetime)) i now =
          Inr (s, si_people w')))"
proof -
  let ?sv = "identity bd" and ?email = "NormalizeEmail (bd_libs bd) rawEmail"
  have lib: "sv_libs ?sv = bd_libs bd" by (simp add: identity_def)
  obtain w1 w2 w3 w4 w5 now sid where run:
    "LockedOut_call ?sv ?email w = (False, w1)" "st_AccountByEmail (sv_store ?sv) ?email w1 = (Inr account, w2)"
    "Verify (bd_libs bd) password (ac_password_hash account)" "\<not> ac_disabled account" "ac_verified account"
    "NewSecret ?sv w2 = (Inr raw, w3)" "sv_now ?sv w3 = (now, w4)"
    "st_CreateSession (sv_store ?sv) (ac_id account) (HashSecret (bd_libs bd) raw) (now + SessionLifetime) w4 = (Inr sid, w5)"
    "w' = Succeeded_call ?sv ?email w5"
    using assms by (auto simp: Login_def Let_def taken_apart lib split: if_splits)
  have on: "onward w w1" "onward w1 w2" "onward w2 w3" "onward w3 w4" "onward w4 w5"
    using site.locked_on[OF onward_refl, of w bd ?email] site.by_email_on[of w1 bd ?email] secret_drawn[OF run(6)]
      clock_read(1)[OF run(7)] site.session_on[of w4 bd "ac_id account" "HashSecret (bd_libs bd) raw" "now + SessionLifetime"]
      run(1,2,8) by simp_all
  have same: "si_people w' = si_people w5" "si_now w' = si_now w5" by (simp_all add: run(9) Succeeded_call_def identity_def)
  obtain a where a: "GetAccountByEmail (si_people w2) ?email = Inr a" "account = toIdentityAccount a"
    using run(2) by (rule account_answered)
  obtain q s i where s: "people_step\<^sup>*\<^sup>* (si_people w4) q"
    "CreateSession q (ac_id account) (HashSecret (bd_libs bd) raw) (bd_stamp bd (now + SessionLifetime)) i
      (bd_stamp bd (si_now w5)) = Inr (s, si_people w5)"
    using run(8) by (rule session_answered)
  have "people_step\<^sup>*\<^sup>* (si_people w2) q"
    using on(3,4) s(1) by (meson onward_def rtranclp_trans)
  moreover have "people_step\<^sup>*\<^sup>* (si_people w) (si_people w2)" using on(1,2) by (meson onward_def rtranclp_trans)
  moreover have "si_now w \<le> now" "now \<le> si_now w'"
    using on clock_read(2)[OF run(7)] same(2) by (simp_all add: onward_def)
  moreover have "acc_disabled_at a = None" "acc_email_verified_at a \<noteq> None" "ac_id account = acc_id a"
    "Verify (bd_libs bd) password (deref (acc_password_hash a))" "\<not> fst (LockedOut_call ?sv ?email w)"
    using run(1,3-5) a(2) by (simp_all add: toIdentityAccount_def)
  ultimately show ?thesis using a s(2) unfolding same(1) by (intro conjI exI) simp_all
qed

section \<open>Registering\<close>

lemma invite_answered:
  assumes "st_LiveInvite (sv_store (identity bd)) hash candidate w = (Inr j, w')"
  obtains v where "only_others bd w w'" "LiveInvite (si_people w') hash candidate (bd_stamp bd (si_now w')) = Inr v" "j = i_id v"
proof -
  have call: "store_call bd (\<lambda>v. IS_LiveInvite hash candidate) w = (Inr j, w')" using assms by (simp add: store_fields)
  obtain u where u: "IS_LiveInvite hash candidate (bd_stamp bd (si_now u)) (si_people u) = (Inr j, si_people w')"
    "snd (seen w') = snd (seen u)"
    using call_succeeded[OF call] by blast
  show thesis using that[OF reads_only(2)[OF assms]] u by (auto simp: IS_LiveInvite_def answered seen_def)
qed

text \<open>The row a registration asks for.\<close>

definition new_person :: "string \<Rightarrow> string \<Rightarrow> string \<Rightarrow> NewIdentityAccount" where
  "new_person email hash name = \<lparr>na_email = email, na_password_hash = hash, na_display_name = name\<rparr>"

lemma spend_ran:
  assumes "st_SpendInvite (sv_store (identity bd)) j \<lparr>nw_email = email, nw_password_hash = hash, nw_display_name = name\<rparr> w = (r, w')"
    and "r \<noteq> Inl IdFault"
  obtains u and v :: visit where "only_others bd w u" "snd (seen w') = snd (seen u)"
    "reply (\<lambda>e. if e = ErrInviteInvalid then IdInviteInvalid else if e = ErrEmailTaken then IdEmailTaken else IdFault) (si_people u)
       (map_sum id (map_prod toIdentityAccount id) (SpendInviteAndCreateAccount (si_people u) j (vs_id v)
         (new_person email hash name) (vs_audit v) (bd_stamp bd (si_now u)))) = (r, si_people w')"
proof -
  have call: "store_call bd (\<lambda>v. IS_SpendInvite j \<lparr>nw_email = email, nw_password_hash = hash, nw_display_name = name\<rparr>
      (vs_id v) (vs_audit v)) w = (r, w')"
    using assms(1) by (simp add: store_fields)
  obtain u and v :: visit where u: "only_others bd w u" "snd (seen w') = snd (seen u)"
    "IS_SpendInvite j \<lparr>nw_email = email, nw_password_hash = hash, nw_display_name = name\<rparr> (vs_id v) (vs_audit v)
      (bd_stamp bd (si_now u)) (si_people u) = (r, si_people w')"
    using call_ran[OF call assms(2)] by blast
  show thesis using that[of u v, OF u(1,2)] u(3) by (simp add: IS_SpendInvite_def new_person_def)
qed

lemma spend_answered:
  assumes "st_SpendInvite (sv_store (identity bd)) j \<lparr>nw_email = email, nw_password_hash = hash, nw_display_name = name\<rparr> w =
      (Inr account, w')"
  obtains u a acc audit where "only_others bd w u" "snd (seen w') = snd (seen u)" "account = toIdentityAccount a"
    "SpendInviteAndCreateAccount (si_people u) j acc (new_person email hash name) audit (bd_stamp bd (si_now u)) = Inr (a, si_people w')"
proof -
  obtain u and v :: visit where u: "only_others bd w u" "snd (seen w') = snd (seen u)"
    "reply (\<lambda>e. if e = ErrInviteInvalid then IdInviteInvalid else if e = ErrEmailTaken then IdEmailTaken else IdFault) (si_people u)
       (map_sum id (map_prod toIdentityAccount id) (SpendInviteAndCreateAccount (si_people u) j (vs_id v)
         (new_person email hash name) (vs_audit v) (bd_stamp bd (si_now u)))) = (Inr account, si_people w')"
    by (rule spend_ran[OF assms], simp, blast)
  from u(3) show thesis using that[OF u(1,2)] by (auto simp: answered)
qed

lemma spend_taken:
  assumes "st_SpendInvite (sv_store (identity bd)) j \<lparr>nw_email = email, nw_password_hash = hash, nw_display_name = name\<rparr> w =
      (Inl IdEmailTaken, w')"
  obtains acc audit where "only_others bd w w'"
    "SpendInviteAndCreateAccount (si_people w') j acc (new_person email hash name) audit (bd_stamp bd (si_now w')) = Inl ErrEmailTaken"
proof -
  obtain u and v :: visit where u: "only_others bd w u" "snd (seen w') = snd (seen u)"
    "reply (\<lambda>e. if e = ErrInviteInvalid then IdInviteInvalid else if e = ErrEmailTaken then IdEmailTaken else IdFault) (si_people u)
       (map_sum id (map_prod toIdentityAccount id) (SpendInviteAndCreateAccount (si_people u) j (vs_id v)
         (new_person email hash name) (vs_audit v) (bd_stamp bd (si_now u)))) = (Inl IdEmailTaken, si_people w')"
    by (rule spend_ran[OF assms], simp, blast)
  then have "si_people w' = si_people u" "SpendInviteAndCreateAccount (si_people u) j (vs_id v)
         (new_person email hash name) (vs_audit v) (bd_stamp bd (si_now u)) = Inl ErrEmailTaken"
    by (auto simp: reply_def map_Inl split: sum.splits if_splits)
  moreover have "seen w' = seen u" using calculation(1) u(2) by (simp add: seen_def)
  ultimately show thesis using that[of "vs_id v" "vs_audit v"] only_seen[OF u(1)] by (simp add: seen_def)
qed

lemma hashed:
  assumes "Hash (identity bd) password w = (Inr hash, w')"
  shows "onward w w'" "\<exists>salt. hash = HashWith (bd_libs bd) (bd_memory bd) (bd_time bd) salt password" "si_outbox w' = si_outbox w"
proof -
  show "onward w w'" using site.hash_on[OF onward_refl, of w bd password] assms by simp
  show "\<exists>salt. hash = HashWith (bd_libs bd) (bd_memory bd) (bd_time bd) salt password" "si_outbox w' = si_outbox w"
    using assms by (auto simp: Hash_def identity_def arrive_def Let_def split: prod.splits option.splits)
qed

lemma call_sends_nothing: "store_call bd f w = (r, w') \<Longrightarrow> si_outbox w' = si_outbox w"
  by (auto simp: call_store_def arrive_def Let_def split: prod.splits if_splits)

lemma sends_one:
  "\<exists>ms. si_outbox (send (identity bd) to' subject body w) = si_outbox w @ ms \<and> (ms = [] \<or> ms = [(to', subject, body)])"
  "onward w (send (identity bd) to' subject body w)"
proof -
  show "onward w (send (identity bd) to' subject body w)" by (rule site.send_on[OF onward_refl])
  show "\<exists>ms. si_outbox (send (identity bd) to' subject body w) = si_outbox w @ ms \<and> (ms = [] \<or> ms = [(to', subject, body)])"
    by (auto simp: send_def identity_def post_def arrive_def Let_def split: prod.splits)
qed

lemma link_issued:
  assumes "issueLink (identity bd) acc purpose w = (Inr link, w')"
  obtains u raw t i k where "only_others bd w u" "snd (seen w') = snd (seen u)" "link = linkURL (bd_baseURL bd) purpose raw"
    "CreateEmailToken (si_people u) acc purpose (HashSecret (bd_libs bd) raw) (bd_stamp bd (t + LinkLifetime)) i
      (bd_stamp bd (si_now u)) = Inr (k, si_people w')"
    "si_outbox w' = si_outbox w"
proof -
  obtain raw w1 t w2 where run: "NewSecret (identity bd) w = (Inr raw, w1)" "sv_now (identity bd) w1 = (t, w2)"
    "st_CreateLink (sv_store (identity bd)) acc purpose (HashSecret (bd_libs bd) raw) (t + LinkLifetime) w2 = (Inr (), w')"
    "link = linkURL (bd_baseURL bd) purpose raw"
    using assms by (auto simp: issueLink_def taken_apart identity_def)
  have call: "store_call bd (\<lambda>v. IS_CreateLink acc purpose (HashSecret (bd_libs bd) raw) (bd_stamp bd (t + LinkLifetime)) (vs_id v)) w2 =
      (Inr (), w')"
    using run(3) by (simp add: store_fields)
  obtain u and v :: visit where u: "only_others bd w2 u" "snd (seen w') = snd (seen u)"
    "IS_CreateLink acc purpose (HashSecret (bd_libs bd) raw) (bd_stamp bd (t + LinkLifetime)) (vs_id v) (bd_stamp bd (si_now u))
      (si_people u) = (Inr (), si_people w')"
    using call_succeeded[OF call] by blast
  have "si_outbox w2 = si_outbox w"
    using run(1,2) by (auto simp: NewSecret_def identity_def arrive_def Let_def split: prod.splits option.splits)
  then have box: "si_outbox w' = si_outbox w" using call_sends_nothing[OF call] by simp
  obtain k where "CreateEmailToken (si_people u) acc purpose (HashSecret (bd_libs bd) raw) (bd_stamp bd (t + LinkLifetime)) (vs_id v)
      (bd_stamp bd (si_now u)) = Inr (k, si_people w')"
    using u(3) by (cases "CreateEmailToken (si_people u) acc purpose (HashSecret (bd_libs bd) raw) (bd_stamp bd (t + LinkLifetime))
      (vs_id v) (bd_stamp bd (si_now u))") (auto simp: IS_CreateLink_def answered)
  then show thesis using that[OF _ u(2) run(4)] only_trans[OF only_trans[OF drawn_only(1)[OF run(1)] drawn_only(3)[OF run(2)]] u(1)] box
    by blast
qed

lemma CheckEmail_Inr: "CheckEmail lib raw = Inr email \<Longrightarrow> email = NormalizeEmail lib raw"
  by (auto simp: CheckEmail_def Let_def split: if_splits option.splits)

text \<open>What a registration that was answered with success wrote from some point of its run on: nothing,
  having found the address taken and told its owner; or the spent invite with the account, then
  the account's verification link, mailed to that address, and nothing else.\<close>

definition enrolled :: "'o Backdrop \<Rightarrow> ident \<Rightarrow> string \<Rightarrow> NewIdentityAccount \<Rightarrow> 'o site \<Rightarrow> 'o site \<Rightarrow>
    (string \<times> string \<times> string) list \<Rightarrow> bool" where
  "enrolled bd j email n w w' ms \<longleftrightarrow>
     (\<exists>u acc audit. only_others bd w u \<and>
        SpendInviteAndCreateAccount (si_people u) j acc n audit (bd_stamp bd (si_now u)) = Inl ErrEmailTaken \<and>
        only_others bd u w' \<and> (ms = [] \<or> ms = [(email, alreadyRegisteredSubject, alreadyRegisteredBody (bd_baseURL bd))])) \<or>
     (\<exists>u u' v v' acc audit a raw t i k. only_others bd w u \<and>
        SpendInviteAndCreateAccount (si_people u) j acc n audit (bd_stamp bd (si_now u)) = Inr (a, si_people u') \<and>
        snd (seen u') = snd (seen u) \<and> only_others bd u' v \<and>
        CreateEmailToken (si_people v) (acc_id a) PurposeVerify (HashSecret (bd_libs bd) raw) (bd_stamp bd (t + LinkLifetime)) i
          (bd_stamp bd (si_now v)) = Inr (k, si_people v') \<and>
        snd (seen v') = snd (seen v) \<and> only_others bd v' w' \<and>
        (ms = [] \<or> ms = [(email, verifySubject, verifyBody (linkURL (bd_baseURL bd) PurposeVerify raw))]))"

lemma enrolled_after:
  assumes "only_others bd u w" "enrolled bd j email n w w' ms"
  shows "enrolled bd j email n u w' ms"
  using assms(2) unfolding enrolled_def by (blast intro: only_trans[OF assms(1)])

lemma enrolled_flow:
  assumes spent: "st_SpendInvite (sv_store (identity bd)) j \<lparr>nw_email = email, nw_password_hash = hash, nw_display_name = name\<rparr> w =
      (r, w1)"
    and rest: "(\<exists>account link w2. r = Inr account \<and> issueLink (identity bd) (ac_id account) PurposeVerify w1 = (Inr link, w2) \<and>
        w' = send (identity bd) email verifySubject (verifyBody link) w2) \<or>
      r = Inl IdEmailTaken \<and> w' = send (identity bd) email alreadyRegisteredSubject (alreadyRegisteredBody (bd_baseURL bd)) w1"
  shows "\<exists>ms. si_outbox w' = si_outbox w @ ms \<and> enrolled bd j email (new_person email hash name) w w' ms"
proof -
  have box: "si_outbox w1 = si_outbox w" using spent by (auto simp: store_fields dest: call_sends_nothing)
  show ?thesis
  proof (cases r)
    case (Inl e)
    then have out: "e = IdEmailTaken" "w' = send (identity bd) email alreadyRegisteredSubject (alreadyRegisteredBody (bd_baseURL bd)) w1"
      using rest by auto
    obtain acc audit where tk: "only_others bd w w1"
      "SpendInviteAndCreateAccount (si_people w1) j acc (new_person email hash name) audit (bd_stamp bd (si_now w1)) = Inl ErrEmailTaken"
      using spent unfolding Inl out(1) by (rule spend_taken)
    have "only_others bd w1 w'" unfolding out(2) by (rule send_only)
    then show ?thesis
      using tk sends_one(1)[where bd = bd and w = w1 and to' = email and subject = alreadyRegisteredSubject,
          of "alreadyRegisteredBody (bd_baseURL bd)", folded out(2)] box
      unfolding enrolled_def by auto
  next
    case (Inr account)
    obtain link w2 where out: "issueLink (identity bd) (ac_id account) PurposeVerify w1 = (Inr link, w2)"
      "w' = send (identity bd) email verifySubject (verifyBody link) w2"
      using rest Inr by blast
    obtain u a acc audit where sp: "only_others bd w u" "snd (seen w1) = snd (seen u)" "account = toIdentityAccount a"
      "SpendInviteAndCreateAccount (si_people u) j acc (new_person email hash name) audit (bd_stamp bd (si_now u)) = Inr (a, si_people w1)"
      using spent unfolding Inr by (rule spend_answered)
    have ident: "ac_id account = acc_id a" by (simp add: sp(3) toIdentityAccount_def)
    obtain v raw t i k where link: "only_others bd w1 v" "snd (seen w2) = snd (seen v)" "link = linkURL (bd_baseURL bd) PurposeVerify raw"
      "CreateEmailToken (si_people v) (acc_id a) PurposeVerify (HashSecret (bd_libs bd) raw) (bd_stamp bd (t + LinkLifetime)) i
        (bd_stamp bd (si_now v)) = Inr (k, si_people w2)" "si_outbox w2 = si_outbox w1"
      using out(1)[unfolded ident] by (rule link_issued)
    have "only_others bd w2 w'" unfolding out(2) by (rule send_only)
    then have "\<forall>ms. ms = [] \<or> ms = [(email, verifySubject, verifyBody link)] \<longrightarrow> enrolled bd j email (new_person email hash name) w w' ms"
      using sp(1,2,4) link(1,2,4) unfolding enrolled_def link(3) by blast
    then show ?thesis
      using sends_one(1)[where bd = bd and w = w2 and to' = email and subject = verifySubject, of "verifyBody link", folded out(2)]
        box link(5) by metis
  qed
qed

text \<open>C14: A registration that is answered with success, whether or not the address was taken, rests on an
  invite that was live for that address at a moment of the run and on a usable address and
  password. Either the address was taken: then the service wrote nothing at all, what the tables
  hold being what other callers committed meanwhile. Or it spent the invite for an account with
  that address and a hash of that password, wrote the account's verification link, and wrote
  nothing else. The one message it may have sent went to that address.\<close>

theorem registration_outcome:
  assumes "Register (identity bd) invite rawEmail password name w = (Inr (), w')"
  shows "\<exists>email salt v u ms. CheckEmail (bd_libs bd) rawEmail = Inr email \<and> CheckPassword password = None \<and>
    only_others bd w u \<and> LiveInvite (si_people u) (HashSecret (bd_libs bd) invite) email (bd_stamp bd (si_now u)) = Inr v \<and>
    si_outbox w' = si_outbox w @ ms \<and>
    enrolled bd (i_id v) email (new_person email (HashWith (bd_libs bd) (bd_memory bd) (bd_time bd) salt password)
      (DisplayNameFor (bd_libs bd) name email)) u w' ms"
proof -
  let ?sv = "identity bd" and ?lib = "bd_libs bd"
  have fields: "sv_libs ?sv = ?lib" "sv_baseURL ?sv = bd_baseURL bd" by (simp_all add: identity_def)
  let ?new = "\<lambda>email hash. \<lparr>nw_email = email, nw_password_hash = hash, nw_display_name = DisplayNameFor ?lib name email\<rparr>"
  obtain j w1 email hash w2 r w3 where run:
    "st_LiveInvite (sv_store ?sv) (HashSecret ?lib invite) (NormalizeEmail ?lib rawEmail) w = (Inr j, w1)"
    "CheckEmail ?lib rawEmail = Inr email" "CheckPassword password = None" "Hash ?sv password w1 = (Inr hash, w2)"
    "st_SpendInvite (sv_store ?sv) j (?new email hash) w2 = (r, w3)"
    "(\<exists>account link w4. r = Inr account \<and> issueLink ?sv (ac_id account) PurposeVerify w3 = (Inr link, w4) \<and>
        w' = send ?sv email verifySubject (verifyBody link) w4) \<or>
      r = Inl IdEmailTaken \<and> w' = send ?sv email alreadyRegisteredSubject (alreadyRegisteredBody (bd_baseURL bd)) w3"
    using assms by (fastforce simp: Register_def taken_apart fields split: if_splits option.splits)
  obtain v where v: "only_others bd w w1" "j = i_id v"
    "LiveInvite (si_people w1) (HashSecret ?lib invite) (NormalizeEmail ?lib rawEmail) (bd_stamp bd (si_now w1)) = Inr v"
    using run(1) by (rule invite_answered)
  have box: "si_outbox w1 = si_outbox w" using run(1) by (auto simp: store_fields dest: call_sends_nothing)
  note h = hashed[OF run(4)]
  obtain salt where salt: "hash = HashWith ?lib (bd_memory bd) (bd_time bd) salt password" using h(2) by blast
  obtain ms where ms: "si_outbox w' = si_outbox w2 @ ms"
    "enrolled bd j email (new_person email hash (DisplayNameFor ?lib name email)) w2 w' ms"
    using enrolled_flow[OF run(5,6)] by blast
  note all = enrolled_after[OF drawn_only(2)[OF run(4)] ms(2)]
  show ?thesis
    using run(2,3) v box h(3) ms(1) all CheckEmail_Inr[OF run(2)] unfolding salt by auto
qed

section \<open>Resetting a password\<close>

lemma link_answered:
  assumes "st_ConsumeLink (sv_store (identity bd)) hash purpose w = (Inr i, w')"
  obtains p k where "people_step\<^sup>*\<^sup>* (si_people w) p" "i = k_account_id k"
    "ConsumeEmailToken p hash purpose (bd_stamp bd (si_now w')) = Inr (k, si_people w')"
  using assms by (auto simp: store_fields IS_ConsumeLink_def answered elim!: store_call_answered)

lemma password_answered:
  assumes "st_SetPassword (sv_store (identity bd)) i hash w = (Inr (), w')"
  obtains p where "people_step\<^sup>*\<^sup>* (si_people w) p" "SetPassword p i hash (bd_stamp bd (si_now w')) = Inr (si_people w')"
  using assms by (auto simp: store_fields IS_SetPassword_def answered elim!: store_call_answered)

lemma sel_one_upd_same: "(\<And>r. P (f r) = P r) \<Longrightarrow> sel_one P (upd_where P f t) = map_option f (sel_one P t)"
  by (induction t) (auto simp: sel_one_def)

lemma password_set:
  assumes "SetPassword p i hash now = Inr q"
  shows "cut_off p i q" "\<exists>a. GetAccount (core q) i = Inr a \<and> acc_password_hash a = Some hash"
proof -
  let ?r = "snd (on_core (\<lambda>s. q_SetPasswordHash s i (Some hash) now) p)"
  have hit: "fst (on_core (\<lambda>s. q_SetPasswordHash s i (Some hash) now) p) \<noteq> 0"
    and q: "q = snd (q_RevokeAccountEmailTokens (snd (q_RevokeAccountSessions ?r i now)) i now)"
    using assms by (auto simp: SetPassword_def next_step_Inr found_Inr Let_def)
  show "cut_off p i q" unfolding q by (rule revoke_all_cuts_off) (simp_all add: snd_on_core)
  have core: "core q = core ?r" by (simp add: q q_RevokeAccountEmailTokens_def q_RevokeAccountSessions_def upd_links_def upd_sessions_def)
  have "\<exists>a \<in> set (accounts (core p)). acc_id a = i"
    using hit by (auto simp: on_core_def q_SetPasswordHash_def upd_accounts_def count_where_zero)
  then have "\<exists>a. sel_one (\<lambda>a. acc_id a = i) (accounts (core p)) = Some a"
    by (metis (mono_tags, lifting) not_None_eq sel_one_None)
  moreover have "sel_one (\<lambda>a. acc_id a = i) (accounts (core ?r)) =
      map_option (\<lambda>a. a\<lparr>acc_password_hash := Some hash, acc_updated_at := now\<rparr>) (sel_one (\<lambda>a. acc_id a = i) (accounts (core p)))"
    by (simp add: snd_on_core q_SetPasswordHash_def upd_accounts_def sel_one_upd_same)
  ultimately show "\<exists>a. GetAccount (core q) i = Inr a \<and> acc_password_hash a = Some hash"
    unfolding core GetAccount_def q_GetAccount_def by auto
qed

text \<open>C15: A password reset that is answered with success spent a reset link, and leaves the link's account
  with a hash the new password verifies against and cut off from every session and every link it
  held: whoever knew the old password has nothing left.\<close>

theorem reset_takes_hold:
  assumes "Reset (identity bd) rawToken password w = (Inr (), w')"
    and "bd_memory bd < 2 ^ 32" "bd_time bd < 2 ^ 32"
    and "\<forall>salt. length (lib_argon2 (bd_libs bd) password salt (bd_time bd) (bd_memory bd) 1 32) = 32"
  shows "\<exists>p k r now q a. people_step\<^sup>*\<^sup>* (si_people w) p \<and>
    ConsumeEmailToken p (HashSecret (bd_libs bd) rawToken) PurposeReset now = Inr (k, r) \<and> people_step\<^sup>*\<^sup>* r q \<and>
    cut_off q (k_account_id k) (si_people w') \<and> GetAccount (core (si_people w')) (k_account_id k) = Inr a \<and>
    Verify (bd_libs bd) password (deref (acc_password_hash a))"
proof -
  let ?sv = "identity bd" and ?lib = "bd_libs bd"
  have lib: "sv_libs ?sv = ?lib" by (simp add: identity_def)
  obtain hash w1 i w2 where run: "Hash ?sv password w = (Inr hash, w1)"
    "st_ConsumeLink (sv_store ?sv) (HashSecret ?lib rawToken) PurposeReset w1 = (Inr i, w2)"
    "st_SetPassword (sv_store ?sv) i hash w2 = (Inr (), w')"
    using assms(1) by (auto simp: Reset_def taken_apart lib split: option.splits)
  note h = hashed[OF run(1)]
  obtain salt where salt: "hash = HashWith ?lib (bd_memory bd) (bd_time bd) salt password" using h(2) by blast
  obtain p k where k: "people_step\<^sup>*\<^sup>* (si_people w1) p" "i = k_account_id k"
    "ConsumeEmailToken p (HashSecret ?lib rawToken) PurposeReset (bd_stamp bd (si_now w2)) = Inr (k, si_people w2)"
    using run(2) by (rule link_answered)
  obtain q where q: "people_step\<^sup>*\<^sup>* (si_people w2) q" "SetPassword q i hash (bd_stamp bd (si_now w')) = Inr (si_people w')"
    using run(3) by (rule password_answered)
  obtain a where a: "GetAccount (core (si_people w')) i = Inr a" "acc_password_hash a = Some hash"
    using password_set(2)[OF q(2)] by blast
  have "Verify ?lib password hash"
    using parse_hash[OF assms(2,3), of ?lib salt password] assms(4) by (auto simp: salt Verify_def HashWith_def)
  then have "Verify ?lib password (deref (acc_password_hash a))" using a(2) by simp
  moreover have "people_step\<^sup>*\<^sup>* (si_people w) p" using h(1) k(1) by (meson onward_def rtranclp_trans)
  ultimately show ?thesis using k(2,3) q(1) a(1) password_set(1)[OF q(2)] by metis
qed

section \<open>Exchanging a code\<close>

lemma code_answered:
  assumes "st_OAuthCode (sv_store (identity bd)) hash w = (Inr code, w')"
  obtains c t where "OAuthCode (si_people w') hash = Inr c" "cd_client code = o_client_id c" "cd_account code = o_account_id c"
    "cd_redirect code = o_redirect_uri c" "cd_challenge code = o_code_challenge c" "cd_resource code = o_resource c"
    "lib_ParseTime (bd_libs bd) (o_expires_at c) = Some t" "cd_expires_at code = t"
    "cd_consumed code = (deref (o_consumed_at c) \<noteq> [])" "cd_token code = deref (o_token_id c)"
  using assms by (auto simp: store_fields IS_OAuthCode_def elim!: store_call_answered split: sum.splits option.splits)

lemma account_named:
  assumes "st_AccountByID (sv_store (identity bd)) i w = (Inr account, w')"
  shows "ac_id account = i"
  using assms
  by (auto simp: store_fields IS_AccountByID_def answered GetAccount_def q_GetAccount_def toIdentityAccount_def
      elim!: store_call_answered dest!: sel_one_Some)

text \<open>The grant the service asks the store for.\<close>

definition grant_for :: "Libs \<Rightarrow> GrantRequest \<Rightarrow> oauth_code \<Rightarrow> string \<Rightarrow> string \<Rightarrow> ClientGrant" where
  "grant_for lib req c name raw = \<lparr>g_code_hash = HashSecret lib (rq_code req), g_account = o_account_id c,
     g_client = o_client_id c, g_name = name, g_token_hash = HashSecret lib raw, g_prefix = TokenPrefix raw\<rparr>"

lemma grant_answered:
  assumes "st_GrantClientToken (sv_store (identity bd)) g w = (Inr view, w')"
  obtains p t i where "people_step\<^sup>*\<^sup>* (si_people w) p" "view = toTokenView t"
    "GrantClientToken p \<lparr>g_code_hash = gr_code_hash g, g_account = gr_account g, g_client = gr_client g, g_name = gr_name g,
        g_token_hash = gr_token_hash g, g_prefix = gr_prefix g\<rparr> i (bd_stamp bd (si_now w')) = Inr (t, si_people w')"
  using assms by (auto simp: store_fields IS_GrantClientToken_def answered elim!: store_call_answered)

lemma grant_loop_answered:
  assumes "grant_loop (identity bd) g base raw n left w = (Inr (raw', view), w')"
    and "issued_code (gr_code_hash g) (gr_client g) (si_people w)"
  shows "raw' = raw \<and> (\<exists>v name. onward w v \<and>
    st_GrantClientToken (sv_store (identity bd)) (g\<lparr>gr_name := name\<rparr>) v = (Inr view, w'))"
  using assms
proof (induction left arbitrary: n w)
  case (Suc left)
  define name where "name = (if n > 0 then base @ '' ('' @ decimal (n + 1) @ '')'' else base)"
  obtain r w1 where call: "st_GrantClientToken (sv_store (identity bd)) (g\<lparr>gr_name := name\<rparr>) w = (r, w1)"
    by (cases "st_GrantClientToken (sv_store (identity bd)) (g\<lparr>gr_name := name\<rparr>) w")
  have on: "onward w w1"
    using site.grant_on[of "g\<lparr>gr_name := name\<rparr>" w bd] Suc.prems(2) call by simp
  show ?case
  proof (cases r)
    case (Inl e)
    then have "grant_loop (identity bd) g base raw (n + 1) left w1 = (Inr (raw', view), w')"
      using Suc.prems(1) call by (simp add: name_def[symmetric] split: if_splits)
    moreover have "issued_code (gr_code_hash g) (gr_client g) (si_people w1)"
      using Suc.prems(2) on by (auto simp: onward_def intro: issued_code_kept)
    ultimately show ?thesis using Suc.IH on onward_trans by blast
  next
    case (Inr x)
    then show ?thesis using Suc.prems(1) call onward_refl by (auto simp: name_def[symmetric])
  qed
qed simp

lemma prepared:
  assumes "prepareMint (identity bd) account w = (Inr (raw, hash, shown), w')"
  shows "onward w w'" "hash = HashSecret (bd_libs bd) raw" "shown = TokenPrefix raw"
    "only_others bd w w'" "ac_email account = [] \<or> ac_verified account"
    "\<exists>v body. vs_bytes (fst (bd_next bd v)) tokenBytes = Some body \<and> raw = APITokenPrefix @ raw_url body"
proof -
  have run: "\<exists>b. NewSecret (identity bd) w = (Inr b, w') \<and> raw = APITokenPrefix @ b \<and> hash = HashSecret (bd_libs bd) raw \<and>
      shown = TokenPrefix raw" "ac_email account = [] \<or> ac_verified account"
    using assms by (auto simp: prepareMint_def NewAPIToken_def taken_apart identity_def split: if_splits)
  then obtain b where b: "NewSecret (identity bd) w = (Inr b, w')" "raw = APITokenPrefix @ b" by blast
  show "onward w w'" "hash = HashSecret (bd_libs bd) raw" "shown = TokenPrefix raw" "ac_email account = [] \<or> ac_verified account"
    using secret_drawn[OF b(1)] run by auto
  show "only_others bd w w'" by (rule drawn_only(1)[OF b(1)])
  show "\<exists>v body. vs_bytes (fst (bd_next bd v)) tokenBytes = Some body \<and> raw = APITokenPrefix @ raw_url body"
  proof -
    have "\<exists>body. vs_bytes (fst (bd_next bd (si_out w))) tokenBytes = Some body \<and> b = raw_url body"
      using b(1) by (auto simp: NewSecret_def identity_def arrive_def Let_def split: prod.splits option.splits)
    then show ?thesis using b(2) by blast
  qed
qed

section \<open>Minting a token\<close>

text \<open>A token that was just inserted is found under its hash.\<close>

lemma minted_resolves:
  assumes "CreateAPIToken p n i now = Inr (t, q)" "token_usable later t"
  shows "\<exists>a. ResolveToken q (nt_hash n) later = Inr (a, t) \<and> acc_id a = nt_account n"
proof -
  have t: "t_token_hash t = nt_hash n" "t_account_id t = nt_account n"
    and fresh: "\<forall>u \<in> set (api_tokens p). t_token_hash u \<noteq> nt_hash n"
    and q: "api_tokens q = api_tokens p @ [t]" "core q = core p" "known_account p (nt_account n)"
    using assms(1)
    by (auto simp: CreateAPIToken_def q_CreateAPIToken_def insert_token_def token_clash_def list_ex_iff split: if_splits)
  have "sel_one (\<lambda>u. t_token_hash u = nt_hash n \<and> token_usable later u) ts = None" if "set ts \<subseteq> set (api_tokens p)" for ts
    using that fresh by (auto simp: sel_one_None)
  then have found: "sel_one (\<lambda>u. t_token_hash u = nt_hash n \<and> token_usable later u) (api_tokens q) = Some t"
    unfolding q(1) sel_one_append using t(1) assms(2) by simp
  obtain a where a: "q_GetAccount (core q) (nt_account n) = Some a"
    using q(2,3) by (cases "q_GetAccount (core q) (nt_account n)")
      (auto simp: q_GetAccount_def account_exists_def list_ex_iff sel_one_None)
  then have "acc_id a = nt_account n" by (auto simp: q_GetAccount_def)
  then show ?thesis using found a t(2) by (simp add: ResolveToken_def q_ResolveToken_def)
qed

text \<open>C34: A token is handed over once and never kept. What a successful mint returns is the prefix of every
  token and 32 bytes of the outside's randomness, 47 characters; the one row the service writes,
  into tables that hold otherwise what other callers committed, carries the 64 digit hash of that
  text and its first eight characters, for the verified account that asked and until the expiry
  its days ask for; and the store resolves the hash of what was handed over to that row and that
  account for as long as it has not expired. The outside is taken to draw as many bytes as it is
  asked for, and SHA-256 to be 32 bytes.\<close>

theorem minted_token_resolves:
  assumes "MintToken (identity bd) account name days w = (Inr (raw, view), w')"
    and "\<forall>x n b. vs_bytes (fst (bd_next bd x)) n = Some b \<longrightarrow> length b = n" "\<forall>s. length (lib_sha256 (bd_libs bd) s) = 32"
  shows "\<exists>body expires now u i t. length body = tokenBytes \<and> raw = APITokenPrefix @ raw_url body \<and> length raw = 47 \<and>
    name \<noteq> [] \<and> (ac_email account = [] \<or> ac_verified account) \<and>
    TokenExpiry now days = Inr expires \<and> si_now w \<le> now \<and> now \<le> si_now w' \<and>
    only_others bd w u \<and> snd (seen w') = snd (seen u) \<and>
    CreateAPIToken (si_people u) \<lparr>nt_account = ac_id account, nt_name = name, nt_hash = HashSecret (bd_libs bd) raw,
      nt_prefix = take 8 raw, nt_expires = deref (map_option (bd_stamp bd) expires)\<rparr> i (bd_stamp bd (si_now u)) =
      Inr (t, si_people w') \<and>
    view = toTokenView t \<and> t_token_hash t = HashSecret (bd_libs bd) raw \<and> length (t_token_hash t) = 64 \<and> t_token_prefix t = take 8 raw \<and>
    (\<forall>later. token_usable later t \<longrightarrow>
       (\<exists>a. ResolveToken (si_people w') (HashSecret (bd_libs bd) raw) later = Inr (a, t) \<and> acc_id a = ac_id account))"
proof -
  let ?sv = "identity bd" and ?h = "HashSecret (bd_libs bd) raw"
  obtain now w1 expires w2 hash shown where run: "name \<noteq> []" "sv_now ?sv w = (now, w1)" "TokenExpiry now days = Inr expires"
    "prepareMint ?sv account w1 = (Inr (raw, hash, shown), w2)"
    "st_MintToken (sv_store ?sv) (ac_id account) name hash shown expires w2 = (Inr view, w')"
    using assms(1) by (auto simp: MintToken_def taken_apart split: if_splits)
  note mint = prepared[OF run(4)]
  obtain body where body: "raw = APITokenPrefix @ raw_url body" "length body = tokenBytes" using mint(6) assms(2) by blast
  have shape: "length (raw_url body) = 43" "length ?h = 64"
    using secret_shape[OF body(2) assms(3)] assms(3) by (simp_all add: HashSecret_def length_hex)
  let ?n = "\<lparr>nt_account = ac_id account, nt_name = name, nt_hash = ?h, nt_prefix = take 8 raw,
      nt_expires = deref (map_option (bd_stamp bd) expires)\<rparr>"
  have len: "length raw = 47" using shape(1) by (simp add: body(1) APITokenPrefix_def)
  have cut: "shown = take 8 raw" using mint(3) len by (simp add: TokenPrefix_def)
  have call: "store_call bd (\<lambda>v. IS_MintToken (ac_id account) name ?h (take 8 raw) (map_option (bd_stamp bd) expires) (vs_id v)) w2 =
      (Inr view, w')"
    using run(5) mint(2) cut by (simp add: store_fields)
  obtain u and v :: visit where u: "only_others bd w2 u" "snd (seen w') = snd (seen u)"
    "IS_MintToken (ac_id account) name ?h (take 8 raw) (map_option (bd_stamp bd) expires) (vs_id v) (bd_stamp bd (si_now u))
      (si_people u) = (Inr view, si_people w')"
    using call_succeeded[OF call] by blast
  obtain t where t: "CreateAPIToken (si_people u) ?n (vs_id v) (bd_stamp bd (si_now u)) = Inr (t, si_people w')" "view = toTokenView t"
    using u(3) by (auto simp: IS_MintToken_def answered)
  have fields: "t_token_hash t = ?h" "t_token_prefix t = take 8 raw"
    using t(1) by (auto simp: CreateAPIToken_def q_CreateAPIToken_def insert_token_def split: if_splits)
  have "onward w1 w'" using mint(1) site.mint_on[of w2 bd "ac_id account" name hash shown expires] run(5) onward_trans by fastforce
  then have "si_now w \<le> now" "now \<le> si_now w'" using clock_read[OF run(2)] by (auto simp: onward_def)
  moreover have "only_others bd w u" using drawn_only(3)[OF run(2)] mint(4) u(1) by (blast intro: only_trans)
  ultimately show ?thesis
    using run(1,3) mint(5) body len u(2) t fields shape(2) minted_resolves[OF t(1)] by (intro exI conjI) auto
qed

section \<open>The exchange\<close>


text \<open>C12: A code buys a token only for the caller that can show the verifier of its challenge and names its
  client and its address, from a code row of that hash; the token is stored under the hash of the
  secret handed over, belongs to the account that approved and to the code's client, and the store
  spent the code in the same step.\<close>

theorem exchange_needs_verifier:
  assumes "people_step\<^sup>*\<^sup>* no_people (si_people w)" "Grant (identity bd) req w = (Inr (raw, view), w')"
  shows "\<exists>p c q name t i now. people_step\<^sup>*\<^sup>* (si_people w) p \<and> OAuthCode p (HashSecret (bd_libs bd) (rq_code req)) = Inr c \<and>
    o_client_id c = rq_client req \<and> o_redirect_uri c = rq_redirect req \<and>
    VerifyPKCE (bd_libs bd) (o_code_challenge c) (rq_verifier req) \<and> people_step\<^sup>*\<^sup>* p q \<and>
    GrantClientToken q (grant_for (bd_libs bd) req c name raw) i now = Inr (t, si_people w') \<and> view = toTokenView t"
proof -
  let ?sv = "identity bd" and ?h = "HashSecret (bd_libs bd) (rq_code req)"
  have lib: "sv_libs ?sv = bd_libs bd" by (simp add: identity_def)
  obtain code w1 now w2 account w3 client w4 raw0 hash shown w5 now' w6 where run:
    "st_OAuthCode (sv_store ?sv) ?h w = (Inr code, w1)" "sv_now ?sv w1 = (now, w2)" "grant_checks ?sv req code now"
    "st_AccountByID (sv_store ?sv) (cd_account code) w2 = (Inr account, w3)"
    "st_OAuthClient (sv_store ?sv) (cd_client code) w3 = (Inr client, w4)"
    "prepareMint ?sv account w4 = (Inr (raw0, hash, shown), w5)" "sv_now ?sv w5 = (now', w6)"
    "grant_loop ?sv \<lparr>gr_code_hash = ?h, gr_account = ac_id account, gr_client = cl_id client, gr_name = [],
        gr_token_hash = hash, gr_prefix = shown\<rparr> (connectorTokenName ?sv (cl_name client) now') raw0 0 grantNameAttempts w6 =
      (Inr (raw, view), w')"
    using assms(2) by (auto simp: Grant_def Let_def taken_apart lib split: if_splits)
  have on: "onward w w1" "onward w1 w6"
    using site.code_on[of w bd ?h] clock_read(1)[OF run(2)] site.by_id_on[of w2 bd "cd_account code"]
      site.client_on[of w3 bd "cd_client code"] prepared(1)[OF run(6)] clock_read(1)[OF run(7)] run(1,4,5)
    by (simp, simp) (meson onward_trans)
  have ok: "people_ok (si_people w)" by (rule people_reachable_ok[OF assms(1)])
  have named: "ac_id account = cd_account code" "cl_id client = cd_client code"
    using account_named[OF run(4)] site.client_named[OF run(5)] by simp_all
  have "issued_code ?h (cl_id client) (si_people w6)"
    using site.code_issued[OF ok run(1)] on(2) named(2) by (auto simp: onward_def intro: issued_code_kept)
  then obtain v name where g: "raw = raw0" "onward w6 v"
    "st_GrantClientToken (sv_store ?sv) \<lparr>gr_code_hash = ?h, gr_account = ac_id account, gr_client = cl_id client,
        gr_name = name, gr_token_hash = hash, gr_prefix = shown\<rparr> v = (Inr view, w')"
    using grant_loop_answered[OF run(8)] by auto
  obtain c where c: "OAuthCode (si_people w1) ?h = Inr c" "cd_client code = o_client_id c" "cd_account code = o_account_id c"
    "cd_redirect code = o_redirect_uri c" "cd_challenge code = o_code_challenge c"
    using run(1) by (rule code_answered)
  have asked: "\<lparr>g_code_hash = ?h, g_account = ac_id account, g_client = cl_id client, g_name = name, g_token_hash = hash,
      g_prefix = shown\<rparr> = grant_for (bd_libs bd) req c name raw"
    using prepared(2,3)[OF run(6)] named c(2,3) g(1) by (simp add: grant_for_def)
  obtain q t i where q: "people_step\<^sup>*\<^sup>* (si_people v) q" "view = toTokenView t"
    "GrantClientToken q (grant_for (bd_libs bd) req c name raw) i (bd_stamp bd (si_now w')) = Inr (t, si_people w')"
    using grant_answered[OF g(3)] by (simp only: IdGrant.simps asked) blast
  have "people_step\<^sup>*\<^sup>* (si_people w1) q" using on(2) g(2) q(1) by (meson onward_def rtranclp_trans)
  moreover have "people_step\<^sup>*\<^sup>* (si_people w) (si_people w1)" using on(1) by (simp add: onward_def)
  moreover have "o_client_id c = rq_client req" "o_redirect_uri c = rq_redirect req"
    "VerifyPKCE (bd_libs bd) (o_code_challenge c) (rq_verifier req)"
    using run(3) c by (simp_all add: grant_checks_def lib)
  ultimately show ?thesis using c(1) q(2,3) by metis
qed

lemma revoke_written: "snd (IS_RevokeToken i now p) = snd (q_RevokeAPIToken p i now)"
proof -
  obtain n q where n: "q_RevokeAPIToken p i now = (n, q)" by fastforce
  have "q = p" if "n = 0"
    using n that by (auto simp: q_RevokeAPIToken_def upd_tokens_def count_where_zero)
  then show ?thesis
    by (simp add: IS_RevokeToken_def RevokeAPIToken_def reply_done_def reply_def found_def n)
qed

lemma revoked_dead:
  assumes "t \<in> set (api_tokens (snd (q_RevokeAPIToken p i now)))" "t_id t = i"
  shows "t_revoked_at t \<noteq> None"
proof -
  from assms(1) consider "t \<in> set (api_tokens p)" "\<not> (t_id t = i \<and> token_live t)" | u where "t = revoke_token now u"
    unfolding q_RevokeAPIToken_def upd_tokens_def by (simp add: set_upd_where) blast
  then show ?thesis using assms(2) by cases (simp_all add: token_live_def revoke_token_def)
qed

text \<open>Reading a spent code back, or failing to.\<close>

lemma spent_code_read:
  assumes "people_ok (si_people w)" "c \<in> set (oauth_codes (si_people w))" "o_consumed_at c = Some s"
    and "st_OAuthCode (sv_store (identity bd)) (o_code_hash c) w = (r, w1)"
  shows "only_others bd w w1" "r = Inl IdFault \<or> (\<exists>code. r = Inr code \<and> cd_challenge code = o_code_challenge c \<and>
    cd_consumed code = (s \<noteq> []) \<and> cd_token code = deref (o_token_id c))"
proof -
  show on: "only_others bd w w1" by (rule reads_only(1)[OF assms(4)])
  have found: "OAuthCode (si_people u) (o_code_hash c) = Inr c" if "only_others bd w u" for u
  proof (rule code_found)
    show "c \<in> set (oauth_codes (si_people u))" using spent_code_kept[OF only_steps[OF that] assms(1,2)] assms(3) by simp
    show "distinct (map o_code_hash (oauth_codes (si_people u)))"
      using people_steps_ok[OF only_steps[OF that] assms(1)] by (simp add: people_oks unique_on_def)
  qed
  have call: "store_call bd (\<lambda>v now. IS_OAuthCode (bd_libs bd) (o_code_hash c)) w = (r, w1)"
    using assms(4) by (simp add: store_fields)
  show "r = Inl IdFault \<or> (\<exists>code. r = Inr code \<and> cd_challenge code = o_code_challenge c \<and>
    cd_consumed code = (s \<noteq> []) \<and> cd_token code = deref (o_token_id c))"
  proof (cases "r = Inl IdFault")
    case False
    obtain u where u: "only_others bd w u" "IS_OAuthCode (bd_libs bd) (o_code_hash c) (si_people u) = (r, si_people w1)"
      using call_ran[OF call False] by blast
    then show ?thesis using found[OF u(1)] assms(3) False by (auto simp: IS_OAuthCode_def split: option.splits)
  qed simp
qed

text \<open>C16: A code that was spent buys nothing ever again: the exchange is refused, or fails as a fault when
  the code cannot even be read. Presented with its verifier, as a client retrying its own request
  does, it costs nothing: the service wrote nothing. Presented without it, the service asks the
  store, once and as its only write, to revoke the token the code bought, which every spent code
  names: unless the store refuses that call, no live token by that id is left. The revocation is
  best effort, so a refused call leaves the token, and the caller is told the same either way.
  Identifiers are taken to be non-empty, as \<open>ids.New\<close> draws them.\<close>

theorem replay_costs_the_token:
  assumes "people_step\<^sup>*\<^sup>* no_people (si_people w)" "c \<in> set (oauth_codes (si_people w))"
    and "o_code_hash c = HashSecret (bd_libs bd) (rq_code req)" "o_consumed_at c = Some s" "s \<noteq> []"
    and "\<forall>t \<in> set (api_tokens (si_people w)). t_id t \<noteq> []"
  shows "\<exists>tok e w'. o_token_id c = Some tok \<and> token_exists (si_people w) tok \<and> Grant (identity bd) req w = (Inl e, w') \<and>
    (e = IdGrantInvalid \<or> e = IdFault) \<and>
    (if e = IdFault \<or> VerifyPKCE (bd_libs bd) (o_code_challenge c) (rq_verifier req) then only_others bd w w'
     else \<exists>u v u'. only_others bd w u \<and> arrive bd u = (v, u') \<and>
       (if vs_refused v then w' = u'
        else seen w' = (snd (q_RevokeAPIToken (si_people u') tok (bd_stamp bd (si_now u'))), snd (seen u')) \<and>
          (\<forall>t \<in> set (api_tokens (si_people w')). t_id t = tok \<longrightarrow> t_revoked_at t \<noteq> None)))"
proof -
  let ?sv = "identity bd"
  have lib: "sv_libs ?sv = bd_libs bd" by (simp add: identity_def)
  have ok: "people_ok (si_people w)" by (rule people_reachable_ok[OF assms(1)])
  obtain tok where tok: "o_token_id c = Some tok" "token_exists (si_people w) tok"
    using codes_are_paid[OF assms(1)] assms(2,4) unfolding paid_codes_def by fastforce
  then have named: "tok \<noteq> []" using assms(6) by (auto simp: token_exists_def list_ex_iff)
  obtain r w1 where read: "st_OAuthCode (sv_store ?sv) (o_code_hash c) w = (r, w1)"
    by (cases "st_OAuthCode (sv_store ?sv) (o_code_hash c) w")
  note code = spent_code_read[OF ok assms(2,4) read]
  from code(2) show ?thesis
  proof
    assume "r = Inl IdFault"
    then have "Grant ?sv req w = (Inl IdFault, w1)" using read assms(3) by (simp add: Grant_def Let_def lib)
    then show ?thesis using tok code(1) by auto
  next
    assume "\<exists>code. r = Inr code \<and> cd_challenge code = o_code_challenge c \<and> cd_consumed code = (s \<noteq> []) \<and> cd_token code = deref (o_token_id c)"
    then obtain code where r: "r = Inr code" "cd_challenge code = o_code_challenge c" "cd_consumed code" "cd_token code = tok"
      using assms(5) tok(1) by auto
    let ?w' = "if VerifyPKCE (bd_libs bd) (o_code_challenge c) (rq_verifier req) then w1
      else snd (st_RevokeToken (sv_store ?sv) tok w1)"
    have grant: "Grant ?sv req w = (Inl IdGrantInvalid, ?w')"
      using read r assms(3) named by (simp add: Grant_def Let_def lib revokeReplayed_def)
    show ?thesis
    proof (cases "VerifyPKCE (bd_libs bd) (o_code_challenge c) (rq_verifier req)")
      case True
      then show ?thesis using grant tok code(1) by auto
    next
      case False
      obtain x w2 where call: "store_call bd (\<lambda>v. IS_RevokeToken tok) w1 = (x, w2)" by fastforce
      then have w2: "?w' = w2" using False by (simp add: store_fields)
      obtain v u' where arr: "arrive bd w1 = (v, u')" by fastforce
      have "if vs_refused v then w2 = u'
        else seen w2 = (snd (q_RevokeAPIToken (si_people u') tok (bd_stamp bd (si_now u'))), snd (seen u')) \<and>
          (\<forall>t \<in> set (api_tokens (si_people w2)). t_id t = tok \<longrightarrow> t_revoked_at t \<noteq> None)"
        using call
      proof (cases rule: call_split)
        case (2 v1 u1 r')
        then have same: "u1 = u'" "v1 = v" using arr by simp_all
        have "si_people w2 = snd (q_RevokeAPIToken (si_people u') tok (bd_stamp bd (si_now u')))"
          using 2(3) revoke_written[of tok "bd_stamp bd (si_now u')" "si_people u'"] by (simp add: same)
        moreover have "seen w2 = (si_people w2, snd (seen u'))" using 2(4) unfolding same by (metis seen_simps(3))
        ultimately show ?thesis using 2(2) revoked_dead same by simp
      qed (use arr in simp)
      then have "\<exists>u v u'. only_others bd w u \<and> arrive bd u = (v, u') \<and>
       (if vs_refused v then w2 = u'
        else seen w2 = (snd (q_RevokeAPIToken (si_people u') tok (bd_stamp bd (si_now u'))), snd (seen u')) \<and>
          (\<forall>t \<in> set (api_tokens (si_people w2)). t_id t = tok \<longrightarrow> t_revoked_at t \<noteq> None))"
        using code(1) arr by blast
      then show ?thesis using grant False tok unfolding w2 by simp
    qed
  qed
qed

section \<open>A walk through the service\<close>

text \<open>An outside that answers every call, with identifiers and random bytes taken off a string.\<close>

definition calm_bytes :: "char \<Rightarrow> nat \<Rightarrow> string option" where
  "calm_bytes c n = Some (replicate n c)"

definition calm :: "char \<Rightarrow> visit" where
  "calm c = \<lparr>vs_elapsed = 1, vs_others = [], vs_tries = [], vs_refused = False, vs_lost = False, vs_id = [c],
     vs_audit = [c, c], vs_bytes = calm_bytes c, vs_mailed = True\<rparr>"

definition calm_next :: "string \<Rightarrow> visit \<times> string" where
  "calm_next o' = (case o' of [] \<Rightarrow> (calm (CHR ''0''), []) | c # cs \<Rightarrow> (calm c, cs))"

definition calm_stamp :: "int \<Rightarrow> stamp" where
  "calm_stamp t = (if t < 1000 then ''2'' else ''3'')"

definition stage :: "string Backdrop" where
  "stage = \<lparr>bd_next = calm_next, bd_stamp = calm_stamp, bd_libs = plain_libs, bd_settings = SignInSettings,
     bd_memory = argonMemory, bd_time = argonTime, bd_baseURL = ''https://c'', bd_date = (\<lambda>_. ''d''), bd_rfc3339 = (\<lambda>_. ''t''),
     bd_mail = True\<rparr>"

definition scene :: "people \<Rightarrow> string site" where
  "scene p = \<lparr>si_people = p, si_now = 0, si_limits = NewLimiter, si_outbox = [], si_out = ''abcdefghijklmnop''\<rparr>"

definition secret_of :: "char \<Rightarrow> string" where
  "secret_of c = raw_url (replicate tokenBytes c)"

lemma stage_simps: "bd_libs stage = plain_libs" "bd_stamp stage = calm_stamp" "bd_memory stage = 19456" "bd_time stage = 2"
  "bd_settings stage = SignInSettings" "bd_baseURL stage = ''https://c''" "bd_mail stage" "bd_next stage = calm_next"
  "bd_date stage t = ''d''"
  by (simp_all add: stage_def argonMemory_def argonTime_def)

lemma calm_simps: "vs_refused (calm c) = False" "vs_lost (calm c) = False" "vs_id (calm c) = [c]" "vs_audit (calm c) = [c, c]"
  "vs_bytes (calm c) n = Some (replicate n c)" "vs_mailed (calm c)" "vs_others (calm c) = []" "vs_tries (calm c) = []"
  "vs_elapsed (calm c) = 1"
  by (simp_all add: calm_def calm_bytes_def)

lemma arrive_stage:
  assumes "si_out w = c # cs"
  shows "arrive stage w = (calm c, w\<lparr>si_now := si_now w + 1, si_out := cs\<rparr>)"
  using assms by (cases w) (simp add: arrive_def stage_simps calm_next_def calm_simps)

lemma call_stage:
  assumes "si_out w = c # cs" "f (calm c) (calm_stamp (si_now w + 1)) (si_people w) = (r, q)"
  shows "store_call stage f w = (r, w\<lparr>si_now := si_now w + 1, si_out := cs, si_people := q\<rparr>)"
  using assms by (simp add: call_store_def arrive_stage stage_simps calm_simps)

end
