(* ===== verification/Identity_Demo.thy ===== *)
theory Identity_Demo
  imports Identity_Properties
begin

lemma service_fields:
  "sv_libs (identity bd) = bd_libs bd" "sv_settings (identity bd) = bd_settings bd" "sv_memory (identity bd) = bd_memory bd"
  "sv_time (identity bd) = bd_time bd" "sv_baseURL (identity bd) = bd_baseURL bd" "sv_limits (identity bd) = si_limits"
  "sv_set_limits (identity bd) l w = w\<lparr>si_limits := l\<rparr>" "sv_date (identity bd) = bd_date bd"
  "sv_mailer (identity bd) = (if bd_mail bd then Some (post bd) else None)"
  "sv_now (identity bd) w = (case arrive bd w of (v, w1) \<Rightarrow> (si_now w1, w1))"
  "sv_random (identity bd) n w = (case arrive bd w of (v, w1) \<Rightarrow> (vs_bytes v n, w1))"
  by (simp_all add: identity_def)

lemma store_calls:
  "st_AccountByEmail (sv_store (identity bd)) email = store_call bd (\<lambda>v now. IS_AccountByEmail email)"
  "st_AccountByID (sv_store (identity bd)) i = store_call bd (\<lambda>v now. IS_AccountByID i)"
  "st_CreateSession (sv_store (identity bd)) acc hash t =
     store_call bd (\<lambda>v. IS_CreateSession acc hash (bd_stamp bd t) (vs_id v))"
  "st_LiveInvite (sv_store (identity bd)) hash email = store_call bd (\<lambda>v. IS_LiveInvite hash email)"
  "st_SpendInvite (sv_store (identity bd)) i n = store_call bd (\<lambda>v. IS_SpendInvite i n (vs_id v) (vs_audit v))"
  "st_CreateLink (sv_store (identity bd)) acc purpose hash t =
     store_call bd (\<lambda>v. IS_CreateLink acc purpose hash (bd_stamp bd t) (vs_id v))"
  "st_ConsumeLink (sv_store (identity bd)) hash purpose = store_call bd (\<lambda>v. IS_ConsumeLink hash purpose)"
  "st_SetPassword (sv_store (identity bd)) i hash = store_call bd (\<lambda>v. IS_SetPassword i hash)"
  "st_OAuthCode (sv_store (identity bd)) hash = store_call bd (\<lambda>v now. IS_OAuthCode (bd_libs bd) hash)"
  "st_OAuthClient (sv_store (identity bd)) i = store_call bd (\<lambda>v now. IS_OAuthClient i)"
  "st_GrantClientToken (sv_store (identity bd)) g = store_call bd (\<lambda>v. IS_GrantClientToken g (vs_id v))"
  "st_RevokeToken (sv_store (identity bd)) i = store_call bd (\<lambda>v. IS_RevokeToken i)"
  by (simp_all add: store_fields)

definition resident :: account where
  "resident = \<lparr>acc_id = ''acc'', acc_name = ''acc'', acc_disabled_at = None, acc_created_at = ''1'', acc_updated_at = ''1'',
     acc_email = Some ''a@b'', acc_password_hash = Some (HashWith plain_libs 19456 2 ''salt'' ''secret''),
     acc_email_verified_at = Some ''1'', acc_is_admin = False, acc_display_name = Some ''Ada'', acc_connected_at = None\<rparr>"

definition residence :: people where
  "residence = no_people\<lparr>core := empty_db\<lparr>accounts := [resident]\<rparr>\<rparr>"

lemma plain_email: "NormalizeEmail plain_libs ''a@b'' = ''a@b''" "CheckEmail plain_libs ''a@b'' = Inr ''a@b''"
proof -
  have "plain_text [97, 64, 98] = ''a@b''" by code_simp
  then show "NormalizeEmail plain_libs ''a@b'' = ''a@b''"
    by (simp add: NormalizeEmail_def plain_libs_def plain_runes_def plain_lower_def TrimSpace_def IsSpace_def)
  then show "CheckEmail plain_libs ''a@b'' = Inr ''a@b''" by (simp add: CheckEmail_def MaxEmailLen_def plain_libs_def)
qed

lemmas staged = service_fields store_calls stage_simps calm_simps arrive_stage call_store_def

lemma secret_staged:
  "si_out w = c # cs \<Longrightarrow> NewSecret (identity stage) w = (Inr (secret_of c), w\<lparr>si_now := si_now w + 1, si_out := cs\<rparr>)"
  by (simp add: NewSecret_def staged secret_of_def)

lemma resident_found: "GetAccountByEmail residence ''a@b'' = Inr resident"
  by (simp add: GetAccountByEmail_def q_GetAccountByEmail_def residence_def resident_def sel_one_def)

lemma resident_fields: "ac_id (toIdentityAccount resident) = ''acc''" "ac_email (toIdentityAccount resident) = ''a@b''"
  "ac_verified (toIdentityAccount resident)" "\<not> ac_disabled (toIdentityAccount resident)"
  "ac_password_hash (toIdentityAccount resident) = HashWith plain_libs 19456 2 ''salt'' ''secret''"
  by (simp_all add: toIdentityAccount_def resident_def)

lemma resident_session: "CreateSession residence ''acc'' hash expires i now =
    (let s = \<lparr>ss_id = i, ss_account_id = ''acc'', ss_token_hash = hash, ss_expires_at = expires, ss_last_used_at = None,
       ss_revoked_at = None, ss_created_at = now, ss_updated_at = now\<rparr> in Inr (s, residence\<lparr>sessions := [s]\<rparr>))"
  by (simp add: CreateSession_def q_CreateSession_def residence_def resident_def no_people_def account_exists_def Let_def)

lemma resident_signs_in: "\<exists>w'. Login (identity stage) ''a@b'' ''secret'' (scene residence) =
    (Inr (secret_of (CHR ''c''), toIdentityAccount resident), w')"
  by (simp add: Login_def Let_def LockedOut_call_def staged scene_def plain_email LockedOut_def NewLimiter_def
      IS_AccountByEmail_def read_back_def resident_found resident_fields secret_staged and_then_def plain_hash_verifies
      IS_CreateSession_def resident_session reply_def)

theorem sign_in_needs_credentials_witness:
  "\<exists>w'. Login (identity stage) ''a@b'' ''secret'' (scene residence) = (Inr (secret_of (CHR ''c''), toIdentityAccount resident), w') \<and>
    \<not> fst (LockedOut_call (identity stage) ''a@b'' (scene residence)) \<and> (\<exists>s \<in> set (sessions (si_people w')). ss_account_id s = ''acc'')"
proof -
  obtain w' where w: "Login (identity stage) ''a@b'' ''secret'' (scene residence) =
      (Inr (secret_of (CHR ''c''), toIdentityAccount resident), w')"
    using resident_signs_in by blast
  note facts = sign_in_needs_credentials[OF w, unfolded stage_simps plain_email]
  have left: "s \<in> set (sessions q') \<and> ss_account_id s = acc" if "CreateSession q acc h e i n = Inr (s, q')" for q q' s acc h e i n
    using that by (auto simp: CreateSession_def q_CreateSession_def Let_def split: if_splits)
  have "\<exists>a. toIdentityAccount resident = toIdentityAccount a \<and> (\<exists>s \<in> set (sessions (si_people w')). ss_account_id s = acc_id a)"
    using facts left by metis
  then show ?thesis using w facts by (auto simp: toIdentityAccount_def resident_def)
qed

section \<open>A registration\<close>

definition doors :: people where
  "doors = no_people\<lparr>invites := [\<lparr>i_id = ''inv'', i_code_hash = ''71717171'', i_note = None, i_created_by = None,
     i_expires_at = ''3'', i_consumed_at = None, i_consumed_by = None, i_revoked_at = None, i_created_at = ''1'',
     i_email = None\<rparr>]\<rparr>"

lemma plain_code: "HashSecret plain_libs ''qqqq'' = ''71717171''"
  by code_simp

definition newcomer :: "string \<Rightarrow> NewIdentityAccount" where
  "newcomer hash = new_person ''a@b'' hash ''Ada''"

lemma doors_open: "LiveInvite doors ''71717171'' ''a@b'' ''2'' = Inr (hd (invites doors))"
  by code_simp

lemma doors_spent: "\<exists>a q. SpendInviteAndCreateAccount doors ''inv'' ''c'' (newcomer hash) ''cc'' ''2'' = Inr (a, q) \<and> acc_id a = ''c'' \<and>
    known_account q ''c'' \<and> email_tokens q = []"
  by (simp add: SpendInviteAndCreateAccount_def q_SpendInvite_def upd_invites_def CreateIdentityAccount_def on_core_or_def
    q_CreateIdentityAccount_def doors_def newcomer_def new_person_def no_people_def empty_db_def invite_live_def count_where_def
    q_InsertAuditLog_def spend_audit_def committed_refs_def account_exists_def Let_def)

lemma plain_hash: "Hash (identity stage) pw w = (Inr (HashWith plain_libs 19456 2 (replicate argonSaltLen c) pw),
    w\<lparr>si_now := si_now w + 1, si_out := cs\<rparr>)" if "si_out w = c # cs"
  using that by (simp add: Hash_def staged)

lemma link_written: "email_tokens q = [] \<Longrightarrow> known_account q acc \<Longrightarrow>
    \<exists>k r. CreateEmailToken q acc PurposeVerify hash expires i now = Inr (k, r)"
  by (simp add: CreateEmailToken_def q_ConsumeLiveEmailTokens_def q_CreateEmailToken_def upd_links_def Let_def PurposeVerify_def)

lemma newcomer_registers:
  "\<exists>w'. Register (identity stage) ''qqqq'' ''a@b'' ''open sesame!'' ''Ada'' (scene doors) = (Inr (), w')"
proof -
  let ?hash = "HashWith plain_libs 19456 2 (replicate argonSaltLen (CHR ''b'')) ''open sesame!''"
  obtain a q where spent: "SpendInviteAndCreateAccount doors ''inv'' ''c'' (newcomer ?hash) ''cc'' ''2'' = Inr (a, q)"
    "acc_id a = ''c''" "known_account q ''c''" "email_tokens q = []"
    using doors_spent by blast
  obtain k r where link: "CreateEmailToken q ''c'' PurposeVerify (HashSecret plain_libs (secret_of (CHR ''d''))) ''3'' ''f'' ''2'' = Inr (k, r)"
    using link_written[OF spent(4,3)] by blast
  have name: "DisplayNameFor plain_libs ''Ada'' ''a@b'' = ''Ada''"
  proof -
    have "plain_text [65, 100, 97] = ''Ada''" by code_simp
    then show ?thesis by (simp add: DisplayNameFor_def plain_libs_def plain_runes_def TrimSpace_def IsSpace_def)
  qed
  have pw: "CheckPassword ''open sesame!'' = None" by (simp add: CheckPassword_def MinPasswordLen_def MaxPasswordLen_def)
  have inv: "i_id (hd (invites doors)) = ''inv''" by code_simp
  have row: "\<lparr>na_email = ''a@b'', na_password_hash = ?hash, na_display_name = ''Ada''\<rparr> = newcomer ?hash"
    by (simp add: newcomer_def new_person_def)
  have ident: "ac_id (toIdentityAccount a) = ''c''" by (simp add: toIdentityAccount_def spent(2))
  show ?thesis
    by (simp add: Register_def Let_def staged scene_def plain_email plain_code pw name IS_LiveInvite_def read_back_def calm_stamp_def
        doors_open inv and_then_def checked_def plain_hash IS_SpendInvite_def row spent(1) reply_def issueLink_def secret_staged
        IS_CreateLink_def reply_done_def ident LinkLifetime_def nanosecond_day_def link)
qed

theorem registration_outcome_witness:
  "\<exists>w' j u ms salt. Register (identity stage) ''qqqq'' ''a@b'' ''open sesame!'' ''Ada'' (scene doors) = (Inr (), w') \<and>
    only_others stage (scene doors) u \<and>
    enrolled stage j ''a@b'' (new_person ''a@b'' (HashWith plain_libs 19456 2 salt ''open sesame!'')
      (DisplayNameFor plain_libs ''Ada'' ''a@b'')) u w' ms"
proof -
  obtain w' where w: "Register (identity stage) ''qqqq'' ''a@b'' ''open sesame!'' ''Ada'' (scene doors) = (Inr (), w')"
    using newcomer_registers by blast
  note facts = registration_outcome[OF w, unfolded stage_simps plain_email sum.inject]
  show ?thesis using w facts by blast
qed

section \<open>A minted token\<close>

definition wide_sha :: "string \<Rightarrow> string" where
  "wide_sha s = take 32 (s @ replicate 32 (CHR 0x00))"

definition wide :: "string Backdrop" where
  "wide = stage\<lparr>bd_libs := plain_libs\<lparr>lib_sha256 := wide_sha\<rparr>\<rparr>"

lemma wide_simps: "arrive wide = arrive stage" "bd_next wide = calm_next" "bd_stamp wide = calm_stamp"
  "lib_sha256 (bd_libs wide) = wide_sha"
  by (simp_all add: wide_def arrive_def[abs_def] stage_simps)

lemma residence_token: "\<exists>t q. CreateAPIToken residence
    \<lparr>nt_account = ''acc'', nt_name = ''ci'', nt_hash = hash, nt_prefix = shown, nt_expires = []\<rparr> i now = Inr (t, q)"
  by (simp add: CreateAPIToken_def q_CreateAPIToken_def insert_token_def residence_def no_people_def resident_def
      account_exists_def Let_def)

lemma resident_mints: "\<exists>view w'. MintToken (identity wide) (toIdentityAccount resident) ''ci'' 0 (scene residence) =
    (Inr (APITokenPrefix @ secret_of (CHR ''b''), view), w')"
proof -
  let ?raw = "APITokenPrefix @ secret_of (CHR ''b'')"
  obtain t q where t: "CreateAPIToken residence \<lparr>nt_account = ''acc'', nt_name = ''ci'', nt_hash = HashSecret (bd_libs wide) ?raw,
      nt_prefix = TokenPrefix ?raw, nt_expires = []\<rparr> ''c'' ''2'' = Inr (t, q)"
    using residence_token by blast
  show ?thesis
    by (simp add: MintToken_def service_fields wide_simps arrive_stage scene_def TokenExpiry_def and_then_def checked_def
        prepareMint_def resident_fields NewAPIToken_def NewSecret_def calm_simps secret_of_def[symmetric] store_fields
        call_store_def IS_MintToken_def calm_stamp_def t reply_def)
qed

theorem minted_token_resolves_witness:
  "\<exists>view w' t a. MintToken (identity wide) (toIdentityAccount resident) ''ci'' 0 (scene residence) =
      (Inr (APITokenPrefix @ secret_of (CHR ''b''), view), w') \<and>
    ResolveToken (si_people w') (HashSecret (bd_libs wide) (APITokenPrefix @ secret_of (CHR ''b''))) ''3'' = Inr (a, t) \<and> acc_id a = ''acc''"
proof -
  obtain view w' where w: "MintToken (identity wide) (toIdentityAccount resident) ''ci'' 0 (scene residence) =
      (Inr (APITokenPrefix @ secret_of (CHR ''b''), view), w')"
    using resident_mints by blast
  have bytes: "\<forall>x n b. vs_bytes (fst (bd_next wide x)) n = Some b \<longrightarrow> length b = n"
    by (auto simp: wide_simps calm_next_def calm_simps split: list.splits)
  have sha: "\<forall>s. length (lib_sha256 (bd_libs wide) s) = 32" by (simp add: wide_simps wide_sha_def min_def)
  have fresh: "token_usable ''3'' t" if "CreateAPIToken p n i now = Inr (t, q)" "nt_expires n = []" for p n i now t q
    using that by (auto simp: CreateAPIToken_def q_CreateAPIToken_def insert_token_def token_usable_def token_live_def split: if_splits)
  show ?thesis using w minted_token_resolves[OF w bytes sha] fresh by (fastforce simp: TokenExpiry_def resident_fields)
qed

section \<open>A reset\<close>

definition forgetful :: people where
  "forgetful = no_people\<lparr>core := empty_db\<lparr>accounts := [resident\<lparr>acc_password_hash := None\<rparr>]\<rparr>,
     email_tokens := [\<lparr>k_id = ''k'', k_account_id = ''acc'', k_purpose = PurposeReset, k_token_hash = ''71717171'',
       k_expires_at = ''3'', k_consumed_at = None, k_created_at = ''1''\<rparr>]\<rparr>"

lemma link_spent: "\<exists>k q. ConsumeEmailToken forgetful ''71717171'' PurposeReset ''2'' = Inr (k, q) \<and> k_account_id k = ''acc'' \<and>
    known_account q ''acc''"
  by (simp add: ConsumeEmailToken_def q_ConsumeEmailToken_def forgetful_def spendable_link_def link_open_def sel_one_def
      consume_link_def upd_links_def resident_def account_exists_def no_people_def)

lemma password_writable: "known_account p i \<Longrightarrow> \<exists>q. SetPassword p i hash now = Inr q"
  by (auto simp: SetPassword_def next_step_Inr found_Inr Let_def on_core_def q_SetPasswordHash_def upd_accounts_def
      count_where_zero account_exists_def list_ex_iff)

lemma forgetful_resets: "\<exists>w'. Reset (identity stage) ''qqqq'' ''open sesame!'' (scene forgetful) = (Inr (), w')"
proof -
  let ?hash = "HashWith plain_libs 19456 2 (replicate argonSaltLen (CHR ''a'')) ''open sesame!''"
  obtain k q where k: "ConsumeEmailToken forgetful ''71717171'' PurposeReset ''2'' = Inr (k, q)" "k_account_id k = ''acc''"
    "known_account q ''acc''"
    using link_spent by blast
  obtain r where r: "SetPassword q ''acc'' ?hash ''2'' = Inr r" using password_writable[OF k(3)] by blast
  have pw: "CheckPassword ''open sesame!'' = None" by (simp add: CheckPassword_def MinPasswordLen_def MaxPasswordLen_def)
  show ?thesis
    by (simp add: Reset_def staged scene_def plain_code pw and_then_def plain_hash IS_ConsumeLink_def IS_SetPassword_def
        reply_def reply_done_def calm_stamp_def k(1,2) r)
qed

theorem reset_takes_hold_witness:
  "\<exists>w' i a. Reset (identity stage) ''qqqq'' ''open sesame!'' (scene forgetful) = (Inr (), w') \<and>
    GetAccount (core (si_people w')) i = Inr a \<and> Verify plain_libs ''open sesame!'' (deref (acc_password_hash a))"
proof -
  obtain w' where w: "Reset (identity stage) ''qqqq'' ''open sesame!'' (scene forgetful) = (Inr (), w')"
    using forgetful_resets by blast
  have "\<forall>salt. length (lib_argon2 (bd_libs stage) ''open sesame!'' salt (bd_time stage) (bd_memory stage) 1 32) = 32"
    by (auto simp: stage_simps plain_libs_def plain_argon_def min_def)
  from reset_takes_hold[OF w _ _ this] show ?thesis using w unfolding stage_simps by auto
qed

section \<open>An exchange and a replay\<close>

lemma plain_token:
  "HashSecret plain_libs (APITokenPrefix @ secret_of (CHR ''e'')) = ''64706c5f''"
  "TokenPrefix (APITokenPrefix @ secret_of (CHR ''e'')) = ''dpl_ZWVl''"
proof -
  have "map url_char (map base64_char (sextets (replicate tokenBytes (CHR ''e'')))) = concat (replicate 10 ''ZWVl'') @ ''ZWU''"
    by code_simp
  then have "secret_of (CHR ''e'') = concat (replicate 10 ''ZWVl'') @ ''ZWU''"
    by (simp only: secret_of_def raw_url_def raw_std_sextets)
  moreover have "TokenPrefix (APITokenPrefix @ concat (replicate 10 ''ZWVl'') @ ''ZWU'') = ''dpl_ZWVl''" by code_simp
  moreover have "HashSecret plain_libs (APITokenPrefix @ concat (replicate 10 ''ZWVl'') @ ''ZWU'') = ''64706c5f''" by code_simp
  ultimately show "HashSecret plain_libs (APITokenPrefix @ secret_of (CHR ''e'')) = ''64706c5f''"
    "TokenPrefix (APITokenPrefix @ secret_of (CHR ''e'')) = ''dpl_ZWVl''" by simp_all
qed

lemma plain_challenge: "VerifyPKCE plain_libs ''dnZ2dg'' ''vvvv''"
proof -
  have "map url_char (map base64_char (sextets ''vvvv'')) = ''dnZ2dg''" by code_simp
  moreover have "lib_sha256 plain_libs ''vvvv'' = ''vvvv''" by code_simp
  ultimately show ?thesis by (simp add: VerifyPKCE_def S256Challenge_def raw_url_def raw_std_sextets)
qed

definition pledged :: people where
  "pledged = fold (commit ''2'') [PcVerify ''acc'', PcApproveCode \<lparr>nc_hash = ''71717171'', nc_client = ''c1'', nc_account = ''acc'',
     nc_redirect = ''https://x'', nc_challenge = ''dnZ2dg'', nc_resource = [], nc_expires = ''3''\<rparr>] registered_client"

lemma pledged_reached: "people_step\<^sup>*\<^sup>* no_people pledged"
  unfolding pledged_def using commits_steps walk_reaches(2) people_step_once[OF client_step] by (meson rtranclp_trans)

definition the_request :: GrantRequest where
  "the_request = \<lparr>rq_client = ''c1'', rq_code = ''qqqq'', rq_redirect = ''https://x'', rq_verifier = ''vvvv'', rq_resource = []\<rparr>"

definition the_code :: oauth_code where
  "the_code = \<lparr>o_code_hash = ''71717171'', o_client_id = ''c1'', o_account_id = ''acc'', o_redirect_uri = ''https://x'',
     o_code_challenge = ''dnZ2dg'', o_resource = [], o_token_id = None, o_expires_at = ''3'', o_consumed_at = None, o_created_at = ''2''\<rparr>"

lemma pledged_code: "OAuthCode pledged ''71717171'' = Inr the_code"
  by code_simp

lemma pledged_rows: "map_sum id (\<lambda>a. (acc_id a, acc_email_verified_at a)) (GetAccount (core pledged) ''acc'') = Inr (''acc'', Some ''2'')"
  "map_sum id (\<lambda>c. (oc_id c, oc_name c)) (OAuthClient pledged ''c1'') = Inr (''c1'', ''app'')"
  by code_simp+

definition bought :: "store_error + api_token \<times> people" where
  "bought = GrantClientToken pledged (grant_for plain_libs the_request the_code ''app d'' (APITokenPrefix @ secret_of (CHR ''e''))) ''g'' ''2''"

definition redeemed :: people where
  "redeemed = fold (commit ''2'') [PcGrant \<lparr>g_code_hash = ''71717171'', g_account = ''acc'', g_client = ''c1'', g_name = ''app d'',
     g_token_hash = ''64706c5f'', g_prefix = ''dpl_ZWVl''\<rparr> ''g''] pledged"

lemma asked_for: "grant_for plain_libs the_request the_code ''app d'' (APITokenPrefix @ secret_of (CHR ''e'')) =
    \<lparr>g_code_hash = ''71717171'', g_account = ''acc'', g_client = ''c1'', g_name = ''app d'', g_token_hash = ''64706c5f'',
     g_prefix = ''dpl_ZWVl''\<rparr>"
  by (simp add: grant_for_def the_request_def the_code_def plain_token plain_code)

lemma bought_Inr: "\<exists>t q. bought = Inr (t, q)"
proof -
  have "case GrantClientToken pledged \<lparr>g_code_hash = ''71717171'', g_account = ''acc'', g_client = ''c1'', g_name = ''app d'',
      g_token_hash = ''64706c5f'', g_prefix = ''dpl_ZWVl''\<rparr> ''g'' ''2'' of Inl e \<Rightarrow> False | Inr x \<Rightarrow> True" by code_simp
  then show ?thesis by (auto simp: bought_def asked_for split: sum.splits)
qed

lemma plain_label: "CleanClientName plain_libs ''app'' = ''app''"
proof -
  have "plain_text [97, 112, 112] = ''app''" by code_simp
  then show ?thesis
    by (simp add: CleanClientName_def plain_libs_def plain_runes_def IsControl_def IsSpace_def MaxClientNameLen_def)
qed

lemma exchanges: "\<exists>view w'. Grant (identity stage) the_request (scene pledged) =
    (Inr (APITokenPrefix @ secret_of (CHR ''e''), view), w')"
proof -
  obtain a where a: "GetAccount (core pledged) ''acc'' = Inr a" "acc_id a = ''acc''" "acc_email_verified_at a = Some ''2''"
    using pledged_rows(1) by (cases "GetAccount (core pledged) ''acc''") auto
  obtain c where c: "OAuthClient pledged ''c1'' = Inr c" "oc_id c = ''c1''" "oc_name c = ''app''"
    using pledged_rows(2) by (cases "OAuthClient pledged ''c1''") auto
  obtain t q where t: "GrantClientToken pledged \<lparr>g_code_hash = ''71717171'', g_account = ''acc'', g_client = ''c1'',
      g_name = ''app d'', g_token_hash = ''64706c5f'', g_prefix = ''dpl_ZWVl''\<rparr> ''g'' ''2'' = Inr (t, q)"
    using bought_Inr by (auto simp: bought_def asked_for)
  have clock: "lib_ParseTime plain_libs ''3'' = Some 1000" by (simp add: plain_libs_def plain_time_def)
  note first = grant_loop.simps(2)[where left = 49, simplified]
  show ?thesis
    by (simp add: Grant_def Let_def staged scene_def the_request_def plain_code IS_OAuthCode_def pledged_code the_code_def
        grant_checks_def plain_challenge clock
        IS_AccountByID_def IS_OAuthClient_def read_back_def a c toIdentityAccount_def toIdentityClient_def and_then_def
        prepareMint_def NewAPIToken_def secret_staged grantNameAttempts_def first connectorTokenName_def plain_label
        plain_token IS_GrantClientToken_def reply_def t calm_stamp_def)
qed

theorem exchange_needs_verifier_witness:
  "\<exists>view w' q t i now. Grant (identity stage) the_request (scene pledged) =
      (Inr (APITokenPrefix @ secret_of (CHR ''e''), view), w') \<and>
    (\<exists>g. g_token_hash g = ''64706c5f'' \<and> GrantClientToken q g i now = Inr (t, si_people w')) \<and> view = toTokenView t"
proof -
  obtain view w' where w: "Grant (identity stage) the_request (scene pledged) = (Inr (APITokenPrefix @ secret_of (CHR ''e''), view), w')"
    using exchanges by blast
  have "people_step\<^sup>*\<^sup>* no_people (si_people (scene pledged))" using pledged_reached by (simp add: scene_def)
  from exchange_needs_verifier[OF this w, unfolded stage_simps] obtain c q name t i now where
    t: "GrantClientToken q (grant_for plain_libs the_request c name (APITokenPrefix @ secret_of (CHR ''e''))) i now =
      Inr (t, si_people w')" "view = toTokenView t"
    by blast
  have "g_token_hash (grant_for plain_libs the_request c name (APITokenPrefix @ secret_of (CHR ''e''))) = ''64706c5f''"
    by (simp add: grant_for_def plain_token)
  then show ?thesis using w t by blast
qed

definition spent_code :: oauth_code where
  "spent_code = the_code\<lparr>o_token_id := Some ''g'', o_consumed_at := Some ''2''\<rparr>"

lemma redeemed_rows:
  "OAuthCode redeemed ''71717171'' = Inr spent_code" "spent_code \<in> set (oauth_codes redeemed)"
  "list_ex (\<lambda>t. t_id t = ''g'' \<and> token_live t) (api_tokens redeemed)" "list_all (\<lambda>t. t_id t \<noteq> []) (api_tokens redeemed)"
proof -
  show code: "OAuthCode redeemed ''71717171'' = Inr spent_code" by code_simp
  show "spent_code \<in> set (oauth_codes redeemed)" using code by (auto simp: OAuthCode_def q_GetOAuthCode_def dest: sel_one_Some)
  show "list_ex (\<lambda>t. t_id t = ''g'' \<and> token_live t) (api_tokens redeemed)" by code_simp
  show "list_all (\<lambda>t. t_id t \<noteq> []) (api_tokens redeemed)" by code_simp
qed

lemma stolen_fails: "\<not> VerifyPKCE plain_libs ''dnZ2dg'' ''stolen''"
proof -
  have "map url_char (map base64_char (sextets ''stol'')) = ''c3RvbA''" by code_simp
  moreover have "lib_sha256 plain_libs ''stolen'' = ''stol''" by code_simp
  ultimately show ?thesis by (simp add: VerifyPKCE_def S256Challenge_def raw_url_def raw_std_sextets)
qed

lemma replayed: "\<exists>w2. Grant (identity stage) (the_request\<lparr>rq_verifier := ''stolen''\<rparr>) (scene redeemed) = (Inl IdGrantInvalid, w2)"
proof -
  have clock: "lib_ParseTime plain_libs ''3'' = Some 1000" by (simp add: plain_libs_def plain_time_def)
  show ?thesis
    by (simp add: Grant_def Let_def staged scene_def the_request_def plain_code IS_OAuthCode_def redeemed_rows(1) spent_code_def
        the_code_def clock)
qed

lemma stage_answers: "\<not> vs_refused (fst (arrive stage w))"
  by (simp add: arrive_def stage_simps calm_next_def calm_simps Let_def split: prod.split list.split)

theorem replay_costs_the_token_witness:
  "\<exists>w2. Grant (identity stage) (the_request\<lparr>rq_verifier := ''stolen''\<rparr>) (scene redeemed) = (Inl IdGrantInvalid, w2) \<and>
    list_ex (\<lambda>t. t_id t = ''g'' \<and> token_live t) (api_tokens redeemed) \<and>
    \<not> list_ex (\<lambda>t. t_id t = ''g'' \<and> token_live t) (api_tokens (si_people w2))"
proof -
  let ?req = "the_request\<lparr>rq_verifier := ''stolen''\<rparr>"
  have "people_step\<^sup>*\<^sup>* pledged redeemed" unfolding redeemed_def by (rule commits_steps)
  then have reached: "people_step\<^sup>*\<^sup>* no_people (si_people (scene redeemed))"
    using pledged_reached by (simp add: scene_def)
  have row: "spent_code \<in> set (oauth_codes (si_people (scene redeemed)))" using redeemed_rows(2) by (simp add: scene_def)
  have hash: "o_code_hash spent_code = HashSecret (bd_libs stage) (rq_code ?req)" "o_consumed_at spent_code = Some ''2''" "''2'' \<noteq> []"
    by (simp_all add: spent_code_def the_code_def the_request_def stage_simps plain_code)
  have ids: "\<forall>t \<in> set (api_tokens (si_people (scene redeemed))). t_id t \<noteq> []"
    using redeemed_rows(4) by (simp add: scene_def list_all_iff)
  obtain w2 where w2: "Grant (identity stage) ?req (scene redeemed) = (Inl IdGrantInvalid, w2)" using replayed by blast
  have "\<not> VerifyPKCE (bd_libs stage) (o_code_challenge spent_code) (rq_verifier ?req)"
    using stolen_fails by (simp add: stage_simps spent_code_def the_code_def the_request_def)
  then have "\<forall>t \<in> set (api_tokens (si_people w2)). t_id t = ''g'' \<longrightarrow> t_revoked_at t \<noteq> None"
    using replay_costs_the_token[OF reached row hash ids] w2 stage_answers
    by (auto simp: spent_code_def split: if_splits) (metis fst_conv)
  then show ?thesis using w2 redeemed_rows(3) by (auto simp: list_ex_iff token_live_def)
qed

theorem identity_refines_store_witness:
  "people_step\<^sup>*\<^sup>* pledged (si_people (fold (serve_identity (identity stage)) [UcGrant the_request, UcSweepClients] (scene pledged)))"
  using identity_refines_store[of "scene pledged" stage "[UcGrant the_request, UcSweepClients]"] pledged_reached
  by (simp add: scene_def)

end
