(* ===== verification/Auth.thy ===== *)
theory Auth
  imports Identity_Rules
begin

text \<open>
  \<^verbatim>\<open>internal/auth\<close>: how a presented credential becomes an account, over the interfaces the package
  declares. The store, the recorder of uses, the sessions and the lockout are records of functions
  on a world of any type; the last three may be absent. \<open>ClientAddress\<close> reads a request as the
  server hands it over: its host, the address of the connection, the values of each header and
  its cookies. Log lines are left out.
\<close>

section \<open>What the package works on\<close>

datatype auth_error = AuNoAccount | AuTokenInvalid | AuSuspended | AuTooManyAttempts | AuSessionInvalid
  | AuEmailUnverified | AuFault

record AuthAccount =
  au_id :: ident
  au_name :: string
  au_email :: string
  au_verified :: bool
  au_disabled :: bool
  au_is_admin :: bool
  au_connected :: bool

record AuthToken =
  at_id :: ident
  at_account :: ident

record NewAuthToken =
  an_account :: ident
  an_name :: string
  an_hash :: string
  an_prefix :: string

type_synonym ('w, 'a) auth_call = "'w \<Rightarrow> (auth_error + 'a) \<times> 'w"

record 'w AuthStore =
  as_AccountByName :: "string \<Rightarrow> ('w, AuthAccount) auth_call"
  as_CreateAccount :: "string \<Rightarrow> ('w, AuthAccount) auth_call"
  as_ResolveToken :: "string \<Rightarrow> ('w, AuthAccount \<times> AuthToken) auth_call"
  as_RevokeTokensNamed :: "ident \<Rightarrow> string \<Rightarrow> ('w, nat) auth_call"
  as_CreateAPIToken :: "NewAuthToken \<Rightarrow> ('w, AuthToken) auth_call"

text \<open>A session is its identifier and its account, as a token is.\<close>

record 'w AuthSessions =
  ax_ResolveSession :: "string \<Rightarrow> ('w, AuthAccount \<times> AuthToken) auth_call"
  ax_TouchSession :: "ident \<Rightarrow> int \<Rightarrow> ('w, unit) auth_call"

record 'w Lockout =
  lk_LockedOut :: "string \<Rightarrow> 'w \<Rightarrow> bool \<times> 'w"
  lk_Failed :: "string \<Rightarrow> 'w \<Rightarrow> 'w"
  lk_Succeeded :: "string \<Rightarrow> 'w \<Rightarrow> 'w"

record 'w Authenticator =
  a_libs :: Libs
  a_store :: "'w AuthStore"
  a_toucher :: "(ident \<Rightarrow> ('w, unit) auth_call) option"
  a_sessions :: "'w AuthSessions option"
  a_lifetime :: int
  a_lockout :: "'w Lockout option"

definition NewAuthenticator :: "Libs \<Rightarrow> 'w AuthStore \<Rightarrow> (ident \<Rightarrow> ('w, unit) auth_call) option \<Rightarrow> 'w Authenticator" where
  "NewAuthenticator lib s t =
     \<lparr>a_libs = lib, a_store = s, a_toucher = t, a_sessions = None, a_lifetime = 0, a_lockout = None\<rparr>"

definition WithLockout :: "'w Lockout \<Rightarrow> 'w Authenticator \<Rightarrow> 'w Authenticator" where
  "WithLockout l au = au\<lparr>a_lockout := Some l\<rparr>"

definition WithSessions :: "'w AuthSessions \<Rightarrow> int \<Rightarrow> 'w Authenticator \<Rightarrow> 'w Authenticator" where
  "WithSessions s lifetime au = au\<lparr>a_sessions := Some s, a_lifetime := lifetime\<rparr>"

section \<open>Bearer tokens\<close>

definition HashToken :: "Libs \<Rightarrow> string \<Rightarrow> string" where
  "HashToken lib raw = hex (lib_sha256 lib raw)"

definition tokenPrefixLen :: nat where
  "tokenPrefixLen = 8"

definition AuthTokenPrefix :: "string \<Rightarrow> string" where
  "AuthTokenPrefix raw = (if length raw < tokenPrefixLen then raw else take tokenPrefixLen raw)"

definition au_usable :: "AuthAccount \<Rightarrow> bool" where
  "au_usable a = (if au_disabled a then False else au_email a = [] \<or> au_verified a)"

text \<open>The answer is the pair of the code: an account, absent where the code returns the empty one, and an
  error. A fault of the store is no wrong credential and costs nothing.\<close>

definition Authenticate ::
  "'w Authenticator \<Rightarrow> string \<Rightarrow> string \<Rightarrow> 'w \<Rightarrow> (AuthAccount option \<times> auth_error option) \<times> 'w" where
  "Authenticate au raw clientAddr w =
     (let penalised = (if clientAddr \<noteq> [] then a_lockout au else None) in
      case (case penalised of None \<Rightarrow> (False, w) | Some l \<Rightarrow> lk_LockedOut l clientAddr w) of (locked, w) \<Rightarrow>
      if locked then ((None, Some AuTooManyAttempts), w)
      else let fail = (\<lambda>e w. ((None, Some e), case penalised of None \<Rightarrow> w | Some l \<Rightarrow> lk_Failed l clientAddr w)) in
      if raw = [] then fail AuTokenInvalid w
      else attempt (as_ResolveToken (a_store au) (HashToken (a_libs au) raw) w)
        (\<lambda>e w. if e = AuTokenInvalid then fail AuTokenInvalid w else ((None, Some AuFault), w))
        (\<lambda>(account, token) w.
          if au_disabled account then ((Some account, Some AuSuspended), w)
          else if \<not> au_usable account then fail AuTokenInvalid w
          else
            let w = (case penalised of None \<Rightarrow> w | Some l \<Rightarrow> lk_Succeeded l clientAddr w);
                w = (case a_toucher au of None \<Rightarrow> w | Some touch \<Rightarrow> snd (touch (at_id token) w))
            in ((Some account, None), w)))"

text \<open>Folding case can only meet ASCII letters here: no other rune folds to a letter of the prefix.\<close>

definition BearerToken :: "Libs \<Rightarrow> string \<Rightarrow> string" where
  "BearerToken lib header =
     (if length header < 7 \<or> ToLowerASCII (take 7 header) \<noteq> ''bearer '' then []
      else lib_text lib (TrimSpace (lib_runes lib (drop 7 header))))"

section \<open>Sessions\<close>

definition SessionCookieSecure :: string where
  "SessionCookieSecure = ''__Host-deployer_session''"

definition SessionCookiePlain :: string where
  "SessionCookiePlain = ''deployer_session''"

definition SessionCookieName :: "bool \<Rightarrow> string" where
  "SessionCookieName secure = (if secure then SessionCookieSecure else SessionCookiePlain)"

definition IsSessionCookie :: "string \<Rightarrow> bool" where
  "IsSessionCookie name \<longleftrightarrow> name = SessionCookieSecure \<or> name = SessionCookiePlain"

definition AuthenticateSession ::
  "'w Authenticator \<Rightarrow> string \<Rightarrow> ('w, AuthAccount \<times> AuthToken) auth_call" where
  "AuthenticateSession au raw w =
     (case a_sessions au of
        None \<Rightarrow> (Inl AuSessionInvalid, w)
      | Some sessions \<Rightarrow>
          if raw = [] then (Inl AuSessionInvalid, w)
          else attempt (ax_ResolveSession sessions (HashToken (a_libs au) raw) w)
            (\<lambda>e w. (Inl (if e = AuSessionInvalid then AuSessionInvalid else AuFault), w))
            (\<lambda>(account, session) w.
              if au_disabled account then (Inl AuSessionInvalid, w)
              else if \<not> au_usable account then (Inl AuEmailUnverified, w)
              else (Inr (account, session), snd (ax_TouchSession sessions (at_id session) (a_lifetime au) w))))"

section \<open>The bootstrap account\<close>

definition BootstrapAccountName :: string where
  "BootstrapAccountName = ''bootstrap''"

definition bootstrapTokenName :: string where
  "bootstrapTokenName = ''bootstrap''"

definition Bootstrap :: "Libs \<Rightarrow> 'w AuthStore \<Rightarrow> string \<Rightarrow> ('w, unit) auth_call" where
  "Bootstrap lib s raw w =
     (if raw = [] then (Inr (), w)
      else
        let hash = HashToken lib raw;
            seed = (\<lambda>account w.
              attempt (as_ResolveToken s hash w)
                (\<lambda>e w. if e \<noteq> AuTokenInvalid then (Inl AuFault, w)
                  else attempt (as_RevokeTokensNamed s (au_id account) bootstrapTokenName w) (\<lambda>e w. (Inl AuFault, w))
                  (\<lambda>n w. attempt (as_CreateAPIToken s \<lparr>an_account = au_id account, an_name = bootstrapTokenName,
                      an_hash = hash, an_prefix = AuthTokenPrefix raw\<rparr> w)
                    (\<lambda>e w. (Inl AuFault, w)) (\<lambda>t w. (Inr (), w))))
                (\<lambda>found w. (Inr (), w)))
        in attempt (as_AccountByName s BootstrapAccountName w)
          (\<lambda>e w. if e = AuNoAccount
            then attempt (as_CreateAccount s BootstrapAccountName w) (\<lambda>e w. (Inl AuFault, w)) seed
            else (Inl AuFault, w))
          seed)"

section \<open>Whose request it is\<close>

record Request =
  hq_Host :: string
  hq_RemoteAddr :: string
  hq_Header :: "string \<Rightarrow> string list"
  hq_Cookies :: "(string \<times> string) list"

definition header_get :: "Request \<Rightarrow> string \<Rightarrow> string" where
  "header_get r name = (case hq_Header r name of [] \<Rightarrow> [] | v # _ \<Rightarrow> v)"

definition SessionID :: "Request \<Rightarrow> bool \<Rightarrow> string" where
  "SessionID r secure = deref (map_of (hq_Cookies r) (SessionCookieName secure))"

definition cfConnectingIP :: string where
  "cfConnectingIP = ''CF-Connecting-IP''"

fun trusted_host :: "string \<Rightarrow> string list \<Rightarrow> bool" where
  "trusted_host host [] = False"
| "trusted_host host (h # hosts) = ((h \<noteq> [] \<and> h = host) \<or> trusted_host host hosts)"

definition trusted :: "string \<Rightarrow> string list \<Rightarrow> bool" where
  "trusted host hosts = (if host = [] then False else trusted_host host hosts)"

text \<open>Up to and with the last closing bracket, else up to the first colon.\<close>

definition requestHost :: "Request \<Rightarrow> string" where
  "requestHost r =
     (let host = hq_Host r in
      if CHR '']'' \<in> set host then rev (dropWhile (\<lambda>c. c \<noteq> CHR '']'') (rev host))
      else takeWhile (\<lambda>c. c \<noteq> CHR '':'') host)"

definition forwarded :: "Libs \<Rightarrow> Request \<Rightarrow> string" where
  "forwarded lib r =
     (let fwd = header_get r ''X-Forwarded-For'' in
      if fwd \<noteq> [] then lib_text lib (TrimSpace (lib_runes lib (last (Split (CHR '','') fwd))))
      else takeWhile (\<lambda>c. c \<noteq> CHR '':'') (hq_RemoteAddr r))"

definition ClientAddress :: "Libs \<Rightarrow> Request \<Rightarrow> string list \<Rightarrow> string" where
  "ClientAddress lib r trustedHosts =
     (if trusted (requestHost r) trustedHosts then
        (case hq_Header r cfConnectingIP of
           [v] \<Rightarrow> let addr = lib_text lib (TrimSpace (lib_runes lib v)) in
             if addr \<noteq> [] \<and> CHR '','' \<notin> set addr then addr else forwarded lib r
         | _ \<Rightarrow> forwarded lib r)
      else forwarded lib r)"

text \<open>On a direct call over IPv6 the address of the connection is written in brackets, with colons inside
  them, so what is left of it is the bracket and the first group: callers of one prefix are one.\<close>

lemma ipv6_callers_share_an_address:
  assumes "\<not> trusted (requestHost r) hosts" "header_get r ''X-Forwarded-For'' = []" "CHR '':'' \<notin> set a"
  shows "ClientAddress lib (r\<lparr>hq_RemoteAddr := CHR ''['' # a @ CHR '':'' # rest\<rparr>) hosts = CHR ''['' # a"
proof -
  have "requestHost (r\<lparr>hq_RemoteAddr := x\<rparr>) = requestHost r" "header_get (r\<lparr>hq_RemoteAddr := x\<rparr>) n = header_get r n" for x n
    by (simp_all add: requestHost_def header_get_def)
  moreover have "takeWhile (\<lambda>c. c \<noteq> CHR '':'') (a @ CHR '':'' # rest) = a"
    using assms(3) by (subst takeWhile_append2) auto
  ultimately show ?thesis using assms(1,2) by (simp add: ClientAddress_def forwarded_def)
qed

text \<open>One value of the header of a trusted host, without a comma, is taken; outside those hosts the header
  is never read.\<close>

lemma header_only_where_trusted:
  assumes "\<not> trusted (requestHost r) hosts"
  shows "ClientAddress lib (r\<lparr>hq_Header := (hq_Header r)(cfConnectingIP := vs)\<rparr>) hosts = ClientAddress lib r hosts"
proof -
  have "requestHost (r\<lparr>hq_Header := h\<rparr>) = requestHost r" for h by (simp add: requestHost_def)
  moreover have "cfConnectingIP \<noteq> ''X-Forwarded-For''" by (simp add: cfConnectingIP_def)
  ultimately show ?thesis using assms by (simp add: ClientAddress_def forwarded_def header_get_def Let_def)
qed

end
