(* ===== verification/Auth_Store.thy ===== *)
theory Auth_Store
  imports Auth Identity_Runs
begin

text \<open>
  \<^verbatim>\<open>internal/store/authadapter.go\<close>: the interfaces of \<^verbatim>\<open>internal/auth\<close> over the tables of people, and
  the authenticator as \<^verbatim>\<open>cmd/deployer\<close> puts it together. The world is the one of the identity
  service, its limiter here being the deploy path's, whose lockout half the authenticator holds.
\<close>

section \<open>The adapter\<close>

definition toAuthAccount :: "account \<Rightarrow> AuthAccount" where
  "toAuthAccount a =
     \<lparr>au_id = acc_id a, au_name = acc_name a, au_email = deref (acc_email a), au_verified = (acc_email_verified_at a \<noteq> None),
      au_disabled = (acc_disabled_at a \<noteq> None), au_is_admin = acc_is_admin a, au_connected = (acc_connected_at a \<noteq> None)\<rparr>"

definition AS_ResolveSession :: "string \<Rightarrow> stamp \<Rightarrow> people \<Rightarrow> (auth_error + AuthAccount \<times> AuthToken) \<times> people" where
  "AS_ResolveSession hash now p =
     read_back (\<lambda>e. if e = ErrSessionInvalid then AuSessionInvalid else AuFault)
       (\<lambda>(a, s). (toAuthAccount a, \<lparr>at_id = ss_id s, at_account = ss_account_id s\<rparr>)) p (ResolveSession p hash now)"

definition AS_AccountByName :: "string \<Rightarrow> people \<Rightarrow> (auth_error + AuthAccount) \<times> people" where
  "AS_AccountByName name p =
     read_back (\<lambda>e. if e = ErrNotFound then AuNoAccount else AuFault) toAuthAccount p (GetAccountByName (core p) name)"

definition AS_CreateAccount :: "string \<Rightarrow> ident \<Rightarrow> stamp \<Rightarrow> people \<Rightarrow> (auth_error + AuthAccount) \<times> people" where
  "AS_CreateAccount name i now p =
     reply (\<lambda>e. AuFault) p (map_sum id (\<lambda>(a, s). (toAuthAccount a, p\<lparr>core := s\<rparr>)) (CreateAccount (core p) name i now))"

definition AS_ResolveToken :: "string \<Rightarrow> stamp \<Rightarrow> people \<Rightarrow> (auth_error + AuthAccount \<times> AuthToken) \<times> people" where
  "AS_ResolveToken hash now p =
     read_back (\<lambda>e. if e = ErrTokenInvalid then AuTokenInvalid else AuFault)
       (\<lambda>(a, t). (toAuthAccount a, \<lparr>at_id = t_id t, at_account = t_account_id t\<rparr>)) p (ResolveToken p hash now)"

definition AS_RevokeTokensNamed :: "ident \<Rightarrow> string \<Rightarrow> stamp \<Rightarrow> people \<Rightarrow> (auth_error + nat) \<times> people" where
  "AS_RevokeTokensNamed acc name now p = (case q_RevokeTokensNamed p acc name now of (n, q) \<Rightarrow> (Inr n, q))"

definition AS_CreateAPIToken :: "NewAuthToken \<Rightarrow> ident \<Rightarrow> stamp \<Rightarrow> people \<Rightarrow> (auth_error + AuthToken) \<times> people" where
  "AS_CreateAPIToken n i now p =
     reply (\<lambda>e. AuFault) p (map_sum id (map_prod (\<lambda>t. \<lparr>at_id = t_id t, at_account = t_account_id t\<rparr>) id)
       (CreateAPIToken p \<lparr>nt_account = an_account n, nt_name = an_name n, nt_hash = an_hash n, nt_prefix = an_prefix n,
          nt_expires = []\<rparr> i now))"

definition AS_TouchToken :: "ident \<Rightarrow> stamp \<Rightarrow> people \<Rightarrow> (auth_error + unit) \<times> people" where
  "AS_TouchToken i now p = (Inr (), TouchToken p i now)"

section \<open>The deployed authenticator\<close>

definition auth_store :: "'o Backdrop \<Rightarrow> 'o site AuthStore" where
  "auth_store bd =
     \<lparr>as_AccountByName = (\<lambda>name. call_store AuFault bd (\<lambda>v now. AS_AccountByName name)),
      as_CreateAccount = (\<lambda>name. call_store AuFault bd (\<lambda>v. AS_CreateAccount name (vs_id v))),
      as_ResolveToken = (\<lambda>hash. call_store AuFault bd (\<lambda>v. AS_ResolveToken hash)),
      as_RevokeTokensNamed = (\<lambda>acc name. call_store AuFault bd (\<lambda>v. AS_RevokeTokensNamed acc name)),
      as_CreateAPIToken = (\<lambda>n. call_store AuFault bd (\<lambda>v. AS_CreateAPIToken n (vs_id v)))\<rparr>"

text \<open>The new expiry is measured from the clock of the call itself.\<close>

definition touch_session :: "'o Backdrop \<Rightarrow> ident \<Rightarrow> int \<Rightarrow> ('o site, unit) auth_call" where
  "touch_session bd i lifetime w =
     (case arrive bd w of (v, w1) \<Rightarrow>
        if vs_refused v then (Inl AuFault, w1)
        else (if vs_lost v then Inl AuFault else Inr (), w1\<lparr>si_people := TouchSession (si_people w1) i
          (bd_stamp bd (si_now w1 + lifetime)) (bd_stamp bd (si_now w1))\<rparr>))"

definition auth_sessions :: "'o Backdrop \<Rightarrow> 'o site AuthSessions" where
  "auth_sessions bd =
     \<lparr>ax_ResolveSession = (\<lambda>hash. call_store AuFault bd (\<lambda>v. AS_ResolveSession hash)), ax_TouchSession = touch_session bd\<rparr>"

definition deploy_lockout :: "'o Backdrop \<Rightarrow> 'o site Lockout" where
  "deploy_lockout bd =
     \<lparr>lk_LockedOut = (\<lambda>key w. case arrive bd w of (v, w1) \<Rightarrow> (LockedOut (si_now w1) key (si_limits w1) \<noteq> None, w1)),
      lk_Failed = (\<lambda>key w. case arrive bd w of (v, w1) \<Rightarrow>
        w1\<lparr>si_limits := Failed (bd_settings bd) (si_now w1) key (si_limits w1)\<rparr>),
      lk_Succeeded = (\<lambda>key w. w\<lparr>si_limits := Succeeded key (si_limits w)\<rparr>)\<rparr>"

definition authenticator :: "'o Backdrop \<Rightarrow> 'o site Authenticator" where
  "authenticator bd = WithLockout (deploy_lockout bd) (WithSessions (auth_sessions bd) SessionLifetime
     (NewAuthenticator (bd_libs bd) (auth_store bd) (Some (\<lambda>i. call_store AuFault bd (\<lambda>v. AS_TouchToken i)))))"

lemma authenticator_simps:
  "a_libs (authenticator bd) = bd_libs bd" "a_store (authenticator bd) = auth_store bd"
  "a_toucher (authenticator bd) = Some (\<lambda>i. call_store AuFault bd (\<lambda>v. AS_TouchToken i))"
  "a_sessions (authenticator bd) = Some (auth_sessions bd)" "a_lifetime (authenticator bd) = SessionLifetime"
  "a_lockout (authenticator bd) = Some (deploy_lockout bd)"
  by (simp_all add: authenticator_def WithLockout_def WithSessions_def NewAuthenticator_def)

section \<open>The bearer route\<close>

text \<open>What the outside alone makes of a world: a number of visits.\<close>

definition visited :: "'o Backdrop \<Rightarrow> 'o site \<Rightarrow> 'o site \<Rightarrow> bool" where
  "visited bd w u \<longleftrightarrow> (\<exists>n. u = ((\<lambda>x. snd (arrive bd x)) ^^ n) w)"

lemma visited_refl [simp]: "visited bd w w"
  unfolding visited_def by (rule exI[of _ 0]) simp

lemma visited_arrive: "arrive bd w = (v, u) \<Longrightarrow> visited bd w u"
  unfolding visited_def by (rule exI[of _ 1]) simp

lemma visited_trans: "visited bd u v \<Longrightarrow> visited bd v w \<Longrightarrow> visited bd u w"
  unfolding visited_def by (metis comp_apply funpow_add)

text \<open>One bad credential counted against an address, after a visit; the use of a token recorded, unless the
  store refuses; the run of failures of an address cleared. No address is nobody.\<close>

definition counted :: "'o Backdrop \<Rightarrow> string \<Rightarrow> 'o site \<Rightarrow> 'o site" where
  "counted bd addr w = (if addr = [] then w else
     let u = snd (arrive bd w) in u\<lparr>si_limits := Failed (bd_settings bd) (si_now u) addr (si_limits u)\<rparr>)"

definition forgiven :: "string \<Rightarrow> 'o site \<Rightarrow> 'o site" where
  "forgiven addr w = (if addr = [] then w else w\<lparr>si_limits := Succeeded addr (si_limits w)\<rparr>)"

definition stamped :: "'o Backdrop \<Rightarrow> ident \<Rightarrow> 'o site \<Rightarrow> 'o site" where
  "stamped bd i w = (case arrive bd w of (v, u) \<Rightarrow>
     if vs_refused v then u else u\<lparr>si_people := TouchToken (si_people u) i (bd_stamp bd (si_now u))\<rparr>)"

definition shut_out :: "'o Backdrop \<Rightarrow> string \<Rightarrow> 'o site \<Rightarrow> bool" where
  "shut_out bd addr w \<longleftrightarrow> addr \<noteq> [] \<and> (let u = snd (arrive bd w) in LockedOut (si_now u) addr (si_limits u) \<noteq> None)"

text \<open>The account and the token a raw text stands for on the tables of a moment.\<close>

definition presented :: "'o Backdrop \<Rightarrow> string \<Rightarrow> 'o site \<Rightarrow> store_error + account \<times> api_token" where
  "presented bd raw u = ResolveToken (si_people u) (HashToken (bd_libs bd) raw) (bd_stamp bd (si_now u))"

definition confirmed :: "account \<Rightarrow> bool" where
  "confirmed a \<longleftrightarrow> deref (acc_email a) = [] \<or> acc_email_verified_at a \<noteq> None"

lemma account_seen: "au_disabled (toAuthAccount a) \<longleftrightarrow> acc_disabled_at a \<noteq> None"
    "au_usable (toAuthAccount a) \<longleftrightarrow> acc_disabled_at a = None \<and> confirmed a"
  by (simp_all add: au_usable_def toAuthAccount_def confirmed_def)

lemma resolve_visits:
  assumes "as_ResolveToken (auth_store bd) hash w = (r, u)"
  obtains "visited bd w u" "r = Inl AuFault"
    | a t where "visited bd w u" "ResolveToken (si_people u) hash (bd_stamp bd (si_now u)) = Inr (a, t)"
      "r = Inr (toAuthAccount a, \<lparr>at_id = t_id t, at_account = t_account_id t\<rparr>)"
    | "visited bd w u" "ResolveToken (si_people u) hash (bd_stamp bd (si_now u)) = Inl ErrTokenInvalid" "r = Inl AuTokenInvalid"
proof -
  have "call_store AuFault bd (\<lambda>v. AS_ResolveToken hash) w = (r, u)" using assms by (simp add: auth_store_def)
  then show thesis
  proof (cases rule: call_split)
    case (1 v x)
    then show thesis using that(1) visited_arrive by metis
  next
    case (2 v x r')
    have kept: "si_people u = si_people x" using 2(3) by (auto simp: AS_ResolveToken_def read_back_def)
    then have u: "u = x" using 2(4) by simp
    have on: "visited bd w u" using visited_arrive[OF 2(1)] u by simp
    show thesis
    proof (cases "ResolveToken (si_people u) hash (bd_stamp bd (si_now u))")
      case (Inl e)
      then have "e = ErrTokenInvalid" by (cases "q_ResolveToken (si_people u) hash (bd_stamp bd (si_now u))") (auto simp: ResolveToken_def)
      then show thesis using that(1,3) on Inl 2(3,5) u by (auto simp: AS_ResolveToken_def read_back_def split: if_splits)
    next
      case (Inr x)
      obtain a t where "x = (a, t)" by (cases x)
      then show thesis using that(1,2) on Inr 2(3,5) u by (auto simp: AS_ResolveToken_def read_back_def split: if_splits)
    qed
  qed
qed

text \<open>C37: Every outcome of a bearer token, whatever other callers do meanwhile. An address inside its
  penalty is turned away before the token is looked at, and the service writes nothing. Otherwise
  the answer rests on what the raw text stands for on the tables of one moment of the run. Nobody,
  and an account whose address was never confirmed, is the same refusal, counted once against the
  address. A fault of the store says nothing about the token and is not counted. A suspended
  account is named, not counted, and written nowhere. Only a live token of an enabled account
  without an unconfirmed address gets in, with that account and no other; its address is forgiven
  and, unless the store refuses that call, the use of that one token is stamped, and nothing else
  is written.\<close>

theorem authenticate_outcome:
  assumes "Authenticate (authenticator bd) raw addr w = (r, w')"
  shows "if shut_out bd addr w then r = (None, Some AuTooManyAttempts) \<and> w' = snd (arrive bd w)
    else \<exists>u. visited bd w u \<and>
     (r = (None, Some AuTokenInvalid) \<and> w' = counted bd addr u \<and>
        (raw = [] \<or> presented bd raw u = Inl ErrTokenInvalid \<or>
         (\<exists>a t. presented bd raw u = Inr (a, t) \<and> acc_disabled_at a = None \<and> \<not> confirmed a)) \<or>
      r = (None, Some AuFault) \<and> raw \<noteq> [] \<and> w' = u \<or>
      (\<exists>a t. raw \<noteq> [] \<and> presented bd raw u = Inr (a, t) \<and>
        (acc_disabled_at a \<noteq> None \<and> r = (Some (toAuthAccount a), Some AuSuspended) \<and> w' = u \<or>
         acc_disabled_at a = None \<and> confirmed a \<and> r = (Some (toAuthAccount a), None) \<and>
           w' = stamped bd (t_id t) (forgiven addr u))))"
proof -
  let ?au = "authenticator bd" and ?locked = "shut_out bd addr w"
  let ?w0 = "if addr = [] then w else snd (arrive bd w)"
  let ?pen = "if addr \<noteq> [] then a_lockout ?au else None"
  have first: "(case ?pen of None \<Rightarrow> (False, w) | Some l \<Rightarrow> lk_LockedOut l addr w) = (?locked, ?w0)"
    by (simp add: authenticator_simps deploy_lockout_def shut_out_def Let_def split: prod.split)
  have fail: "(case ?pen of None \<Rightarrow> x | Some l \<Rightarrow> lk_Failed l addr x) = counted bd addr x" for x
    by (simp add: authenticator_simps deploy_lockout_def counted_def Let_def split: prod.split)
  have clear: "(case ?pen of None \<Rightarrow> x | Some l \<Rightarrow> lk_Succeeded l addr x) = forgiven addr x" for x
    by (simp add: authenticator_simps deploy_lockout_def forgiven_def)
  have touch: "(case a_toucher ?au of None \<Rightarrow> x | Some touch \<Rightarrow> snd (touch i x)) = stamped bd i x" for x i
    by (simp add: authenticator_simps call_store_def AS_TouchToken_def stamped_def split: prod.split)
  note run = assms[unfolded Authenticate_def Let_def first fail clear touch prod.case authenticator_simps(1,2)]
  have w0: "visited bd w ?w0" by (auto intro: visited_arrive[OF surjective_pairing])
  show ?thesis
  proof (cases ?locked)
    case True
    then show ?thesis using run by (auto simp: shut_out_def)
  next
    case open': False
    show ?thesis
    proof (cases "raw = []")
      case True
      then have "r = (None, Some AuTokenInvalid) \<and> w' = counted bd addr ?w0" using run open' by auto
      then show ?thesis using open' True w0 by auto
    next
      case raw: False
      obtain x u where x: "as_ResolveToken (auth_store bd) (HashToken (bd_libs bd) raw) ?w0 = (x, u)" by fastforce
      from x show ?thesis
      proof (cases rule: resolve_visits)
        case 1
        then have "r = (None, Some AuFault) \<and> w' = u" using run open' raw x by simp
        then show ?thesis using open' raw visited_trans[OF w0 1(1)] by auto
      next
        case (2 a t)
        have u: "visited bd w u" "presented bd raw u = Inr (a, t)"
          using visited_trans[OF w0 2(1)] 2(2) by (simp_all add: presented_def)
        have "(r, w') = (if acc_disabled_at a \<noteq> None then ((Some (toAuthAccount a), Some AuSuspended), u)
            else if \<not> confirmed a then ((None, Some AuTokenInvalid), counted bd addr u)
            else ((Some (toAuthAccount a), None), stamped bd (t_id t) (forgiven addr u)))"
          using run open' raw x 2(3) by (auto simp: account_seen)
        then show ?thesis using open' raw u by (auto split: if_splits)
      next
        case 3
        then have "r = (None, Some AuTokenInvalid) \<and> w' = counted bd addr u" using run open' raw x by simp
        then show ?thesis using open' visited_trans[OF w0 3(1)] 3(2) unfolding presented_def by auto
      qed
    qed
  qed
qed

section \<open>The session route\<close>

text \<open>A session lets in only the enabled account of a live row whose address, if it has one, is confirmed;
  the use pushes that one row's expiry forward, unless the store refuses, and nothing else is written.\<close>

theorem session_lets_in:
  assumes "AuthenticateSession (authenticator bd) raw w = (Inr (account, session), w')"
  shows "\<exists>u a s. visited bd w u \<and> raw \<noteq> [] \<and>
    ResolveSession (si_people u) (HashToken (bd_libs bd) raw) (bd_stamp bd (si_now u)) = Inr (a, s) \<and>
    account = toAuthAccount a \<and> at_id session = ss_id s \<and> acc_disabled_at a = None \<and> confirmed a \<and>
    w' = snd (touch_session bd (ss_id s) SessionLifetime u)"
proof -
  let ?f = "\<lambda>v :: visit. AS_ResolveSession (HashToken (bd_libs bd) raw)"
  obtain u where raw: "raw \<noteq> []" and call: "call_store AuFault bd ?f w = (Inr (account, session), u)"
    and ok: "\<not> au_disabled account" "au_usable account" and w': "w' = snd (touch_session bd (at_id session) SessionLifetime u)"
    using assms by (auto simp: AuthenticateSession_def authenticator_simps auth_sessions_def attempt_eq split: if_splits)
  from call show ?thesis
  proof (cases rule: call_split)
    case (2 v x r')
    have ran: "AS_ResolveSession (HashToken (bd_libs bd) raw) (bd_stamp bd (si_now x)) (si_people x) =
        (Inr (account, session), si_people u)"
      using 2(3,5) by (auto split: if_splits)
    then obtain a s where row: "ResolveSession (si_people x) (HashToken (bd_libs bd) raw) (bd_stamp bd (si_now x)) = Inr (a, s)"
      "account = toAuthAccount a" "at_id session = ss_id s" "si_people u = si_people x"
      by (auto simp: AS_ResolveSession_def answered)
    have "u = x" using 2(4) row(4) by simp
    then show ?thesis using visited_arrive[OF 2(1)] raw row ok w' by (auto simp: account_seen)
  qed simp
qed

section \<open>Seeding the bootstrap token\<close>

text \<open>A call whose adapter only takes the store's steps keeps the tables on them.\<close>

lemma auth_call_steps:
  assumes "call_store fault bd f w = (r, u)" "\<And>v now p. people_step\<^sup>*\<^sup>* p (snd (f v now p))"
  shows "people_step\<^sup>*\<^sup>* (si_people w) (si_people u)"
  using store_call_onward[of w f fault bd] assms by (auto simp: onward_def)

lemma auth_adapter_steps:
  "people_step\<^sup>*\<^sup>* p (snd (AS_AccountByName name p))" "people_step\<^sup>*\<^sup>* p (snd (AS_ResolveToken hash now p))"
  "people_step\<^sup>*\<^sup>* p (snd (AS_ResolveSession hash now p))" "people_step\<^sup>*\<^sup>* p (snd (AS_CreateAccount name i now p))"
  "people_step\<^sup>*\<^sup>* p (snd (AS_RevokeTokensNamed acc name now p))" "people_step\<^sup>*\<^sup>* p (snd (AS_CreateAPIToken n i now p))"
  "people_step\<^sup>*\<^sup>* p (snd (AS_TouchToken i now p))"
proof -
  show "people_step\<^sup>*\<^sup>* p (snd (AS_CreateAccount name i now p))"
    by (cases "CreateAccount (core p) name i now")
      (auto simp: AS_CreateAccount_def reply_def intro!: worked_steps r_into_rtranclp[of work_step] work_step.account)
  show "people_step\<^sup>*\<^sup>* p (snd (AS_CreateAPIToken n i now p))"
    unfolding AS_CreateAPIToken_def by (auto intro: reply_steps people_step.mint)
  show "people_step\<^sup>*\<^sup>* p (snd (AS_RevokeTokensNamed acc name now p))"
    by (auto simp: AS_RevokeTokensNamed_def intro: people_step.revoke_named split: prod.split)
  show "people_step\<^sup>*\<^sup>* p (snd (AS_TouchToken i now p))"
    by (auto simp: AS_TouchToken_def intro: people_step.touch_token)
qed (simp_all add: AS_AccountByName_def AS_ResolveToken_def AS_ResolveSession_def read_back_def)

text \<open>On tables where a row carries the hash of a token and is revoked, the token resolves to nothing and
  cannot be stored again.\<close>

definition burnt :: "string \<Rightarrow> people \<Rightarrow> bool" where
  "burnt hash p \<longleftrightarrow> people_ok p \<and> (\<exists>t \<in> set (api_tokens p). t_token_hash t = hash \<and> \<not> token_live t)"

lemma burnt_kept:
  assumes "burnt hash p" "people_step\<^sup>*\<^sup>* p q"
  shows "burnt hash q"
proof -
  obtain t where t: "t \<in> set (api_tokens p)" "t_token_hash t = hash" "t_revoked_at t \<noteq> None"
    using assms(1) by (auto simp: burnt_def token_live_def)
  have q: "people_ok q" "people_next p q" using people_steps_ok[OF assms(2)] assms(1) by (auto simp: burnt_def)
  then obtain u where u: "u \<in> set (api_tokens q)" "t_token_hash u = t_token_hash t"
    using t(1) by (fastforce simp: people_next_def live_on_def token_next_def)
  have "\<not> token_live u" using dead_rows(1)[OF _ assms(2) t(1,3) u] assms(1) by (simp add: burnt_def)
  then show ?thesis using q(1) u t(2) by (auto simp: burnt_def)
qed

lemma burnt_useless:
  assumes "burnt hash p"
  shows "ResolveToken p hash now = Inl ErrTokenInvalid" "CreateAPIToken p n i now = Inr x \<Longrightarrow> nt_hash n \<noteq> hash"
proof -
  obtain t where t: "people_ok p" "t \<in> set (api_tokens p)" "t_token_hash t = hash" "t_revoked_at t \<noteq> None"
    using assms by (auto simp: burnt_def token_live_def)
  have "\<not> token_live u" if "u \<in> set (api_tokens p)" "t_token_hash u = hash" for u
    using dead_rows(1)[OF t(1) rtranclp.rtrancl_refl t(2,4)] that t(3) by simp
  then have "sel_one (\<lambda>u. t_token_hash u = hash \<and> token_usable now u) (api_tokens p) = None"
    by (auto simp: sel_one_None token_usable_def)
  then show "ResolveToken p hash now = Inl ErrTokenInvalid" by (simp add: ResolveToken_def q_ResolveToken_def)
  assume "CreateAPIToken p n i now = Inr x"
  then show "nt_hash n \<noteq> hash" using t(2,3)
    by (auto simp: CreateAPIToken_def q_CreateAPIToken_def insert_token_def token_clash_def list_ex_iff split: if_splits)
qed

lemma burnt_calls:
  assumes "burnt hash (si_people w)"
  shows "as_AccountByName (auth_store bd) name w = (r1, u) \<Longrightarrow> burnt hash (si_people u)"
    "as_CreateAccount (auth_store bd) name w = (r2, u) \<Longrightarrow> burnt hash (si_people u)"
    "as_ResolveToken (auth_store bd) h w = (r3, u) \<Longrightarrow> burnt hash (si_people u)"
    "as_RevokeTokensNamed (auth_store bd) acc name w = (r4, u) \<Longrightarrow> burnt hash (si_people u)"
  by (auto simp: auth_store_def intro!: burnt_kept[OF assms] auth_adapter_steps elim!: auth_call_steps)

lemma burnt_refused:
  assumes "burnt hash (si_people w)"
  shows "as_ResolveToken (auth_store bd) hash w \<noteq> (Inr x, u)"
    "as_CreateAPIToken (auth_store bd) \<lparr>an_account = acc, an_name = name, an_hash = hash, an_prefix = shown\<rparr> w \<noteq> (Inr t, u)"
proof -
  show "as_ResolveToken (auth_store bd) hash w \<noteq> (Inr x, u)"
  proof
    assume run: "as_ResolveToken (auth_store bd) hash w = (Inr x, u)"
    from run show False by (cases rule: resolve_visits) (use burnt_useless(1)[OF burnt_calls(3)[OF assms run]] in simp_all)
  qed
  show "as_CreateAPIToken (auth_store bd) \<lparr>an_account = acc, an_name = name, an_hash = hash, an_prefix = shown\<rparr> w \<noteq> (Inr t, u)"
  proof
    let ?n = "\<lparr>an_account = acc, an_name = name, an_hash = hash, an_prefix = shown\<rparr>"
    assume "as_CreateAPIToken (auth_store bd) ?n w = (Inr t, u)"
    then have call: "call_store AuFault bd (\<lambda>v. AS_CreateAPIToken ?n (vs_id v)) w = (Inr t, u)" by (simp add: auth_store_def)
    obtain x and v :: visit where x: "only_others bd w x"
      "AS_CreateAPIToken ?n (vs_id v) (bd_stamp bd (si_now x)) (si_people x) = (Inr t, si_people u)"
      using call_succeeded[OF call] by blast
    have burnt: "burnt hash (si_people x)" using burnt_kept[OF assms only_steps[OF x(1)]] .
    from x(2) show False by (auto simp: AS_CreateAPIToken_def answered dest!: burnt_useless(2)[OF burnt])
  qed
qed

lemma burnt_path:
  assumes "burnt hash (si_people w)" "as_ResolveToken (auth_store bd) hash w = (r3, u)"
    and "as_RevokeTokensNamed (auth_store bd) acc name u = (r4, v)"
  shows "as_CreateAPIToken (auth_store bd) \<lparr>an_account = a, an_name = n, an_hash = hash, an_prefix = shown\<rparr> v \<noteq> (Inr t, x)"
  by (rule burnt_refused(2)) (rule burnt_calls(4)[OF burnt_calls(3)[OF assms(1,2)] assms(3)])

text \<open>A bootstrap token the platform was once rotated away from can never be seeded again: its row stays,
  revoked, and its hash is unique. The seeding revokes the token that works now before it finds out.\<close>

theorem bootstrap_cannot_go_back:
  assumes "people_step\<^sup>*\<^sup>* no_people (si_people w)" "t \<in> set (api_tokens (si_people w))"
    and "t_token_hash t = HashToken lib raw" "t_revoked_at t \<noteq> None" "raw \<noteq> []"
  shows "fst (Bootstrap lib (auth_store bd) raw w) = Inl AuFault"
proof -
  obtain r w' where run: "Bootstrap lib (auth_store bd) raw w = (r, w')" by fastforce
  have burnt: "burnt (HashToken lib raw) (si_people w)"
    using assms people_reachable_ok[OF assms(1)] by (auto simp: burnt_def token_live_def)
  have "r = Inr () \<or> r = Inl AuFault"
    using run by (cases r) (auto simp: Bootstrap_def Let_def attempt_eq split: if_splits)
  moreover have "r \<noteq> Inr ()"
    using run assms(5) burnt
    by (auto simp: Bootstrap_def Let_def attempt_eq burnt_refused(1) split: if_splits)
      (meson burnt_path burnt_calls(1,2) burnt_refused(1))+
  ultimately show ?thesis using run by simp
qed

end
