(* ===== verification/Auth_Demo.thy ===== *)
theory Auth_Demo
  imports Auth_Store Identity_Demo
begin

text \<open>
  Concrete runs of the authenticator and of the seeding, on the calm stage of the identity service.
\<close>

section \<open>A live token\<close>

definition ci_key :: api_token where
  "ci_key = \<lparr>t_id = ''k'', t_account_id = ''acc'', t_name = ''ci'', t_token_hash = ''71717171'', t_token_prefix = ''qqqq'',
     t_last_used_at = None, t_expires_at = None, t_revoked_at = None, t_created_at = ''1'', t_updated_at = ''1'',
     t_oauth_client_id = None\<rparr>"

definition keyring :: people where
  "keyring = residence\<lparr>api_tokens := [ci_key]\<rparr>"

lemma key_hash: "HashToken plain_libs ''qqqq'' = ''71717171''"
  by code_simp

lemma key_found: "ResolveToken keyring ''71717171'' now = Inr (resident, ci_key)"
  by (simp add: ResolveToken_def q_ResolveToken_def keyring_def ci_key_def token_usable_def token_live_def sel_one_def
      q_GetAccount_def residence_def resident_def)

lemma key_let_in: "fst (Authenticate (authenticator stage) ''qqqq'' ''192.0.2.1'' (scene keyring)) = (Some (toAuthAccount resident), None)"
proof -
  have account: "au_disabled (toAuthAccount resident) = False" "au_usable (toAuthAccount resident) = True"
    by (simp_all add: account_seen confirmed_def resident_def)
  show ?thesis
    by (simp add: Authenticate_def Let_def authenticator_simps deploy_lockout_def scene_def arrive_stage LockedOut_def
        NewLimiter_def auth_store_def call_store_def calm_simps stage_simps key_hash AS_ResolveToken_def read_back_def
        key_found account split: prod.split)
qed

theorem authenticate_outcome_witness:
  "\<exists>u w'. Authenticate (authenticator stage) ''qqqq'' ''192.0.2.1'' (scene keyring) = ((Some (toAuthAccount resident), None), w') \<and>
    visited stage (scene keyring) u \<and> w' = stamped stage ''k'' (forgiven ''192.0.2.1'' u)"
proof -
  obtain w' where run: "Authenticate (authenticator stage) ''qqqq'' ''192.0.2.1'' (scene keyring) =
      ((Some (toAuthAccount resident), None), w')"
    using key_let_in by (metis prod.collapse)
  have "\<not> shut_out stage ''192.0.2.1'' (scene keyring)"
    by (simp add: shut_out_def scene_def arrive_stage LockedOut_def NewLimiter_def)
  then obtain u a t where u: "visited stage (scene keyring) u" "presented stage ''qqqq'' u = Inr (a, t)"
    "w' = stamped stage (t_id t) (forgiven ''192.0.2.1'' u)"
    using authenticate_outcome[OF run] by auto
  have "si_people u = keyring"
  proof -
    have "si_people (((\<lambda>x. snd (arrive stage x)) ^^ n) (scene keyring)) = keyring" for n
      by (induction n)
        (auto simp: scene_def arrive_def stage_simps calm_next_def calm_simps Let_def split: prod.split list.split)
    then show ?thesis using u(1) unfolding visited_def by auto
  qed
  then have "t = ci_key" using u(2) by (simp add: presented_def stage_simps key_hash key_found)
  then show ?thesis using run u by (auto simp: ci_key_def)
qed

section \<open>A token rotated back\<close>

text \<open>The platform seeded one token, was given another, and is given the first again.\<close>

definition seeded_twice :: people where
  "seeded_twice = fold (commit ''2'')
     [PcRequest (ReqAccount ''bootstrap'' ''b''),
      PcMint \<lparr>nt_account = ''b'', nt_name = ''bootstrap'', nt_hash = ''71717171'', nt_prefix = ''qqqq'', nt_expires = []\<rparr> ''t1'',
      PcRevokeNamed ''b'' ''bootstrap'',
      PcMint \<lparr>nt_account = ''b'', nt_name = ''bootstrap'', nt_hash = ''72727272'', nt_prefix = ''rrrr'', nt_expires = []\<rparr> ''t2''] no_people"

definition rotated_back :: people where
  "rotated_back = snd (q_RevokeTokensNamed seeded_twice ''b'' ''bootstrap'' ''2'')"

lemma seeded_rows:
  "list_ex (\<lambda>t. t_token_hash t = ''72727272'' \<and> token_live t) (api_tokens seeded_twice)"
  "list_ex (\<lambda>t. t_token_hash t = ''71717171'' \<and> \<not> token_live t) (api_tokens seeded_twice)"
  "list_all (\<lambda>t. \<not> token_live t) (api_tokens rotated_back)"
  by code_simp+

lemma seeded_account: "\<exists>a. GetAccountByName (core seeded_twice) ''bootstrap'' = Inr a \<and> acc_id a = ''b''"
proof -
  have "map_sum id acc_id (GetAccountByName (core seeded_twice) ''bootstrap'') = Inr ''b''" by code_simp
  then show ?thesis by (cases "GetAccountByName (core seeded_twice) ''bootstrap''") auto
qed

lemma seeded_refusals:
  "ResolveToken seeded_twice ''71717171'' ''2'' = Inl ErrTokenInvalid"
  "\<exists>e. CreateAPIToken rotated_back \<lparr>nt_account = ''b'', nt_name = ''bootstrap'', nt_hash = ''71717171'', nt_prefix = ''qqqq'',
     nt_expires = []\<rparr> ''d'' ''2'' = Inl e"
proof -
  show "ResolveToken seeded_twice ''71717171'' ''2'' = Inl ErrTokenInvalid" by code_simp
  have "case CreateAPIToken rotated_back \<lparr>nt_account = ''b'', nt_name = ''bootstrap'', nt_hash = ''71717171'', nt_prefix = ''qqqq'',
     nt_expires = []\<rparr> ''d'' ''2'' of Inl e \<Rightarrow> True | Inr x \<Rightarrow> False" by code_simp
  then show "\<exists>e. CreateAPIToken rotated_back \<lparr>nt_account = ''b'', nt_name = ''bootstrap'', nt_hash = ''71717171'',
     nt_prefix = ''qqqq'', nt_expires = []\<rparr> ''d'' ''2'' = Inl e" by (auto split: sum.splits)
qed

text \<open>The seeding fails, and the token that worked before it no longer does.\<close>

theorem bootstrap_cannot_go_back_witness:
  "fst (Bootstrap plain_libs (auth_store stage) ''qqqq'' (scene seeded_twice)) = Inl AuFault \<and>
   list_ex token_live (api_tokens seeded_twice) \<and>
   \<not> list_ex token_live (api_tokens (si_people (snd (Bootstrap plain_libs (auth_store stage) ''qqqq'' (scene seeded_twice)))))"
proof -
  obtain t where t: "t \<in> set (api_tokens seeded_twice)" "t_token_hash t = ''71717171''" "t_revoked_at t \<noteq> None"
    using seeded_rows(2) by (auto simp: list_ex_iff token_live_def)
  have "people_step\<^sup>*\<^sup>* no_people seeded_twice" unfolding seeded_twice_def by (rule commits_steps)
  then have one: "fst (Bootstrap plain_libs (auth_store stage) ''qqqq'' (scene seeded_twice)) = Inl AuFault"
    using bootstrap_cannot_go_back[of "scene seeded_twice" t plain_libs "''qqqq''" stage] t key_hash by (simp add: scene_def)
  obtain a where a: "GetAccountByName (core seeded_twice) ''bootstrap'' = Inr a" "acc_id a = ''b''" using seeded_account by blast
  obtain e where e: "CreateAPIToken rotated_back \<lparr>nt_account = ''b'', nt_name = ''bootstrap'', nt_hash = ''71717171'',
      nt_prefix = ''qqqq'', nt_expires = []\<rparr> ''d'' ''2'' = Inl e"
    using seeded_refusals(2) by blast
  obtain n where n: "q_RevokeTokensNamed seeded_twice ''b'' ''bootstrap'' ''2'' = (n, rotated_back)"
    by (cases "q_RevokeTokensNamed seeded_twice ''b'' ''bootstrap'' ''2''") (simp add: rotated_back_def)
  have "si_people (snd (Bootstrap plain_libs (auth_store stage) ''qqqq'' (scene seeded_twice))) = rotated_back"
    by (simp add: Bootstrap_def Let_def auth_store_def call_store_def scene_def arrive_stage calm_simps stage_simps key_hash
        calm_stamp_def AS_AccountByName_def BootstrapAccountName_def a read_back_def AS_ResolveToken_def seeded_refusals(1)
        AS_RevokeTokensNamed_def toAuthAccount_def bootstrapTokenName_def n AS_CreateAPIToken_def AuthTokenPrefix_def
        tokenPrefixLen_def e reply_def)
  then show ?thesis using one seeded_rows(1,3) by (auto simp: list_ex_iff list_all_iff)
qed

end
