(* ===== verification/Spec2Isabelle.thy ===== *)
theory Spec2Isabelle
  imports Deploy_State Slug App_Config Timestamps Egress Store_History Store_Config Store_Queue Store_Tenancy
    Store_Tokens App_Objects Source_Pack Deployer_Demo Kube_Trace Kube_Server People_Properties Identity_Demo Auth_Demo
begin

text \<open>
  A model of \<^verbatim>\<open>deployer\<close>, a small platform that takes a source archive from a caller, builds it
  into an image in the cluster and runs it under a hostname of its own. One Go process
  (\<^verbatim>\<open>src/cmd/deployer\<close>) holds an SQLite database, a volume of uploaded archives and a
  reconcile loop; callers reach it over HTTP and MCP; the cluster and the image registry are
  other systems.

  \<^bold>\<open>Layers.\<close>
  \<^item> \<open>Prelude\<close>, \<open>Go_Strings\<close>, \<open>Go_Encoding\<close>, \<open>Go_Text\<close>: rows in a list as an SQL table with the lemmas of
    SELECT, UPDATE and DELETE, the results of fallible calls (\<open>attempt\<close>), the parts of Go's
    \<^verbatim>\<open>strings\<close>, \<^verbatim>\<open>strconv\<close>, base64 and JSON encoding the code uses; \<open>Go_Text\<close> is what a string becomes on its way through
    JSON, with the replacement character for every byte that is not UTF-8.
  \<^item> \<^verbatim>\<open>internal/domain\<close> and \<^verbatim>\<open>internal/ids\<close>: \<open>Deploy_State\<close> (the deployment state machine),
    \<open>Slug\<close> (hostname labels, reserved labels, the root image user), \<open>Reasons\<close> (the closed
    sets of failure reasons and their texts), \<open>App_Config\<close> (the configuration rules),
    \<open>Timestamps\<close> (\<open>Stamp\<close>, the text every time column holds).
  \<^item> \<^verbatim>\<open>internal/store\<close>: \<open>Store_Schema\<close> is the tables of the migrations with their constraints and
    each generated statement of \<^verbatim>\<open>sqlcgen\<close>; \<open>Store_Deployments\<close>, \<open>Store_Apps\<close> and \<open>Store_Uploads\<close>
    are the transactions of \<^verbatim>\<open>deployments.go\<close>, \<^verbatim>\<open>apps.go\<close>, \<^verbatim>\<open>config.go\<close> and \<^verbatim>\<open>uploads.go\<close>. A
    transaction is a function from the database to an error or the next database, so that an
    error rolls back. \<open>Store_Machine\<close> is the step relation \<open>work_step\<close> of one committed call,
    \<open>sweep_step\<close> of the retention sweep and \<open>store_reachable\<close>, and proves the invariant
    \<open>store_ok\<close>; \<open>Store_Demo\<close> holds concrete databases, \<open>Store_History\<close> what a row keeps for ever,
    and \<open>Store_Properties\<close>, \<open>Store_Config\<close>, \<open>Store_Queue\<close>, \<open>Store_Tenancy\<close> and \<open>Store_Tokens\<close> the
    outcomes of each operation. \<open>People_Schema\<close> adds the tables of tokens, sessions, links, invites
    and the authorization server beside those, \<open>People_Store\<close> the transactions of \<^verbatim>\<open>identity.go\<close>,
    \<^verbatim>\<open>accounts.go\<close>, \<^verbatim>\<open>invites.go\<close> and \<^verbatim>\<open>oauth.go\<close>; \<open>People_Machine\<close> and \<open>People_Steps\<close> prove that each
    keeps the invariant \<open>people_ok\<close> and the growth \<open>people_next\<close>, and \<open>People_Properties\<close> what
    holds after any sequence of them; \<open>People_Codes\<close> shows that a spent code names the token it bought.
  \<^item> \<^verbatim>\<open>internal/build\<close> and \<^verbatim>\<open>internal/deploy\<close>: \<open>Kube_Objects\<close> (the fields of the Kubernetes
    types that the code sets), \<open>Build_Job\<close> (the build Job on either engine), \<open>App_Objects\<close> (what
    one app runs from), \<open>Egress\<close> (port ranges and network policies).
  \<^item> \<^verbatim>\<open>internal/source\<close> and \<^verbatim>\<open>internal/uploads\<close>: \<open>Source\<close> (unpacking, and choosing the engine),
    \<open>Source_Pack\<close> (packing inline files, and the round trip), \<open>Uploads_Service\<close> (accepting,
    redeeming and sweeping uploads over the volume).
  \<^item> \<^verbatim>\<open>internal/reconcile\<close>: \<open>Reconcile\<close> is the loop over its five interfaces as records of
    functions on a world of any type; \<open>Reconcile_Laws\<close> and \<open>Reconcile_Ledger\<close> are the contracts of
    those interfaces as locales and what the loop does under them; \<open>Reconcile_Store\<close> is the
    adapters of \<^verbatim>\<open>store/reconcileadapter.go\<close> and \<^verbatim>\<open>cmd/deployer/wiring.go\<close> over the store and
    the volume, with every contract proved of them; \<open>Cluster_Trace\<close> watches the calls the cluster
    receives; \<open>Deployer_Demo\<close> evaluates one run in full.
  \<^item> \<^verbatim>\<open>internal/kube\<close>: \<open>Kube_Client\<close> is every call of the client over a \<open>Clientset\<close>, and the loop's
    \<open>Cluster\<close> made of them; \<open>Kube_Trace\<close> bounds what a run can ask of any API server, \<open>Kube_Server\<close>
    says what the calls leave on a server that may refuse any of them, from what it documents of the
    calls it accepts.

  \<^item> \<^verbatim>\<open>internal/identity\<close>: \<open>Limiter\<close> (buckets and lockouts), \<open>Identity_Rules\<close> (\<^verbatim>\<open>credential.go\<close>,
    \<^verbatim>\<open>identity.go\<close>, \<^verbatim>\<open>oauth.go\<close>, \<^verbatim>\<open>messages.go\<close>: what is decided without the store), \<open>Identity_Service\<close>
    (the use cases over the interfaces of the package), \<open>Identity_Laws\<close> (their contract as a locale),
    \<open>Identity_Store\<close> (\<^verbatim>\<open>store/identityadapter.go\<close> and the world around it), \<open>Identity_Runs\<close>
    (taking a run apart, and what each part of a use case can have written), \<open>Identity_Properties\<close>
    (what the service promises over the store), \<open>Identity_Demo\<close> (concrete runs). \<open>Requests\<close> and
    \<open>People_Calls\<close> are the calls other callers may commit, for the loop and for the service.

  \<^item> \<^verbatim>\<open>internal/auth\<close>: \<open>Auth\<close> (both routes of authentication, the seeding of the bootstrap token, whose
    request it is), \<open>Auth_Store\<close> (\<^verbatim>\<open>store/authadapter.go\<close>, the authenticator as \<^verbatim>\<open>cmd/deployer\<close> builds it
    over the same world as the identity service, and what it lets in), \<open>Auth_Demo\<close> (concrete runs).

  \<^bold>\<open>Interfaces.\<close> \<open>calls_frame\<close> (every call moves the world up a preorder, so does a run),
  \<open>world_order\<close> (the same, with \<open>ApplyWorkload\<close> call by call; a sublocale gives the first),
  \<open>clockwork\<close> (\<open>world_order\<close> for the clock, and gives termination) and \<open>ledger\<close> (what the loop is
  told about a row is so). They are interpreted on the deployer itself: \<open>steps\<close> at the order
  \<open>ahead\<close> of committed calls, \<open>time\<close> at the clock, \<open>book\<close> at the rows, \<open>trace\<close> at the log of
  a watched cluster, and \<open>api\<close> at the log of a watched API server. \<open>upload_rows\<close> is the contract of the upload service's table, interpreted at
  the store as \<open>vol\<close>. \<open>identity_calls\<close> is the contract of the identity service's interfaces (every
  call moves the world up a preorder, and a grant is asked for only with its code's client),
  interpreted on the adapter and the world around it as \<open>site\<close>.

  \<^bold>\<open>The world of the loop.\<close> A world is the database, the volume, the clock and an \<open>Outside\<close> of
  any type. Before each call the outside takes a \<open>turn\<close>: time passes, other callers commit any
  sequence of \<open>request\<close>s, files may appear or go, and the call is refused, or runs, or runs and
  loses its answer. So what is proved of a run holds for every interleaving with other callers
  and every pattern of failing calls. The retention sweep is not one of the other callers.

  \<^bold>\<open>The world of the identity service.\<close> A \<open>site\<close> is the tables of people, the clock, the limiter and the
  outbox; before each call, each reading of the clock, each draw and each message other callers may
  commit any \<open>people_call\<close>s and try any sign ins, and the call may be refused or lose its answer. That
  the service wrote nothing is \<open>only_others\<close>: what lies between the two moments is exactly what
  others committed at the arrivals of the outside.

  \<^bold>\<open>Loops and bounds.\<close> The two polling loops and what uses them are \<open>partial_function\<close>s into
  \<open>option\<close>, \<open>None\<close> being a run that does not return; \<open>loop_returns\<close> shows that it does whenever
  the polling interval is positive. \<open>Run\<close> takes the list of ticker events up to the cancellation
  of its context. The slug retry has five attempts and the naming of a granted
  token fifty, as in the code. Every other loop is
  structural.

  \<^bold>\<open>What the groups of lemmas show.\<close> The store: keys and references, one deployment in flight
  per app, the event log, the outcome of each transaction on every branch. The domain: the slug
  against its reference definition, the order of stamps, the configuration rules. The composed
  objects: pods are restricted, a change of configuration rolls them, the fence is the
  complement of the blocked ports. The archive: unpacking stays in its directory, is complete
  when it succeeds, and undoes packing. People: what ended stays ended, a locked account holds no
  session, an invite makes one account and a code one token. Identity: what a sign in, a registration,
  a reset and an exchange rest on, what a replay costs, that a minted token is kept only as its hash, every outcome of a presented token, how often a client is let through and for how
  long an address is locked. The Kubernetes client: what it
  applies takes hold, and what it never touches. The loop: it returns, its reports are true, it refines
  the store, its workloads come behind their fence, it deletes no live app's namespace.

  \<^bold>\<open>Parameters.\<close> SHA-256, drawn identifiers and random bytes, the text of the current time, gzip and
  tar decoding (an archive is the entries the readers hand over), argon2id, UTF-8 and the Unicode case
  table, the parsers of addresses, URLs and times, the mail sender, the API
  server of the cluster and the registry.

  \<^bold>\<open>Not modelled.\<close> HTTP and MCP transport, the web pages and their session cookies, mail delivery, backup to object storage, the tunnel watch, the
  registry client's own calls, log streaming, reading the environment, the
  listing of start up checks, faults of the disk and the umask, and calendar arithmetic.
  \<^verbatim>\<open>RedeemUpload\<close> is two statements outside a transaction in the code and one step here: the
  second only reads, to say why the first found nothing.
\<close>


section \<open>The loop over the store\<close>

text \<open>C4: The loop always comes back: with a positive polling interval a run over any list of ticker
  events ends, whatever the cluster, the registry and the other callers of the store do. Every wait
  for a build or for a workload is bounded by its deadline, since each round of polling waits for
  the interval to pass.\<close>

theorem loop_returns:
  assumes "0 < o_ReconcileInterval os"
  shows "\<exists>w'. Run (deployer ox os) c fired w = Some w'"
proof -
  have "opts (deployer ox os) = os" by (simp add: deployer_def)
  then show ?thesis using time.Run_returns[of ox os c fired w] assms by (simp add: time.ticking_def)
qed

lemma loop_returns_witness:
  "\<exists>w'. Run (deployer (watched demo_outside) demo_options) background [TickerFired, ReaperFired, TickerFired] demo_world = Some w'"
  by (rule loop_returns) (simp add: demo_options_def)

text \<open>C3: What a drive reports is what the database holds. Over a reachable database, and whatever
  happens in between, a drive that reports success leaves the row healthy with a release minted for
  it, one that reports a recorded failure leaves it failed, and one that stops because something
  else ended the row leaves it in a terminal state. Only a drive that says that it could not write
  its failure may leave the row in flight.\<close>

theorem drive_settles:
  assumes "store_reachable (w_db w)" "Drive (deployer ox os) c d w = Some (said, w')"
  shows "case said of
      BecameHealthy \<Rightarrow> row_state w' (rd_id d) = Some StateHealthy \<and>
        (\<exists>r \<in> set (releases (w_db w')). r_deployment_id r = rd_id d)
    | FailureRecorded reason \<Rightarrow> row_state w' (rd_id d) = Some StateFailed
    | EndedMeanwhile \<Rightarrow> (\<exists>s. row_state w' (rd_id d) = Some s \<and> Terminal s)
    | FailureLost reason \<Rightarrow> True"
proof -
  have "sound w" using reachable_ok[OF assms(1)] by (simp add: sound_def)
  then have told: "book.reported (rd_id d) (said, w')" using book.Drive_reports[of w d ox os c] assms(2) by simp
  have "\<exists>r \<in> set (releases (w_db w')). r_deployment_id r = rd_id d"
    if "row_state w' (rd_id d) = Some StateHealthy" "sound w'"
  proof -
    obtain x where "q_GetDeployment (w_db w') (rd_id d) = Some x" "d_state x = StateHealthy"
      using \<open>row_state w' (rd_id d) = Some StateHealthy\<close> by (auto simp: row_state_def)
    moreover have "released_ok (w_db w')" using \<open>sound w'\<close> by (simp add: sound_def store_ok_def)
    ultimately show ?thesis using q_GetDeployment_Some unfolding released_ok_def by metis
  qed
  then show ?thesis using told by (auto simp: book.reported_def book.ended_def split: drive_log.splits)
qed

lemma drive_settles_witness:
  "row_state (demo_at demo_live_db 16 16 demo_log) ''dep_1'' = Some StateHealthy"
  using drive_settles[OF _ demo_drive[unfolded demo_def]] reach_deploying
  by (simp add: demo_at_def demo_dep_row)

text \<open>C2: The loop refines the store: every run of it, seen at the database, is a sequence of the
  store's own committed calls, so the database stays one the store can reach, and a deployment that
  had ended before the run is in the same state after it.\<close>

theorem run_refines_store:
  assumes "store_reachable (w_db w)" "Run (deployer ox os) c fired w = Some w'"
  shows "work_step\<^sup>*\<^sup>* (w_db w) (w_db w') \<and> store_reachable (w_db w') \<and>
    (\<forall>i s. row_state w i = Some s \<longrightarrow> Terminal s \<longrightarrow> row_state w' i = Some s)"
proof -
  have up: "ahead w w'" using steps.Run_up[OF ahead_refl, of w ox os c fired] assms(2) by simp
  then have steps: "work_step\<^sup>*\<^sup>* (w_db w) (w_db w')" by (simp add: ahead_def)
  then have "store_reachable (w_db w')" using assms(1)
    by (induction rule: rtranclp_induct) (auto intro: reach_work)
  moreover have "sound w" using reachable_ok[OF assms(1)] by (simp add: sound_def)
  ultimately show ?thesis using steps terminal_stays up by blast
qed

lemma run_refines_store_witness: "store_reachable demo_live_db"
  using run_refines_store[OF _ demo_run[unfolded demo_def]] reach_deploying
  by (simp add: demo_world_def demo_at_def)

text \<open>The recovery pass ends a stranded row only on evidence: as long as the cluster never
  answers that a build Job failed or is gone, the pass does not depend on what \<open>Transition\<close> would
  do, since it never calls it.\<close>

theorem recovery_needs_evidence:
  assumes "\<And>c ns n w s w'. c_JobState (cluster_of R) c ns n w = (Inr s, w') \<Longrightarrow> s \<noteq> JobFailed \<and> s \<noteq> JobGone"
  shows "recoverStranded (R\<lparr>deployments_of := (deployments_of R)\<lparr>d_Transition := t\<rparr>\<rparr>) c deps w = recoverStranded R c deps w"
proof (induction deps arbitrary: w)
  case (Cons d deps)
  obtain r w1 where r: "c_JobState (cluster_of R) c (buildNamespace R d) (rd_job d) w = (r, w1)" by fastforce
  have "buildNamespace (R\<lparr>deployments_of := D\<rparr>) d = buildNamespace R d" "ctx_err (R\<lparr>deployments_of := D\<rparr>) c w = ctx_err R c w" for D
    by (simp_all add: buildNamespace_def ctx_err_def split: option.split)
  then show ?case
    using Cons.IH r assms[of c "buildNamespace R d" "rd_job d" w]
    by (auto split: sum.splits JobState.splits)
qed simp

lemma recovery_needs_evidence_witness:
  "recoverStranded (demo\<lparr>deployments_of := (deployments_of demo)\<lparr>d_Transition := \<lambda>c i s r e w. (Inr (), w\<lparr>w_db := empty_db\<rparr>)\<rparr>\<rparr>)
     background [demo_dep\<lparr>rd_state := StateBuilding\<rparr>] demo_world =
   recoverStranded demo background [demo_dep\<lparr>rd_state := StateBuilding\<rparr>] demo_world"
proof (rule recovery_needs_evidence)
  fix c ns n w s w'
  assume "c_JobState (cluster_of demo) c ns n w = (Inr s, w')"
  then show "s \<noteq> JobFailed \<and> s \<noteq> JobGone"
    by (auto simp: demo_def neighbours demo_call demo_noted watched_cluster_def Let_def split: if_splits prod.splits)
      (auto simp: demo_outside_def demo_cluster_def)
qed

end
